(* ===== verification/Prelude.thy ===== *)
theory Prelude
  imports Main "HOL-Library.Word" "HOL-Library.List_Lexorder"
begin

text \<open>
  The vocabulary every component shares: Rust's machine integers, byte strings,
  the \<open>Result\<close> type with its early return, checked arithmetic, big-endian
  encodings, and the interface of a machine that spends a token at most once.

  Integers keep their width (\<open>u8\<close> ... \<open>u128\<close> are words). \<open>usize\<close> counts (lengths of
  vectors, indices) are \<open>nat\<close>: no vector of the program reaches \<open>2^64\<close> elements.
\<close>

section \<open>Machine integers and byte strings\<close>

type_synonym u8 = "8 word"
type_synonym u16 = "16 word"
type_synonym u32 = "32 word"
type_synonym u64 = "64 word"
type_synonym u128 = "128 word"
type_synonym i64 = "64 word"
type_synonym bytes = "u8 list"

text \<open>A byte-string literal of the source, \<open>b"..."\<close>, or the bytes of an ASCII \<open>str\<close>.\<close>

definition ascii :: "string \<Rightarrow> bytes" where
  "ascii s = map of_char s"

named_theorems checked_simps \<open>what a checked operation returned, read through unat\<close>
named_theorems result_simps \<open>inversion of the Result combinators\<close>

section \<open>Result\<close>

text \<open>Rust's \<open>Result\<close>: a function that may return early returns one of these.\<close>

datatype ('a, 'e) result = Ok 'a | Err 'e

text \<open>The \<open>?\<close> operator: continue with the value, or return the error.\<close>

fun and_then :: "('a, 'e) result \<Rightarrow> ('a \<Rightarrow> ('b, 'e) result) \<Rightarrow> ('b, 'e) result" where
  "and_then (Ok x) f = f x"
| "and_then (Err e) f = Err e"

fun map_err :: "('e \<Rightarrow> 'f) \<Rightarrow> ('a, 'e) result \<Rightarrow> ('a, 'f) result" where
  "map_err f (Ok x) = Ok x"
| "map_err f (Err e) = Err (f e)"

fun ok_or :: "'a option \<Rightarrow> 'e \<Rightarrow> ('a, 'e) result" where
  "ok_or (Some x) e = Ok x"
| "ok_or None e = Err e"

text \<open>\<open>.ok()\<close>: forget the error.\<close>

fun result_ok :: "('a, 'e) result \<Rightarrow> 'a option" where
  "result_ok (Ok x) = Some x"
| "result_ok (Err e) = None"

fun is_ok :: "('a, 'e) result \<Rightarrow> bool" where
  "is_ok (Ok x) = True"
| "is_ok (Err e) = False"

text \<open>An \<open>if !b { return Err(e) }\<close>.\<close>

definition ensure :: "bool \<Rightarrow> 'e \<Rightarrow> (unit, 'e) result" where
  "ensure b e = (if b then Ok () else Err e)"

text \<open>A \<open>for\<close> loop whose body may return an error, and \<open>try_fold\<close>.\<close>

fun try_for_each :: "('a \<Rightarrow> (unit, 'e) result) \<Rightarrow> 'a list \<Rightarrow> (unit, 'e) result" where
  "try_for_each f [] = Ok ()"
| "try_for_each f (x # xs) = and_then (f x) (\<lambda>_. try_for_each f xs)"

fun try_fold :: "('b \<Rightarrow> 'a \<Rightarrow> ('b, 'e) result) \<Rightarrow> 'b \<Rightarrow> 'a list \<Rightarrow> ('b, 'e) result" where
  "try_fold f acc [] = Ok acc"
| "try_fold f acc (x # xs) = and_then (f acc x) (\<lambda>acc'. try_fold f acc' xs)"

lemma and_then_Ok [simp, result_simps]:
  "and_then r f = Ok y \<longleftrightarrow> (\<exists>x. r = Ok x \<and> f x = Ok y)"
  by (cases r) auto

lemma and_then_Err [result_simps]:
  "and_then r f = Err e \<longleftrightarrow> r = Err e \<or> (\<exists>x. r = Ok x \<and> f x = Err e)"
  by (cases r) auto

lemma map_err_Ok [simp, result_simps]: "map_err f r = Ok x \<longleftrightarrow> r = Ok x"
  by (cases r) auto

lemma ok_or_Ok [simp, result_simps]: "ok_or m e = Ok x \<longleftrightarrow> m = Some x"
  by (cases m) auto

lemma ok_or_Err [simp, result_simps]: "ok_or m e = Err e' \<longleftrightarrow> m = None \<and> e' = e"
  by (cases m) auto

lemma result_ok_Some [simp, result_simps]: "result_ok r = Some x \<longleftrightarrow> r = Ok x"
  by (cases r) auto

lemma result_ok_None [simp, result_simps]: "result_ok r = None \<longleftrightarrow> \<not> is_ok r"
  by (cases r) simp_all

lemma ensure_simps [simp, result_simps]: "ensure True e = Ok ()" "ensure False e = Err e"
  by (simp_all add: ensure_def)

lemma ensure_Ok [simp, result_simps]: "ensure b e = Ok u \<longleftrightarrow> b"
  by (auto simp: ensure_def)

lemma ensure_Err [simp, result_simps]: "ensure b e = Err e' \<longleftrightarrow> \<not> b \<and> e' = e"
  by (auto simp: ensure_def)

lemma is_ok_iff: "is_ok r \<longleftrightarrow> (\<exists>x. r = Ok x)"
  by (cases r) auto

lemma try_for_each_Ok [simp, result_simps]:
  "try_for_each f xs = Ok u \<longleftrightarrow> (\<forall>x \<in> set xs. f x = Ok ())"
  by (induction xs) auto

section \<open>Checked and saturating arithmetic\<close>

definition checked_add :: "'a::len word \<Rightarrow> 'a word \<Rightarrow> 'a word option" where
  "checked_add a b = (if unat a + unat b < 2 ^ LENGTH('a) then Some (a + b) else None)"

definition checked_sub :: "'a::len word \<Rightarrow> 'a word \<Rightarrow> 'a word option" where
  "checked_sub a b = (if b \<le> a then Some (a - b) else None)"

definition checked_mul :: "'a::len word \<Rightarrow> 'a word \<Rightarrow> 'a word option" where
  "checked_mul a b = (if unat a * unat b < 2 ^ LENGTH('a) then Some (a * b) else None)"

definition saturating_sub :: "'a::len word \<Rightarrow> 'a word \<Rightarrow> 'a word" where
  "saturating_sub a b = (if b \<le> a then a - b else 0)"

text \<open>\<open>u64::MAX\<close>.\<close>

definition u64_max :: u64 where
  "u64_max = - 1"

lemma unat_u64_max [simp]: "unat u64_max = 2 ^ 64 - 1"
  by (simp add: u64_max_def unsigned_minus_1_eq_mask mask_eq_exp_minus_1)

lemma unat_add_less:
  fixes a b :: "'a::len word"
  shows "unat a + unat b < 2 ^ LENGTH('a) \<Longrightarrow> unat (a + b) = unat a + unat b"
  by (simp add: unat_word_ariths)

lemma unat_mult_less:
  fixes a b :: "'a::len word"
  shows "unat a * unat b < 2 ^ LENGTH('a) \<Longrightarrow> unat (a * b) = unat a * unat b"
  by (simp add: unat_word_ariths)

lemma unat_bound: "unat (a :: 'a::len word) < 2 ^ LENGTH('a)"
  by (rule unsigned_less)

lemma checked_add_Some [checked_simps]:
  "checked_add a b = Some c \<longleftrightarrow> unat c = unat a + unat b"
proof
  assume "unat c = unat a + unat b"
  moreover from this have "unat a + unat b < 2 ^ LENGTH('a)"
    using unat_bound [of c] by simp
  ultimately show "checked_add a b = Some c"
    by (simp add: checked_add_def word_unat_eq_iff unat_add_less)
qed (auto simp: checked_add_def unat_add_less split: if_splits)

lemma checked_add_None [checked_simps]:
  fixes a b :: "'a::len word"
  shows "checked_add a b = None \<longleftrightarrow> 2 ^ LENGTH('a) \<le> unat a + unat b"
  by (auto simp: checked_add_def)

lemma unat_sub_le: "b \<le> a \<Longrightarrow> unat (a - b) = unat a - unat (b :: 'a::len word)"
  by (rule unat_sub)

lemma checked_sub_Some [checked_simps]:
  "checked_sub a b = Some c \<longleftrightarrow> unat a = unat b + unat c"
proof
  assume *: "unat a = unat b + unat c"
  then have "b \<le> a" by (simp add: word_le_nat_alt)
  with * show "checked_sub a b = Some c"
    by (simp add: checked_sub_def word_unat_eq_iff unat_sub_le)
qed (auto simp: checked_sub_def unat_sub_le word_le_nat_alt split: if_splits)

lemma checked_sub_None [checked_simps]: "checked_sub a b = None \<longleftrightarrow> unat a < unat b"
  by (auto simp: checked_sub_def word_le_nat_alt)

lemma checked_mul_Some [checked_simps]:
  "checked_mul a b = Some c \<longleftrightarrow> unat c = unat a * unat b"
proof
  assume "unat c = unat a * unat b"
  moreover from this have "unat a * unat b < 2 ^ LENGTH('a)"
    using unat_bound [of c] by simp
  ultimately show "checked_mul a b = Some c"
    by (simp add: checked_mul_def word_unat_eq_iff unat_mult_less)
qed (auto simp: checked_mul_def unat_mult_less split: if_splits)

lemma unat_saturating_sub [checked_simps]:
  "unat (saturating_sub a b) = unat a - unat (b :: 'a::len word)"
  by (auto simp: saturating_sub_def unat_sub_le word_le_nat_alt)

lemma unat_min [checked_simps]: "unat (min a b) = min (unat a) (unat (b :: 'a::len word))"
  by (auto simp: min_def word_le_nat_alt)

section \<open>Big-endian encodings\<close>

text \<open>\<open>to_be_bytes\<close> of a value of \<open>k\<close> bytes, and \<open>from_be_bytes\<close>.\<close>

fun nat_be :: "nat \<Rightarrow> nat \<Rightarrow> bytes" where
  "nat_be 0 v = []"
| "nat_be (Suc k) v = nat_be k (v div 256) @ [of_nat (v mod 256)]"

definition be_nat :: "bytes \<Rightarrow> nat" where
  "be_nat bs = foldl (\<lambda>acc b. acc * 256 + unat b) 0 bs"

abbreviation be16 :: "u16 \<Rightarrow> bytes" where "be16 w \<equiv> nat_be 2 (unat w)"
abbreviation be32 :: "u32 \<Rightarrow> bytes" where "be32 w \<equiv> nat_be 4 (unat w)"
abbreviation be64 :: "u64 \<Rightarrow> bytes" where "be64 w \<equiv> nat_be 8 (unat w)"

lemma length_nat_be [simp]: "length (nat_be k v) = k"
  by (induction k arbitrary: v) auto

lemma be_nat_snoc [simp]: "be_nat (bs @ [b]) = be_nat bs * 256 + unat b"
  by (simp add: be_nat_def)

lemma be_nat_Nil [simp]: "be_nat [] = 0"
  by (simp add: be_nat_def)

lemma be_nat_nat_be: "be_nat (nat_be k v) = v mod 256 ^ k"
proof (induction k arbitrary: v)
  case (Suc k)
  have "unat (of_nat (v mod 256) :: u8) = v mod 256"
    by (simp add: unat_of_nat)
  with Suc show ?case
    by (simp add: mod_mult2_eq mult.commute)
qed simp

lemma be_nat_less: "be_nat bs < 256 ^ length bs"
proof (induction bs rule: rev_induct)
  case (snoc b bs)
  have "unat b < 256" using unat_bound [of b] by simp
  with snoc show ?case by (simp add: algebra_simps)
qed simp

lemma nat_be_be_nat: "nat_be (length bs) (be_nat bs) = bs"
proof (induction bs rule: rev_induct)
  case (snoc b bs)
  have "unat b < 256" using unat_bound [of b] by simp
  with snoc show ?case by simp
qed simp

lemma nat_be_inject:
  assumes "nat_be k v = nat_be k w" "v < 256 ^ k" "w < 256 ^ k"
  shows "v = w"
proof -
  have "v mod 256 ^ k = w mod 256 ^ k"
    by (metis assms(1) be_nat_nat_be)
  with assms(2,3) show ?thesis by (metis mod_less)
qed

lemma be64_inject [simp]: "be64 v = be64 w \<longleftrightarrow> v = w"
proof
  assume "be64 v = be64 w"
  moreover have "unat v < 256 ^ 8" "unat w < 256 ^ 8"
    using unat_bound [of v] unat_bound [of w] by simp_all
  ultimately have "unat v = unat w" by (rule nat_be_inject)
  then show "v = w" by (simp only: word_unat_eq_iff)
qed simp

text \<open>
  A length-prefixed field: the length in \<open>k\<close> big-endian bytes, then the bytes. A list of
  such fields is how the program makes the input of a hash unambiguous.
\<close>

definition prefixed :: "nat \<Rightarrow> bytes \<Rightarrow> bytes" where
  "prefixed k bs = nat_be k (length bs) @ bs"

lemma prefixed_inject:
  assumes "prefixed k a @ r = prefixed k b @ s"
    and "length a < 256 ^ k" "length b < 256 ^ k"
  shows "a = b \<and> r = s"
proof -
  from assms(1) have "nat_be k (length a) = nat_be k (length b)" and rest: "a @ r = b @ s"
    by (auto simp: prefixed_def)
  with assms(2,3) have "length a = length b" by (blast dest: nat_be_inject)
  with rest show ?thesis by simp
qed

text \<open>
  An encoding is delimited on a set when it can be read back off the front of any byte
  string: what follows it does not matter. Fields of fixed width, length-prefixed fields,
  sequences of fields and counted lists are; a hash input built from them is determined
  by the values it was built from.
\<close>

definition delimited :: "('a \<Rightarrow> bytes) \<Rightarrow> ('a \<Rightarrow> bool) \<Rightarrow> bool" where
  "delimited enc ok \<longleftrightarrow>
     (\<forall>x y u v. ok x \<longrightarrow> ok y \<longrightarrow> enc x @ u = enc y @ v \<longrightarrow> x = y \<and> u = v)"

lemma delimitedD: "delimited enc ok \<Longrightarrow> ok x \<Longrightarrow> ok y \<Longrightarrow> enc x @ u = enc y @ v \<Longrightarrow> x = y \<and> u = v"
  unfolding delimited_def by blast

lemma delimited_inj: "delimited enc ok \<Longrightarrow> ok x \<Longrightarrow> ok y \<Longrightarrow> enc x = enc y \<Longrightarrow> x = y"
  by (metis append_Nil2 delimitedD)

lemma delimited_fixed:
  "(\<And>x. ok x \<Longrightarrow> length (enc x) = n) \<Longrightarrow> (\<And>x y. ok x \<Longrightarrow> ok y \<Longrightarrow> enc x = enc y \<Longrightarrow> x = y) \<Longrightarrow> delimited enc ok"
  unfolding delimited_def by (metis append_eq_append_conv)

lemma delimited_id: "delimited (\<lambda>bs. bs) (\<lambda>bs. length bs = n)"
  unfolding delimited_def by auto

lemma delimited_be64: "delimited (\<lambda>w :: u64. nat_be 8 (unat w)) (\<lambda>_. True)"
  by (rule delimited_fixed [of _ _ 8]) simp_all

lemma delimited_prefixed: "delimited (prefixed k) (\<lambda>bs. length bs < 256 ^ k)"
  unfolding delimited_def using prefixed_inject by blast

lemma delimited_nat: "delimited (nat_be k) (\<lambda>n. n < 256 ^ k)"
  by (rule delimited_fixed [of _ _ k]) (auto intro: nat_be_inject)

lemma delimited_pair:
  assumes "delimited f p" "delimited g q"
  shows "delimited (\<lambda>x. f (fst x) @ g (snd x)) (\<lambda>x. p (fst x) \<and> q (snd x))"
  unfolding delimited_def
proof (intro allI impI)
  fix x y :: "'a \<times> 'b" and u v
  assume ok: "p (fst x) \<and> q (snd x)" "p (fst y) \<and> q (snd y)"
    and eq: "(f (fst x) @ g (snd x)) @ u = (f (fst y) @ g (snd y)) @ v"
  then have "f (fst x) @ g (snd x) @ u = f (fst y) @ g (snd y) @ v" by simp
  with assms(1) ok have "fst x = fst y" and rest: "g (snd x) @ u = g (snd y) @ v"
    by (blast dest: delimitedD)+
  moreover from assms(2) ok rest have "snd x = snd y" "u = v"
    by (blast dest: delimitedD)+
  ultimately show "x = y \<and> u = v" by (simp add: prod_eq_iff)
qed

lemma delimited_map:
  assumes "delimited enc ok" "\<And>x y. ok' x \<Longrightarrow> ok' y \<Longrightarrow> f x = f y \<Longrightarrow> x = y" "\<And>x. ok' x \<Longrightarrow> ok (f x)"
  shows "delimited (\<lambda>x. enc (f x)) ok'"
  using assms unfolding delimited_def by blast

lemma delimited_concat:
  assumes "delimited enc ok" "length xs = length ys" "list_all ok xs" "list_all ok ys"
    and "concat (map enc xs) @ u = concat (map enc ys) @ v"
  shows "xs = ys \<and> u = v"
  using assms(2-5)
proof (induction xs ys rule: list_induct2)
  case (Cons x xs y ys)
  then have "enc x @ concat (map enc xs) @ u = enc y @ concat (map enc ys) @ v" by simp
  moreover from Cons.prems have "ok x" "ok y" by simp_all
  ultimately have "x = y" "concat (map enc xs) @ u = concat (map enc ys) @ v"
    using delimitedD [OF assms(1)] by blast+
  with Cons show ?case by simp
qed simp

definition counted :: "nat \<Rightarrow> ('a \<Rightarrow> bytes) \<Rightarrow> 'a list \<Rightarrow> bytes" where
  "counted k enc xs = nat_be k (length xs) @ concat (map enc xs)"

lemma delimited_counted:
  assumes "delimited enc ok"
  shows "delimited (counted k enc) (\<lambda>xs. length xs < 256 ^ k \<and> list_all ok xs)"
  unfolding delimited_def
proof (intro allI impI)
  fix xs ys u v
  assume ok: "length xs < 256 ^ k \<and> list_all ok xs" "length ys < 256 ^ k \<and> list_all ok ys"
    and eq: "counted k enc xs @ u = counted k enc ys @ v"
  then have "nat_be k (length xs) @ concat (map enc xs) @ u = nat_be k (length ys) @ concat (map enc ys) @ v"
    by (simp add: counted_def)
  with ok have "length xs = length ys" and rest: "concat (map enc xs) @ u = concat (map enc ys) @ v"
    using delimitedD [OF delimited_nat] by blast+
  with delimited_concat [OF assms] ok show "xs = ys \<and> u = v" by blast
qed

section \<open>Machines that spend a token at most once\<close>

text \<open>
  Escrow names, nullifiers, note serials, resolution digests and operation identifiers all
  follow one protocol: an action that carries a token is refused when the token was used
  before, marks it used when it succeeds, and no action forgets a used token. Each
  component that keeps such a set interprets this locale on its own step function.
\<close>

text \<open>A sequence of operations that all succeed, in order.\<close>

fun run :: "('s \<Rightarrow> 'a \<Rightarrow> 's option) \<Rightarrow> 's \<Rightarrow> 'a list \<Rightarrow> 's option" where
  "run step s [] = Some s"
| "run step s (a # as) = (case step s a of None \<Rightarrow> None | Some s' \<Rightarrow> run step s' as)"

lemma run_append:
  "run step s (as @ bs) = (case run step s as of None \<Rightarrow> None | Some s' \<Rightarrow> run step s' bs)"
  by (induction as arbitrary: s) (auto split: option.splits)

text \<open>An invariant of every step is an invariant of every run.\<close>

lemma run_invariant:
  assumes "\<And>s a s'. I s \<Longrightarrow> step s a = Some s' \<Longrightarrow> I s'"
  shows "I s \<Longrightarrow> run step s as = Some s' \<Longrightarrow> I s'"
proof (induction as arbitrary: s)
  case (Cons a as)
  then show ?case by (auto split: option.splits intro: assms)
qed simp

locale once_only =
  fixes step :: "'s \<Rightarrow> 'a \<Rightarrow> 's option"
    and inv :: "'s \<Rightarrow> bool"
    and token :: "'a \<Rightarrow> 't option"
    and used :: "'s \<Rightarrow> 't set"
  assumes inv_step: "inv s \<Longrightarrow> step s a = Some s' \<Longrightarrow> inv s'"
    and used_mono: "inv s \<Longrightarrow> step s a = Some s' \<Longrightarrow> used s \<subseteq> used s'"
    and token_fresh: "inv s \<Longrightarrow> step s a = Some s' \<Longrightarrow> token a = Some t \<Longrightarrow> t \<notin> used s"
    and token_used: "inv s \<Longrightarrow> step s a = Some s' \<Longrightarrow> token a = Some t \<Longrightarrow> t \<in> used s'"
begin

lemma run_inv: "inv s \<Longrightarrow> run step s as = Some s' \<Longrightarrow> inv s'"
  by (induction as arbitrary: s) (auto split: option.splits dest: inv_step)

lemma run_used_mono: "inv s \<Longrightarrow> run step s as = Some s' \<Longrightarrow> used s \<subseteq> used s'"
proof (induction as arbitrary: s)
  case (Cons a as)
  then obtain s1 where "step s a = Some s1" "run step s1 as = Some s'"
    by (auto split: option.splits)
  with Cons show ?case by (meson inv_step used_mono order_trans)
qed simp

lemma run_token_used:
  "inv s \<Longrightarrow> run step s as = Some s' \<Longrightarrow> a \<in> set as \<Longrightarrow> token a = Some t \<Longrightarrow> t \<in> used s'"
proof (induction as arbitrary: s)
  case (Cons b as)
  then obtain s1 where s1: "step s b = Some s1" "run step s1 as = Some s'"
    by (auto split: option.splits)
  with Cons.prems have inv: "inv s1" by (auto dest: inv_step)
  show ?case
  proof (cases "a = b")
    case True
    with s1 Cons.prems have "t \<in> used s1" by (auto dest: token_used)
    with s1 inv show ?thesis by (auto dest: run_used_mono)
  next
    case False
    with Cons s1 inv show ?thesis by auto
  qed
qed simp

theorem run_used_refused:
  assumes "inv s" "run step s as = Some s'" "t \<in> used s" "a \<in> set as"
  shows "token a \<noteq> Some t"
  using assms
proof (induction as arbitrary: s)
  case (Cons b as)
  then obtain s1 where s1: "step s b = Some s1" "run step s1 as = Some s'"
    by (auto split: option.splits)
  with Cons.prems have "t \<in> used s1" "inv s1" by (auto dest: used_mono inv_step)
  with Cons s1 show ?case by (auto dest: token_fresh)
qed simp

theorem run_tokens_distinct:
  "inv s \<Longrightarrow> run step s as = Some s' \<Longrightarrow> distinct (List.map_filter token as)"
proof (induction as arbitrary: s)
  case (Cons a as)
  then obtain s1 where s1: "step s a = Some s1" "run step s1 as = Some s'"
    by (auto split: option.splits)
  with Cons.prems have inv: "inv s1" by (auto dest: inv_step)
  have "t \<notin> set (List.map_filter token as)" if "token a = Some t" for t
  proof -
    from Cons.prems(1) s1(1) that have "t \<in> used s1" by (rule token_used)
    then have "token b \<noteq> Some t" if "b \<in> set as" for b
      using s1(2) that inv by (metis run_used_refused)
    then show ?thesis by (auto simp: List.map_filter_def)
  qed
  with Cons.IH [OF inv s1(2)] show ?case
    by (auto simp: List.map_filter_simps split: option.splits)
qed (simp add: List.map_filter_simps)

theorem run_never_twice:
  assumes "inv s" "run step s as = Some s'" "a \<in> set as" "token a = Some t" "token b = Some t"
  shows "step s' b = None"
proof (rule ccontr)
  assume "step s' b \<noteq> None"
  then obtain s'' where "step s' b = Some s''" by auto
  with assms show False by (auto dest: token_fresh run_token_used run_inv)
qed

end

end
