(* ===== verification/BTree.thy ===== *)
theory BTree
  imports Prelude
begin

text \<open>
  \<open>BTreeMap\<close>, the container of every ledger, book and registry of the program: a finite
  map that iterates in ascending key order. It is a type of strictly sorted association
  lists, so two maps with the same bindings are equal and a loop over \<open>values()\<close> is a
  recursion over a list whose order is determined by the bindings. The locale
  \<open>balance_map\<close> is what the ledgers rely on: lookup after update, and how the total over
  the values moves with an update.
\<close>

section \<open>Sorted association lists\<close>

fun al_insert :: "'k::linorder \<Rightarrow> 'v \<Rightarrow> ('k \<times> 'v) list \<Rightarrow> ('k \<times> 'v) list" where
  "al_insert k v [] = [(k, v)]"
| "al_insert k v ((k', v') # ps) =
     (if k = k' then (k, v) # ps
      else if k < k' then (k, v) # (k', v') # ps
      else (k', v') # al_insert k v ps)"

abbreviation sorted_keys :: "('k::linorder \<times> 'v) list \<Rightarrow> bool" where
  "sorted_keys ps \<equiv> sorted_wrt (<) (map fst ps)"

lemma fst_set_al_insert: "fst ` set (al_insert k v ps) = insert k (fst ` set ps)"
  by (induction k v ps rule: al_insert.induct) (simp_all add: insert_commute)

lemma sorted_al_insert: "sorted_keys ps \<Longrightarrow> sorted_keys (al_insert k v ps)"
proof (induction ps)
  case (Cons p ps)
  obtain k' v' where p: "p = (k', v')" by (cases p)
  have key: "\<forall>x \<in> set (al_insert k v ps). k' < fst x" if "k' < k"
    using Cons.prems that fst_set_al_insert [of k v ps] unfolding p
    by (auto simp: image_iff) (metis fst_conv imageE image_eqI insertE)
  show ?case
    using Cons key unfolding p by (cases "k' < k") (auto dest: less_trans)
qed simp

lemma map_of_al_insert: "map_of (al_insert k v ps) = (map_of ps)(k \<mapsto> v)"
  by (induction ps) auto

lemma sorted_keys_distinct: "sorted_keys ps \<Longrightarrow> distinct (map fst ps)"
  by (auto simp: strict_sorted_iff)

lemma sorted_keys_filter: "sorted_keys ps \<Longrightarrow> sorted_keys (filter P ps)"
  by (induction ps) auto

lemma sorted_keys_map_values:
  "sorted_keys ps \<Longrightarrow> sorted_keys (map (\<lambda>p. (fst p, f (fst p) (snd p))) ps)"
  by (simp add: comp_def)

section \<open>The type of ordered maps\<close>

typedef (overloaded) ('k::linorder, 'v) btree_map = "{ps :: ('k \<times> 'v) list. sorted_keys ps}"
  morphisms entries BTree
  by (rule exI [of _ "[]"]) simp

setup_lifting type_definition_btree_map

lift_definition bt_empty :: "('k::linorder, 'v) btree_map" is "[]"
  by simp

lift_definition bt_get :: "('k::linorder, 'v) btree_map \<Rightarrow> 'k \<Rightarrow> 'v option" is map_of .

lift_definition bt_insert ::
  "'k::linorder \<Rightarrow> 'v \<Rightarrow> ('k, 'v) btree_map \<Rightarrow> ('k, 'v) btree_map" is al_insert
  by (rule sorted_al_insert)

lift_definition bt_retain ::
  "('k::linorder \<Rightarrow> 'v \<Rightarrow> bool) \<Rightarrow> ('k, 'v) btree_map \<Rightarrow> ('k, 'v) btree_map" is
  "\<lambda>P. filter (\<lambda>p. P (fst p) (snd p))"
  by (rule sorted_keys_filter)

text \<open>A loop over \<open>values_mut()\<close>.\<close>

lift_definition bt_map ::
  "('k::linorder \<Rightarrow> 'v \<Rightarrow> 'w) \<Rightarrow> ('k, 'v) btree_map \<Rightarrow> ('k, 'w) btree_map" is
  "\<lambda>f. map (\<lambda>p. (fst p, f (fst p) (snd p)))"
  by (rule sorted_keys_map_values)

definition bt_remove :: "'k::linorder \<Rightarrow> ('k, 'v) btree_map \<Rightarrow> ('k, 'v) btree_map" where
  "bt_remove k = bt_retain (\<lambda>k' _. k' \<noteq> k)"

definition bt_keys :: "('k::linorder, 'v) btree_map \<Rightarrow> 'k list" where
  "bt_keys m = map fst (entries m)"

definition bt_values :: "('k::linorder, 'v) btree_map \<Rightarrow> 'v list" where
  "bt_values m = map snd (entries m)"

definition bt_len :: "('k::linorder, 'v) btree_map \<Rightarrow> nat" where
  "bt_len m = length (entries m)"

abbreviation bt_contains :: "('k::linorder, 'v) btree_map \<Rightarrow> 'k \<Rightarrow> bool" where
  "bt_contains m k \<equiv> bt_get m k \<noteq> None"

instantiation btree_map :: (linorder, equal) equal
begin

definition equal_btree_map :: "('a, 'b) btree_map \<Rightarrow> ('a, 'b) btree_map \<Rightarrow> bool" where
  "equal_btree_map m m' \<longleftrightarrow> entries m = entries m'"

instance
  by standard (simp add: equal_btree_map_def entries_inject)

end

section \<open>Lookup\<close>

lemma bt_get_empty [simp]: "bt_get bt_empty k = None"
  by transfer simp

lemma bt_get_insert [simp]:
  "bt_get (bt_insert k v m) k' = (if k' = k then Some v else bt_get m k')"
  by transfer (simp add: map_of_al_insert)

lemma map_of_filter_key:
  assumes "distinct (map fst ps)"
  shows "map_of (filter (\<lambda>p. P (fst p) (snd p)) ps) k =
    (case map_of ps k of None \<Rightarrow> None | Some v \<Rightarrow> if P k v then Some v else None)"
  using assms
proof (induction ps)
  case (Cons p ps)
  obtain k' v' where p: "p = (k', v')" by (cases p)
  from Cons.prems have "map_of ps k' = None" unfolding p
    by (auto simp: map_of_eq_None_iff)
  with Cons show ?case unfolding p by auto
qed simp

lemma bt_get_retain:
  "bt_get (bt_retain P m) k =
    (case bt_get m k of None \<Rightarrow> None | Some v \<Rightarrow> if P k v then Some v else None)"
  by transfer (simp add: map_of_filter_key sorted_keys_distinct)

lemma bt_get_remove [simp]:
  "bt_get (bt_remove k m) k' = (if k' = k then None else bt_get m k')"
  by (auto simp: bt_remove_def bt_get_retain split: option.splits)

lemma map_of_map_key:
  "map_of (map (\<lambda>p. (fst p, f (fst p) (snd p))) ps) k = map_option (f k) (map_of ps k)"
  by (induction ps) auto

lemma bt_get_map [simp]: "bt_get (bt_map f m) k = map_option (f k) (bt_get m k)"
  by transfer (rule map_of_map_key)

lemma entries_get: "(k, v) \<in> set (entries m) \<longleftrightarrow> bt_get m k = Some v"
  by transfer (simp add: sorted_keys_distinct)

lemma bt_values_iff: "v \<in> set (bt_values m) \<longleftrightarrow> (\<exists>k. bt_get m k = Some v)"
  by (force simp: bt_values_def entries_get [symmetric])

lemma bt_keys_iff: "k \<in> set (bt_keys m) \<longleftrightarrow> bt_contains m k"
  by (auto simp: bt_keys_def entries_get image_iff)
    (metis entries_get fst_conv)

lemma bt_keys_distinct [simp]: "distinct (bt_keys m)"
  unfolding bt_keys_def by (transfer, rule sorted_keys_distinct)

text \<open>A map is determined by its lookups: a state has one representation.\<close>

lemma bt_eqI:
  assumes "\<And>k. bt_get m k = bt_get m' k"
  shows "m = m'"
proof -
  have "set (entries m) = set (entries m')"
    using assms by (auto simp: entries_get)
  moreover have "sorted_keys (entries m)" "sorted_keys (entries m')"
    using entries [of m] entries [of m'] by auto
  ultimately have "entries m = entries m'"
    by (intro map_sorted_distinct_set_unique [of fst])
      (auto simp: strict_sorted_iff distinct_map)
  then show ?thesis by (simp add: entries_inject)
qed

lemma bt_insert_same: "bt_get m k = Some v \<Longrightarrow> bt_insert k v m = m"
  by (rule bt_eqI) simp

lemma bt_insert_insert [simp]: "bt_insert k v (bt_insert k w m) = bt_insert k v m"
  by (rule bt_eqI) simp

lemma bt_insert_commute:
  "k \<noteq> k' \<Longrightarrow> bt_insert k v (bt_insert k' w m) = bt_insert k' w (bt_insert k v m)"
  by (rule bt_eqI) simp

lemma bt_remove_absent: "bt_get m k = None \<Longrightarrow> bt_remove k m = m"
  by (rule bt_eqI) simp

lemma bt_remove_insert: "bt_get m k = None \<Longrightarrow> bt_remove k (bt_insert k v m) = m"
  by (rule bt_eqI) simp

section \<open>Totals over the values\<close>

definition bt_sum :: "('v \<Rightarrow> 'p) \<Rightarrow> ('k::linorder, 'v) btree_map \<Rightarrow> 'p::comm_monoid_add" where
  "bt_sum f m = sum_list (map f (bt_values m))"

lemma sum_al_insert_new:
  "map_of ps k = None \<Longrightarrow>
    sum_list (map (\<lambda>p. f (snd p)) (al_insert k v ps)) =
      (f v + sum_list (map (\<lambda>p. f (snd p)) ps) :: 'p::comm_monoid_add)"
  by (induction ps) (auto simp: ac_simps split: if_splits)

lemma sum_al_insert_old:
  "sorted_keys ps \<Longrightarrow> map_of ps k = Some w \<Longrightarrow>
    f w + sum_list (map (\<lambda>p. f (snd p)) (al_insert k v ps)) =
      (f v + sum_list (map (\<lambda>p. f (snd p)) ps) :: 'p::comm_monoid_add)"
proof (induction ps)
  case (Cons p ps)
  obtain k' v' where p: "p = (k', v')" by (cases p)
  have "k' < k" if "k \<noteq> k'"
    using Cons.prems that unfolding p by (auto dest!: map_of_SomeD)
  with Cons show ?case unfolding p
    by (auto simp: ac_simps)
qed simp

lemma sum_filter_key:
  "sorted_keys ps \<Longrightarrow> map_of ps k = Some w \<Longrightarrow>
    f w + sum_list (map (\<lambda>p. f (snd p)) (filter (\<lambda>p. fst p \<noteq> k) ps)) =
      (sum_list (map (\<lambda>p. f (snd p)) ps) :: 'p::comm_monoid_add)"
proof (induction ps)
  case (Cons p ps)
  obtain k' v' where p: "p = (k', v')" by (cases p)
  have "filter (\<lambda>p. fst p \<noteq> k) ps = ps" if "k' = k"
    using Cons.prems that unfolding p by (auto simp: filter_id_conv)
  with Cons show ?case unfolding p
    by (auto simp: ac_simps)
qed simp

lemma bt_sum_empty [simp]: "bt_sum f bt_empty = 0"
  by (simp add: bt_sum_def bt_values_def bt_empty.rep_eq)

lemma bt_sum_insert_new:
  "bt_get m k = None \<Longrightarrow> bt_sum f (bt_insert k v m) = f v + bt_sum f m"
  unfolding bt_sum_def bt_values_def map_map comp_def
  by transfer (rule sum_al_insert_new)

lemma bt_sum_insert_old:
  "bt_get m k = Some w \<Longrightarrow> f w + bt_sum f (bt_insert k v m) = f v + bt_sum f m"
  unfolding bt_sum_def bt_values_def map_map comp_def
  by transfer (rule sum_al_insert_old)

lemma bt_sum_remove: "bt_get m k = Some w \<Longrightarrow> f w + bt_sum f (bt_remove k m) = bt_sum f m"
  unfolding bt_sum_def bt_values_def map_map comp_def bt_remove_def
  by transfer (rule sum_filter_key)

lemma bt_sum_mono_values: "(\<And>k v. bt_get m k = Some v \<Longrightarrow> f v = g v) \<Longrightarrow> bt_sum f m = bt_sum g m"
  unfolding bt_sum_def
  by (intro arg_cong [where f = sum_list] map_cong refl) (auto simp: bt_values_iff)

lemma bt_sum_ge:
  fixes f :: "'v \<Rightarrow> nat"
  assumes "bt_get m k = Some v"
  shows "f v \<le> bt_sum f m"
  using bt_sum_remove [OF assms, of f] by simp

section \<open>What a ledger relies on\<close>

text \<open>
  The contract of a map of balances: \<open>get\<close> after \<open>put\<close>, and the total over the balances.
  The lemmas about moving value between two keys are proved once here.
\<close>

locale balance_map =
  fixes get :: "'m \<Rightarrow> 'k \<Rightarrow> 'p::ab_group_add option"
    and put :: "'k \<Rightarrow> 'p \<Rightarrow> 'm \<Rightarrow> 'm"
    and total :: "'m \<Rightarrow> 'p"
  assumes get_put: "get (put k v m) k' = (if k' = k then Some v else get m k')"
    and total_put_new: "get m k = None \<Longrightarrow> total (put k v m) = v + total m"
    and total_put_old: "get m k = Some w \<Longrightarrow> total (put k v m) = v - w + total m"
begin

lemma total_add: "get m k = Some v \<Longrightarrow> total (put k (v + d) m) = d + total m"
  by (simp add: total_put_old)

lemma total_move:
  assumes "get m a = Some x" "get (put a (x - d) m) b = Some y"
  shows "total (put b (y + d) (put a (x - d) m)) = total m"
proof -
  have "total (put b (y + d) (put a (x - d) m)) = d + total (put a (x - d) m)"
    using assms(2) by (rule total_add)
  also have "\<dots> = total m"
    using assms(1) by (simp add: total_put_old)
  finally show ?thesis .
qed

lemma total_move_apart:
  assumes "get m a = Some x" "get m b = Some y" "a \<noteq> b"
  shows "total (put b (y + d) (put a (x - d) m)) = total m"
  using assms by (intro total_move) (simp_all add: get_put)

end

interpretation bt_balances: balance_map
  "bt_get :: ('k::linorder, 'p::ab_group_add) btree_map \<Rightarrow> 'k \<Rightarrow> 'p option"
  bt_insert "bt_sum (\<lambda>v. v)"
proof
  fix m :: "('k::linorder, 'p::ab_group_add) btree_map" and k v w
  assume "bt_get m k = Some w"
  from bt_sum_insert_old [OF this, of "\<lambda>v. v" v]
  show "bt_sum (\<lambda>v. v) (bt_insert k v m) = v - w + bt_sum (\<lambda>v. v) m"
    by (simp add: algebra_simps)
qed (simp_all add: bt_sum_insert_new)

end
