(* ===== verification/Crypto.thy ===== *)
theory Crypto
  imports BTree
begin

text \<open>
  The cryptographic code the program calls but does not contain: the \<open>curve25519_dalek\<close>
  group, the \<open>bulletproofs\<close> range proofs, the \<open>merlin\<close> transcripts, SHA-256, the hybrid
  signatures of \<open>zkfmi_crypto\<close>, and the Pedersen keys, sigma proofs and adaptor
  signatures of \<open>zkfmi_zk\<close>. A component takes the operations it calls as one argument, a
  record of functions over a group \<open>'p\<close> of points and a ring \<open>'s\<close> of scalars; proof
  objects are opaque byte strings, since the program only passes them on. What the
  program relies on is stated as predicates over that record, which the theorems that
  need them name as hypotheses. The last section is a transparent instance, in which
  a commitment is its value, that satisfies all of them.
\<close>

section \<open>Types of the interface\<close>

text \<open>\<open>zkfmi_zk::pedersen::Pedersen\<close>: a value generator and a blinding generator.\<close>

record 'p pedersen =
  ped_g :: 'p
  ped_h :: 'p

text \<open>\<open>bulletproofs::PedersenGens\<close>.\<close>

record 'p pedersen_gens =
  gen_B :: 'p
  gen_B_blinding :: 'p

text \<open>A \<open>merlin::Transcript\<close> is its label and the messages appended to it.\<close>

datatype transcript = Transcript bytes "(bytes \<times> bytes) list"

fun append_message :: "bytes \<Rightarrow> bytes \<Rightarrow> transcript \<Rightarrow> transcript" where
  "append_message label m (Transcript l ms) = Transcript l (ms @ [(label, m)])"

abbreviation transcript_new :: "bytes \<Rightarrow> transcript" where
  "transcript_new label \<equiv> Transcript label []"

definition append_u64 :: "bytes \<Rightarrow> nat \<Rightarrow> transcript \<Rightarrow> transcript" where
  "append_u64 label v = append_message label (rev (be64 (of_nat v)))"

text \<open>\<open>zkfmi_crypto::key::KeyPurpose\<close>, as far as the components use it.\<close>

datatype key_purpose = Attestation | SettlementInstruction | AuditCheckpoint | Governance

type_synonym range_proof = bytes
type_synonym sigma_proof = bytes
type_synonym signature = bytes
type_synonym pre_signature = bytes

text \<open>What \<open>zkfmi_zk::sigma\<close> hands to a \<open>Batch\<close>: the scalars and points of one equation.\<close>

type_synonym ('p, 's) terms = "'s list \<times> 'p list"

record ('p, 's) prims =
  smul :: "'s \<Rightarrow> 'p \<Rightarrow> 'p"
  compress :: "'p \<Rightarrow> bytes"
  decompress :: "bytes \<Rightarrow> 'p option"
  sha256 :: "bytes \<Rightarrow> bytes"
  ped_commit :: "'p pedersen \<Rightarrow> 's \<Rightarrow> 's \<Rightarrow> 'p"
  gens_commit :: "'p pedersen_gens \<Rightarrow> 's \<Rightarrow> 's \<Rightarrow> 'p"
  range_prove :: "'p pedersen_gens \<Rightarrow> transcript \<Rightarrow> u64 list \<Rightarrow> 's list \<Rightarrow> nat
    \<Rightarrow> (range_proof \<times> bytes list) option"
  range_verify :: "'p pedersen_gens \<Rightarrow> transcript \<Rightarrow> range_proof \<Rightarrow> bytes list \<Rightarrow> nat \<Rightarrow> bool"
  hybrid_verify :: "key_purpose \<Rightarrow> bytes \<Rightarrow> bytes \<Rightarrow> signature \<Rightarrow> bool"
  same_value_prove :: "'p pedersen \<Rightarrow> transcript \<Rightarrow> 'p \<Rightarrow> 'p \<Rightarrow> 'p \<Rightarrow> 'p \<Rightarrow> 's \<Rightarrow> 's \<Rightarrow> 's \<Rightarrow> sigma_proof"
  same_value_terms :: "'p pedersen \<Rightarrow> transcript \<Rightarrow> 'p \<Rightarrow> 'p \<Rightarrow> 'p \<Rightarrow> 'p \<Rightarrow> sigma_proof \<Rightarrow> 's \<Rightarrow> ('p, 's) terms"
  product_prove :: "'p pedersen \<Rightarrow> transcript \<Rightarrow> 'p \<Rightarrow> 's \<Rightarrow> 's \<Rightarrow> 's \<Rightarrow> 's \<Rightarrow> 's \<Rightarrow> sigma_proof"
  product_terms :: "'p pedersen \<Rightarrow> transcript \<Rightarrow> 'p \<Rightarrow> 'p \<Rightarrow> 'p \<Rightarrow> sigma_proof \<Rightarrow> 's \<Rightarrow> ('p, 's) terms"
  product_verify :: "'p pedersen \<Rightarrow> transcript \<Rightarrow> 'p \<Rightarrow> 'p \<Rightarrow> 'p \<Rightarrow> sigma_proof \<Rightarrow> bool"
  opening_prove :: "'p pedersen \<Rightarrow> transcript \<Rightarrow> 'p \<Rightarrow> 's \<Rightarrow> 's \<Rightarrow> sigma_proof"
  opening_terms :: "'p pedersen \<Rightarrow> transcript \<Rightarrow> 'p \<Rightarrow> sigma_proof \<Rightarrow> 's \<Rightarrow> ('p, 's) terms"
  zero_opening_prove :: "'p pedersen \<Rightarrow> transcript \<Rightarrow> 'p \<Rightarrow> 's \<Rightarrow> sigma_proof"
  zero_opening_verify :: "'p pedersen \<Rightarrow> transcript \<Rightarrow> 'p \<Rightarrow> sigma_proof \<Rightarrow> bool"
  batch_verify :: "('p, 's) terms list \<Rightarrow> bool"
  adaptor_public :: "'s \<Rightarrow> 'p"
  adaptor_verify :: "'p \<Rightarrow> bytes \<Rightarrow> signature \<Rightarrow> bool"
  adaptor_pre_sign :: "'s \<Rightarrow> 'p \<Rightarrow> bytes \<Rightarrow> pre_signature"
  adaptor_pre_verify :: "'p \<Rightarrow> 'p \<Rightarrow> bytes \<Rightarrow> pre_signature \<Rightarrow> bool"
  adaptor_adapt :: "pre_signature \<Rightarrow> 's \<times> 'p \<Rightarrow> signature"
  adaptor_extract :: "pre_signature \<Rightarrow> signature \<Rightarrow> 's"
  asset_tag :: "u32 \<Rightarrow> 'p"
  oneofmany_prove :: "'p pedersen \<Rightarrow> transcript \<Rightarrow> 'p list \<Rightarrow> nat \<Rightarrow> 's \<Rightarrow> bytes option"
  oneofmany_verify :: "'p pedersen \<Rightarrow> transcript \<Rightarrow> 'p list \<Rightarrow> bytes \<Rightarrow> bool"
  sha512_scalar :: "bytes \<Rightarrow> 's"
  scalar_bytes :: "'s \<Rightarrow> bytes"
  zkpi_asset_scalar :: "bytes \<Rightarrow> 's"

text \<open>\<open>Scalar::from(u64)\<close>, \<open>Pedersen::commit_u64\<close> and \<open>Pedersen::with_value_generator\<close>.\<close>

definition scalar_u64 :: "u64 \<Rightarrow> 's::comm_ring_1" where
  "scalar_u64 v = of_nat (unat v)"

definition commit_u64 :: "('p, 's::comm_ring_1) prims \<Rightarrow> 'p pedersen \<Rightarrow> u64 \<Rightarrow> 's \<Rightarrow> 'p" where
  "commit_u64 P key v r = ped_commit P key (scalar_u64 v) r"

definition with_value_generator :: "'p \<Rightarrow> 'p pedersen \<Rightarrow> 'p pedersen" where
  "with_value_generator g key = key\<lparr>ped_g := g\<rparr>"

text \<open>
  A range proof of one value and the commitment it is about: \<open>prove_multiple\<close> of one value
  and \<open>commitments[0]\<close>, with the error of the call and the one of the index.
\<close>

definition range_one ::
  "('p, 's) prims \<Rightarrow> 'p pedersen_gens \<Rightarrow> transcript \<Rightarrow> u64 \<Rightarrow> 's \<Rightarrow> nat \<Rightarrow> 'e \<Rightarrow> 'e
    \<Rightarrow> (range_proof \<times> bytes, 'e) result" where
  "range_one P gens t v blinding bits e panic =
     and_then (ok_or (range_prove P gens t [v] [blinding] bits) e) (\<lambda>(proof, commitments).
     case commitments of c # _ \<Rightarrow> Ok (proof, c) | [] \<Rightarrow> Err panic)"

definition key_gens :: "'p pedersen \<Rightarrow> 'p pedersen_gens" where
  "key_gens key = \<lparr>gen_B = ped_g key, gen_B_blinding = ped_h key\<rparr>"

section \<open>What the program relies on\<close>

text \<open>Scalars act on points as on a module.\<close>

definition scalar_module :: "('p::ab_group_add, 's::comm_ring_1) prims \<Rightarrow> bool" where
  "scalar_module P \<longleftrightarrow>
     (\<forall>a b x. smul P (a + b) x = smul P a x + smul P b x) \<and>
     (\<forall>a x y. smul P a (x + y) = smul P a x + smul P a y) \<and>
     (\<forall>a b x. smul P (a * b) x = smul P a (smul P b x)) \<and>
     (\<forall>x. smul P 1 x = x)"

text \<open>Both commitment functions compute \<open>v \<cdot> B + r \<cdot> B_blinding\<close>.\<close>

definition pedersen_commits :: "('p::ab_group_add, 's::comm_ring_1) prims \<Rightarrow> bool" where
  "pedersen_commits P \<longleftrightarrow>
     (\<forall>key v r. ped_commit P key v r = smul P v (ped_g key) + smul P r (ped_h key)) \<and>
     (\<forall>g v r. gens_commit P g v r = smul P v (gen_B g) + smul P r (gen_B_blinding g))"

text \<open>Ristretto: equal points have equal encodings, and an encoding decodes to its point.\<close>

definition ristretto_encoding :: "('p, 's) prims \<Rightarrow> bool" where
  "ristretto_encoding P \<longleftrightarrow>
     inj (compress P) \<and> (\<forall>x. decompress P (compress P x) = Some x)"

text \<open>
  Completeness of the range proofs, which Bulletproofs has at the widths 8, 16, 32 and 64
  only (the documentation of \<open>PositionBook::new\<close> says so): for one value that is in range
  at such a width the prover returns the commitment to it and a proof the verifier accepts.
  Of other widths, and of values out of range, nothing is supposed.
\<close>

definition range_width :: "nat \<Rightarrow> bool" where
  "range_width bits \<longleftrightarrow> bits = 8 \<or> bits = 16 \<or> bits = 32 \<or> bits = 64"

definition range_complete :: "('p, 's::comm_ring_1) prims \<Rightarrow> bool" where
  "range_complete P \<longleftrightarrow> (\<forall>g t v r bits. range_width bits \<longrightarrow> unat v < 2 ^ bits \<longrightarrow>
     (\<exists>pf. range_prove P g t [v] [r] bits = Some (pf, [compress P (gens_commit P g (scalar_u64 v) r)]) \<and>
        range_verify P g t pf [compress P (gens_commit P g (scalar_u64 v) r)] bits))"

text \<open>
  The algebraic reading of commitments, for statements about amounts. In the algebraic
  group model a party that outputs a point knows its representation over the generators;
  the coordinate at the value generator is a linear map \<open>val\<close> with \<open>val g = 1\<close> and
  \<open>val h = 0\<close>. Soundness of the proof systems says what an accepted proof fixes of that
  coordinate: a range proof under the generator \<open>B\<close> that it is a multiple of \<open>val B\<close> by a
  number in range, the sigma proofs the relation they are named for. A general opening
  proof fixes nothing.
\<close>

definition algebraic_reading ::
  "('p::ab_group_add, 's::comm_ring_1) prims \<Rightarrow> 'p pedersen \<Rightarrow> ('p \<Rightarrow> 's) \<Rightarrow> bool" where
  "algebraic_reading P key val \<longleftrightarrow>
     (\<forall>x y. val (x + y) = val x + val y) \<and>
     (\<forall>a x. val (smul P a x) = a * val x) \<and>
     val (ped_g key) = 1 \<and> val (ped_h key) = 0 \<and>
     (\<forall>g t pf cs bits. range_verify P g t pf cs bits \<longrightarrow> gen_B_blinding g = ped_h key \<longrightarrow>
        (\<forall>x. compress P x \<in> set cs \<longrightarrow> (\<exists>v < 2 ^ bits. val x = of_nat v * val (gen_B g)))) \<and>
     (\<forall>bs t a b x y pf w. batch_verify P bs \<longrightarrow> same_value_terms P key t a b x y pf w \<in> set bs \<longrightarrow>
        (\<exists>v. val x = v * val a \<and> val y = v * val b)) \<and>
     (\<forall>bs t a b c pf w. batch_verify P bs \<longrightarrow> product_terms P key t a b c pf w \<in> set bs \<longrightarrow>
        val c = val a * val b) \<and>
     (\<forall>t a b c pf. product_verify P key t a b c pf \<longrightarrow> val c = val a * val b) \<and>
     (\<forall>t x pf. zero_opening_verify P key t x pf \<longrightarrow> val x = 0)"

text \<open>
  Completeness of the sigma proofs: a batch of equations that hold one by one is accepted,
  and a proof built from openings that satisfy the relation gives an equation that holds.
\<close>

definition sigma_complete :: "('p::ab_group_add, 's::comm_ring_1) prims \<Rightarrow> bool" where
  "sigma_complete P \<longleftrightarrow>
     (\<forall>bs. (\<forall>b \<in> set bs. batch_verify P [b]) \<longrightarrow> batch_verify P bs) \<and>
     (\<forall>key t a b v r s w.
        let x = smul P v a + smul P r (ped_h key); y = smul P v b + smul P s (ped_h key) in
        batch_verify P [same_value_terms P key t a b x y (same_value_prove P key t a b x y v r s) w]) \<and>
     (\<forall>key t u ru v rv rc w.
        let a = ped_commit P key u ru in
        batch_verify P [product_terms P key t a (ped_commit P key v rv) (ped_commit P key (u * v) rc)
          (product_prove P key t a u ru v rv rc) w]) \<and>
     (\<forall>key t v r w.
        batch_verify P [opening_terms P key t (ped_commit P key v r)
          (opening_prove P key t (ped_commit P key v r) v r) w]) \<and>
     (\<forall>key t r. zero_opening_verify P key t (smul P r (ped_h key))
          (zero_opening_prove P key t (smul P r (ped_h key)) r))"

text \<open>Distinct small numbers are distinct scalars: the field is far wider than any amount.\<close>

definition wide_scalars :: "'s::comm_ring_1 itself \<Rightarrow> nat \<Rightarrow> bool" where
  "wide_scalars T n \<longleftrightarrow> inj_on (of_nat :: nat \<Rightarrow> 's) {..< 2 ^ n}"

text \<open>
  Adaptor signatures: a pre-signature for the key and the adaptor point verifies, adapting
  it with the discrete logarithm of the point gives a signature, and the adapted signature
  gives that logarithm back.
\<close>

definition adaptor_laws :: "('p, 's) prims \<Rightarrow> bool" where
  "adaptor_laws P \<longleftrightarrow>
     (\<forall>k y m. adaptor_pre_verify P (adaptor_public P k) y m (adaptor_pre_sign P k y m)) \<and>
     (\<forall>k m s pre. adaptor_pre_verify P k (adaptor_public P s) m pre \<longrightarrow>
        adaptor_verify P k m (adaptor_adapt P pre (s, adaptor_public P s))) \<and>
     (\<forall>pre s y. adaptor_extract P pre (adaptor_adapt P pre (s, y)) = s)"

text \<open>
  The one-out-of-many proof: it exists for a list whose entry at the index is the blinding
  generator times the witness, it verifies for that list, and it verifies only for a list
  in which some entry has value 0.
\<close>

definition oneofmany_laws ::
  "('p::ab_group_add, 's::comm_ring_1) prims \<Rightarrow> 'p pedersen \<Rightarrow> ('p \<Rightarrow> 's) \<Rightarrow> bool" where
  "oneofmany_laws P key val \<longleftrightarrow>
     (\<forall>t xs i r. i < length xs \<longrightarrow> xs ! i = smul P r (ped_h key) \<longrightarrow>
        (\<exists>pf. oneofmany_prove P key t xs i r = Some pf)) \<and>
     (\<forall>t xs i r pf. oneofmany_prove P key t xs i r = Some pf \<longrightarrow> oneofmany_verify P key t xs pf) \<and>
     (\<forall>t xs pf. oneofmany_verify P key t xs pf \<longrightarrow> (\<exists>x \<in> set xs. val x = 0))"

lemma scalar_moduleD:
  assumes "scalar_module P"
  shows smul_add: "smul P (a + b) x = smul P a x + smul P b x"
    and smul_add_right: "smul P a (x + y) = smul P a x + smul P a y"
    and smul_mult: "smul P (a * b) x = smul P a (smul P b x)"
    and smul_one: "smul P 1 x = x"
  using assms by (auto simp: scalar_module_def)

lemma smul_zero: "scalar_module P \<Longrightarrow> smul P 0 x = 0"
  using smul_add [of P 0 0 x] by simp

lemma smul_minus: "scalar_module P \<Longrightarrow> smul P (- a) x = - smul P a x"
  using smul_add [of P a "- a" x] by (simp add: smul_zero minus_unique)

lemma smul_diff: "scalar_module P \<Longrightarrow> smul P (a - b) x = smul P a x - smul P b x"
  using smul_add [of P a "- b" x] by (simp add: smul_minus)

lemma smul_zero_right: "scalar_module P \<Longrightarrow> smul P a 0 = 0"
  using smul_add_right [of P a 0 0] by simp

lemma sigma_completeD:
  assumes "sigma_complete P"
  shows batch_all: "(\<And>b. b \<in> set bs \<Longrightarrow> batch_verify P [b]) \<Longrightarrow> batch_verify P bs"
    and same_value_complete: "batch_verify P [same_value_terms P key t a b (smul P v a + smul P r (ped_h key))
        (smul P v b + smul P s (ped_h key)) (same_value_prove P key t a b (smul P v a + smul P r (ped_h key))
        (smul P v b + smul P s (ped_h key)) v r s) w]"
    and product_complete: "batch_verify P [product_terms P key t (ped_commit P key u ru) (ped_commit P key v rv)
        (ped_commit P key (u * v) rc) (product_prove P key t (ped_commit P key u ru) u ru v rv rc) w]"
    and opening_complete: "batch_verify P [opening_terms P key t (ped_commit P key v r)
          (opening_prove P key t (ped_commit P key v r) v r) w]"
    and zero_opening_complete: "zero_opening_verify P key t (smul P r (ped_h key))
          (zero_opening_prove P key t (smul P r (ped_h key)) r)"
proof -
  note c = assms [unfolded sigma_complete_def Let_def]
  show "batch_verify P bs" if "\<And>b. b \<in> set bs \<Longrightarrow> batch_verify P [b]"
    using c [THEN conjunct1, rule_format, of bs] that by blast
qed (rule assms [unfolded sigma_complete_def Let_def, THEN conjunct2, THEN conjunct1, rule_format]
      assms [unfolded sigma_complete_def Let_def, THEN conjunct2, THEN conjunct2, THEN conjunct1, rule_format]
      assms [unfolded sigma_complete_def Let_def, THEN conjunct2, THEN conjunct2, THEN conjunct2, THEN conjunct1, rule_format]
      assms [unfolded sigma_complete_def Let_def, THEN conjunct2, THEN conjunct2, THEN conjunct2, THEN conjunct2, rule_format])+

lemma algebraic_readingD:
  assumes "algebraic_reading P key val"
  shows val_add: "val (x + y) = val x + val y"
    and val_smul: "val (smul P a x) = a * val x"
    and val_g: "val (ped_g key) = 1"
    and val_h: "val (ped_h key) = 0"
    and val_zero: "val 0 = 0"
    and val_minus: "val (- x) = - val x"
    and val_diff: "val (x - y) = val x - val y"
proof -
  show add: "val (x + y) = val x + val y" for x y
    using assms by (auto simp: algebraic_reading_def)
  from add [of 0 0] show zero: "val 0 = 0" by simp
  from add [of x "- x"] zero show "val (- x) = - val x"
    by (simp add: add_eq_0_iff)
  from add [of "x - y" y] show "val (x - y) = val x - val y" by simp
qed (use assms in \<open>auto simp: algebraic_reading_def\<close>)

lemma val_sum_list: "algebraic_reading P key val \<Longrightarrow> val (sum_list xs) = sum_list (map val xs)"
  by (induction xs) (simp_all add: val_add val_zero)

lemma val_range:
  "algebraic_reading P key val \<Longrightarrow> range_verify P g t pf cs bits \<Longrightarrow>
    gen_B_blinding g = ped_h key \<Longrightarrow> compress P x \<in> set cs \<Longrightarrow>
    \<exists>v < 2 ^ bits. val x = of_nat v * val (gen_B g)"
  unfolding algebraic_reading_def by (elim conjE) metis

lemma val_same_value:
  "algebraic_reading P key val \<Longrightarrow> batch_verify P bs \<Longrightarrow>
    same_value_terms P key t a b x y pf w \<in> set bs \<Longrightarrow> \<exists>v. val x = v * val a \<and> val y = v * val b"
  unfolding algebraic_reading_def by (elim conjE) metis

lemma val_product:
  "algebraic_reading P key val \<Longrightarrow> batch_verify P bs \<Longrightarrow>
    product_terms P key t a b c pf w \<in> set bs \<Longrightarrow> val c = val a * val b"
  unfolding algebraic_reading_def by blast

lemma val_product_verify:
  "algebraic_reading P key val \<Longrightarrow> product_verify P key t a b c pf \<Longrightarrow> val c = val a * val b"
  unfolding algebraic_reading_def by blast

lemma val_zero_opening:
  "algebraic_reading P key val \<Longrightarrow> zero_opening_verify P key t x pf \<Longrightarrow> val x = 0"
  unfolding algebraic_reading_def by blast

lemma range_prove_one:
  assumes "range_complete P" "range_width bits" "unat v < 2 ^ bits"
  obtains pf where "range_prove P gens t [v] [blinding] bits =
      Some (pf, [compress P (gens_commit P gens (scalar_u64 v) blinding)])"
    and "range_verify P gens t pf [compress P (gens_commit P gens (scalar_u64 v) blinding)] bits"
  using assms unfolding range_complete_def by blast

lemma range_one_exists:
  assumes "range_complete P" "range_width bits" "unat v < 2 ^ bits"
  obtains pf where "range_one P gens t v blinding bits e panic =
      Ok (pf, compress P (gens_commit P gens (scalar_u64 v) blinding))"
    and "range_verify P gens t pf [compress P (gens_commit P gens (scalar_u64 v) blinding)] bits"
  by (rule range_prove_one [OF assms, of gens t blinding]) (rule that, auto simp: range_one_def)

lemma key_gens_commit:
  "pedersen_commits P \<Longrightarrow> gens_commit P (key_gens key) v r = ped_commit P key v r"
  by (simp add: pedersen_commits_def key_gens_def)

lemma wide_scalarsD:
  "wide_scalars TYPE('s::comm_ring_1) n \<Longrightarrow> (of_nat a :: 's) = of_nat b \<Longrightarrow>
    a < 2 ^ n \<Longrightarrow> b < 2 ^ n \<Longrightarrow> a = b"
  unfolding wide_scalars_def by (auto dest: inj_onD)

section \<open>A transparent instance\<close>

text \<open>
  Points and scalars are integers, the blinding generator is 0, a commitment is its value
  times the generator, a hash is its input, and a verifier checks the relation itself.
  The theorems' witnesses are evaluated on it.
\<close>

fun nat_bytes :: "nat \<Rightarrow> bytes" where
  "nat_bytes n = (if n = 0 then [] else of_nat (n mod 256) # nat_bytes (n div 256))"

declare nat_bytes.simps [simp del]

fun bytes_nat :: "bytes \<Rightarrow> nat" where
  "bytes_nat [] = 0"
| "bytes_nat (b # bs) = unat b + 256 * bytes_nat bs"

definition enc_int :: "int \<Rightarrow> bytes" where
  "enc_int x = (if x < 0 then 1 else 0) # nat_bytes (nat \<bar>x\<bar>)"

fun dec_int :: "bytes \<Rightarrow> int option" where
  "dec_int [] = None"
| "dec_int (s # bs) = Some (if s = 1 then - int (bytes_nat bs) else int (bytes_nat bs))"

definition plain_in_range :: "int pedersen_gens \<Rightarrow> nat \<Rightarrow> bytes \<Rightarrow> bool" where
  "plain_in_range g bits c = (case dec_int c of None \<Rightarrow> False | Some x \<Rightarrow>
     gen_B_blinding g \<noteq> 0 \<or>
     (if gen_B g = 0 then x = 0
      else x mod gen_B g = 0 \<and> 0 \<le> x div gen_B g \<and> x div gen_B g < 2 ^ bits))"

definition plain_terms :: "bool \<Rightarrow> (int, int) terms" where
  "plain_terms b = (if b then ([], []) else ([1], [1]))"

definition plain_same :: "int pedersen \<Rightarrow> int \<Rightarrow> int \<Rightarrow> int \<Rightarrow> int \<Rightarrow> bool" where
  "plain_same key a b x y \<longleftrightarrow> ped_h key \<noteq> 0 \<or>
     (if a = 0 then x = 0 \<and> y mod b = 0 else x mod a = 0 \<and> y = (x div a) * b)"

definition plain_product :: "int pedersen \<Rightarrow> int \<Rightarrow> int \<Rightarrow> int \<Rightarrow> bool" where
  "plain_product key a b c \<longleftrightarrow> ped_h key \<noteq> 0 \<or> ped_g key \<noteq> 1 \<or> c = a * b"

definition plain :: "(int, int) prims" where
  "plain = \<lparr>
     smul = (\<lambda>a x. a * x),
     compress = enc_int,
     decompress = dec_int,
     sha256 = (\<lambda>bs. bs),
     ped_commit = (\<lambda>key v r. v * ped_g key + r * ped_h key),
     gens_commit = (\<lambda>g v r. v * gen_B g + r * gen_B_blinding g),
     range_prove = (\<lambda>g t vs rs bits.
       if length vs = length rs \<and> list_all (\<lambda>v. unat v < 2 ^ bits) vs
       then Some ([], map (\<lambda>(v, r). enc_int (int (unat v) * gen_B g + r * gen_B_blinding g)) (zip vs rs))
       else None),
     range_verify = (\<lambda>g t pf cs bits. list_all (plain_in_range g bits) cs),
     hybrid_verify = (\<lambda>purpose key m s. s = key @ m),
     same_value_prove = (\<lambda>key t a b x y v r s. []),
     same_value_terms = (\<lambda>key t a b x y pf w. plain_terms (plain_same key a b x y)),
     product_prove = (\<lambda>key t a va ra vb rb rc. []),
     product_terms = (\<lambda>key t a b c pf w. plain_terms (plain_product key a b c)),
     product_verify = (\<lambda>key t a b c pf. plain_product key a b c),
     opening_prove = (\<lambda>key t x v r. []),
     opening_terms = (\<lambda>key t x pf w. plain_terms True),
     zero_opening_prove = (\<lambda>key t x r. []),
     zero_opening_verify = (\<lambda>key t x pf. ped_h key \<noteq> 0 \<or> x = 0),
     batch_verify = list_all (\<lambda>b. b = ([], [])),
     adaptor_public = (\<lambda>s. s),
     adaptor_verify = (\<lambda>k m s. True),
     adaptor_pre_sign = (\<lambda>k y m. enc_int y),
     adaptor_pre_verify = (\<lambda>k y m pre. pre = enc_int y),
     adaptor_adapt = (\<lambda>pre (s, y). enc_int s),
     adaptor_extract = (\<lambda>pre s. the (dec_int s)),
     asset_tag = (\<lambda>i. int (unat i) + 1),
     oneofmany_prove = (\<lambda>key t xs i r.
       if i < length xs \<and> xs ! i = r * ped_h key then Some [] else None),
     oneofmany_verify = (\<lambda>key t xs pf. ped_h key \<noteq> 0 \<or> 0 \<in> set xs),
     sha512_scalar = (\<lambda>bs. int (bytes_nat bs)),
     scalar_bytes = enc_int,
     zkpi_asset_scalar = (\<lambda>bs. int (bytes_nat bs))\<rparr>"

definition plain_key :: "int pedersen" where
  "plain_key = \<lparr>ped_g = 1, ped_h = 0\<rparr>"

lemma plain_simps:
  "smul plain a x = a * x"
  "compress plain = enc_int"
  "decompress plain = dec_int"
  "sha256 plain bs = bs"
  "ped_commit plain key v r = v * ped_g key + r * ped_h key"
  "gens_commit plain g v r = v * gen_B g + r * gen_B_blinding g"
  "range_prove plain g t vs rs bits =
    (if length vs = length rs \<and> list_all (\<lambda>v. unat v < 2 ^ bits) vs
     then Some ([], map (\<lambda>(v, r). enc_int (int (unat v) * gen_B g + r * gen_B_blinding g)) (zip vs rs))
     else None)"
  "range_verify plain g t pf cs bits = list_all (plain_in_range g bits) cs"
  "hybrid_verify plain purpose k m s \<longleftrightarrow> s = k @ m"
  "same_value_prove plain key t p q x y v r1 r2 = []"
  "same_value_terms plain key t p q x y pf a = plain_terms (plain_same key p q x y)"
  "product_prove plain key t x v r1 r2 r3 r4 = []"
  "product_terms plain key t x y z pf a = plain_terms (plain_product key x y z)"
  "product_verify plain key t x y z pf = plain_product key x y z"
  "opening_prove plain key t x v r = []"
  "opening_terms plain key t x pf a = plain_terms True"
  "zero_opening_prove plain key t x r = []"
  "zero_opening_verify plain key t x pf \<longleftrightarrow> ped_h key \<noteq> 0 \<or> x = 0"
  "batch_verify plain = list_all (\<lambda>b. b = ([], []))"
  "adaptor_public plain a = a"
  "adaptor_verify plain x m s \<longleftrightarrow> True"
  "adaptor_pre_sign plain a x m = enc_int x"
  "adaptor_pre_verify plain x y m pre \<longleftrightarrow> pre = enc_int y"
  "adaptor_adapt plain pre (a, x) = enc_int a"
  "adaptor_extract plain pre s = the (dec_int s)"
  "asset_tag plain i = int (unat i) + 1"
  "oneofmany_prove plain key t xs j r =
    (if j < length xs \<and> xs ! j = r * ped_h key then Some [] else None)"
  "oneofmany_verify plain key t xs pf \<longleftrightarrow> ped_h key \<noteq> 0 \<or> 0 \<in> set xs"
  "sha512_scalar plain bs = int (bytes_nat bs)"
  "scalar_bytes plain = enc_int"
  "zkpi_asset_scalar plain bs = int (bytes_nat bs)"
  by (simp_all add: plain_def)

lemma bytes_nat_nat_bytes [simp]: "bytes_nat (nat_bytes n) = n"
proof (induction n rule: nat_bytes.induct)
  case (1 n)
  then show ?case
    by (cases "n = 0") (simp_all add: nat_bytes.simps [of n] nat_bytes.simps [of 0] unat_of_nat)
qed

lemma dec_enc_int [simp]: "dec_int (enc_int x) = Some x"
  by (simp add: enc_int_def)

lemma enc_int_inject [simp]: "enc_int x = enc_int y \<longleftrightarrow> x = y"
  by (metis dec_enc_int option.inject)

lemma inj_enc_int: "inj enc_int"
  by (simp add: inj_def)

lemma plain_module: "scalar_module plain"
  by (simp add: scalar_module_def plain_def algebra_simps)

lemma plain_pedersen: "pedersen_commits plain"
  by (simp add: pedersen_commits_def plain_def)

lemma plain_encoding: "ristretto_encoding plain"
  by (simp add: ristretto_encoding_def plain_def inj_enc_int)

lemma plain_in_range_commit:
  fixes v :: u64
  assumes "unat v < 2 ^ bits"
  shows "plain_in_range g bits (enc_int (uint v * gen_B g + r * gen_B_blinding g))"
proof -
  have "uint v < 2 ^ bits"
    using assms by (metis of_nat_less_numeral_power_cancel_iff uint_nat)
  then show ?thesis by (auto simp: plain_in_range_def)
qed

lemma plain_range_complete: "range_complete plain"
  by (auto simp: range_complete_def plain_def scalar_u64_def list_all_iff intro!: plain_in_range_commit)

lemma plain_in_rangeD:
  "plain_in_range g bits (enc_int x) \<Longrightarrow> gen_B_blinding g = 0 \<Longrightarrow>
    \<exists>v < 2 ^ bits. x = int v * gen_B g"
proof -
  assume "plain_in_range g bits (enc_int x)" "gen_B_blinding g = 0"
  then have r: "if gen_B g = 0 then x = 0
      else x mod gen_B g = 0 \<and> 0 \<le> x div gen_B g \<and> x div gen_B g < 2 ^ bits"
    by (simp add: plain_in_range_def)
  show ?thesis
  proof (cases "gen_B g = 0")
    case True
    with r show ?thesis by (intro exI [of _ 0]) simp
  next
    case False
    with r have "x = int (nat (x div gen_B g)) * gen_B g" and "nat (x div gen_B g) < 2 ^ bits"
      by (auto simp: nat_less_iff)
    then show ?thesis by blast
  qed
qed

lemma plain_reading: "algebraic_reading plain plain_key (\<lambda>x. x)"
proof -
  have same: "\<exists>v. x = a * v \<and> y = b * v" if "plain_same plain_key a b x y" for a b x y
    using that by (auto simp: plain_same_def plain_key_def split: if_splits)
  have terms: "Q" if "list_all (\<lambda>b. b = ([], [])) bs" "plain_terms Q \<in> set bs" for Q bs
    using that by (auto simp: plain_terms_def list_all_iff split: if_splits)
  show ?thesis
    unfolding algebraic_reading_def
  proof (intro conjI allI impI)
    fix g t pf cs bits x
    assume "range_verify plain g t pf cs bits" "gen_B_blinding g = ped_h plain_key"
      "compress plain x \<in> set cs"
    then show "\<exists>v < 2 ^ bits. x = of_nat v * gen_B g"
      by (intro plain_in_rangeD) (auto simp: plain_def plain_key_def list_all_iff)
  qed (auto simp: plain_def plain_key_def plain_product_def algebra_simps
        dest!: terms intro!: same [unfolded plain_key_def])
qed

lemma plain_sigma: "sigma_complete plain"
proof -
  have "plain_same key a b (v * a + r * ped_h key) (v * b + s * ped_h key)" for key a b v r s
    by (simp add: plain_same_def)
  moreover have "plain_product key (u * ped_g key + ru * ped_h key) (v * ped_g key + rv * ped_h key)
      (u * v * ped_g key + rc * ped_h key)" for key u ru v rv rc
    by (simp add: plain_product_def)
  ultimately show ?thesis
    by (simp add: sigma_complete_def plain_simps list_all_iff plain_terms_def Let_def)
qed

lemma plain_wide: "wide_scalars TYPE(int) n"
  by (simp add: wide_scalars_def inj_on_def)

lemma plain_adaptor: "adaptor_laws plain"
  by (simp add: adaptor_laws_def plain_def)

lemma plain_oneofmany: "oneofmany_laws plain plain_key (\<lambda>x. x)"
  by (auto simp: oneofmany_laws_def plain_def plain_key_def split: if_splits dest: nth_mem)

lemmas plain_laws = plain_oneofmany plain_sigma plain_module plain_pedersen plain_encoding plain_range_complete
  plain_reading plain_wide plain_adaptor

end
