(* ===== verification/Assets.thy ===== *)
theory Assets
  imports Crypto
begin

text \<open>
  Asset tags (\<open>assets.rs\<close>) and the proof that an instruction's hidden asset field is a
  given asset (\<open>asset_link.rs\<close>). A tag is the asset's generator blinded per transfer; the
  registry proves and checks that a tag is one of the registered generators. Drawn
  scalars (\<open>Scalar::random\<close>) are arguments. A failed \<open>assert!\<close> or an index out of range
  is the error \<open>AssetPanic\<close>.
\<close>

section \<open>Tags and the registry\<close>

record 'p blinded_tag =
  tag_point :: 'p
  tag_membership :: "bytes option"

definition key_for :: "'p blinded_tag \<Rightarrow> 'p pedersen \<Rightarrow> 'p pedersen" where
  "key_for t key = with_value_generator (tag_point t) key"

definition tag_gens :: "'p blinded_tag \<Rightarrow> 'p pedersen \<Rightarrow> 'p pedersen_gens" where
  "tag_gens t key = \<lparr>gen_B = tag_point t, gen_B_blinding = ped_h key\<rparr>"

record 'p asset_registry =
  ar_key :: "'p pedersen"
  ar_count :: u32
  ar_tags :: "'p list"

datatype asset_error =
    AssetNotRegistered \<comment> \<open>asset is not registered\<close>
  | AssetProofFailed \<comment> \<open>the error of the one-out-of-many prover\<close>
  | AssetPanic

text \<open>\<open>usize::next_power_of_two\<close>, and \<open>max(2)\<close> of it; the cast to \<open>u32\<close> wraps.\<close>

function power_from :: "nat \<Rightarrow> nat \<Rightarrow> nat" where
  "power_from p n = (if n \<le> p \<or> p = 0 then p else power_from (2 * p) n)"
  by auto
termination by (relation "measure (\<lambda>(p, n). n - p)") auto

declare power_from.simps [simp del]

definition next_power_of_two :: "nat \<Rightarrow> nat" where
  "next_power_of_two n = power_from 1 n"

definition registry_new ::
  "('p, 's) prims \<Rightarrow> 'p pedersen \<Rightarrow> u32 \<Rightarrow> ('p asset_registry, asset_error) result" where
  "registry_new P key count =
     and_then (ensure (1 \<le> count) AssetPanic) (\<lambda>_.
     let size = max (next_power_of_two (unat count)) 2;
         tags = map (\<lambda>i. asset_tag P (of_nat i)) [0 ..< unat (of_nat size :: u32)]
     in Ok \<lparr>ar_key = key, ar_count = count, ar_tags = tags\<rparr>)"

definition registry_size :: "'p asset_registry \<Rightarrow> nat" where
  "registry_size R = length (ar_tags R)"

definition quotients :: "'p::ab_group_add asset_registry \<Rightarrow> 'p \<Rightarrow> 'p list" where
  "quotients R point = map (\<lambda>tag. point - tag) (ar_tags R)"

definition blind_tag ::
  "('p::ab_group_add, 's) prims \<Rightarrow> 'p asset_registry \<Rightarrow> u32 \<Rightarrow> bool \<Rightarrow> 's
    \<Rightarrow> ('p blinded_tag \<times> 's, asset_error) result" where
  "blind_tag P R asset_id prove_membership gamma =
     (if ar_count R \<le> asset_id then Err AssetNotRegistered
      else if length (ar_tags R) \<le> unat asset_id then Err AssetPanic
      else let point = ar_tags R ! unat asset_id + smul P gamma (ped_h (ar_key R)) in
        if prove_membership then
          and_then (ok_or (oneofmany_prove P (ar_key R) (transcript_new (ascii ''qomm:asset''))
              (quotients R point) (unat asset_id) gamma) AssetProofFailed)
            (\<lambda>pf. Ok (\<lparr>tag_point = point, tag_membership = Some pf\<rparr>, gamma))
        else Ok (\<lparr>tag_point = point, tag_membership = None\<rparr>, gamma))"

definition verify_membership ::
  "('p::ab_group_add, 's) prims \<Rightarrow> 'p asset_registry \<Rightarrow> 'p blinded_tag \<Rightarrow> bool" where
  "verify_membership P R t = (case tag_membership t of
       None \<Rightarrow> False
     | Some pf \<Rightarrow> oneofmany_verify P (ar_key R) (transcript_new (ascii ''qomm:asset''))
         (quotients R (tag_point t)) pf)"

section \<open>The asset link proof\<close>

record ('p, 's) asset_link_proof =
  al_announcement :: 'p
  al_response :: 's

definition asset_link_challenge :: "('p, 's) prims \<Rightarrow> bytes \<Rightarrow> 'p \<Rightarrow> 'p \<Rightarrow> 'p \<Rightarrow> 's" where
  "asset_link_challenge P asset_id asset_commitment residual announcement =
     sha512_scalar P (ascii ''QOMM:DEFMI:ASSET-LINK:v1'' @ asset_id @
       compress P asset_commitment @ compress P residual @ compress P announcement)"

text \<open>The last argument is the nonce drawn by the prover; the result is None for its one error.\<close>

definition asset_link_prove ::
  "('p::ab_group_add, 's::comm_ring_1) prims \<Rightarrow> 'p pedersen \<Rightarrow> bytes \<Rightarrow> 'p \<Rightarrow> 's \<Rightarrow> 's
    \<Rightarrow> ('p, 's) asset_link_proof option" where
  "asset_link_prove P key asset_id asset_commitment blinding nonce =
     (let value = zkpi_asset_scalar P asset_id in
      if ped_commit P key value blinding \<noteq> asset_commitment then None
      else
        let residual = asset_commitment - smul P value (ped_g key);
            announcement = smul P nonce (ped_h key);
            response = nonce + asset_link_challenge P asset_id asset_commitment residual announcement * blinding
        in Some \<lparr>al_announcement = announcement, al_response = response\<rparr>)"

definition asset_link_verify ::
  "('p::ab_group_add, 's) prims \<Rightarrow> 'p pedersen \<Rightarrow> bytes \<Rightarrow> 'p
    \<Rightarrow> ('p, 's) asset_link_proof \<Rightarrow> bool" where
  "asset_link_verify P key asset_id asset_commitment pf =
     (let residual = asset_commitment - smul P (zkpi_asset_scalar P asset_id) (ped_g key) in
      smul P (al_response pf) (ped_h key) =
        al_announcement pf +
        smul P (asset_link_challenge P asset_id asset_commitment residual (al_announcement pf)) residual)"

definition asset_link_digest ::
  "('p, 's) prims \<Rightarrow> ('p, 's) asset_link_proof \<Rightarrow> bytes \<Rightarrow> 'p \<Rightarrow> bytes" where
  "asset_link_digest P pf asset_id asset_commitment =
     sha256 P (ascii ''QOMM:DEFMI:ASSET-LINK:DIGEST:v1'' @ asset_id @ compress P asset_commitment @
       compress P (al_announcement pf) @ scalar_bytes P (al_response pf))"

section \<open>Registry lemmas\<close>

lemma power_from_ge: "0 < p \<Longrightarrow> n \<le> power_from p n"
  by (induction p n rule: power_from.induct) (simp add: power_from.simps)

lemma power_from_pow: "\<exists>k. power_from (2 ^ j) n = 2 ^ k"
proof (induction "2 ^ j :: nat" n arbitrary: j rule: power_from.induct)
  case (1 n)
  show ?case
  proof (cases "n \<le> 2 ^ j")
    case True
    then show ?thesis by (subst power_from.simps) auto
  next
    case False
    with 1 [of "Suc j"] show ?thesis by (subst power_from.simps) auto
  qed
qed

lemma power_from_le: "0 < p \<Longrightarrow> p \<le> 2 ^ k \<Longrightarrow> n \<le> 2 ^ k \<Longrightarrow> p = 2 ^ j \<Longrightarrow> power_from p n \<le> 2 ^ k"
proof (induction p n arbitrary: j rule: power_from.induct)
  case (1 p n)
  show ?case
  proof (cases "n \<le> p")
    case True
    with 1 show ?thesis by (subst power_from.simps) auto
  next
    case False
    with 1 have "j < k"
      by (metis leI order.trans power_increasing_iff one_less_numeral_iff semiring_norm(76))
    then have "2 * p \<le> 2 ^ k"
      using 1 by (metis Suc_leI power_Suc power_increasing one_le_numeral)
    with 1(1) [of "Suc j"] 1(2-) False have "power_from (2 * p) n \<le> 2 ^ k" by simp
    with False 1(2) show ?thesis by (subst power_from.simps) simp
  qed
qed

lemma next_power_of_two_bounds:
  "n \<le> 2 ^ k \<Longrightarrow> n \<le> next_power_of_two n \<and> next_power_of_two n \<le> 2 ^ k"
  unfolding next_power_of_two_def
  using power_from_ge [of 1 n] power_from_le [of 1 k n 0] by simp

lemma registry_new_tags:
  assumes "registry_new P key count = Ok R" "unat count \<le> 2 ^ 31"
  shows "unat count \<le> length (ar_tags R)"
    and "\<And>i. i < length (ar_tags R) \<Longrightarrow> ar_tags R ! i = asset_tag P (of_nat i)"
    and "ar_key R = key" and "ar_count R = count"
proof -
  let ?size = "max (next_power_of_two (unat count)) 2"
  have "?size < 2 ^ 32"
    using next_power_of_two_bounds [OF assms(2)] by simp
  then have "unat (of_nat ?size :: u32) = ?size"
    by (simp add: unat_of_nat)
  then have R: "R = \<lparr>ar_key = key, ar_count = count,
      ar_tags = map (\<lambda>i. asset_tag P (of_nat i)) [0 ..< ?size]\<rparr>"
    using assms(1) by (simp add: registry_new_def Let_def)
  show "unat count \<le> length (ar_tags R)"
    using next_power_of_two_bounds [OF assms(2)] by (simp add: R le_max_iff_disj)
  show "\<And>i. i < length (ar_tags R) \<Longrightarrow> ar_tags R ! i = asset_tag P (of_nat i)"
    and "ar_key R = key" and "ar_count R = count"
    by (simp_all add: R)
qed

text \<open>The tag of a registered asset, blinded with \<open>gamma\<close>.\<close>

lemma blind_point:
  assumes "registry_new P key count = Ok R" "unat count \<le> 2 ^ 31"
    and "blind_tag P R asset_id prove gamma = Ok (t, gamma')"
  shows "tag_point t = asset_tag P asset_id + smul P gamma (ped_h key)" and "gamma' = gamma"
  using assms(3) registry_new_tags [OF assms(1,2)]
  by (auto simp: blind_tag_def Let_def not_le split: if_splits)

section \<open>Properties\<close>

text \<open>
  a tag blinded with a membership proof passes the registry's own check, for every
  registered asset, and is that asset's generator plus a multiple of the blinding
  generator; and a tag that passes the check has the value of a registered generator.
\<close>

theorem blinded_tag_membership:
  assumes "oneofmany_laws P key val" "algebraic_reading P key val"
    and "registry_new P key count = Ok R" "unat count \<le> 2 ^ 31" "asset_id < count"
  shows "(\<exists>t. blind_tag P R asset_id True gamma = Ok (t, gamma) \<and> verify_membership P R t \<and>
      tag_point t = asset_tag P asset_id + smul P gamma (ped_h key)) \<and>
    (verify_membership P R t' \<longrightarrow>
      (\<exists>i < length (ar_tags R). val (tag_point t') = val (asset_tag P (of_nat i))))"
proof (intro conjI impI)
  note R = registry_new_tags [OF assms(3,4)]
  have id: "unat asset_id < length (ar_tags R)"
    using assms(5) R(1) by (simp add: word_less_nat_alt)
  let ?point = "asset_tag P asset_id + smul P gamma (ped_h key)"
  have "quotients R ?point ! unat asset_id = smul P gamma (ped_h key)"
    using id R(2) [OF id] by (simp add: quotients_def)
  then obtain pf where "oneofmany_prove P key (transcript_new (ascii ''qomm:asset''))
      (quotients R ?point) (unat asset_id) gamma = Some pf"
    using assms(1) id unfolding oneofmany_laws_def by (metis length_map quotients_def)
  moreover from this have "oneofmany_verify P key (transcript_new (ascii ''qomm:asset''))
      (quotients R ?point) pf"
    using assms(1) unfolding oneofmany_laws_def by blast
  ultimately show "\<exists>t. blind_tag P R asset_id True gamma = Ok (t, gamma) \<and> verify_membership P R t \<and>
      tag_point t = asset_tag P asset_id + smul P gamma (ped_h key)"
    using assms(5) id R(2) [OF id] R(3,4)
    by (simp add: blind_tag_def verify_membership_def Let_def not_le)
  assume "verify_membership P R t'"
  then obtain pf where "oneofmany_verify P key (transcript_new (ascii ''qomm:asset''))
      (quotients R (tag_point t')) pf"
    using R(3) by (auto simp: verify_membership_def split: option.splits)
  then obtain x where "x \<in> set (quotients R (tag_point t'))" "val x = 0"
    using assms(1) unfolding oneofmany_laws_def by blast
  then show "\<exists>i < length (ar_tags R). val (tag_point t') = val (asset_tag P (of_nat i))"
    using R(2) val_diff [OF assms(2)] by (auto simp: quotients_def in_set_conv_nth) blast
qed

lemma registry_new_two:
  "registry_new plain plain_key 2 = Ok \<lparr>ar_key = plain_key, ar_count = 2, ar_tags = [1, 2]\<rparr>"
  by (simp add: registry_new_def next_power_of_two_def power_from.simps plain_simps upt_rec)

theorem blinded_tag_membership_witness:
  "(\<exists>t. blind_tag plain \<lparr>ar_key = plain_key, ar_count = 2, ar_tags = [1, 2]\<rparr> 1 True 5 = Ok (t, 5) \<and>
      verify_membership plain \<lparr>ar_key = plain_key, ar_count = 2, ar_tags = [1, 2]\<rparr> t \<and>
      tag_point t = 2)"
  using blinded_tag_membership [OF plain_oneofmany plain_reading registry_new_two, of 1 5]
  by (simp add: plain_simps plain_key_def)

text \<open>
  C20: an asset link built for the opening of the commitment verifies; and a prover whose
  proofs with one announcement are accepted under two challenge functions whose challenges
  differ by a unit has opened the commitment to that asset: the difference of its
  responses gives the blinding.
\<close>

theorem asset_link_complete_sound:
  assumes "scalar_module P" "pedersen_commits P"
    and "Q = P\<lparr>sha512_scalar := H\<rparr>"
    and "residual = c - smul P (zkpi_asset_scalar P asset_id) (ped_g key)"
    and "u * (asset_link_challenge P asset_id c residual a - asset_link_challenge Q asset_id c residual a) = 1"
  shows "(asset_link_prove P key asset_id c r nonce = Some pf \<longrightarrow> asset_link_verify P key asset_id c pf) \<and>
    (asset_link_verify P key asset_id c \<lparr>al_announcement = a, al_response = z\<rparr> \<longrightarrow>
     asset_link_verify Q key asset_id c \<lparr>al_announcement = a, al_response = z'\<rparr> \<longrightarrow>
       c = ped_commit P key (zkpi_asset_scalar P asset_id) (u * (z - z')))"
proof (intro conjI impI)
  note P = scalar_moduleD [OF assms(1)] smul_diff [OF assms(1)] and C = assms(2) [unfolded pedersen_commits_def]
  assume "asset_link_prove P key asset_id c r nonce = Some pf"
  then show "asset_link_verify P key asset_id c pf"
    using C by (auto simp: asset_link_prove_def asset_link_verify_def Let_def P split: if_splits)
next
  note P = scalar_moduleD [OF assms(1)] smul_diff [OF assms(1)] and C = assms(2) [unfolded pedersen_commits_def]
  let ?e = "asset_link_challenge P asset_id c residual a"
  let ?e' = "asset_link_challenge Q asset_id c residual a"
  assume "asset_link_verify P key asset_id c \<lparr>al_announcement = a, al_response = z\<rparr>"
    and "asset_link_verify Q key asset_id c \<lparr>al_announcement = a, al_response = z'\<rparr>"
  then have "smul P z (ped_h key) = a + smul P ?e residual"
    and "smul P z' (ped_h key) = a + smul P ?e' residual"
    by (simp_all add: asset_link_verify_def Let_def assms(3,4))
  then have "smul P (z - z') (ped_h key) = smul P (?e - ?e') residual"
    by (simp add: P)
  then have "smul P (u * (z - z')) (ped_h key) = smul P (u * (?e - ?e')) residual"
    by (simp only: P(3))
  also have "\<dots> = residual" by (simp add: assms(5) P(4))
  finally show "c = ped_commit P key (zkpi_asset_scalar P asset_id) (u * (z - z'))"
    using C assms(4) by simp
qed

lemma link_challenges_differ:
  "1 * (asset_link_challenge plain [] 2 2 0 - asset_link_challenge
      (plain\<lparr>sha512_scalar := (\<lambda>_. asset_link_challenge plain [] 2 2 0 - 1)\<rparr>) [] 2 2 0) = 1"
  by (simp add: asset_link_challenge_def)

theorem asset_link_complete_sound_witness:
  "asset_link_prove plain \<lparr>ped_g = 1, ped_h = 1\<rparr> [] 2 2 0 =
     Some \<lparr>al_announcement = 0, al_response = 2 * asset_link_challenge plain [] 2 2 0\<rparr> \<and>
   asset_link_verify plain \<lparr>ped_g = 1, ped_h = 1\<rparr> [] 2
     \<lparr>al_announcement = 0, al_response = 2 * asset_link_challenge plain [] 2 2 0\<rparr> \<and>
   ped_commit plain \<lparr>ped_g = 1, ped_h = 1\<rparr> (zkpi_asset_scalar plain []) 2 = 2"
  using asset_link_complete_sound [OF plain_module plain_pedersen refl _ link_challenges_differ,
      where key = "\<lparr>ped_g = 1, ped_h = 1\<rparr>" and r = 2 and nonce = 0
      and z = "2 * asset_link_challenge plain [] 2 2 0" and z' = "2 * (asset_link_challenge plain [] 2 2 0 - 1)"
      and pf = "\<lparr>al_announcement = 0, al_response = 2 * asset_link_challenge plain [] 2 2 0\<rparr>"]
  by (simp add: plain_simps asset_link_prove_def)

end
