(* ===== verification/Ledger.thy ===== *)
theory Ledger
  imports Assets "HOL-Library.List_Lexorder"
begin

text \<open>
  The ledger of commitments (\<open>ledger.rs\<close>). An account is a handle and a commitment; a
  transfer names an amount commitment and the payer's remainder, with range proofs. An
  operation returns the new ledger or the error of the branch that refused it: the source
  checks everything before it assigns anything, so a refused operation changes nothing.
  \<open>LedgerPanic\<close> stands for a failed \<open>assert!\<close>, \<open>expect\<close> or index. The field \<open>bp_gens\<close> is
  determined by \<open>bits\<close> and is part of the range proof functions of \<open>prims\<close>.

  A history is a list of operations that succeeded, run by \<open>ledger_step\<close> from
  \<open>ledger_new\<close> or \<open>under_issuer\<close>. The lemmas give the invariant of every history, the
  single use of leg names, escrows and issuer authorisations through the locale
  \<open>once_only\<close>, and the simulation of a ledger of plain numbers.
\<close>

section \<open>Data\<close>

record 'p transfer =
  t_amount_commitment :: 'p
  t_amount_range :: "(range_proof \<times> bytes) option"
  t_remainder_commitment :: 'p
  t_remainder_range :: range_proof
  t_tag :: "'p blinded_tag option"

record 's transfer_secrets =
  ts_amount_blinding :: 's
  ts_payee_delta :: 's
  ts_remainder_blinding :: 's

record 'p pending =
  p_payer :: bytes
  p_release_key :: 'p
  p_payee :: bytes
  p_amount_commitment :: 'p
  p_deadline :: u64

record 'p ledger =
  l_key :: "'p pedersen"
  l_bits :: nat
  l_accounts :: "(bytes, 'p) btree_map"
  l_pending :: "(bytes, 'p pending) btree_map"
  l_spent_legs :: "bytes set"
  l_minted :: 'p
  l_issuer :: "bytes option"
  l_issued :: "bytes set"

datatype ledger_error =
    NoIssuer \<comment> \<open>this ledger has no issuer\<close>
  | HandleOpen \<comment> \<open>handle already open\<close>
  | AuthorisationUsed \<comment> \<open>that issuance authorisation was already used\<close>
  | NotSignedByIssuer \<comment> \<open>the opening balance is not signed by the issuer\<close>
  | LegPrepared \<comment> \<open>that leg is already prepared\<close>
  | LegNameUsed \<comment> \<open>that leg name has been used before\<close>
  | UnknownPayee \<comment> \<open>unknown payee handle\<close>
  | NoSuchLeg \<comment> \<open>no such prepared leg\<close>
  | EscrowExpired \<comment> \<open>the escrow has expired\<close>
  | ReleaseNotSigned \<comment> \<open>the release is not signed for this leg\<close>
  | EscrowNotExpired \<comment> \<open>the escrow has not expired\<close>
  | BalanceTooSmall \<comment> \<open>balance cannot cover the amount\<close>
  | AmountProofFailed \<comment> \<open>amount range proof failed\<close>
  | RemainderProofFailed \<comment> \<open>remainder range proof failed\<close>
  | BadRemainder \<comment> \<open>bad remainder commitment\<close>
  | UnknownPayer \<comment> \<open>unknown payer handle\<close>
  | StaleAmountProof \<comment> \<open>an externally bounded amount carries a stale range proof\<close>
  | NoAmountProof \<comment> \<open>the amount carries no range proof\<close>
  | OtherAmount \<comment> \<open>the range proof is about a different amount\<close>
  | AmountOutOfRange \<comment> \<open>amount not shown to be within the ledger range\<close>
  | NegativeRemainder \<comment> \<open>payer would be left with a negative balance\<close>
  | RemainderMismatch \<comment> \<open>remainder does not equal balance minus amount\<close>
  | LedgerPanic

type_synonym ('p, 'a) ledger_result = "('a, ledger_error) result"

section \<open>Opening\<close>

definition issuance_body :: "('p, 's) prims \<Rightarrow> bytes \<Rightarrow> 'p \<Rightarrow> bytes \<Rightarrow> bytes" where
  "issuance_body P handle balance nonce =
     sha256 P (ascii ''QOMM:DEFMI:ISSUE:v1'' @ nat_be 8 (length handle) @ handle @
       compress P balance @ nat_be 8 (length nonce) @ nonce)"

definition ledger_new :: "'p::ab_group_add pedersen \<Rightarrow> nat \<Rightarrow> 'p ledger" where
  "ledger_new key bits = \<lparr>l_key = key, l_bits = bits, l_accounts = bt_empty, l_pending = bt_empty,
     l_spent_legs = {}, l_minted = 0, l_issuer = None, l_issued = {}\<rparr>"

definition under_issuer :: "'p::ab_group_add pedersen \<Rightarrow> nat \<Rightarrow> bytes \<Rightarrow> 'p ledger" where
  "under_issuer key bits issuer = (ledger_new key bits)\<lparr>l_issuer := Some issuer\<rparr>"

definition open_account ::
  "'p::ab_group_add ledger \<Rightarrow> bytes \<Rightarrow> 'p \<Rightarrow> ('p ledger, ledger_error) result" where
  "open_account l handle balance =
     and_then (ensure (l_issuer l = None) LedgerPanic) (\<lambda>_.
     and_then (ensure (\<not> bt_contains (l_accounts l) handle) LedgerPanic) (\<lambda>_.
     Ok (l\<lparr>l_accounts := bt_insert handle balance (l_accounts l),
           l_minted := l_minted l + balance\<rparr>)))"

definition open_authorised ::
  "('p::ab_group_add, 's) prims \<Rightarrow> 'p ledger \<Rightarrow> bytes \<Rightarrow> 'p \<Rightarrow> bytes \<Rightarrow> bytes
    \<Rightarrow> ('p ledger, ledger_error) result" where
  "open_authorised P l handle balance nonce authorisation =
     and_then (ok_or (l_issuer l) NoIssuer) (\<lambda>issuer.
     and_then (ensure (\<not> bt_contains (l_accounts l) handle) HandleOpen) (\<lambda>_.
     let body = issuance_body P handle balance nonce in
     and_then (ensure (body \<notin> l_issued l) AuthorisationUsed) (\<lambda>_.
     and_then (ensure (hybrid_verify P Attestation issuer body authorisation) NotSignedByIssuer) (\<lambda>_.
     Ok (l\<lparr>l_issued := insert body (l_issued l),
           l_accounts := bt_insert handle balance (l_accounts l),
           l_minted := l_minted l + balance\<rparr>)))))"

section \<open>Queries\<close>

definition ledger_balance :: "'p ledger \<Rightarrow> bytes \<Rightarrow> 'p option" where
  "ledger_balance l handle = bt_get (l_accounts l) handle"

definition ledger_handles :: "'p ledger \<Rightarrow> bytes list" where
  "ledger_handles l = bt_keys (l_accounts l)"

definition conserved :: "'p::ab_group_add ledger \<Rightarrow> bool" where
  "conserved l \<longleftrightarrow>
     (let held = sum_list (map p_amount_commitment (bt_values (l_pending l)))
      in sum_list (bt_values (l_accounts l)) + held = l_minted l)"

definition pending_leg :: "'p ledger \<Rightarrow> bytes \<Rightarrow> 'p pending option" where
  "pending_leg l leg = bt_get (l_pending l) leg"

definition pending_legs :: "'p ledger \<Rightarrow> bytes list" where
  "pending_legs l = bt_keys (l_pending l)"

definition ledger_gens :: "'p ledger \<Rightarrow> 'p blinded_tag option \<Rightarrow> 'p pedersen_gens" where
  "ledger_gens l tag = (case tag of
       Some t \<Rightarrow> tag_gens t (l_key l)
     | None \<Rightarrow> \<lparr>gen_B = ped_g (l_key l), gen_B_blinding = ped_h (l_key l)\<rparr>)"

definition ledger_context :: "('p, 's) prims \<Rightarrow> bytes \<Rightarrow> 'p blinded_tag option \<Rightarrow> bytes" where
  "ledger_context P context tag =
     context @ (case tag of Some t \<Rightarrow> ascii '':tag:'' @ compress P (tag_point t) | None \<Rightarrow> [])"

definition amount_transcript :: "bytes \<Rightarrow> transcript" where
  "amount_transcript ctx = append_message (ascii ''ctx'') ctx (transcript_new (ascii ''qomm:defmi:amt''))"

definition remainder_transcript :: "bytes \<Rightarrow> transcript" where
  "remainder_transcript ctx = append_message (ascii ''ctx'') ctx (transcript_new (ascii ''qomm:defmi:rem''))"

section \<open>Building a transfer\<close>

text \<open>A proof of one value, and the commitment it is about: \<open>prove_multiple\<close> and \<open>commitments[0]\<close>.\<close>

definition prove_one ::
  "('p, 's) prims \<Rightarrow> 'p pedersen_gens \<Rightarrow> transcript \<Rightarrow> u64 \<Rightarrow> 's \<Rightarrow> nat \<Rightarrow> ledger_error
    \<Rightarrow> (range_proof \<times> bytes, ledger_error) result" where
  "prove_one P gens t v blinding bits e =
     and_then (ok_or (range_prove P gens t [v] [blinding] bits) e) (\<lambda>(proof, commitments).
     case commitments of c # _ \<Rightarrow> Ok (proof, c) | [] \<Rightarrow> Err LedgerPanic)"

definition build_transfer_with_amount_blinding ::
  "('p::ab_group_add, 's::comm_ring_1) prims \<Rightarrow> 'p ledger \<Rightarrow> u64 \<Rightarrow> 's \<Rightarrow> u64 \<Rightarrow> 's \<Rightarrow> bytes
    \<Rightarrow> 'p blinded_tag option \<Rightarrow> 's \<Rightarrow> bool \<Rightarrow> ('p transfer \<times> 's transfer_secrets, ledger_error) result" where
  "build_transfer_with_amount_blinding P l payer_balance payer_blinding amount amount_blinding
       context tag gamma amount_bounded =
     and_then (ensure (\<not> payer_balance < amount) BalanceTooSmall) (\<lambda>_.
     let gens = ledger_gens l tag;
         ctx = ledger_context P context tag in
     and_then
       (if amount_bounded then Ok None
        else and_then (prove_one P gens (amount_transcript ctx) amount amount_blinding (l_bits l)
            AmountProofFailed) (\<lambda>r. Ok (Some r)))
       (\<lambda>amount_range.
     let amount_commitment = gens_commit P gens (scalar_u64 amount) amount_blinding;
         remainder = payer_balance - amount;
         remainder_blinding = payer_blinding - amount_blinding - gamma * scalar_u64 payer_balance in
     and_then (prove_one P gens (remainder_transcript ctx) remainder remainder_blinding (l_bits l)
         RemainderProofFailed) (\<lambda>(remainder_range, remainder_commitment).
     and_then (ok_or (decompress P remainder_commitment) BadRemainder) (\<lambda>point.
     Ok (\<lparr>t_amount_commitment = amount_commitment,
          t_amount_range = amount_range,
          t_remainder_commitment = point,
          t_remainder_range = remainder_range,
          t_tag = tag\<rparr>,
         \<lparr>ts_amount_blinding = amount_blinding,
          ts_payee_delta = gamma * scalar_u64 amount + amount_blinding,
          ts_remainder_blinding = remainder_blinding\<rparr>)))))"

text \<open>The amount blinding is the scalar drawn from the generator.\<close>

definition build_transfer ::
  "('p::ab_group_add, 's::comm_ring_1) prims \<Rightarrow> 'p ledger \<Rightarrow> u64 \<Rightarrow> 's \<Rightarrow> u64 \<Rightarrow> bytes
    \<Rightarrow> 'p blinded_tag option \<Rightarrow> 's \<Rightarrow> bool \<Rightarrow> 's \<Rightarrow> ('p transfer \<times> 's transfer_secrets, ledger_error) result" where
  "build_transfer P l payer_balance payer_blinding amount context tag gamma amount_bounded drawn =
     build_transfer_with_amount_blinding P l payer_balance payer_blinding amount drawn context tag
       gamma amount_bounded"

section \<open>Checking and applying a transfer\<close>

definition check_transfer ::
  "('p::ab_group_add, 's) prims \<Rightarrow> 'p ledger \<Rightarrow> bytes \<Rightarrow> 'p transfer \<Rightarrow> bytes \<Rightarrow> bool
    \<Rightarrow> (unit, ledger_error) result" where
  "check_transfer P l payer t context amount_bounded =
     and_then (ok_or (bt_get (l_accounts l) payer) UnknownPayer) (\<lambda>bal.
     let gens = ledger_gens l (t_tag t);
         ctx = ledger_context P context (t_tag t) in
     and_then
       (case (t_amount_range t, amount_bounded) of
          (Some _, True) \<Rightarrow> Err StaleAmountProof
        | (None, False) \<Rightarrow> Err NoAmountProof
        | (Some (proof, commitment), False) \<Rightarrow>
            and_then (ensure (commitment = compress P (t_amount_commitment t)) OtherAmount) (\<lambda>_.
            ensure (range_verify P gens (amount_transcript ctx) proof [commitment] (l_bits l))
              AmountOutOfRange)
        | (None, True) \<Rightarrow> Ok ())
       (\<lambda>_.
     and_then (ensure (range_verify P gens (remainder_transcript ctx) (t_remainder_range t)
         [compress P (t_remainder_commitment t)] (l_bits l)) NegativeRemainder) (\<lambda>_.
     ensure (bal - t_amount_commitment t = t_remainder_commitment t) RemainderMismatch)))"

definition apply_transfer ::
  "'p::ab_group_add ledger \<Rightarrow> bytes \<Rightarrow> bytes \<Rightarrow> 'p transfer \<Rightarrow> ('p ledger, ledger_error) result" where
  "apply_transfer l payer payee t =
     (let accounts = bt_insert payer (t_remainder_commitment t) (l_accounts l) in
      and_then (ok_or (bt_get accounts payee) LedgerPanic) (\<lambda>held.
      Ok (l\<lparr>l_accounts := bt_insert payee (held + t_amount_commitment t) accounts\<rparr>)))"

definition settle_transfer ::
  "('p::ab_group_add, 's) prims \<Rightarrow> 'p ledger \<Rightarrow> bytes \<Rightarrow> bytes \<Rightarrow> 'p transfer \<Rightarrow> bytes \<Rightarrow> bool
    \<Rightarrow> ('p ledger, ledger_error) result" where
  "settle_transfer P l payer payee t context amount_bounded =
     and_then (ensure (bt_contains (l_accounts l) payee) UnknownPayee) (\<lambda>_.
     and_then (check_transfer P l payer t context amount_bounded) (\<lambda>_.
     apply_transfer l payer payee t))"

section \<open>Escrow\<close>

definition prepare_transfer ::
  "('p::ab_group_add, 's) prims \<Rightarrow> 'p ledger \<Rightarrow> bytes \<Rightarrow> bytes \<Rightarrow> bytes \<Rightarrow> 'p transfer \<Rightarrow> bytes \<Rightarrow> bool
    \<Rightarrow> u64 \<Rightarrow> 'p \<Rightarrow> ('p ledger, ledger_error) result" where
  "prepare_transfer P l leg payer payee t context amount_bounded deadline release_key =
     and_then (ensure (\<not> bt_contains (l_pending l) leg) LegPrepared) (\<lambda>_.
     and_then (ensure (leg \<notin> l_spent_legs l) LegNameUsed) (\<lambda>_.
     and_then (ensure (bt_contains (l_accounts l) payee) UnknownPayee) (\<lambda>_.
     and_then (check_transfer P l payer t context amount_bounded) (\<lambda>_.
     Ok (l\<lparr>l_accounts := bt_insert payer (t_remainder_commitment t) (l_accounts l),
           l_spent_legs := insert leg (l_spent_legs l),
           l_pending := bt_insert leg
             \<lparr>p_payer = payer, p_release_key = release_key, p_payee = payee,
              p_amount_commitment = t_amount_commitment t, p_deadline = deadline\<rparr> (l_pending l)\<rparr>)))))"

definition commit_pending ::
  "('p::ab_group_add, 's) prims \<Rightarrow> 'p ledger \<Rightarrow> bytes \<Rightarrow> signature \<Rightarrow> u64
    \<Rightarrow> ('p ledger, ledger_error) result" where
  "commit_pending P l leg release now =
     and_then (ok_or (bt_get (l_pending l) leg) NoSuchLeg) (\<lambda>held.
     and_then (ensure (\<not> p_deadline held < now) EscrowExpired) (\<lambda>_.
     and_then (ensure (adaptor_verify P (p_release_key held) leg release) ReleaseNotSigned) (\<lambda>_.
     and_then (ok_or (bt_get (l_accounts l) (p_payee held)) LedgerPanic) (\<lambda>bal.
     Ok (l\<lparr>l_pending := bt_remove leg (l_pending l),
           l_accounts := bt_insert (p_payee held) (bal + p_amount_commitment held) (l_accounts l)\<rparr>)))))"

definition unwind_pending ::
  "'p::ab_group_add ledger \<Rightarrow> bytes \<Rightarrow> u64 \<Rightarrow> ('p ledger, ledger_error) result" where
  "unwind_pending l leg now =
     and_then (ok_or (bt_get (l_pending l) leg) NoSuchLeg) (\<lambda>held.
     and_then (ensure (\<not> now \<le> p_deadline held) EscrowNotExpired) (\<lambda>_.
     and_then (ok_or (bt_get (l_accounts l) (p_payer held)) LedgerPanic) (\<lambda>bal.
     Ok (l\<lparr>l_pending := bt_remove leg (l_pending l),
           l_accounts := bt_insert (p_payer held) (bal + p_amount_commitment held) (l_accounts l)\<rparr>))))"

section \<open>Digests\<close>

definition ledger_snapshot :: "('p, 's) prims \<Rightarrow> 'p ledger \<Rightarrow> bytes" where
  "ledger_snapshot P l = sha256 P (ascii ''QOMM:DEFMI:LEDGER:v1'' @
     concat (map (\<lambda>(handle, bal). nat_be 4 (length handle) @ handle @ compress P bal)
       (entries (l_accounts l))))"

definition transfer_digest :: "('p, 's) prims \<Rightarrow> 'p transfer \<Rightarrow> bytes" where
  "transfer_digest P t = sha256 P (ascii ''QOMM:DEFMI:TRANSFER-PROOF:v1'' @
     compress P (t_amount_commitment t) @
     (case t_amount_range t of
        Some (proof, commitment) \<Rightarrow> [1] @ commitment @ nat_be 8 (length proof) @ proof
      | None \<Rightarrow> [0]) @
     compress P (t_remainder_commitment t) @
     nat_be 8 (length (t_remainder_range t)) @ t_remainder_range t @
     (case t_tag t of Some tag \<Rightarrow> [1] @ compress P (tag_point tag) | None \<Rightarrow> [0]))"

section \<open>Histories\<close>

datatype 'p ledger_op =
    OpOpen bytes 'p
  | OpOpenAuthorised bytes 'p bytes bytes
  | OpSettle bytes bytes "'p transfer" bytes bool
  | OpPrepare bytes bytes bytes "'p transfer" bytes bool u64 'p
  | OpCommit bytes signature u64
  | OpUnwind bytes u64

fun ledger_apply ::
  "('p::ab_group_add, 's) prims \<Rightarrow> 'p ledger \<Rightarrow> 'p ledger_op \<Rightarrow> ('p ledger, ledger_error) result" where
  "ledger_apply P l (OpOpen h b) = open_account l h b"
| "ledger_apply P l (OpOpenAuthorised h b n a) = open_authorised P l h b n a"
| "ledger_apply P l (OpSettle payer payee t c b) = settle_transfer P l payer payee t c b"
| "ledger_apply P l (OpPrepare leg payer payee t c b d k) = prepare_transfer P l leg payer payee t c b d k"
| "ledger_apply P l (OpCommit leg s now) = commit_pending P l leg s now"
| "ledger_apply P l (OpUnwind leg now) = unwind_pending l leg now"

definition ledger_step ::
  "('p::ab_group_add, 's) prims \<Rightarrow> 'p ledger \<Rightarrow> 'p ledger_op \<Rightarrow> 'p ledger option" where
  "ledger_step P l op = result_ok (ledger_apply P l op)"

section \<open>What an accepted operation did\<close>

lemma check_transferD:
  assumes "check_transfer P l payer t context amount_bounded = Ok ()"
  obtains bal where "bt_get (l_accounts l) payer = Some bal"
    and "t_remainder_commitment t = bal - t_amount_commitment t"
    and "range_verify P (ledger_gens l (t_tag t)) (remainder_transcript (ledger_context P context (t_tag t)))
      (t_remainder_range t) [compress P (t_remainder_commitment t)] (l_bits l)"
    and "\<not> amount_bounded \<longrightarrow> (\<exists>proof. range_verify P (ledger_gens l (t_tag t))
      (amount_transcript (ledger_context P context (t_tag t))) proof
      [compress P (t_amount_commitment t)] (l_bits l))"
proof -
  from assms obtain bal where "bt_get (l_accounts l) payer = Some bal"
    by (auto simp: check_transfer_def)
  with assms show thesis
    by (intro that [of bal])
      (auto simp: check_transfer_def Let_def algebra_simps split: option.splits bool.splits if_splits)
qed

definition ledger_total :: "'p::ab_group_add ledger \<Rightarrow> 'p" where
  "ledger_total l = bt_sum (\<lambda>v. v) (l_accounts l) + bt_sum p_amount_commitment (l_pending l)"

lemma conserved_iff: "conserved l \<longleftrightarrow> ledger_total l = l_minted l"
  by (simp add: conserved_def ledger_total_def bt_sum_def Let_def)

lemma settle_transferD:
  assumes "settle_transfer P l payer payee t context amount_bounded = Ok l'"
  obtains bal held where "check_transfer P l payer t context amount_bounded = Ok ()"
    and "bt_get (l_accounts l) payer = Some bal"
    and "bt_get (bt_insert payer (bal - t_amount_commitment t) (l_accounts l)) payee = Some held"
    and "l' = l\<lparr>l_accounts := bt_insert payee (held + t_amount_commitment t)
      (bt_insert payer (bal - t_amount_commitment t) (l_accounts l))\<rparr>"
proof -
  from assms have c: "check_transfer P l payer t context amount_bounded = Ok ()"
    and a: "apply_transfer l payer payee t = Ok l'"
    by (auto simp: settle_transfer_def)
  from c obtain bal where "bt_get (l_accounts l) payer = Some bal"
    "t_remainder_commitment t = bal - t_amount_commitment t"
    by (rule check_transferD)
  moreover from a this obtain held where
    "bt_get (bt_insert payer (bal - t_amount_commitment t) (l_accounts l)) payee = Some held"
    "l' = l\<lparr>l_accounts := bt_insert payee (held + t_amount_commitment t)
      (bt_insert payer (bal - t_amount_commitment t) (l_accounts l))\<rparr>"
    by (auto simp: apply_transfer_def Let_def split del: if_split)
  ultimately show thesis
    using c by (intro that)
qed

lemma prepare_transferD:
  assumes "prepare_transfer P l leg payer payee t context amount_bounded deadline key = Ok l'"
  obtains bal where "check_transfer P l payer t context amount_bounded = Ok ()"
    and "bt_get (l_pending l) leg = None" and "leg \<notin> l_spent_legs l"
    and "bt_contains (l_accounts l) payee"
    and "bt_get (l_accounts l) payer = Some bal"
    and "l' = l\<lparr>l_accounts := bt_insert payer (bal - t_amount_commitment t) (l_accounts l),
           l_spent_legs := insert leg (l_spent_legs l),
           l_pending := bt_insert leg
             \<lparr>p_payer = payer, p_release_key = key, p_payee = payee,
              p_amount_commitment = t_amount_commitment t, p_deadline = deadline\<rparr> (l_pending l)\<rparr>"
proof -
  from assms have "check_transfer P l payer t context amount_bounded = Ok ()"
    by (auto simp: prepare_transfer_def)
  then obtain bal where "bt_get (l_accounts l) payer = Some bal"
    "t_remainder_commitment t = bal - t_amount_commitment t"
    by (rule check_transferD)
  with assms show thesis
    by (intro that [of bal]) (auto simp: prepare_transfer_def)
qed

text \<open>Releasing or unwinding moves the escrow's amount to one account: its payee or its payer.\<close>

lemma commit_pendingD:
  assumes "commit_pending P l leg release now = Ok l'"
  obtains e bal where "bt_get (l_pending l) leg = Some e" and "now \<le> p_deadline e"
    and "adaptor_verify P (p_release_key e) leg release"
    and "bt_get (l_accounts l) (p_payee e) = Some bal"
    and "l' = l\<lparr>l_pending := bt_remove leg (l_pending l),
      l_accounts := bt_insert (p_payee e) (bal + p_amount_commitment e) (l_accounts l)\<rparr>"
  using assms by (auto simp: commit_pending_def not_less)

lemma unwind_pendingD:
  assumes "unwind_pending l leg now = Ok l'"
  obtains e bal where "bt_get (l_pending l) leg = Some e" and "p_deadline e < now"
    and "bt_get (l_accounts l) (p_payer e) = Some bal"
    and "l' = l\<lparr>l_pending := bt_remove leg (l_pending l),
      l_accounts := bt_insert (p_payer e) (bal + p_amount_commitment e) (l_accounts l)\<rparr>"
  using assms by (auto simp: unwind_pending_def not_le)

section \<open>The invariant of every history\<close>

definition escrows_backed :: "'p ledger \<Rightarrow> bool" where
  "escrows_backed l \<longleftrightarrow> (\<forall>leg e. bt_get (l_pending l) leg = Some e \<longrightarrow>
     bt_contains (l_accounts l) (p_payer e) \<and> bt_contains (l_accounts l) (p_payee e) \<and>
     leg \<in> l_spent_legs l)"

definition ledger_inv :: "'p::ab_group_add ledger \<Rightarrow> bool" where
  "ledger_inv l \<longleftrightarrow> conserved l \<and> escrows_backed l"

lemma escrows_backedE:
  assumes "escrows_backed l" "bt_get (l_pending l) leg = Some e"
  obtains b c where "bt_get (l_accounts l) (p_payer e) = Some b"
    and "bt_get (l_accounts l) (p_payee e) = Some c" and "leg \<in> l_spent_legs l"
  using assms unfolding escrows_backed_def by (metis not_None_eq)

lemma release_total:
  assumes "bt_get (l_pending l) leg = Some e" "bt_get (l_accounts l) h = Some bal"
  shows "ledger_total (l\<lparr>l_pending := bt_remove leg (l_pending l),
    l_accounts := bt_insert h (bal + p_amount_commitment e) (l_accounts l)\<rparr>) = ledger_total l"
  using bt_balances.total_add [OF assms(2), of "p_amount_commitment e"]
    bt_sum_remove [OF assms(1), of p_amount_commitment]
  by (simp add: ledger_total_def algebra_simps)

lemma ledger_step_total:
  assumes "ledger_step P l op = Some l'"
  shows "ledger_total l' - l_minted l' = ledger_total l - l_minted l"
proof (cases op)
  case (OpOpen h b)
  with assms show ?thesis
    by (auto simp: ledger_step_def open_account_def ledger_total_def bt_sum_insert_new)
next
  case (OpOpenAuthorised h b n a)
  with assms show ?thesis
    by (auto simp: ledger_step_def open_authorised_def ledger_total_def bt_sum_insert_new Let_def)
next
  case (OpSettle payer payee t c b)
  with assms have "settle_transfer P l payer payee t c b = Ok l'" by (simp add: ledger_step_def)
  then show ?thesis
    by (rule settle_transferD) (simp add: ledger_total_def bt_balances.total_move)
next
  case (OpPrepare leg payer payee t c b d k)
  with assms have "prepare_transfer P l leg payer payee t c b d k = Ok l'" by (simp add: ledger_step_def)
  then show ?thesis
    by (rule prepare_transferD)
      (simp add: ledger_total_def bt_sum_insert_new bt_balances.total_put_old)
next
  case (OpCommit leg s now)
  with assms have "commit_pending P l leg s now = Ok l'" by (simp add: ledger_step_def)
  then show ?thesis
    by (rule commit_pendingD) (simp add: release_total)
next
  case (OpUnwind leg now)
  with assms have "unwind_pending l leg now = Ok l'" by (simp add: ledger_step_def)
  then show ?thesis
    by (rule unwind_pendingD) (simp add: release_total)
qed

lemma ledger_step_backed:
  assumes "escrows_backed l" "ledger_step P l op = Some l'"
  shows "escrows_backed l'"
proof (cases op)
  case (OpOpen h b)
  with assms show ?thesis
    by (auto simp: ledger_step_def open_account_def escrows_backed_def)
next
  case (OpOpenAuthorised h b n a)
  with assms show ?thesis
    by (auto simp: ledger_step_def open_authorised_def escrows_backed_def Let_def)
next
  case (OpSettle payer payee t c b)
  with assms have "settle_transfer P l payer payee t c b = Ok l'" by (simp add: ledger_step_def)
  then show ?thesis
    using assms(1) by (elim settle_transferD) (auto simp: escrows_backed_def)
next
  case (OpPrepare leg payer payee t c b d k)
  with assms have "prepare_transfer P l leg payer payee t c b d k = Ok l'" by (simp add: ledger_step_def)
  then show ?thesis
    using assms(1) by (elim prepare_transferD) (auto simp: escrows_backed_def)
next
  case (OpCommit leg s now)
  with assms have "commit_pending P l leg s now = Ok l'" by (simp add: ledger_step_def)
  then show ?thesis
    using assms(1) by (elim commit_pendingD) (auto simp: escrows_backed_def)
next
  case (OpUnwind leg now)
  with assms have "unwind_pending l leg now = Ok l'" by (simp add: ledger_step_def)
  then show ?thesis
    using assms(1) by (elim unwind_pendingD) (auto simp: escrows_backed_def)
qed

lemma ledger_step_inv: "ledger_inv l \<Longrightarrow> ledger_step P l op = Some l' \<Longrightarrow> ledger_inv l'"
  using ledger_step_total [of P l op l'] ledger_step_backed [of l P op l']
  by (simp add: ledger_inv_def conserved_iff)

lemma ledger_new_inv [simp]:
  "ledger_inv (ledger_new key bits)" "ledger_inv (under_issuer key bits issuer)"
  by (simp_all add: ledger_inv_def conserved_iff ledger_total_def escrows_backed_def
      ledger_new_def under_issuer_def)

section \<open>What is used once\<close>

fun prepared_leg :: "'p ledger_op \<Rightarrow> bytes option" where
  "prepared_leg (OpPrepare leg payer payee t c b d k) = Some leg"
| "prepared_leg _ = None"

fun resolved_leg :: "'p ledger_op \<Rightarrow> bytes option" where
  "resolved_leg (OpCommit leg s now) = Some leg"
| "resolved_leg (OpUnwind leg now) = Some leg"
| "resolved_leg _ = None"

fun authorisation_body :: "('p, 's) prims \<Rightarrow> 'p ledger_op \<Rightarrow> bytes option" where
  "authorisation_body P (OpOpenAuthorised h b n a) = Some (issuance_body P h b n)"
| "authorisation_body P _ = None"

definition resolved_legs :: "'p ledger \<Rightarrow> bytes set" where
  "resolved_legs l = {leg \<in> l_spent_legs l. bt_get (l_pending l) leg = None}"

lemmas ledger_ops = open_account_def open_authorised_def Let_def commit_pending_def unwind_pending_def
  prepare_transfer_def settle_transfer_def apply_transfer_def

interpretation leg_names: once_only "ledger_step P" "\<lambda>_. True" prepared_leg l_spent_legs
  for P :: "('p::ab_group_add, 's) prims"
proof
  fix l l' :: "'p ledger" and op
  assume "ledger_step P l op = Some l'"
  then show "l_spent_legs l \<subseteq> l_spent_legs l'"
    and "prepared_leg op = Some leg \<Longrightarrow> leg \<notin> l_spent_legs l"
    and "prepared_leg op = Some leg \<Longrightarrow> leg \<in> l_spent_legs l'" for leg
    by (cases op; auto simp: ledger_step_def ledger_ops)+
qed simp

interpretation issuer_authorisations: once_only "ledger_step P" "\<lambda>_. True" "authorisation_body P" l_issued
  for P :: "('p::ab_group_add, 's) prims"
proof
  fix l l' :: "'p ledger" and op
  assume "ledger_step P l op = Some l'"
  then show "l_issued l \<subseteq> l_issued l'"
    and "authorisation_body P op = Some body \<Longrightarrow> body \<notin> l_issued l"
    and "authorisation_body P op = Some body \<Longrightarrow> body \<in> l_issued l'" for body
    by (cases op; auto simp: ledger_step_def ledger_ops)+
qed simp

interpretation escrow_outcomes: once_only "ledger_step P" escrows_backed resolved_leg resolved_legs
  for P :: "('p::ab_group_add, 's) prims"
proof
  fix l l' :: "'p ledger" and op
  assume inv: "escrows_backed l" and step: "ledger_step P l op = Some l'"
  from inv step show "escrows_backed l'" by (rule ledger_step_backed)
  from step show "resolved_legs l \<subseteq> resolved_legs l'"
    and "resolved_leg op = Some leg \<Longrightarrow> leg \<notin> resolved_legs l" for leg
    by (cases op; auto simp: ledger_step_def ledger_ops resolved_legs_def)+
  from inv step show "resolved_leg op = Some leg \<Longrightarrow> leg \<in> resolved_legs l'" for leg
    by (cases op; auto simp: ledger_step_def ledger_ops resolved_legs_def escrows_backed_def)+
qed

section \<open>The contract of a rail\<close>

text \<open>
  What a settlement over a rail relies on: a movement that was admitted is carried out,
  and carrying it out keeps the rail's invariant. Two rails settled together keep both.
\<close>

locale settlement_rail =
  fixes admits :: "'r \<Rightarrow> 'm \<Rightarrow> bool"
    and carry :: "'r \<Rightarrow> 'm \<Rightarrow> 'r option"
    and sound :: "'r \<Rightarrow> bool"
  assumes carried: "admits r m \<Longrightarrow> \<exists>r'. carry r m = Some r'"
    and keeps: "sound r \<Longrightarrow> admits r m \<Longrightarrow> carry r m = Some r' \<Longrightarrow> sound r'"

locale two_rails =
  first: settlement_rail admits1 carry1 sound1 + second: settlement_rail admits2 carry2 sound2
  for admits1 :: "'r \<Rightarrow> 'm \<Rightarrow> bool" and carry1 sound1
    and admits2 :: "'q \<Rightarrow> 'n \<Rightarrow> bool" and carry2 sound2
begin

lemma carried_together:
  assumes "admits1 r m" "admits2 q n"
  shows "\<exists>r' q'. carry1 r m = Some r' \<and> carry2 q n = Some q' \<and>
    (sound1 r \<and> sound2 q \<longrightarrow> sound1 r' \<and> sound2 q')"
  using first.carried [OF assms(1)] second.carried [OF assms(2)] first.keeps [OF _ assms(1)]
    second.keeps [OF _ assms(2)] by blast

end

fun ledger_admits :: "('p::ab_group_add, 's) prims \<Rightarrow> 'p ledger \<Rightarrow> bytes \<times> bytes \<times> 'p transfer \<times> bytes \<times> bool \<Rightarrow> bool" where
  "ledger_admits P l (payer, payee, t, ctx, bounded) =
     (ledger_balance l payee \<noteq> None \<and> check_transfer P l payer t ctx bounded = Ok ())"

fun ledger_carry :: "'p::ab_group_add ledger \<Rightarrow> bytes \<times> bytes \<times> 'p transfer \<times> bytes \<times> bool \<Rightarrow> 'p ledger option" where
  "ledger_carry l (payer, payee, t, ctx, bounded) = result_ok (apply_transfer l payer payee t)"

lemma admitted_settles:
  "ledger_admits P l (payer, payee, t, ctx, bounded) \<Longrightarrow>
    settle_transfer P l payer payee t ctx bounded = apply_transfer l payer payee t"
  by (auto simp: settle_transfer_def ledger_balance_def)

interpretation ledger_rail: settlement_rail "ledger_admits P" ledger_carry conserved
  for P :: "('p::ab_group_add, 's) prims"
proof
  fix l :: "'p ledger" and m
  assume "ledger_admits P l m"
  then show "\<exists>l'. ledger_carry l m = Some l'"
    by (cases m) (auto simp: apply_transfer_def ledger_balance_def Let_def)
next
  fix l l' :: "'p ledger" and m
  assume a: "conserved l" "ledger_admits P l m" "ledger_carry l m = Some l'"
  obtain payer payee t ctx bounded where m: "m = (payer, payee, t, ctx, bounded)" by (cases m)
  with a(2,3) have "ledger_step P l (OpSettle payer payee t ctx bounded) = Some l'"
    using admitted_settles [of P l payer payee t ctx bounded] by (simp add: ledger_step_def)
  from ledger_step_total [OF this] a(1) m a(3) show "conserved l'"
    by (auto simp: conserved_iff apply_transfer_def Let_def)
qed

interpretation ledger_rails: two_rails "ledger_admits P" ledger_carry conserved
    "ledger_admits P" ledger_carry conserved
  for P :: "('p::ab_group_add, 's) prims" ..

section \<open>A built transfer is accepted\<close>

text \<open>The commitment to a value under the asset generator \<open>A\<close> and the ledger's blinding generator.\<close>

definition opens :: "('p::ab_group_add, 's::comm_ring_1) prims \<Rightarrow> 'p ledger \<Rightarrow> 'p \<Rightarrow> 's \<Rightarrow> 's \<Rightarrow> 'p" where
  "opens P l A v r = smul P v A + smul P r (ped_h (l_key l))"

text \<open>The tag is the generator \<open>A\<close> blinded with \<open>gamma\<close>, or there is none and \<open>A\<close> is the ledger's own.\<close>

definition tag_of :: "('p::ab_group_add, 's::comm_ring_1) prims \<Rightarrow> 'p ledger \<Rightarrow> 'p \<Rightarrow> 's \<Rightarrow> 'p blinded_tag option \<Rightarrow> bool" where
  "tag_of P l A gamma tag \<longleftrightarrow> (case tag of
       None \<Rightarrow> A = ped_g (l_key l) \<and> gamma = 0
     | Some t \<Rightarrow> tag_point t = opens P l A 1 gamma)"

lemma gens_commit_tag:
  assumes "scalar_module P" "pedersen_commits P" "tag_of P l A gamma tag"
  shows "gens_commit P (ledger_gens l tag) v r = opens P l A v (v * gamma + r)"
proof -
  note S = smul_add [OF assms(1)] smul_add_right [OF assms(1)] smul_mult [OF assms(1), symmetric]
    smul_one [OF assms(1)] smul_zero [OF assms(1)]
  have c: "gens_commit P g v r = smul P v (gen_B g) + smul P r (gen_B_blinding g)" for g
    using assms(2) by (simp add: pedersen_commits_def)
  show ?thesis
    using assms(3) unfolding c
    by (auto simp: tag_of_def ledger_gens_def tag_gens_def opens_def S algebra_simps split: option.splits)
qed

lemma prove_one_complete:
  assumes "range_complete P" "range_width bits" "unat v < 2 ^ bits"
  obtains pf where "prove_one P g t v r bits e = Ok (pf, compress P (gens_commit P g (scalar_u64 v) r))"
    and "range_verify P g t pf [compress P (gens_commit P g (scalar_u64 v) r)] bits"
  by (rule range_prove_one [OF assms, of g t r]) (rule that, auto simp: prove_one_def)

lemma scalar_u64_diff:
  "amount \<le> v \<Longrightarrow> (scalar_u64 (v - amount) :: 's::comm_ring_1) = scalar_u64 v - scalar_u64 amount"
  by (simp add: scalar_u64_def unat_sub_le word_le_nat_alt)

lemma build_check:
  fixes P :: "('p::ab_group_add, 's::comm_ring_1) prims"
  assumes laws: "scalar_module P" "pedersen_commits P" "ristretto_encoding P" "range_complete P"
    and tag: "tag_of P l A gamma tag"
    and bal: "bt_get (l_accounts l) payer = Some (opens P l A (scalar_u64 v) r)"
    and amount: "amount \<le> v" "unat v < 2 ^ l_bits l" and width: "range_width (l_bits l)"
  obtains t sec where
    "build_transfer_with_amount_blinding P l v r amount ab context tag gamma bounded = Ok (t, sec)"
    and "check_transfer P l payer t context bounded = Ok ()"
    and "t_amount_commitment t = opens P l A (scalar_u64 amount) (ts_payee_delta sec)"
    and "t_remainder_commitment t = opens P l A (scalar_u64 (v - amount)) (r - ts_payee_delta sec)"
proof -
  let ?g = "ledger_gens l tag" and ?ctx = "ledger_context P context tag"
  let ?rb = "r - ab - gamma * scalar_u64 v"
  have u: "unat amount < 2 ^ l_bits l" "unat (v - amount) < 2 ^ l_bits l"
    using amount by (simp_all add: word_le_nat_alt unat_sub_le)
  obtain pa where pa: "prove_one P ?g (amount_transcript ?ctx) amount ab (l_bits l) AmountProofFailed =
        Ok (pa, compress P (gens_commit P ?g (scalar_u64 amount) ab))"
      "range_verify P ?g (amount_transcript ?ctx) pa
        [compress P (gens_commit P ?g (scalar_u64 amount) ab)] (l_bits l)"
    by (rule prove_one_complete [OF laws(4) width u(1)])
  obtain pr where pr: "prove_one P ?g (remainder_transcript ?ctx) (v - amount) ?rb (l_bits l) RemainderProofFailed =
        Ok (pr, compress P (gens_commit P ?g (scalar_u64 (v - amount)) ?rb))"
      "range_verify P ?g (remainder_transcript ?ctx) pr
        [compress P (gens_commit P ?g (scalar_u64 (v - amount)) ?rb)] (l_bits l)"
    by (rule prove_one_complete [OF laws(4) width u(2)])
  note c = gens_commit_tag [OF laws(1,2) tag] and d = scalar_u64_diff [OF amount(1), where 's = 's]
  have rem: "gens_commit P ?g (scalar_u64 (v - amount)) ?rb =
      opens P l A (scalar_u64 (v - amount)) (r - (gamma * scalar_u64 amount + ab))"
    unfolding c by (simp add: d algebra_simps)
  have amt: "gens_commit P ?g (scalar_u64 amount) ab =
      opens P l A (scalar_u64 amount) (gamma * scalar_u64 amount + ab)"
    unfolding c by (simp add: algebra_simps)
  have diff: "opens P l A (scalar_u64 v) r -
      opens P l A (scalar_u64 amount) (gamma * scalar_u64 amount + ab) =
      opens P l A (scalar_u64 (v - amount)) (r - (gamma * scalar_u64 amount + ab))"
    using smul_diff [OF laws(1)] by (simp add: opens_def d algebra_simps)
  let ?t = "\<lparr>t_amount_commitment = gens_commit P ?g (scalar_u64 amount) ab,
      t_amount_range = if bounded then None else Some (pa, compress P (gens_commit P ?g (scalar_u64 amount) ab)),
      t_remainder_commitment = gens_commit P ?g (scalar_u64 (v - amount)) ?rb,
      t_remainder_range = pr, t_tag = tag\<rparr>"
  have dec: "decompress P (compress P x) = Some x" for x
    using laws(3) by (simp add: ristretto_encoding_def)
  show thesis
  proof (rule that)
    show "build_transfer_with_amount_blinding P l v r amount ab context tag gamma bounded =
        Ok (?t, \<lparr>ts_amount_blinding = ab, ts_payee_delta = gamma * scalar_u64 amount + ab,
          ts_remainder_blinding = ?rb\<rparr>)"
      using amount(1) pa(1) pr(1)
      by (simp add: build_transfer_with_amount_blinding_def Let_def dec not_less)
    show "check_transfer P l payer ?t context bounded = Ok ()"
      using pa(2) pr(2) bal diff by (simp add: check_transfer_def Let_def rem amt)
  qed (simp_all add: rem amt)
qed

lemma build_amount:
  assumes "build_transfer P l v r amount ctx tag gamma bounded drawn = Ok (t, sec)"
  shows "t_amount_commitment t = gens_commit P (ledger_gens l tag) (scalar_u64 amount) drawn"
    and "ts_amount_blinding sec = drawn" and "t_tag t = tag"
    and "ts_payee_delta sec = gamma * scalar_u64 amount + drawn"
    and "ts_remainder_blinding sec = r - drawn - gamma * scalar_u64 v"
  using assms by (auto simp: build_transfer_def build_transfer_with_amount_blinding_def Let_def)

lemma built_settles:
  fixes P :: "('p::ab_group_add, 's::comm_ring_1) prims"
  assumes "scalar_module P" "pedersen_commits P" "ristretto_encoding P" "range_complete P"
    and "tag_of P l A gamma tag"
    and "bt_get (l_accounts l) payer = Some (opens P l A (scalar_u64 v) r)"
    and "bt_get (l_accounts l) payee = Some (opens P l A w s)" "payer \<noteq> payee"
    and "amount \<le> v" "unat v < 2 ^ l_bits l" "range_width (l_bits l)"
  shows "\<exists>t sec l'. build_transfer P l v r amount context tag gamma bounded drawn = Ok (t, sec) \<and>
    settle_transfer P l payer payee t context bounded = Ok l' \<and>
    ledger_balance l' payer = Some (opens P l A (scalar_u64 (v - amount)) (r - ts_payee_delta sec)) \<and>
    ledger_balance l' payee = Some (opens P l A (w + scalar_u64 amount) (s + ts_payee_delta sec))"
proof -
  obtain t sec where t: "build_transfer_with_amount_blinding P l v r amount drawn context tag gamma bounded = Ok (t, sec)"
    "check_transfer P l payer t context bounded = Ok ()"
    "t_amount_commitment t = opens P l A (scalar_u64 amount) (ts_payee_delta sec)"
    "t_remainder_commitment t = opens P l A (scalar_u64 (v - amount)) (r - ts_payee_delta sec)"
    using build_check [OF assms(1-6,9,10,11)] by blast
  have "opens P l A w s + opens P l A (scalar_u64 amount) (ts_payee_delta sec) =
      opens P l A (w + scalar_u64 amount) (s + ts_payee_delta sec)"
    using smul_add [OF assms(1)] by (simp add: opens_def)
  with t assms(7,8) show ?thesis
    by (simp add: build_transfer_def settle_transfer_def apply_transfer_def ledger_balance_def)
qed

section \<open>The ledger of numbers\<close>

text \<open>
  What the ledger promises, over numbers: an account holds an amount, a payment takes at
  most what the payer holds, and an escrow is an amount on its way from one account to
  another.
\<close>

type_synonym value_ledger = "(bytes, nat) btree_map \<times> (bytes, bytes \<times> bytes \<times> nat) btree_map"

inductive value_step :: "value_ledger \<Rightarrow> value_ledger \<Rightarrow> bool" where
  v_open: "bt_get A h = None \<Longrightarrow> value_step (A, E) (bt_insert h n A, E)"
| v_pay: "bt_get A a = Some x \<Longrightarrow> q \<le> x \<Longrightarrow> bt_get (bt_insert a (x - q) A) b = Some y \<Longrightarrow>
    value_step (A, E) (bt_insert b (y + q) (bt_insert a (x - q) A), E)"
| v_hold: "bt_get A a = Some x \<Longrightarrow> q \<le> x \<Longrightarrow> bt_get E leg = None \<Longrightarrow>
    value_step (A, E) (bt_insert a (x - q) A, bt_insert leg (a, b, q) E)"
| v_release: "bt_get E leg = Some (a, b, q) \<Longrightarrow> h = a \<or> h = b \<Longrightarrow> bt_get A h = Some y \<Longrightarrow>
    value_step (A, E) (bt_insert h (y + q) A, bt_remove leg E)"

definition value_total :: "value_ledger \<Rightarrow> nat" where
  "value_total S = bt_sum (\<lambda>n. n) (fst S) + bt_sum (\<lambda>(a, b, q). q) (snd S)"

lemma value_step_total:
  assumes "value_step S S'" "dom (bt_get (fst S')) = dom (bt_get (fst S))"
  shows "value_total S' = value_total S"
  using assms
proof (induction rule: value_step.induct)
  case (v_open A h E n)
  then have "h \<in> dom (bt_get A)" by auto
  with v_open show ?case by auto
next
  case (v_pay A a x q b y E)
  from bt_sum_insert_old [OF v_pay(1), of "\<lambda>n. n" "x - q"]
    bt_sum_insert_old [OF v_pay(3), of "\<lambda>n. n" "y + q"] v_pay(2)
  show ?case by (simp add: value_total_def)
next
  case (v_hold A a x q E leg b)
  from bt_sum_insert_old [OF v_hold(1), of "\<lambda>n. n" "x - q"] v_hold(2)
    bt_sum_insert_new [OF v_hold(3), of "\<lambda>(a, b, q). q"]
  show ?case by (simp add: value_total_def)
next
  case (v_release E leg a b q h A y)
  from bt_sum_insert_old [OF v_release(3), of "\<lambda>n. n" "y + q"]
    bt_sum_remove [OF v_release(1), of "\<lambda>(a, b, q). q"]
  show ?case by (simp add: value_total_def)
qed

text \<open>A ledger reads as a ledger of numbers when each of its commitments has the number as its value.\<close>

definition reads :: "('p \<Rightarrow> 's::comm_ring_1) \<Rightarrow> 'p ledger \<Rightarrow> value_ledger \<Rightarrow> bool" where
  "reads val l S \<longleftrightarrow>
     (\<forall>h. rel_option (\<lambda>x n. val x = of_nat n) (bt_get (l_accounts l) h) (bt_get (fst S) h)) \<and>
     (\<forall>leg. rel_option (\<lambda>e (a, b, q). p_payer e = a \<and> p_payee e = b \<and>
        val (p_amount_commitment e) = of_nat q) (bt_get (l_pending l) leg) (bt_get (snd S) leg))"

text \<open>
  What the ledger does not check itself: a tag has the value of the asset's generator, an
  amount that is bounded elsewhere is in range, and an opening balance is a number.
\<close>

definition honest_transfer :: "('p \<Rightarrow> 's::comm_ring_1) \<Rightarrow> nat \<Rightarrow> 'p transfer \<Rightarrow> bool \<Rightarrow> bool" where
  "honest_transfer val m t bounded \<longleftrightarrow>
     (\<forall>tag. t_tag t = Some tag \<longrightarrow> val (tag_point tag) = 1) \<and>
     (bounded \<longrightarrow> (\<exists>q < 2 ^ m. val (t_amount_commitment t) = of_nat q))"

fun honest_op :: "('p \<Rightarrow> 's::comm_ring_1) \<Rightarrow> nat \<Rightarrow> 'p ledger_op \<Rightarrow> bool" where
  "honest_op val m (OpOpen h b) = (\<exists>n. val b = of_nat n)"
| "honest_op val m (OpOpenAuthorised h b n a) = (\<exists>n. val b = of_nat n)"
| "honest_op val m (OpSettle payer payee t c b) = honest_transfer val m t b"
| "honest_op val m (OpPrepare leg payer payee t c b d k) = honest_transfer val m t b"
| "honest_op val m _ = True"

lemma reads_account:
  assumes "reads val l S" "bt_get (l_accounts l) h = Some x"
  shows "\<exists>n. bt_get (fst S) h = Some n \<and> val x = of_nat n"
proof -
  from assms(1) have "rel_option (\<lambda>x n. val x = of_nat n) (bt_get (l_accounts l) h) (bt_get (fst S) h)"
    by (simp add: reads_def)
  with assms(2) show ?thesis by (simp add: option_rel_Some1)
qed

lemma reads_pending:
  assumes "reads val l S" "bt_get (l_pending l) leg = Some e"
  shows "\<exists>q. bt_get (snd S) leg = Some (p_payer e, p_payee e, q) \<and> val (p_amount_commitment e) = of_nat q"
proof -
  from assms(1) have "rel_option (\<lambda>e (a, b, q). p_payer e = a \<and> p_payee e = b \<and>
      val (p_amount_commitment e) = of_nat q) (bt_get (l_pending l) leg) (bt_get (snd S) leg)"
    by (simp add: reads_def)
  with assms(2) show ?thesis by (auto simp: option_rel_Some1)
qed

lemma rel_option_None: "rel_option R a b \<Longrightarrow> a = None \<longleftrightarrow> b = None"
  by (auto elim: option.rel_cases)

lemma reads_none:
  assumes "reads val l S"
  shows "bt_get (l_accounts l) h = None \<longleftrightarrow> bt_get (fst S) h = None"
    and "bt_get (l_pending l) leg = None \<longleftrightarrow> bt_get (snd S) leg = None"
  using assms unfolding reads_def by (blast dest: rel_option_None)+

lemma reads_insert_account:
  "reads val l (A, E) \<Longrightarrow> val x = of_nat n \<Longrightarrow>
    reads val (l\<lparr>l_accounts := bt_insert h x (l_accounts l)\<rparr>) (bt_insert h n A, E)"
  by (simp add: reads_def)

lemma reads_insert_pending:
  "reads val l (A, E) \<Longrightarrow> val (p_amount_commitment e) = of_nat q \<Longrightarrow>
    reads val (l\<lparr>l_pending := bt_insert leg e (l_pending l)\<rparr>)
      (A, bt_insert leg (p_payer e, p_payee e, q) E)"
  by (simp add: reads_def)

lemma reads_remove_pending:
  "reads val l (A, E) \<Longrightarrow>
    reads val (l\<lparr>l_pending := bt_remove leg (l_pending l)\<rparr>) (A, bt_remove leg E)"
  by (simp add: reads_def)

text \<open>An accepted transfer's amount is a number the payer holds.\<close>

lemma remainder_value:
  assumes val: "algebraic_reading P (l_key l) val"
    and check: "check_transfer P l payer t ctx bounded = Ok ()"
    and tag: "\<forall>tag. t_tag t = Some tag \<longrightarrow> val (tag_point tag) = 1"
  shows "\<exists>v < 2 ^ l_bits l. val (t_remainder_commitment t) = of_nat v"
    and "\<not> bounded \<Longrightarrow> \<exists>v < 2 ^ l_bits l. val (t_amount_commitment t) = of_nat v"
proof -
  have g: "gen_B_blinding (ledger_gens l (t_tag t)) = ped_h (l_key l)"
    "val (gen_B (ledger_gens l (t_tag t))) = 1"
    using tag val_g [OF val]
    by (auto simp: ledger_gens_def tag_gens_def split: option.splits)
  note range = val_range [OF val _ g(1), unfolded g(2), simplified]
  show "\<exists>v < 2 ^ l_bits l. val (t_remainder_commitment t) = of_nat v"
    using check by (rule check_transferD) (auto intro: range)
  show "\<exists>v < 2 ^ l_bits l. val (t_amount_commitment t) = of_nat v" if "\<not> bounded"
    using check by (rule check_transferD) (use that in \<open>auto intro: range\<close>)
qed

lemma checked_value:
  fixes P :: "('p::ab_group_add, 's::comm_ring_1) prims"
  assumes val: "algebraic_reading P (l_key l) val"
    and wide: "wide_scalars TYPE('s) n" "l_bits l \<le> m" "m < n"
    and reads: "reads val l S" "value_total S < 2 ^ n"
    and check: "check_transfer P l payer t ctx bounded = Ok ()"
    and tag: "\<forall>tag. t_tag t = Some tag \<longrightarrow> val (tag_point tag) = 1"
    and q: "val (t_amount_commitment t) = of_nat q" "q < 2 ^ m"
  shows "\<exists>x. bt_get (fst S) payer = Some x \<and> q \<le> x"
proof -
  obtain bal where bal: "bt_get (l_accounts l) payer = Some bal"
    and rem: "t_remainder_commitment t = bal - t_amount_commitment t"
    using check by (rule check_transferD)
  have "(2::nat) ^ l_bits l \<le> 2 ^ m" using wide(2) by (intro power_increasing) auto
  with remainder_value(1) [OF val check tag] obtain r where
    r: "r < 2 ^ m" "val (t_remainder_commitment t) = of_nat r" by (meson less_le_trans)
  from reads_account [OF reads(1) bal] obtain x where
    x: "bt_get (fst S) payer = Some x" "val bal = of_nat x" by blast
  have "(2::nat) ^ Suc m \<le> 2 ^ n"
    using wide(3) by (intro power_increasing) auto
  with r q have "q + r < 2 ^ n" by simp
  moreover have "x < 2 ^ n"
    using bt_sum_ge [OF x(1), of "\<lambda>n. n"] reads(2) by (simp add: value_total_def)
  moreover have "(of_nat x :: 's) = of_nat (q + r)"
    using x(2) r(2) q(1) val_add [OF val, of "t_amount_commitment t" "t_remainder_commitment t"]
    by (simp add: rem)
  ultimately have "x = q + r" using wide_scalarsD [OF wide(1)] by blast
  with x show ?thesis by auto
qed

lemma checked_amount:
  fixes P :: "('p::ab_group_add, 's::comm_ring_1) prims"
  assumes val: "algebraic_reading P (l_key l) val"
    and wide: "wide_scalars TYPE('s) n" "l_bits l \<le> m" "m < n"
    and reads: "reads val l S" "value_total S < 2 ^ n"
    and check: "check_transfer P l payer t ctx bounded = Ok ()" "honest_transfer val m t bounded"
  obtains x q where "bt_get (fst S) payer = Some x" "q \<le> x"
    and "val (t_amount_commitment t) = of_nat q"
proof -
  have tag: "\<forall>tag. t_tag t = Some tag \<longrightarrow> val (tag_point tag) = 1"
    using check(2) by (simp add: honest_transfer_def)
  have le: "(2::nat) ^ l_bits l \<le> 2 ^ m" using wide(2) by (intro power_increasing) auto
  obtain q where q: "val (t_amount_commitment t) = of_nat q" "q < 2 ^ m"
    using check(2) remainder_value(2) [OF val check(1) tag] le
    unfolding honest_transfer_def by (cases bounded) (meson less_le_trans)+
  from checked_value [OF val wide reads check(1) tag q] q(1) that show thesis by blast
qed

text \<open>Applying a checked transfer of \<open>q\<close> moves \<open>q\<close> in the ledger of numbers.\<close>

lemma moved_reads:
  assumes val: "algebraic_reading P key val" and reads: "reads val l (A, E)"
    and bal: "bt_get (l_accounts l) payer = Some bal"
    and held: "bt_get (bt_insert payer (bal - t_amount_commitment t) (l_accounts l)) payee = Some held"
    and q: "bt_get A payer = Some x" "q \<le> x" "val (t_amount_commitment t) = of_nat q"
    and l': "l' = l\<lparr>l_accounts := bt_insert payee (held + t_amount_commitment t)
      (bt_insert payer (bal - t_amount_commitment t) (l_accounts l))\<rparr>"
  shows "\<exists>y. bt_get (bt_insert payer (x - q) A) payee = Some y \<and>
    reads val l' (bt_insert payee (y + q) (bt_insert payer (x - q) A), E)"
proof -
  have x: "val (bal - t_amount_commitment t) = of_nat (x - q)"
    using reads_account [OF reads bal] q val_diff [OF val] by auto
  let ?l = "l\<lparr>l_accounts := bt_insert payer (bal - t_amount_commitment t) (l_accounts l)\<rparr>"
  have r: "reads val ?l (bt_insert payer (x - q) A, E)"
    using reads x by (rule reads_insert_account)
  with reads_account [OF r, of payee held] held obtain y where
    y: "bt_get (bt_insert payer (x - q) A) payee = Some y" "val held = of_nat y" by auto
  with reads_insert_account [OF r, of "held + t_amount_commitment t" "y + q" payee] q(3) val_add [OF val] l'
  show ?thesis by auto
qed

lemma released_reads:
  assumes val: "algebraic_reading P key val" and reads: "reads val l (A, E)"
    and e: "bt_get (l_pending l) leg = Some e" "h = p_payer e \<or> h = p_payee e"
    and bal: "bt_get (l_accounts l) h = Some bal"
    and l': "l' = l\<lparr>l_pending := bt_remove leg (l_pending l),
      l_accounts := bt_insert h (bal + p_amount_commitment e) (l_accounts l)\<rparr>"
  shows "\<exists>S'. value_step (A, E) S' \<and> reads val l' S'"
proof -
  from reads_account [OF reads bal] obtain y where y: "bt_get A h = Some y" "val bal = of_nat y"
    by auto
  from reads_pending [OF reads e(1)] obtain q where
    q: "bt_get E leg = Some (p_payer e, p_payee e, q)" "val (p_amount_commitment e) = of_nat q" by auto
  have "val (bal + p_amount_commitment e) = of_nat (y + q)"
    using y q val_add [OF val] by simp
  then have "reads val l' (bt_insert h (y + q) A, bt_remove leg E)"
    using reads_insert_account [OF reads_remove_pending [OF reads, of leg], of _ "y + q" h] l' by simp
  with v_release [OF q(1) e(2) y(1)] show ?thesis by blast
qed

lemma settle_reads:
  fixes P :: "('p::ab_group_add, 's::comm_ring_1) prims"
  assumes val: "algebraic_reading P (l_key l) val" and wide: "wide_scalars TYPE('s) n" "l_bits l \<le> m" "m < n"
    and reads: "reads val l (A, E)" "value_total (A, E) < 2 ^ n"
    and h: "honest_transfer val m t b"
    and step: "settle_transfer P l payer payee t c b = Ok l'"
  shows "\<exists>S'. value_step (A, E) S' \<and> reads val l' S'"
proof -
  from step obtain bal held where ok: "check_transfer P l payer t c b = Ok ()"
    "bt_get (l_accounts l) payer = Some bal"
    "bt_get (bt_insert payer (bal - t_amount_commitment t) (l_accounts l)) payee = Some held"
    "l' = l\<lparr>l_accounts := bt_insert payee (held + t_amount_commitment t)
      (bt_insert payer (bal - t_amount_commitment t) (l_accounts l))\<rparr>"
    by (rule settle_transferD)
  obtain x q where q: "bt_get A payer = Some x" "q \<le> x" "val (t_amount_commitment t) = of_nat q"
    using checked_amount [OF val wide reads ok(1) h] by auto
  from moved_reads [OF val reads(1) ok(2,3) q ok(4)] v_pay [OF q(1,2)] show ?thesis by blast
qed

lemma prepare_reads:
  fixes P :: "('p::ab_group_add, 's::comm_ring_1) prims"
  assumes val: "algebraic_reading P (l_key l) val" and wide: "wide_scalars TYPE('s) n" "l_bits l \<le> m" "m < n"
    and reads: "reads val l (A, E)" "value_total (A, E) < 2 ^ n"
    and h: "honest_transfer val m t b"
    and step: "prepare_transfer P l leg payer payee t c b d k = Ok l'"
  shows "\<exists>S'. value_step (A, E) S' \<and> reads val l' S'"
proof -
  from step obtain bal where ok: "check_transfer P l payer t c b = Ok ()"
    "bt_get (l_accounts l) payer = Some bal" "bt_get (l_pending l) leg = None"
    "l_accounts l' = bt_insert payer (bal - t_amount_commitment t) (l_accounts l)"
    "l_pending l' = bt_insert leg \<lparr>p_payer = payer, p_release_key = k, p_payee = payee,
       p_amount_commitment = t_amount_commitment t, p_deadline = d\<rparr> (l_pending l)"
    by (rule prepare_transferD) simp
  obtain x q where q: "bt_get A payer = Some x" "q \<le> x" "val (t_amount_commitment t) = of_nat q"
    using checked_amount [OF val wide reads ok(1) h] by auto
  have x: "val (bal - t_amount_commitment t) = of_nat (x - q)"
    using reads_account [OF reads(1) ok(2)] q val_diff [OF val] by auto
  have "bt_get E leg = None" using reads_none(2) [OF reads(1)] ok(3) by auto
  with q(1,2) have "value_step (A, E) (bt_insert payer (x - q) A, bt_insert leg (payer, payee, q) E)"
    by (intro v_hold)
  moreover have "reads val l' (bt_insert payer (x - q) A, bt_insert leg (payer, payee, q) E)"
    using reads(1) x q(3) ok(4,5) by (simp add: reads_def)
  ultimately show ?thesis by blast
qed

lemma ledger_step_reads:
  fixes P :: "('p::ab_group_add, 's::comm_ring_1) prims"
  assumes val: "algebraic_reading P (l_key l) val" and wide: "wide_scalars TYPE('s) n" "l_bits l \<le> m" "m < n"
    and reads: "reads val l (A, E)" "value_total (A, E) < 2 ^ n"
    and step: "ledger_step P l op = Some l'" "honest_op val m op"
  shows "\<exists>S'. value_step (A, E) S' \<and> reads val l' S'"
proof (cases op)
  case (OpOpen h b)
  with step obtain n where "val b = of_nat n" "bt_get (l_accounts l) h = None"
    "l' = l\<lparr>l_accounts := bt_insert h b (l_accounts l), l_minted := l_minted l + b\<rparr>"
    by (auto simp: ledger_step_def open_account_def)
  with reads_none(1) [OF reads(1)] reads(1) show ?thesis
    by (intro exI [of _ "(bt_insert h n A, E)"] conjI v_open) (auto simp: reads_def)
next
  case (OpOpenAuthorised h b nonce a)
  with step obtain n where "val b = of_nat n" "bt_get (l_accounts l) h = None"
    "l_accounts l' = bt_insert h b (l_accounts l)" "l_pending l' = l_pending l"
    by (auto simp: ledger_step_def open_authorised_def Let_def)
  with reads_none(1) [OF reads(1)] reads(1) show ?thesis
    by (intro exI [of _ "(bt_insert h n A, E)"] conjI v_open) (auto simp: reads_def)
next
  case (OpSettle payer payee t c b)
  with step show ?thesis
    by (intro settle_reads [OF val wide reads]) (auto simp: ledger_step_def)
next
  case (OpPrepare leg payer payee t c b d k)
  with step show ?thesis
    by (intro prepare_reads [OF val wide reads]) (auto simp: ledger_step_def)
next
  case (OpCommit leg s now)
  with step have "commit_pending P l leg s now = Ok l'" by (simp add: ledger_step_def)
  then show ?thesis
    by (rule commit_pendingD) (rule released_reads [OF val reads(1)], auto)
next
  case (OpUnwind leg now)
  with step have "unwind_pending l leg now = Ok l'" by (simp add: ledger_step_def)
  then show ?thesis
    by (rule unwind_pendingD) (rule released_reads [OF val reads(1)], auto)
qed

fun opening_of :: "'p::ab_group_add ledger_op \<Rightarrow> 'p" where
  "opening_of (OpOpenAuthorised h b n a) = b"
| "opening_of (OpOpen h b) = b"
| "opening_of _ = 0"

fun issuer_signed :: "('p, 's) prims \<Rightarrow> bytes \<Rightarrow> 'p ledger_op \<Rightarrow> bool" where
  "issuer_signed P issuer (OpOpenAuthorised h b n a) =
     hybrid_verify P Attestation issuer (issuance_body P h b n) a"
| "issuer_signed P issuer (OpOpen h b) = False"
| "issuer_signed P issuer _ = True"

lemma ledger_step_issuer:
  assumes "ledger_step P l op = Some l'" "l_issuer l = Some issuer"
  shows "l_issuer l' = Some issuer \<and> issuer_signed P issuer op \<and> l_minted l' = l_minted l + opening_of op"
  using assms by (cases op) (auto simp: ledger_step_def ledger_ops)

lemma check_no_panic [simp]: "check_transfer P l payer t ctx bounded \<noteq> Err LedgerPanic"
  by (auto simp: check_transfer_def and_then_Err Let_def split: option.splits bool.splits prod.splits)

lemma no_panic:
  assumes "escrows_backed l"
  shows "ledger_apply P l op = Err LedgerPanic \<longleftrightarrow>
    (\<exists>h b. op = OpOpen h b \<and> (l_issuer l \<noteq> None \<or> bt_contains (l_accounts l) h))"
proof (cases op)
  case (OpCommit leg s now)
  with assms show ?thesis
    by (auto simp: ledger_ops and_then_Err escrows_backed_def)
next
  case (OpUnwind leg now)
  with assms show ?thesis
    by (auto simp: ledger_ops and_then_Err escrows_backed_def)
qed (use assms in \<open>auto simp: ledger_ops and_then_Err split: if_splits\<close>)

section \<open>Example histories\<close>

text \<open>
  A transparent ledger: two accounts, a payment of 30 out of 100, and an escrow of 20 that
  is released.
\<close>

definition demo_transfer :: "int \<Rightarrow> int \<Rightarrow> int transfer" where
  "demo_transfer q r = \<lparr>t_amount_commitment = q, t_amount_range = Some ([], enc_int q),
     t_remainder_commitment = r, t_remainder_range = [], t_tag = None\<rparr>"

definition demo_ops :: "int ledger_op list" where
  "demo_ops = [OpOpen [1] 100, OpOpen [2] 5, OpSettle [1] [2] (demo_transfer 30 70) [] False,
     OpPrepare [9] [1] [2] (demo_transfer 20 50) [] False 10 0]"

definition demo_ledger :: "int ledger" where
  "demo_ledger = \<lparr>l_key = plain_key, l_bits = 8,
     l_accounts = bt_insert [1] 50 (bt_insert [2] 35 bt_empty),
     l_pending = bt_insert [9] \<lparr>p_payer = [1], p_release_key = 0, p_payee = [2],
       p_amount_commitment = 20, p_deadline = 10\<rparr> bt_empty,
     l_spent_legs = {[9]}, l_minted = 105, l_issuer = None, l_issued = {}\<rparr>"

definition demo_issuer_ops :: "int ledger_op list" where
  "demo_issuer_ops =
     (let a = issuance_body plain [1] 100 [7]; b = issuance_body plain [2] 5 [8] in
      [OpOpenAuthorised [1] 100 [7] ([3] @ a), OpOpenAuthorised [2] 5 [8] ([3] @ b)])"

lemmas demo_defs = demo_ops_def demo_transfer_def ledger_step_def ledger_new_def plain_key_def
  check_transfer_def ledger_gens_def plain_in_range_def plain_simps

lemma demo_run: "run (ledger_step plain) (ledger_new plain_key 8) demo_ops = Some demo_ledger"
  by (simp add: demo_defs ledger_ops demo_ledger_def bt_insert_commute)

lemma demo_run_resolved:
  "run (ledger_step plain) (ledger_new plain_key 8) (demo_ops @ [OpCommit [9] [] 7]) =
    Some (demo_ledger\<lparr>l_pending := bt_empty, l_accounts := bt_insert [1] 50 (bt_insert [2] 55 bt_empty)\<rparr>)"
  unfolding run_append demo_run
  by (simp add: ledger_step_def commit_pending_def demo_ledger_def plain_simps bt_insert_commute
      bt_remove_insert)

section \<open>Properties\<close>

text \<open>
  C1: after any history of a ledger, from its creation on, with or without an issuer, the
  commitments in the accounts and in escrow add up to what was minted, every escrow has a
  payer and a payee with open accounts, and the names of live escrows are marked used.
\<close>

theorem ledger_history_conserved:
  assumes "l0 = ledger_new key bits \<or> l0 = under_issuer key bits issuer"
    and "run (ledger_step P) l0 ops = Some l"
  shows "conserved l \<and> escrows_backed l"
proof -
  have "ledger_inv l0" using assms(1) by auto
  from run_invariant [of ledger_inv "ledger_step P", OF ledger_step_inv this assms(2)]
  show ?thesis by (simp add: ledger_inv_def)
qed

theorem ledger_history_conserved_witness: "conserved demo_ledger \<and> escrows_backed demo_ledger"
  using ledger_history_conserved [OF disjI1 [OF refl] demo_run] .

text \<open>
  C15: over any history of a ledger no leg name is prepared twice and no escrow is released
  or unwound twice; a name that was prepared is refused from then on, also after its
  escrow is gone, and an escrow that was resolved can be neither released nor unwound.
\<close>

theorem escrow_exactly_once:
  assumes "run (ledger_step P) (ledger_new key bits) ops = Some l"
  shows "distinct (List.map_filter prepared_leg ops) \<and> distinct (List.map_filter resolved_leg ops) \<and>
    (\<forall>op \<in> set ops. \<forall>leg. prepared_leg op = Some leg \<longrightarrow>
      \<not> is_ok (prepare_transfer P l leg payer payee t context bounded deadline release_key)) \<and>
    (\<forall>op \<in> set ops. \<forall>leg. resolved_leg op = Some leg \<longrightarrow>
      \<not> is_ok (commit_pending P l leg sig now) \<and> \<not> is_ok (unwind_pending l leg now))"
proof -
  have b: "escrows_backed (ledger_new key bits)"
    using ledger_new_inv(1) [of key bits] by (simp add: ledger_inv_def)
  have "\<not> is_ok (prepare_transfer P l leg payer payee t context bounded deadline release_key)"
    if "op \<in> set ops" "prepared_leg op = Some leg" for op leg
    using leg_names.run_never_twice [OF TrueI assms that,
        of "OpPrepare leg payer payee t context bounded deadline release_key"]
    by (simp_all add: ledger_step_def)
  moreover have "\<not> is_ok (commit_pending P l leg sig now) \<and> \<not> is_ok (unwind_pending l leg now)"
    if "op \<in> set ops" "resolved_leg op = Some leg" for op leg
    using escrow_outcomes.run_never_twice [OF b assms that, of "OpCommit leg sig now"]
      escrow_outcomes.run_never_twice [OF b assms that, of "OpUnwind leg now"]
    by (simp_all add: ledger_step_def)
  ultimately show ?thesis
    using leg_names.run_tokens_distinct [OF TrueI assms] escrow_outcomes.run_tokens_distinct [OF b assms]
    by blast
qed

theorem escrow_exactly_once_witness:
  "\<not> is_ok (prepare_transfer plain (demo_ledger\<lparr>l_pending := bt_empty,
        l_accounts := bt_insert [1] 50 (bt_insert [2] 55 bt_empty)\<rparr>) [9] [1] [2]
      (demo_transfer 20 30) [] False 10 0) \<and>
   \<not> is_ok (unwind_pending (demo_ledger\<lparr>l_pending := bt_empty,
        l_accounts := bt_insert [1] 50 (bt_insert [2] 55 bt_empty)\<rparr>) [9] 11)"
  using escrow_exactly_once [OF demo_run_resolved, of "[1]" "[2]" "demo_transfer 20 30" "[]" False 10 0 "[]" 11]
  by (simp add: demo_ops_def)

text \<open>
  C2: read through the values of its commitments, every accepted operation is a step of
  the ledger of numbers: a payment or an escrow takes an amount the payer holds, so no
  balance becomes negative, and no operation but an opening changes the total. Hypotheses:
  the proofs are sound, tags have the value of the asset's generator, amounts bounded
  elsewhere are in range, and the total fits in the scalars.
\<close>

theorem ledger_refines_values:
  fixes P :: "('p::ab_group_add, 's::comm_ring_1) prims"
  assumes "algebraic_reading P (l_key l) val" "wide_scalars TYPE('s) n" "l_bits l \<le> m" "m < n"
    and "reads val l S" "value_total S < 2 ^ n"
    and "ledger_step P l op = Some l'" "honest_op val m op"
  shows "\<exists>S'. value_step S S' \<and> reads val l' S' \<and>
    (dom (bt_get (l_accounts l')) = dom (bt_get (l_accounts l)) \<longrightarrow> value_total S' = value_total S)"
proof -
  obtain S' where S': "value_step S S'" "reads val l' S'"
    using ledger_step_reads [of P l val n m "fst S" "snd S" op l'] assms by auto
  have "dom (bt_get (fst S)) = dom (bt_get (l_accounts l))"
    and "dom (bt_get (fst S')) = dom (bt_get (l_accounts l'))"
    using reads_none(1) [OF assms(5)] reads_none(1) [OF S'(2)] by (auto simp: dom_def)
  with S' value_step_total [OF S'(1)] show ?thesis by (intro exI [of _ S']) simp
qed

theorem ledger_refines_values_witness:
  "\<exists>S'. value_step (bt_insert [1] 100 (bt_insert [2] 5 bt_empty), bt_empty) S' \<and>
    value_total S' = 105"
proof -
  let ?l = "(ledger_new plain_key 8)\<lparr>l_accounts := bt_insert [1] 100 (bt_insert [2] 5 bt_empty)\<rparr> :: int ledger"
  let ?S = "(bt_insert [1] 100 (bt_insert [2] 5 bt_empty), bt_empty) :: value_ledger"
  let ?op = "OpSettle [1] [2] (demo_transfer 30 70) [] False"
  let ?l' = "?l\<lparr>l_accounts := bt_insert [2] 35 (bt_insert [1] 70 (l_accounts ?l))\<rparr>"
  have "ledger_step plain ?l ?op = Some ?l'"
    by (simp add: demo_defs ledger_ops)
  moreover have "algebraic_reading plain (l_key ?l) (\<lambda>x. x)"
    using plain_reading by (simp add: ledger_new_def)
  moreover have "reads (\<lambda>x. x) ?l ?S" "value_total ?S = 105" "l_bits ?l \<le> 8" "8 < (64::nat)"
    by (simp_all add: reads_def ledger_new_def value_total_def bt_sum_insert_new)
  moreover have "honest_op (\<lambda>x. x) 8 ?op"
    by (simp add: honest_transfer_def demo_transfer_def)
  moreover have "dom (bt_get (l_accounts ?l')) = dom (bt_get (l_accounts ?l))" by (auto simp: dom_def)
  ultimately show ?thesis
    using ledger_refines_values [of plain ?l "\<lambda>x. x" 64 8 ?S ?op ?l', OF _ plain_wide] by auto
qed

text \<open>
  C17: on a ledger whose width is one the range proofs have, 8, 16, 32 or 64, a transfer the
  payer builds for a balance it can open and that is in range, with a tag or without, is
  accepted by the ledger, and settling it leaves both parties with balances they can open:
  the payer holds the difference, the payee the sum, and the blindings move by exactly
  the \<open>payee_delta\<close> the payer was told.
\<close>

theorem built_transfer_settles:
  fixes P :: "('p::ab_group_add, 's::comm_ring_1) prims"
  assumes "scalar_module P" "pedersen_commits P" "ristretto_encoding P" "range_complete P"
    and "tag_of P l A gamma tag"
    and "ledger_balance l payer = Some (opens P l A (scalar_u64 v) r)"
    and "ledger_balance l payee = Some (opens P l A w s)" "payer \<noteq> payee"
    and "amount \<le> v" "unat v < 2 ^ l_bits l" "range_width (l_bits l)"
  shows "\<exists>t sec l'. build_transfer P l v r amount context tag gamma bounded drawn = Ok (t, sec) \<and>
    settle_transfer P l payer payee t context bounded = Ok l' \<and>
    ledger_balance l' payer = Some (opens P l A (scalar_u64 (v - amount)) (r - ts_payee_delta sec)) \<and>
    ledger_balance l' payee = Some (opens P l A (w + scalar_u64 amount) (s + ts_payee_delta sec))"
  using assms unfolding ledger_balance_def by (intro built_settles [unfolded ledger_balance_def])

theorem built_transfer_settles_witness:
  "\<exists>t sec l'. build_transfer plain demo_ledger 50 3 20 [] (Some \<lparr>tag_point = 1, tag_membership = None\<rparr>)
      4 False 6 = Ok (t, sec) \<and>
    settle_transfer plain demo_ledger [1] [2] t [] False = Ok l' \<and>
    ledger_balance l' [1] = Some 30 \<and> ledger_balance l' [2] = Some 55"
  using built_transfer_settles [OF plain_module plain_pedersen plain_encoding plain_range_complete,
      of demo_ledger 1 4 "Some \<lparr>tag_point = 1, tag_membership = None\<rparr>" "[1]" 50 3 "[2]" 35 0 20 "[]" False 6]
  by (simp add: tag_of_def opens_def ledger_balance_def demo_ledger_def plain_simps plain_key_def scalar_u64_def range_width_def)

text \<open>
  C19: nothing on the settlement path ties a tag to the asset. If the asset's generator is
  \<open>k\<close> times the tag, \<open>k\<close> more than one, a payer that holds \<open>v\<close> units builds a transfer of
  \<open>k n\<close> units out of a balance of \<open>k v\<close> under that tag. On a ledger whose width the range
  proofs have, with \<open>k v\<close> in range, the ledger accepts it; the payer is left with \<open>v - n\<close>
  units and the payee's balance rises by \<open>n\<close>, fewer than the amount transferred. In a group
  of prime order such a tag exists for every \<open>k\<close> that is not a multiple of the order.
\<close>

theorem scaled_tag_settles:
  fixes P :: "('p::ab_group_add, 's::comm_ring_1) prims"
  assumes "scalar_module P" "pedersen_commits P" "ristretto_encoding P" "range_complete P"
    and "A = smul P (of_nat k) H" "1 < k"
    and "ledger_balance l payer = Some (opens P l A (scalar_u64 v) r)"
    and "ledger_balance l payee = Some (opens P l A w s)" "payer \<noteq> payee"
    and "unat claimed = k * unat v" "unat amount = k * unat n" "0 < n" "n \<le> v"
    and "unat claimed < 2 ^ l_bits l" "range_width (l_bits l)"
  shows "n < amount \<and> (\<exists>t sec l'. build_transfer P l claimed r amount context
      (Some \<lparr>tag_point = H, tag_membership = None\<rparr>) 0 bounded drawn = Ok (t, sec) \<and>
    settle_transfer P l payer payee t context bounded = Ok l' \<and>
    ledger_balance l' payer = Some (opens P l A (scalar_u64 (v - n)) (r - ts_payee_delta sec)) \<and>
    ledger_balance l' payee = Some (opens P l A (w + scalar_u64 n) (s + ts_payee_delta sec)))"
proof -
  have o: "opens P l A x y = opens P l H (x * of_nat k) y" for x y
    using smul_mult [OF assms(1)] assms(5) by (simp add: opens_def)
  have "tag_of P l H 0 (Some \<lparr>tag_point = H, tag_membership = None\<rparr>)"
    using smul_one [OF assms(1)] smul_zero [OF assms(1)] by (simp add: tag_of_def opens_def)
  note settles = built_settles [OF assms(1-4) this, of payer claimed r payee "w * of_nat k" s amount "context" bounded drawn]
  have le: "amount \<le> claimed" using assms(10,11,13) by (simp add: word_le_nat_alt)
  have scaled: "(scalar_u64 claimed :: 's) = scalar_u64 v * of_nat k" "(scalar_u64 amount :: 's) = scalar_u64 n * of_nat k"
    by (simp_all add: scalar_u64_def assms(10,11))
  have rest: "(scalar_u64 (claimed - amount) :: 's) = scalar_u64 (v - n) * of_nat k"
    unfolding scalar_u64_diff [OF le] scalar_u64_diff [OF assms(13)] scaled by (simp add: algebra_simps)
  have "n < amount" using assms(6,11,12) by (simp add: word_less_nat_alt)
  moreover note settles [OF _ _ assms(9) le assms(14,15)]
  ultimately show ?thesis
    using assms(7,8) unfolding ledger_balance_def o rest scaled by (simp add: distrib_right)
qed

theorem scaled_tag_settles_witness:
  "\<exists>t sec l'. build_transfer plain demo_ledger 50 0 20 [] (Some \<lparr>tag_point = 1, tag_membership = None\<rparr>)
      0 True 0 = Ok (t, sec) \<and>
    settle_transfer plain demo_ledger [1] [2] t [] True = Ok l' \<and>
    ledger_balance l' [1] = Some (opens plain demo_ledger 5 6 (- ts_payee_delta sec)) \<and>
    ledger_balance l' [2] = Some (opens plain demo_ledger 5 (7 + 4) (ts_payee_delta sec))"
  using scaled_tag_settles [OF plain_module plain_pedersen plain_encoding plain_range_complete,
      of 5 5 1 demo_ledger "[1]" 10 0 "[2]" 7 0 50 20 4 "[]" True 0]
  by (simp add: opens_def ledger_balance_def demo_ledger_def plain_simps plain_key_def scalar_u64_def range_width_def)

text \<open>
  C18: on a ledger under an issuer every unit comes from the issuer. Over any history the
  minted commitment is the sum of the authorised openings, each of them carries a
  signature of the issuer over its handle, balance and nonce, no authorisation serves
  twice, and no account is opened without one.
\<close>

theorem minted_by_issuer:
  assumes "run (ledger_step P) (under_issuer key bits issuer) ops = Some l"
  shows "l_minted l = sum_list (map opening_of ops) \<and> list_all (issuer_signed P issuer) ops \<and>
    distinct (List.map_filter (authorisation_body P) ops)"
proof -
  have "l_minted l = l_minted l0 + sum_list (map opening_of ops) \<and> list_all (issuer_signed P issuer) ops"
    if "run (ledger_step P) l0 ops = Some l" "l_issuer l0 = Some issuer" for l0
    using that
  proof (induction ops arbitrary: l0)
    case (Cons op ops)
    then obtain l1 where "ledger_step P l0 op = Some l1" "run (ledger_step P) l1 ops = Some l"
      by (auto split: option.splits)
    with Cons ledger_step_issuer [of P l0 op l1 issuer] show ?case by (simp add: add.assoc)
  qed simp
  from this [OF assms] issuer_authorisations.run_tokens_distinct [OF TrueI assms] show ?thesis
    by (simp add: under_issuer_def ledger_new_def)
qed

theorem minted_by_issuer_witness:
  "\<exists>l. run (ledger_step plain) (under_issuer plain_key 8 [3]) demo_issuer_ops = Some l \<and>
    l_minted l = 105 \<and> list_all (issuer_signed plain [3]) demo_issuer_ops"
proof -
  have "issuance_body plain [2] 5 [8] \<noteq> issuance_body plain [1] 100 [7]"
    by (simp add: issuance_body_def plain_simps)
  then obtain l where l: "run (ledger_step plain) (under_issuer plain_key 8 [3]) demo_issuer_ops = Some l"
    by (auto simp: demo_issuer_ops_def ledger_step_def open_authorised_def under_issuer_def
        ledger_new_def plain_simps ensure_def)
  from minted_by_issuer [OF l] l show ?thesis by (simp add: demo_issuer_ops_def Let_def)
qed

text \<open>
  C16: on a ledger reached by any history, with an issuer or without, the only call that
  panics is \<open>open\<close>, and it does so exactly when the ledger has an issuer or the handle is
  open already, as its assertions say. No escrow is stranded: the accounts of a pending leg
  are open; after its deadline it can always be unwound, by anyone, which gives the payer
  back the amount; until then a signature that verifies under the recorded key over the
  leg's name always releases it to the payee.
\<close>

theorem escrow_never_stranded:
  assumes "run (ledger_step P) l0 ops = Some l" "l0 = ledger_new key bits \<or> l0 = under_issuer key bits issuer"
  shows "(\<forall>op. ledger_apply P l op = Err LedgerPanic \<longleftrightarrow>
      (\<exists>h b. op = OpOpen h b \<and> (l_issuer l \<noteq> None \<or> bt_contains (l_accounts l) h))) \<and>
    (\<forall>leg e. pending_leg l leg = Some e \<longrightarrow>
      (\<exists>b c. ledger_balance l (p_payer e) = Some b \<and> ledger_balance l (p_payee e) = Some c \<and>
      (p_deadline e < now \<longrightarrow> (\<exists>l'. unwind_pending l leg now = Ok l' \<and>
        ledger_balance l' (p_payer e) = Some (b + p_amount_commitment e))) \<and>
      (now \<le> p_deadline e \<longrightarrow> adaptor_verify P (p_release_key e) leg sig \<longrightarrow>
        (\<exists>l'. commit_pending P l leg sig now = Ok l' \<and>
          ledger_balance l' (p_payee e) = Some (c + p_amount_commitment e)))))"
proof -
  have "ledger_inv l0" using assms(2) ledger_new_inv by auto
  then have "ledger_inv l" using run_invariant [of ledger_inv "ledger_step P", OF ledger_step_inv _ assms(1)] by simp
  then have b: "escrows_backed l" by (simp add: ledger_inv_def)
  have "\<exists>b c. ledger_balance l (p_payer e) = Some b \<and> ledger_balance l (p_payee e) = Some c \<and>
      (p_deadline e < now \<longrightarrow> (\<exists>l'. unwind_pending l leg now = Ok l' \<and>
        ledger_balance l' (p_payer e) = Some (b + p_amount_commitment e))) \<and>
      (now \<le> p_deadline e \<longrightarrow> adaptor_verify P (p_release_key e) leg sig \<longrightarrow>
        (\<exists>l'. commit_pending P l leg sig now = Ok l' \<and>
          ledger_balance l' (p_payee e) = Some (c + p_amount_commitment e)))"
    if e: "pending_leg l leg = Some e" for leg e
  proof -
    obtain x y where "bt_get (l_accounts l) (p_payer e) = Some x" "bt_get (l_accounts l) (p_payee e) = Some y"
      using b e by (force simp: escrows_backed_def pending_leg_def)
    with e show ?thesis
      by (auto simp: unwind_pending_def commit_pending_def ensure_def pending_leg_def ledger_balance_def)
  qed
  with no_panic [OF b] show ?thesis by blast
qed

theorem escrow_never_stranded_witness:
  "(\<exists>l'. unwind_pending demo_ledger [9] 11 = Ok l' \<and> ledger_balance l' [1] = Some 70) \<and>
   (\<exists>l'. commit_pending plain demo_ledger [9] [] 10 = Ok l' \<and> ledger_balance l' [2] = Some 55) \<and>
   ledger_apply plain demo_ledger (OpOpen [1] 0) = Err LedgerPanic \<and>
   ledger_apply plain demo_ledger (OpOpen [3] 0) \<noteq> Err LedgerPanic"
proof -
  let ?e = "\<lparr>p_payer = [1], p_release_key = 0, p_payee = [2], p_amount_commitment = 20, p_deadline = 10\<rparr> :: int pending"
  have e: "pending_leg demo_ledger [9] = Some ?e" by (simp add: demo_ledger_def pending_leg_def)
  note w = escrow_never_stranded [OF demo_run disjI1 [OF refl]]
  from w [of 11 "[]", THEN conjunct2, rule_format, OF e] w [of 10 "[]", THEN conjunct2, rule_format, OF e]
    w [THEN conjunct1, rule_format, of "OpOpen [1] 0"] w [THEN conjunct1, rule_format, of "OpOpen [3] 0"]
  show ?thesis
    by (simp add: demo_ledger_def ledger_balance_def plain_simps)
qed

end
