(* ===== verification/Pvp.thy ===== *)
theory Pvp
  imports Ledger
begin

text \<open>
  Payment versus payment (\<open>pvp.rs\<close>): two payments on two ledgers that share no state. A
  party's operations take the one ledger they touch and return it updated. The scalar a
  proposer draws is an argument; \<open>Adaptor::random\<close> pairs it with its public point. The
  signature a claim publishes is the only thing that passes between the two sides.
\<close>

section \<open>The operations\<close>

record 'p leg =
  leg_id :: bytes
  leg_payer :: bytes
  leg_payee :: bytes
  leg_payer_key :: 'p
  leg_deadline :: u64
  leg_release :: pre_signature

definition releasable_with :: "('p, 's) prims \<Rightarrow> 'p leg \<Rightarrow> 'p \<Rightarrow> bool" where
  "releasable_with P lg adaptor_point =
     adaptor_pre_verify P (leg_payer_key lg) adaptor_point (leg_id lg) (leg_release lg)"

record ('p, 's) swap =
  sw_adaptor_point :: 'p
  sw_secret :: "'s option"

datatype pvp_error =
    NoSecretYet \<comment> \<open>this side does not hold the secret yet\<close>
  | OnLedger ledger_error

definition swap_proposer :: "('p, 's) prims \<Rightarrow> 's \<Rightarrow> ('p, 's) swap \<times> ('s \<times> 'p)" where
  "swap_proposer P drawn =
     (\<lparr>sw_adaptor_point = adaptor_public P drawn, sw_secret = Some drawn\<rparr>,
      (drawn, adaptor_public P drawn))"

definition swap_responder :: "'p \<Rightarrow> ('p, 's) swap" where
  "swap_responder adaptor_point = \<lparr>sw_adaptor_point = adaptor_point, sw_secret = None\<rparr>"

definition swap_prepare ::
  "('p::ab_group_add, 's) prims \<Rightarrow> ('p, 's) swap \<Rightarrow> 'p ledger \<Rightarrow> bytes \<Rightarrow> bytes \<Rightarrow> bytes \<Rightarrow> 's
    \<Rightarrow> 'p transfer \<Rightarrow> bytes \<Rightarrow> bool \<Rightarrow> u64 \<Rightarrow> ('p leg \<times> 'p ledger, pvp_error) result" where
  "swap_prepare P sw l leg payer payee signing_key t ctx amount_bounded deadline =
     (let release_key = adaptor_public P signing_key in
      and_then (map_err OnLedger
          (prepare_transfer P l leg payer payee t ctx amount_bounded deadline release_key)) (\<lambda>l'.
      Ok (\<lparr>leg_id = leg, leg_payer = payer, leg_payee = payee, leg_payer_key = release_key,
           leg_deadline = deadline,
           leg_release = adaptor_pre_sign P signing_key (sw_adaptor_point sw) leg\<rparr>, l')))"

definition swap_claim_with ::
  "('p::ab_group_add, 's) prims \<Rightarrow> ('p, 's) swap \<Rightarrow> 'p ledger \<Rightarrow> 'p leg \<Rightarrow> 's \<Rightarrow> u64
    \<Rightarrow> (signature \<times> 'p ledger, pvp_error) result" where
  "swap_claim_with P sw l lg secret now =
     (let release = adaptor_adapt P (leg_release lg) (secret, sw_adaptor_point sw) in
      and_then (map_err OnLedger (commit_pending P l (leg_id lg) release now)) (\<lambda>l'. Ok (release, l')))"

definition swap_claim ::
  "('p::ab_group_add, 's) prims \<Rightarrow> ('p, 's) swap \<Rightarrow> 'p ledger \<Rightarrow> 'p leg \<Rightarrow> u64
    \<Rightarrow> (signature \<times> 'p ledger, pvp_error) result" where
  "swap_claim P sw l lg now =
     and_then (ok_or (sw_secret sw) NoSecretYet) (\<lambda>secret. swap_claim_with P sw l lg secret now)"

definition swap_learn ::
  "('p, 's) prims \<Rightarrow> ('p, 's) swap \<Rightarrow> 'p leg \<Rightarrow> signature \<Rightarrow> 's \<times> ('p, 's) swap" where
  "swap_learn P sw lg published =
     (let secret = adaptor_extract P (leg_release lg) published in
      (secret, if adaptor_public P secret = sw_adaptor_point sw then sw\<lparr>sw_secret := Some secret\<rparr> else sw))"

definition swap_unwind :: "'p::ab_group_add ledger \<Rightarrow> 'p leg \<Rightarrow> u64 \<Rightarrow> ('p ledger, pvp_error) result" where
  "swap_unwind l lg now = map_err OnLedger (unwind_pending l (leg_id lg) now)"

definition swap_window :: "'p leg \<Rightarrow> 'p leg \<Rightarrow> u64 option" where
  "swap_window first second = checked_sub (leg_deadline second) (leg_deadline first)"

section \<open>A prepared leg until it is resolved\<close>

text \<open>The escrow a leg was prepared with is on the ledger, which has accounts for both parties.\<close>

definition leg_live :: "'p ledger \<Rightarrow> 'p leg \<Rightarrow> bool" where
  "leg_live l lg \<longleftrightarrow> escrows_backed l \<and> (\<exists>e. bt_get (l_pending l) (leg_id lg) = Some e \<and>
     p_payer e = leg_payer lg \<and> p_payee e = leg_payee lg \<and> p_release_key e = leg_payer_key lg \<and>
     p_deadline e = leg_deadline lg)"

lemma swap_prepareD:
  assumes "swap_prepare P sw l leg payer payee k t ctx bounded deadline = Ok (lg, l')" "escrows_backed l"
  shows "leg_live l' lg \<and> leg_id lg = leg \<and> leg_payer_key lg = adaptor_public P k \<and> leg_deadline lg = deadline \<and>
    leg_release lg = adaptor_pre_sign P k (sw_adaptor_point sw) leg"
proof -
  from assms(1) have p: "prepare_transfer P l leg payer payee t ctx bounded deadline (adaptor_public P k) = Ok l'"
    and lg: "lg = \<lparr>leg_id = leg, leg_payer = payer, leg_payee = payee, leg_payer_key = adaptor_public P k,
           leg_deadline = deadline, leg_release = adaptor_pre_sign P k (sw_adaptor_point sw) leg\<rparr>"
    by (auto simp: swap_prepare_def Let_def)
  have "escrows_backed l'"
    using ledger_step_backed [OF assms(2), of P "OpPrepare leg payer payee t ctx bounded deadline (adaptor_public P k)"] p
    by (simp add: ledger_step_def)
  with p lg show ?thesis by (auto simp: leg_live_def prepare_transfer_def)
qed

lemma pending_live_leg: "leg_live l lg \<Longrightarrow> bt_get (l_pending l) (leg_id lg) \<noteq> None"
  by (auto simp: leg_live_def)

lemma step_keeps_leg:
  assumes "leg_live l lg" "ledger_step P l op = Some l'" "resolved_leg op \<noteq> Some (leg_id lg)"
  shows "leg_live l' lg"
proof -
  have "bt_get (l_pending l') (leg_id lg) = bt_get (l_pending l) (leg_id lg)"
    using assms(2,3) pending_live_leg [of l lg] assms(1)
    by (cases op) (auto simp: ledger_step_def ledger_ops)
  with assms ledger_step_backed [of l P op l'] show ?thesis
    by (simp add: leg_live_def)
qed

lemma run_keeps_leg:
  assumes "leg_live l lg" "run (ledger_step P) l ops = Some l'" "Some (leg_id lg) \<notin> resolved_leg ` set ops"
  shows "leg_live l' lg"
  using assms
proof (induction ops arbitrary: l)
  case (Cons op ops)
  then obtain l1 where l1: "ledger_step P l op = Some l1" "run (ledger_step P) l1 ops = Some l'"
    by (auto split: option.splits)
  have "leg_live l1 lg"
    using Cons.prems(3) by (intro step_keeps_leg [OF Cons.prems(1) l1(1)]) auto
  with Cons.IH [OF _ l1(2)] Cons.prems(3) show ?case by simp
qed simp

lemma live_claim:
  assumes laws: "adaptor_laws P" and live: "leg_live l lg" and now: "now \<le> leg_deadline lg"
    and pre: "releasable_with P lg (adaptor_public P y)"
    and sw: "sw_adaptor_point sw = adaptor_public P y"
  shows "\<exists>l' b a. swap_claim_with P sw l lg y now =
      Ok (adaptor_adapt P (leg_release lg) (y, adaptor_public P y), l') \<and>
    ledger_balance l (leg_payee lg) = Some b \<and> ledger_balance l' (leg_payee lg) = Some (b + a) \<and>
    map_option p_amount_commitment (pending_leg l (leg_id lg)) = Some a"
proof -
  from live obtain e where e: "bt_get (l_pending l) (leg_id lg) = Some e" "p_payee e = leg_payee lg"
    "p_release_key e = leg_payer_key lg" "p_deadline e = leg_deadline lg"
    by (auto simp: leg_live_def)
  moreover from live e obtain b where "bt_get (l_accounts l) (leg_payee lg) = Some b"
    unfolding leg_live_def by (metis escrows_backedE)
  moreover have "adaptor_verify P (leg_payer_key lg) (leg_id lg)
      (adaptor_adapt P (leg_release lg) (y, adaptor_public P y))"
    using laws pre by (auto simp: adaptor_laws_def releasable_with_def)
  ultimately show ?thesis
    using now sw
    by (simp add: swap_claim_with_def commit_pending_def ledger_balance_def pending_leg_def not_less Let_def)
qed

lemma live_unwind:
  assumes "leg_live l lg" "leg_deadline lg < now"
  shows "\<exists>l' b a. swap_unwind l lg now = Ok l' \<and>
    ledger_balance l (leg_payer lg) = Some b \<and> ledger_balance l' (leg_payer lg) = Some (b + a) \<and>
    map_option p_amount_commitment (pending_leg l (leg_id lg)) = Some a"
proof -
  from assms(1) obtain e where e: "bt_get (l_pending l) (leg_id lg) = Some e" "p_payer e = leg_payer lg"
    "p_deadline e = leg_deadline lg"
    by (auto simp: leg_live_def)
  moreover from assms(1) e obtain b where "bt_get (l_accounts l) (leg_payer lg) = Some b"
    unfolding leg_live_def by (metis escrows_backedE)
  ultimately show ?thesis
    using assms(2)
    by (simp add: swap_unwind_def unwind_pending_def ledger_balance_def pending_leg_def not_le)
qed

section \<open>An example swap\<close>

definition demo_bank :: "int ledger" where
  "demo_bank = (ledger_new plain_key 8)\<lparr>l_accounts := bt_insert [1] 100 (bt_insert [2] 5 bt_empty)\<rparr>"

definition demo_leg :: "bytes \<Rightarrow> int \<Rightarrow> u64 \<Rightarrow> int leg" where
  "demo_leg leg k deadline = \<lparr>leg_id = leg, leg_payer = [1], leg_payee = [2], leg_payer_key = k,
     leg_deadline = deadline, leg_release = enc_int 77\<rparr>"

definition demo_escrow :: "bytes \<Rightarrow> int \<Rightarrow> u64 \<Rightarrow> int ledger" where
  "demo_escrow leg k deadline = demo_bank\<lparr>l_accounts := bt_insert [1] 70 (bt_insert [2] 5 bt_empty),
     l_spent_legs := {leg}, l_pending := bt_insert leg \<lparr>p_payer = [1], p_release_key = k, p_payee = [2],
       p_amount_commitment = 30, p_deadline = deadline\<rparr> bt_empty\<rparr>"

lemma demo_swap_prepare:
  "sw_adaptor_point sw = 77 \<Longrightarrow>
    swap_prepare plain sw demo_bank leg [1] [2] k (demo_transfer 30 70) [] False deadline =
      Ok (demo_leg leg k deadline, demo_escrow leg k deadline)"
  by (simp add: swap_prepare_def prepare_transfer_def demo_bank_def demo_defs demo_leg_def demo_escrow_def Let_def)

section \<open>Properties\<close>

text \<open>
  C23: a swap settles on both ledgers or on neither. Bob holds the secret, each side has
  prepared its leg with the swap's point, and each ledger has since moved on without
  resolving that leg. Until its deadline Bob's claim of leg A succeeds, pays him the
  escrowed amount, and publishes a signature from which Alice learns the secret; her
  claim of leg B then succeeds, and pays her, at every time up to the claim's time plus
  the window the two deadlines leave. If Bob never claims, both legs can be unwound after
  their deadlines, and until she has learnt the secret Alice can claim nothing.
\<close>

theorem pvp_both_or_neither:
  assumes laws: "adaptor_laws P"
    and bob: "bob = fst (swap_proposer P y)" and alice: "alice = swap_responder (adaptor_public P y)"
    and A: "escrows_backed la" "swap_prepare P alice la idA payerA payeeA kA tA ctxA bA dA = Ok (legA, la1)"
      "run (ledger_step P) la1 opsA = Some la2" "Some idA \<notin> resolved_leg ` set opsA"
    and B: "escrows_backed lb" "swap_prepare P bob lb idB payerB payeeB kB tB ctxB bB dB = Ok (legB, lb1)"
      "run (ledger_step P) lb1 opsB = Some lb2" "Some idB \<notin> resolved_leg ` set opsB"
    and window: "swap_window legA legB = Some w" and t2: "unat t2 \<le> unat t1 + unat w"
  shows "(t1 \<le> dA \<longrightarrow> (\<exists>sig la3 b a. swap_claim P bob la2 legA t1 = Ok (sig, la3) \<and>
      ledger_balance la2 (leg_payee legA) = Some b \<and> ledger_balance la3 (leg_payee legA) = Some (b + a) \<and>
      swap_learn P alice legA sig = (y, alice\<lparr>sw_secret := Some y\<rparr>) \<and>
      (\<exists>sig' lb3 b' a'. swap_claim P (alice\<lparr>sw_secret := Some y\<rparr>) lb2 legB t2 = Ok (sig', lb3) \<and>
        ledger_balance lb2 (leg_payee legB) = Some b' \<and> ledger_balance lb3 (leg_payee legB) = Some (b' + a')))) \<and>
    (dA < t1 \<longrightarrow> (\<exists>la3. swap_unwind la2 legA t1 = Ok la3)) \<and>
    (dB < t2 \<longrightarrow> (\<exists>lb3. swap_unwind lb2 legB t2 = Ok lb3)) \<and>
    swap_claim P alice lb2 legB t2 = Err NoSecretYet"
proof -
  note a = swap_prepareD [OF A(2,1)] and b = swap_prepareD [OF B(2,1)]
  have live: "leg_live la2 legA" "leg_live lb2 legB"
    using run_keeps_leg [OF _ A(3)] run_keeps_leg [OF _ B(3)] a b A(4) B(4) by auto
  have rel: "releasable_with P legA (adaptor_public P y)" "releasable_with P legB (adaptor_public P y)"
    using laws a b alice bob
    by (simp_all add: releasable_with_def adaptor_laws_def swap_responder_def swap_proposer_def)
  have t: "t2 \<le> leg_deadline legB" if "t1 \<le> dA"
    using that t2 window a b by (auto simp: swap_window_def checked_sub_Some word_le_nat_alt)
  have ext: "adaptor_extract P (leg_release legA) (adaptor_adapt P (leg_release legA) (y, adaptor_public P y)) = y"
    using laws by (simp add: adaptor_laws_def)
  show ?thesis
  proof (intro conjI impI)
    assume le: "t1 \<le> dA"
    have "sw_adaptor_point bob = adaptor_public P y" "sw_secret bob = Some y"
      using bob by (simp_all add: swap_proposer_def)
    with live_claim [OF laws live(1) _ rel(1), of t1 bob] le a ext
      live_claim [OF laws live(2) t [OF le] rel(2), of "alice\<lparr>sw_secret := Some y\<rparr>"]
    show "\<exists>sig la3 b a. swap_claim P bob la2 legA t1 = Ok (sig, la3) \<and>
      ledger_balance la2 (leg_payee legA) = Some b \<and> ledger_balance la3 (leg_payee legA) = Some (b + a) \<and>
      swap_learn P alice legA sig = (y, alice\<lparr>sw_secret := Some y\<rparr>) \<and>
      (\<exists>sig' lb3 b' a'. swap_claim P (alice\<lparr>sw_secret := Some y\<rparr>) lb2 legB t2 = Ok (sig', lb3) \<and>
        ledger_balance lb2 (leg_payee legB) = Some b' \<and> ledger_balance lb3 (leg_payee legB) = Some (b' + a'))"
      by (auto simp: swap_claim_def swap_learn_def alice swap_responder_def)
  next
    show "swap_claim P alice lb2 legB t2 = Err NoSecretYet"
      by (simp add: alice swap_responder_def swap_claim_def)
  qed (use live_unwind [OF live(1)] live_unwind [OF live(2)] a b in blast)+
qed

theorem pvp_both_or_neither_witness:
  "\<exists>sig la lb. swap_claim plain (fst (swap_proposer plain 77)) (demo_escrow [9] 3 10) (demo_leg [9] 3 10) 10 = Ok (sig, la) \<and>
    (\<exists>sig'. swap_claim plain (snd (swap_learn plain (swap_responder 77) (demo_leg [9] 3 10) sig))
      (demo_escrow [8] 4 15) (demo_leg [8] 4 15) 15 = Ok (sig', lb))"
proof -
  have b: "escrows_backed demo_bank" by (simp add: escrows_backed_def demo_bank_def ledger_new_def)
  have p: "swap_prepare plain (swap_responder (adaptor_public plain 77)) demo_bank [9] [1] [2] 3 (demo_transfer 30 70) [] False 10 =
      Ok (demo_leg [9] 3 10, demo_escrow [9] 3 10)"
    "swap_prepare plain (fst (swap_proposer plain 77)) demo_bank [8] [1] [2] 4 (demo_transfer 30 70) [] False 15 =
      Ok (demo_leg [8] 4 15, demo_escrow [8] 4 15)"
    by (simp_all add: demo_swap_prepare swap_responder_def swap_proposer_def plain_simps)
  have w: "swap_window (demo_leg [9] 3 10) (demo_leg [8] 4 15) = Some 5"
    by (simp add: swap_window_def demo_leg_def checked_sub_def)
  show ?thesis
    using pvp_both_or_neither [OF plain_adaptor refl refl b p(1) _ _ b p(2) _ _ w,
        of "[]" "demo_escrow [9] 3 10" "[]" "demo_escrow [8] 4 15" 15 10]
    by (auto simp: plain_simps)
qed

end
