(* ===== verification/Zkpi.thy ===== *)
theory Zkpi
  imports Crypto
begin

text \<open>
  The instruction layer the program settles for: \<open>zkpi\<close>, \<open>zkpi_committee\<close> and
  \<open>zkpi_proofs\<close>, which are not part of the repository. An instruction is a record of the
  fields the program reads, the rest of it being opaque. A venue is a state of any type
  with the two operations the program calls. What the program relies on is named
  \<open>venue_laws\<close>: an instruction that verifies is settled when asked, its nullifier is
  recorded by that, and an instruction whose nullifier is recorded does not verify.
\<close>

record 'p instruction =
  i_payer_handle :: 'p
  i_payee_handle :: 'p
  i_asset_commitment :: 'p
  i_amount_commitment :: 'p
  i_price_commitment :: 'p
  i_nullifier :: bytes
  i_deadline :: u64
  i_rest :: bytes

text \<open>\<open>zkpi_proofs::threshold_range::ThresholdRangeProof\<close> and the nodes' contributions.\<close>

record threshold_range_proof =
  trp_bits :: nat
  trp_bytes :: bytes

record product_contribution =
  pc_party :: nat
  pc_shares :: bytes

record 'p node_value_shares =
  nv_party :: nat
  nv_commitment :: 'p
  nv_shares :: bytes

record dvp_proofs =
  dp_product :: sigma_proof
  dp_securities_remainder :: threshold_range_proof
  dp_cash_remainder :: threshold_range_proof

text \<open>The operations of the instruction layer, over points \<open>'p\<close> and venue states \<open>'v\<close>.\<close>

record ('p, 'v) zkpi =
  venue_verify :: "'v \<Rightarrow> 'p instruction \<Rightarrow> u64 \<Rightarrow> (unit, bytes) result"
  venue_settle :: "'v \<Rightarrow> 'p instruction \<Rightarrow> u64 \<Rightarrow> ('v, bytes) result"
  wire_encode :: "'p instruction \<Rightarrow> bytes"
  shared_account_of :: "'p \<Rightarrow> bytes \<Rightarrow> bytes"
  verify_threshold_range :: "'p pedersen \<Rightarrow> 'p \<Rightarrow> threshold_range_proof \<Rightarrow> bytes \<Rightarrow> bool"
  joint_prove_product :: "'p pedersen \<Rightarrow> 'p \<Rightarrow> 'p \<Rightarrow> product_contribution list \<Rightarrow> nat list \<Rightarrow> nat
    \<Rightarrow> transcript \<Rightarrow> (sigma_proof, bytes) result"
  joint_prove_range :: "'p pedersen \<Rightarrow> 'p node_value_shares list \<Rightarrow> nat list \<Rightarrow> bytes
    \<Rightarrow> (threshold_range_proof, bytes) result"
  dvp_product_context :: bytes
  dvp_securities_context :: bytes
  dvp_cash_context :: bytes

definition venue_laws :: "('p, 'v) zkpi \<Rightarrow> ('v \<Rightarrow> bytes set) \<Rightarrow> bool" where
  "venue_laws Z spent \<longleftrightarrow>
     (\<forall>v i now. venue_verify Z v i now = Ok () \<longrightarrow>
        i_nullifier i \<notin> spent v \<and> (\<exists>v'. venue_settle Z v i now = Ok v')) \<and>
     (\<forall>v i now v'. venue_settle Z v i now = Ok v' \<longrightarrow> spent v' = insert (i_nullifier i) (spent v))"

text \<open>Soundness of the threshold range proof: an accepted one fixes the value's range.\<close>

definition threshold_reading ::
  "('p, 'v) zkpi \<Rightarrow> 'p pedersen \<Rightarrow> ('p \<Rightarrow> 's::comm_ring_1) \<Rightarrow> bool" where
  "threshold_reading Z key val \<longleftrightarrow>
     (\<forall>x pf ctx. verify_threshold_range Z key x pf ctx \<longrightarrow> (\<exists>v < 2 ^ trp_bits pf. val x = of_nat v))"

lemma venue_lawsD:
  assumes "venue_laws Z spent"
  shows "venue_verify Z v i now = Ok () \<Longrightarrow> i_nullifier i \<notin> spent v"
    and "venue_verify Z v i now = Ok () \<Longrightarrow> \<exists>v'. venue_settle Z v i now = Ok v'"
    and "venue_settle Z v i now = Ok v' \<Longrightarrow> spent v' = insert (i_nullifier i) (spent v)"
  using assms unfolding venue_laws_def by blast+

section \<open>A transparent instruction layer\<close>

text \<open>The venue is the set of nullifiers it has settled; it checks the deadline and the nullifier.\<close>

definition plain_zkpi :: "(int, bytes set) zkpi" where
  "plain_zkpi = \<lparr>
     venue_verify = (\<lambda>v i now. if i_nullifier i \<in> v \<or> i_deadline i < now then Err [1] else Ok ()),
     venue_settle = (\<lambda>v i now. if i_nullifier i \<in> v \<or> i_deadline i < now then Err [1]
       else Ok (insert (i_nullifier i) v)),
     wire_encode = (\<lambda>i. i_rest i),
     shared_account_of = (\<lambda>handle rail. rail @ enc_int handle),
     verify_threshold_range = (\<lambda>key x pf ctx. 0 \<le> x \<and> x < 2 ^ trp_bits pf),
     joint_prove_product = (\<lambda>key a c nodes quorum threshold t. Ok []),
     joint_prove_range = (\<lambda>key nodes quorum ctx. Ok \<lparr>trp_bits = 64, trp_bytes = []\<rparr>),
     dvp_product_context = [1],
     dvp_securities_context = [2],
     dvp_cash_context = [3]\<rparr>"

lemma plain_zkpi_simps:
  "venue_verify plain_zkpi v i now = (if i_nullifier i \<in> v \<or> i_deadline i < now then Err [1] else Ok ())"
  "venue_settle plain_zkpi v i now =
    (if i_nullifier i \<in> v \<or> i_deadline i < now then Err [1] else Ok (insert (i_nullifier i) v))"
  "wire_encode plain_zkpi i = i_rest i"
  "shared_account_of plain_zkpi handle rail = rail @ enc_int handle"
  "verify_threshold_range plain_zkpi key x pf ctx \<longleftrightarrow> 0 \<le> x \<and> x < 2 ^ trp_bits pf"
  "joint_prove_product plain_zkpi key a c nodes quorum threshold t = Ok []"
  "joint_prove_range plain_zkpi key shares quorum ctx = Ok \<lparr>trp_bits = 64, trp_bytes = []\<rparr>"
  by (simp_all add: plain_zkpi_def)

lemma plain_venue: "venue_laws plain_zkpi (\<lambda>v. v)"
  by (simp add: venue_laws_def plain_zkpi_simps)

lemma plain_threshold: "threshold_reading plain_zkpi key (\<lambda>x. x)"
  unfolding threshold_reading_def plain_zkpi_simps
  by (metis of_nat_less_numeral_power_cancel_iff of_nat_0_le_iff zero_le_imp_eq_int)

end
