(* ===== verification/Settlement.thy ===== *)
theory Settlement
  imports Ledger Zkpi
begin

text \<open>
  Delivery versus payment (\<open>settlement.rs\<close>): a package of two transfers, one per rail, tied
  to an instruction by a quantity link, a product proof and a cash link, which are checked
  as one batch. Drawn scalars (blindings and batch weights) are arguments. \<open>Defmi::settle\<close>
  returns its receipt and the updated state; \<open>SettlementPanic\<close> is its one \<open>expect\<close>. The
  threshold form of a package is assembled from public proofs of the instruction layer.

  The lemmas give the settlement's effect on the two ledgers, that a refused package
  changes nothing, that no instruction settles twice, that what moves is the instructed
  quantity and its product with the price, and that a built package is accepted.
\<close>

section \<open>Packages\<close>

record 'p dvp_package =
  dp_instruction :: "'p instruction"
  dp_securities_from :: bytes
  dp_securities_to :: bytes
  dp_cash_from :: bytes
  dp_cash_to :: bytes
  dp_securities_leg :: "'p transfer"
  dp_cash_leg :: "'p transfer"
  dp_quantity_link :: sigma_proof
  dp_cash_reference :: 'p
  dp_value_proof :: sigma_proof
  dp_cash_link :: sigma_proof

datatype settlement_error =
    OnRail ledger_error
  | OnVenue bytes
  | CashOverflow \<comment> \<open>cash amount overflows\<close>
  | WrongAccounts \<comment> \<open>the package names accounts the instruction does not\<close>
  | AccountNotOpen \<comment> \<open>an account is not open\<close>
  | SecuritiesShareHandle \<comment> \<open>securities legs share a handle\<close>
  | CashShareHandle \<comment> \<open>cash legs share a handle\<close>
  | LegsMismatch \<comment> \<open>the legs do not match what the instruction says\<close>
  | MixedContribution \<comment> \<open>one DvP contribution mixes shares from different nodes\<close>
  | QuorumNotFilled \<comment> \<open>DvP contributions do not exactly fill the selected quorum\<close>
  | QuorumParties \<comment> \<open>DvP contributions contain an omitted or duplicate party\<close>
  | RemaindersNotConserved \<comment> \<open>DvP remainders do not conserve the two reservation escrows\<close>
  | StatementsChanged \<comment> \<open>threshold DvP proof statements changed during assembly\<close>
  | EscrowConservation \<comment> \<open>threshold DvP account or escrow conservation failed\<close>
  | RemainderOutOfRange \<comment> \<open>threshold DvP has a negative or out-of-range reservation remainder\<close>
  | CashNotProduct \<comment> \<open>threshold DvP cash amount is not quantity times price\<close>
  | SettlementPanic

definition settle_domain :: bytes where
  "settle_domain = ascii ''QOMM:DEFMI:DVP:v1''"

definition transfer_bytes :: "('p, 's) prims \<Rightarrow> 'p transfer \<Rightarrow> bytes" where
  "transfer_bytes P t =
     compress P (t_amount_commitment t) @
     (case t_amount_range t of
        Some (proof, commitment) \<Rightarrow> [1] @ commitment @ nat_be 8 (length proof) @ proof
      | None \<Rightarrow> [0]) @
     compress P (t_remainder_commitment t) @
     nat_be 8 (length (t_remainder_range t)) @ t_remainder_range t @
     (case t_tag t of Some tag \<Rightarrow> [1] @ compress P (tag_point tag) | None \<Rightarrow> [0])"

text \<open>A sigma proof is hashed as the concatenation of its points and scalars, which its bytes are.\<close>

definition dvp_digest :: "('p, 's) prims \<Rightarrow> ('p, 'v) zkpi \<Rightarrow> 'p dvp_package \<Rightarrow> bytes" where
  "dvp_digest P Z pk = sha256 P (ascii ''QOMM:DEFMI:DVP-PACKAGE:v1'' @
     nat_be 8 (length (wire_encode Z (dp_instruction pk))) @ wire_encode Z (dp_instruction pk) @
     concat (map (\<lambda>handle. nat_be 8 (length handle) @ handle)
       [dp_securities_from pk, dp_securities_to pk, dp_cash_from pk, dp_cash_to pk]) @
     transfer_bytes P (dp_securities_leg pk) @ transfer_bytes P (dp_cash_leg pk) @
     dp_quantity_link pk @ compress P (dp_cash_reference pk) @ dp_value_proof pk @ dp_cash_link pk)"

section \<open>Sides\<close>

record sides =
  sd_securities_from :: bytes
  sd_securities_to :: bytes
  sd_cash_from :: bytes
  sd_cash_to :: bytes

definition account_of :: "('p, 'v) zkpi \<Rightarrow> 'p \<Rightarrow> bytes \<Rightarrow> bytes" where
  "account_of Z handle rail = shared_account_of Z handle rail"

definition securities_rail :: bytes where "securities_rail = ascii ''securities''"
definition cash_rail :: bytes where "cash_rail = ascii ''cash''"

definition sides_of :: "('p, 'v) zkpi \<Rightarrow> 'p instruction \<Rightarrow> sides" where
  "sides_of Z i = \<lparr>
     sd_securities_from = account_of Z (i_payee_handle i) securities_rail,
     sd_securities_to = account_of Z (i_payer_handle i) securities_rail,
     sd_cash_from = account_of Z (i_payer_handle i) cash_rail,
     sd_cash_to = account_of Z (i_payee_handle i) cash_rail\<rparr>"

section \<open>Building a package\<close>

record 's holdings =
  h_securities_balance :: u64
  h_securities_blinding :: 's
  h_cash_balance :: u64
  h_cash_blinding :: 's

record 's instruction_openings =
  io_amount :: 's
  io_price :: 's

record 's carry =
  cy_securities_balance :: u64
  cy_securities_blinding :: 's
  cy_cash_balance :: u64
  cy_cash_blinding :: 's
  cy_securities_amount_blinding :: 's
  cy_cash_amount_blinding :: 's
  cy_cash_reference_blinding :: 's

definition link_transcript :: transcript where
  "link_transcript = transcript_new (ascii ''qomm:defmi:qty-link'')"
definition value_transcript :: transcript where
  "value_transcript = transcript_new (ascii ''qomm:defmi:value'')"
definition cash_link_transcript :: transcript where
  "cash_link_transcript = transcript_new (ascii ''qomm:defmi:cash-link'')"

definition leg_generator :: "'p pedersen \<Rightarrow> 'p blinded_tag option \<Rightarrow> 'p" where
  "leg_generator key tag = (case tag of Some t \<Rightarrow> tag_point t | None \<Rightarrow> ped_g key)"

text \<open>The three drawn scalars blind the securities amount, the cash amount and the cash reference.\<close>

definition build_package_for_sides ::
  "('p::ab_group_add, 's::comm_ring_1) prims \<Rightarrow> 'p pedersen \<Rightarrow> 'p instruction \<Rightarrow> sides \<Rightarrow> 'p ledger \<Rightarrow> 'p ledger
    \<Rightarrow> u64 \<Rightarrow> u64 \<Rightarrow> 's holdings \<Rightarrow> 's instruction_openings \<Rightarrow> 'p blinded_tag option \<Rightarrow> 's
    \<Rightarrow> 'p blinded_tag option \<Rightarrow> 's \<Rightarrow> 's \<times> 's \<times> 's \<Rightarrow> ('p dvp_package \<times> 's carry, settlement_error) result" where
  "build_package_for_sides P key i sides securities cash quantity price holdings openings
       securities_tag securities_gamma cash_tag cash_gamma drawn =
     (case drawn of (drawn_securities, drawn_cash, reference_blinding) \<Rightarrow>
     and_then (map_err OnRail (build_transfer P securities (h_securities_balance holdings)
         (h_securities_blinding holdings) quantity (settle_domain @ ascii '':sec'') securities_tag
         securities_gamma True drawn_securities)) (\<lambda>(securities_leg, securities_secrets).
     and_then (ok_or (checked_mul quantity price) CashOverflow) (\<lambda>cash_value.
     and_then (map_err OnRail (build_transfer P cash (h_cash_balance holdings)
         (h_cash_blinding holdings) cash_value (settle_domain @ ascii '':cash'') cash_tag
         cash_gamma True drawn_cash)) (\<lambda>(cash_leg, cash_secrets).
     let quantity_link = same_value_prove P key link_transcript (leg_generator key securities_tag)
           (ped_g key) (t_amount_commitment securities_leg) (i_amount_commitment i)
           (scalar_u64 quantity) (ts_amount_blinding securities_secrets) (io_amount openings);
         cash_reference = commit_u64 P key cash_value reference_blinding;
         value_proof = product_prove P key value_transcript (i_price_commitment i) (scalar_u64 price)
           (io_price openings) (scalar_u64 quantity) (io_amount openings) reference_blinding;
         cash_link = same_value_prove P key cash_link_transcript (leg_generator key cash_tag)
           (ped_g key) (t_amount_commitment cash_leg) cash_reference
           (scalar_u64 cash_value) (ts_amount_blinding cash_secrets) reference_blinding
     in Ok (\<lparr>dp_instruction = i,
             dp_securities_from = sd_securities_from sides, dp_securities_to = sd_securities_to sides,
             dp_cash_from = sd_cash_from sides, dp_cash_to = sd_cash_to sides,
             dp_securities_leg = securities_leg, dp_cash_leg = cash_leg,
             dp_quantity_link = quantity_link, dp_cash_reference = cash_reference,
             dp_value_proof = value_proof, dp_cash_link = cash_link\<rparr>,
            \<lparr>cy_securities_balance = h_securities_balance holdings - quantity,
             cy_securities_blinding = ts_remainder_blinding securities_secrets,
             cy_cash_balance = h_cash_balance holdings - cash_value,
             cy_cash_blinding = ts_remainder_blinding cash_secrets,
             cy_securities_amount_blinding = ts_amount_blinding securities_secrets,
             cy_cash_amount_blinding = ts_amount_blinding cash_secrets,
             cy_cash_reference_blinding = reference_blinding\<rparr>)))))"

definition build_package ::
  "('p::ab_group_add, 's::comm_ring_1) prims \<Rightarrow> ('p, 'v) zkpi \<Rightarrow> 'p pedersen \<Rightarrow> 'p instruction \<Rightarrow> 'p ledger \<Rightarrow> 'p ledger
    \<Rightarrow> u64 \<Rightarrow> u64 \<Rightarrow> 's holdings \<Rightarrow> 's instruction_openings \<Rightarrow> 'p blinded_tag option \<Rightarrow> 's
    \<Rightarrow> 'p blinded_tag option \<Rightarrow> 's \<Rightarrow> 's \<times> 's \<times> 's \<Rightarrow> ('p dvp_package \<times> 's carry, settlement_error) result" where
  "build_package P Z key i securities cash quantity price holdings openings
       securities_tag securities_gamma cash_tag cash_gamma drawn =
     build_package_for_sides P key i (sides_of Z i) securities cash quantity price holdings openings
       securities_tag securities_gamma cash_tag cash_gamma drawn"

section \<open>Checking a package\<close>

definition verify_package_legs_for_sides ::
  "('p::ab_group_add, 's) prims \<Rightarrow> 'p pedersen \<Rightarrow> 'p ledger \<Rightarrow> 'p ledger \<Rightarrow> 'p dvp_package \<Rightarrow> sides
    \<Rightarrow> 's \<times> 's \<times> 's \<Rightarrow> (unit, settlement_error) result" where
  "verify_package_legs_for_sides P key securities cash pk who weights =
     (case weights of (w1, w2, w3) \<Rightarrow>
     and_then (ensure (\<not> (dp_securities_from pk \<noteq> sd_securities_from who \<or>
         dp_securities_to pk \<noteq> sd_securities_to who \<or> dp_cash_from pk \<noteq> sd_cash_from who \<or>
         dp_cash_to pk \<noteq> sd_cash_to who)) WrongAccounts) (\<lambda>_.
     and_then (try_for_each (\<lambda>(handle, l). ensure (ledger_balance l handle \<noteq> None) AccountNotOpen)
         [(dp_securities_from pk, securities), (dp_securities_to pk, securities),
          (dp_cash_from pk, cash), (dp_cash_to pk, cash)]) (\<lambda>_.
     and_then (ensure (dp_securities_from pk \<noteq> dp_securities_to pk) SecuritiesShareHandle) (\<lambda>_.
     and_then (ensure (dp_cash_from pk \<noteq> dp_cash_to pk) CashShareHandle) (\<lambda>_.
     and_then (map_err OnRail (check_transfer P securities (dp_securities_from pk)
         (dp_securities_leg pk) (settle_domain @ ascii '':sec'') True)) (\<lambda>_.
     and_then (map_err OnRail (check_transfer P cash (dp_cash_from pk)
         (dp_cash_leg pk) (settle_domain @ ascii '':cash'') True)) (\<lambda>_.
     let batch =
       [same_value_terms P key link_transcript (leg_generator key (t_tag (dp_securities_leg pk)))
          (ped_g key) (t_amount_commitment (dp_securities_leg pk))
          (i_amount_commitment (dp_instruction pk)) (dp_quantity_link pk) w1,
        product_terms P key value_transcript (i_price_commitment (dp_instruction pk))
          (i_amount_commitment (dp_instruction pk)) (dp_cash_reference pk) (dp_value_proof pk) w2,
        same_value_terms P key cash_link_transcript (leg_generator key (t_tag (dp_cash_leg pk)))
          (ped_g key) (t_amount_commitment (dp_cash_leg pk)) (dp_cash_reference pk) (dp_cash_link pk) w3]
     in ensure (batch_verify P batch) LegsMismatch)))))))"

definition verify_package_legs ::
  "('p::ab_group_add, 's) prims \<Rightarrow> ('p, 'v) zkpi \<Rightarrow> 'p pedersen \<Rightarrow> 'p ledger \<Rightarrow> 'p ledger \<Rightarrow> 'p dvp_package
    \<Rightarrow> 's \<times> 's \<times> 's \<Rightarrow> (unit, settlement_error) result" where
  "verify_package_legs P Z key securities cash pk weights =
     verify_package_legs_for_sides P key securities cash pk (sides_of Z (dp_instruction pk)) weights"

section \<open>Settling\<close>

record ('p, 'v) defmi =
  d_key :: "'p pedersen"
  d_securities :: "'p ledger"
  d_cash :: "'p ledger"
  d_venue :: 'v

record receipt =
  r_status :: "(unit, settlement_error) result"
  r_securities_before :: bytes
  r_securities_after :: bytes
  r_cash_before :: bytes
  r_cash_after :: bytes

definition defmi_check ::
  "('p::ab_group_add, 's) prims \<Rightarrow> ('p, 'v) zkpi \<Rightarrow> ('p, 'v) defmi \<Rightarrow> 'p dvp_package \<Rightarrow> u64
    \<Rightarrow> 's \<times> 's \<times> 's \<Rightarrow> (unit, settlement_error) result" where
  "defmi_check P Z d pk now weights =
     and_then (map_err OnVenue (venue_verify Z (d_venue d) (dp_instruction pk) now)) (\<lambda>_.
     verify_package_legs P Z (d_key d) (d_securities d) (d_cash d) pk weights)"

text \<open>The state after a settlement whose checks passed; an error stands for a panic.\<close>

definition defmi_apply ::
  "('p::ab_group_add, 'v) zkpi \<Rightarrow> ('p, 'v) defmi \<Rightarrow> 'p dvp_package \<Rightarrow> u64
    \<Rightarrow> (('p, 'v) defmi, settlement_error) result" where
  "defmi_apply Z d pk now =
     and_then (map_err OnRail (apply_transfer (d_securities d) (dp_securities_from pk)
         (dp_securities_to pk) (dp_securities_leg pk))) (\<lambda>securities.
     and_then (map_err OnRail (apply_transfer (d_cash d) (dp_cash_from pk) (dp_cash_to pk)
         (dp_cash_leg pk))) (\<lambda>cash.
     and_then (map_err (\<lambda>_. SettlementPanic) (venue_settle Z (d_venue d) (dp_instruction pk) now))
       (\<lambda>venue. Ok (d\<lparr>d_securities := securities, d_cash := cash, d_venue := venue\<rparr>))))"

definition defmi_settle ::
  "('p::ab_group_add, 's) prims \<Rightarrow> ('p, 'v) zkpi \<Rightarrow> ('p, 'v) defmi \<Rightarrow> 'p dvp_package \<Rightarrow> u64
    \<Rightarrow> 's \<times> 's \<times> 's \<Rightarrow> (('p, 'v) defmi \<times> receipt, settlement_error) result" where
  "defmi_settle P Z d pk now weights =
     (let status = defmi_check P Z d pk now weights in
      and_then (if is_ok status then defmi_apply Z d pk now else Ok d) (\<lambda>d'.
      Ok (d', \<lparr>r_status = status,
        r_securities_before = ledger_snapshot P (d_securities d),
        r_securities_after = ledger_snapshot P (d_securities d'),
        r_cash_before = ledger_snapshot P (d_cash d),
        r_cash_after = ledger_snapshot P (d_cash d')\<rparr>)))"

definition solvent :: "('p::ab_group_add, 'v) defmi \<Rightarrow> bool" where
  "solvent d \<longleftrightarrow> conserved (d_securities d) \<and> conserved (d_cash d)"

section \<open>Threshold packages\<close>

record 'p threshold_contribution =
  tc_product :: product_contribution
  tc_securities_remainder :: "'p node_value_shares"
  tc_cash_remainder :: "'p node_value_shares"

definition threshold_contribution_new ::
  "product_contribution \<Rightarrow> 'p node_value_shares \<Rightarrow> 'p node_value_shares
    \<Rightarrow> ('p threshold_contribution, settlement_error) result" where
  "threshold_contribution_new product securities_remainder cash_remainder =
     (let party = pc_party product in
      if nv_party securities_remainder \<noteq> party \<or> nv_party cash_remainder \<noteq> party
      then Err MixedContribution
      else Ok \<lparr>tc_product = product, tc_securities_remainder = securities_remainder,
        tc_cash_remainder = cash_remainder\<rparr>)"

definition tc_party :: "'p threshold_contribution \<Rightarrow> nat" where
  "tc_party c = pc_party (tc_product c)"

record 'p threshold_package =
  tp_instruction :: "'p instruction"
  tp_securities_from :: bytes
  tp_securities_to :: bytes
  tp_cash_from :: bytes
  tp_cash_to :: bytes
  tp_cash_commitment :: 'p
  tp_securities_remainder :: 'p
  tp_cash_remainder :: 'p
  tp_securities_remainder_range :: threshold_range_proof
  tp_cash_remainder_range :: threshold_range_proof
  tp_value_proof :: sigma_proof

definition verify_threshold_package ::
  "('p::ab_group_add, 's) prims \<Rightarrow> ('p, 'v) zkpi \<Rightarrow> 'p pedersen \<Rightarrow> 'p threshold_package \<Rightarrow> 'p \<Rightarrow> 'p \<Rightarrow> nat
    \<Rightarrow> (unit, settlement_error) result" where
  "verify_threshold_package P Z key pk securities_reserve cash_reserve bits =
     (if tp_securities_from pk = tp_securities_to pk \<or> tp_cash_from pk = tp_cash_to pk \<or>
         securities_reserve - i_amount_commitment (tp_instruction pk) \<noteq> tp_securities_remainder pk \<or>
         cash_reserve - tp_cash_commitment pk \<noteq> tp_cash_remainder pk
      then Err EscrowConservation
      else if trp_bits (tp_securities_remainder_range pk) \<noteq> bits \<or>
         \<not> verify_threshold_range Z key (tp_securities_remainder pk)
             (tp_securities_remainder_range pk) (dvp_securities_context Z) \<or>
         trp_bits (tp_cash_remainder_range pk) \<noteq> bits \<or>
         \<not> verify_threshold_range Z key (tp_cash_remainder pk)
             (tp_cash_remainder_range pk) (dvp_cash_context Z)
      then Err RemainderOutOfRange
      else if \<not> product_verify P key (transcript_new (dvp_product_context Z))
             (i_amount_commitment (tp_instruction pk)) (i_price_commitment (tp_instruction pk))
             (tp_cash_commitment pk) (tp_value_proof pk)
      then Err CashNotProduct
      else Ok ())"

definition build_threshold_package_from_proofs ::
  "('p::ab_group_add, 's) prims \<Rightarrow> ('p, 'v) zkpi \<Rightarrow> 'p pedersen \<Rightarrow> 'p instruction \<Rightarrow> sides \<Rightarrow> 'p \<Rightarrow> 'p \<Rightarrow> 'p
    \<Rightarrow> dvp_proofs \<Rightarrow> nat \<Rightarrow> ('p threshold_package, settlement_error) result" where
  "build_threshold_package_from_proofs P Z key i sides securities_reserve cash_reserve
       cash_commitment proofs bits =
     (let pk = \<lparr>tp_instruction = i,
        tp_securities_from = sd_securities_from sides, tp_securities_to = sd_securities_to sides,
        tp_cash_from = sd_cash_from sides, tp_cash_to = sd_cash_to sides,
        tp_cash_commitment = cash_commitment,
        tp_securities_remainder = securities_reserve - i_amount_commitment i,
        tp_cash_remainder = cash_reserve - cash_commitment,
        tp_securities_remainder_range = dp_securities_remainder proofs,
        tp_cash_remainder_range = dp_cash_remainder proofs,
        tp_value_proof = dp_product proofs\<rparr>
      in and_then (verify_threshold_package P Z key pk securities_reserve cash_reserve bits)
        (\<lambda>_. Ok pk))"

definition build_threshold_package_from_contributions ::
  "('p::ab_group_add, 's) prims \<Rightarrow> ('p, 'v) zkpi \<Rightarrow> 'p pedersen \<Rightarrow> 'p instruction \<Rightarrow> sides \<Rightarrow> 'p \<Rightarrow> 'p \<Rightarrow> 'p
    \<Rightarrow> 'p threshold_contribution list \<Rightarrow> nat list \<Rightarrow> nat \<Rightarrow> nat
    \<Rightarrow> ('p threshold_package, settlement_error) result" where
  "build_threshold_package_from_contributions P Z key i sides securities_reserve cash_reserve
       cash_commitment contributions quorum threshold bits =
     (if length contributions \<noteq> length quorum \<or> contributions = [] then Err QuorumNotFilled
      else
        let parties = set (map tc_party contributions) in
        if card parties \<noteq> length contributions \<or> set quorum \<noteq> parties then Err QuorumParties
        else
          let product_nodes = map tc_product contributions;
              securities_nodes = map tc_securities_remainder contributions;
              cash_nodes = map tc_cash_remainder contributions;
              securities_remainder = nv_commitment (hd securities_nodes);
              cash_remainder = nv_commitment (hd cash_nodes)
          in
          if securities_reserve - i_amount_commitment i \<noteq> securities_remainder \<or>
             cash_reserve - cash_commitment \<noteq> cash_remainder then Err RemaindersNotConserved
          else
            and_then (map_err OnVenue (joint_prove_product Z key (i_amount_commitment i) cash_commitment
                product_nodes quorum threshold (transcript_new (dvp_product_context Z)))) (\<lambda>value_proof.
            and_then (map_err OnVenue (joint_prove_range Z key securities_nodes quorum
                (dvp_securities_context Z))) (\<lambda>securities_range.
            and_then (map_err OnVenue (joint_prove_range Z key cash_nodes quorum
                (dvp_cash_context Z))) (\<lambda>cash_range.
            if securities_remainder \<noteq> securities_reserve - i_amount_commitment i \<or>
               cash_remainder \<noteq> cash_reserve - cash_commitment then Err StatementsChanged
            else build_threshold_package_from_proofs P Z key i sides securities_reserve cash_reserve
              cash_commitment \<lparr>dp_product = value_proof, dp_securities_remainder = securities_range,
                dp_cash_remainder = cash_range\<rparr> bits))))"

section \<open>What a checked package does\<close>

definition dvp_batch :: "('p::ab_group_add, 's) prims \<Rightarrow> 'p pedersen \<Rightarrow> 'p dvp_package \<Rightarrow> 's \<times> 's \<times> 's \<Rightarrow> ('p, 's) terms list" where
  "dvp_batch P key pk = (\<lambda>(w1, w2, w3).
     [same_value_terms P key link_transcript (leg_generator key (t_tag (dp_securities_leg pk)))
        (ped_g key) (t_amount_commitment (dp_securities_leg pk))
        (i_amount_commitment (dp_instruction pk)) (dp_quantity_link pk) w1,
      product_terms P key value_transcript (i_price_commitment (dp_instruction pk))
        (i_amount_commitment (dp_instruction pk)) (dp_cash_reference pk) (dp_value_proof pk) w2,
      same_value_terms P key cash_link_transcript (leg_generator key (t_tag (dp_cash_leg pk)))
        (ped_g key) (t_amount_commitment (dp_cash_leg pk)) (dp_cash_reference pk) (dp_cash_link pk) w3])"

abbreviation securities_move :: "'p dvp_package \<Rightarrow> bytes \<times> bytes \<times> 'p transfer \<times> bytes \<times> bool" where
  "securities_move pk \<equiv> (dp_securities_from pk, dp_securities_to pk, dp_securities_leg pk,
     settle_domain @ ascii '':sec'', True)"

abbreviation cash_move :: "'p dvp_package \<Rightarrow> bytes \<times> bytes \<times> 'p transfer \<times> bytes \<times> bool" where
  "cash_move pk \<equiv> (dp_cash_from pk, dp_cash_to pk, dp_cash_leg pk, settle_domain @ ascii '':cash'', True)"

lemma check_payer_open: "check_transfer P l payer t ctx b = Ok () \<Longrightarrow> \<exists>x. ledger_balance l payer = Some x"
  by (auto simp: ledger_balance_def elim: check_transferD)

lemma verify_package_legs_iff:
  "verify_package_legs P Z key securities cash pk ws = Ok () \<longleftrightarrow>
    \<lparr>sd_securities_from = dp_securities_from pk, sd_securities_to = dp_securities_to pk,
      sd_cash_from = dp_cash_from pk, sd_cash_to = dp_cash_to pk\<rparr> = sides_of Z (dp_instruction pk) \<and>
    dp_securities_from pk \<noteq> dp_securities_to pk \<and> dp_cash_from pk \<noteq> dp_cash_to pk \<and>
    ledger_admits P securities (securities_move pk) \<and> ledger_admits P cash (cash_move pk) \<and>
    batch_verify P (dvp_batch P key pk ws)"
  by (auto simp: verify_package_legs_def verify_package_legs_for_sides_def dvp_batch_def Let_def
      sides_of_def split: prod.splits dest: check_payer_open)

text \<open>The movement of one rail, account by account.\<close>

definition moved :: "'p::ab_group_add ledger \<Rightarrow> bytes \<Rightarrow> bytes \<Rightarrow> 'p \<Rightarrow> 'p ledger \<Rightarrow> bool" where
  "moved l payer payee amount l' \<longleftrightarrow> (\<exists>x y.
     ledger_balance l payer = Some x \<and> ledger_balance l payee = Some y \<and>
     ledger_balance l' payer = Some (x - amount) \<and> ledger_balance l' payee = Some (y + amount) \<and>
     (\<forall>h. h \<noteq> payer \<longrightarrow> h \<noteq> payee \<longrightarrow> ledger_balance l' h = ledger_balance l h) \<and>
     l_pending l' = l_pending l \<and> l_minted l' = l_minted l \<and> l_key l' = l_key l \<and> l_bits l' = l_bits l)"

lemma carried_moved:
  assumes "ledger_admits P l (payer, payee, t, ctx, b)" "ledger_carry l (payer, payee, t, ctx, b) = Some l'"
    and "payer \<noteq> payee"
  shows "moved l payer payee (t_amount_commitment t) l'"
proof -
  have "settle_transfer P l payer payee t ctx b = Ok l'"
    using assms(2) admitted_settles [OF assms(1)] by simp
  then show ?thesis
    by (rule settle_transferD) (use assms(3) in \<open>auto simp: moved_def ledger_balance_def\<close>)
qed

lemma defmi_apply_ok:
  assumes laws: "venue_laws Z spent" and check: "defmi_check P Z d pk now ws = Ok ()"
  shows "\<exists>securities cash venue.
    defmi_apply Z d pk now = Ok (d\<lparr>d_securities := securities, d_cash := cash, d_venue := venue\<rparr>) \<and>
    ledger_carry (d_securities d) (securities_move pk) = Some securities \<and>
    ledger_carry (d_cash d) (cash_move pk) = Some cash \<and>
    spent venue = insert (i_nullifier (dp_instruction pk)) (spent (d_venue d)) \<and>
    (solvent d \<longrightarrow> conserved securities \<and> conserved cash)"
proof -
  from check have v: "venue_verify Z (d_venue d) (dp_instruction pk) now = Ok ()"
    and legs: "verify_package_legs P Z (d_key d) (d_securities d) (d_cash d) pk ws = Ok ()"
    by (auto simp: defmi_check_def)
  then have "ledger_admits P (d_securities d) (securities_move pk)" "ledger_admits P (d_cash d) (cash_move pk)"
    by (simp_all only: verify_package_legs_iff)
  from ledger_rails.carried_together [OF this] obtain securities cash where
    "ledger_carry (d_securities d) (securities_move pk) = Some securities"
    "ledger_carry (d_cash d) (cash_move pk) = Some cash"
    "conserved (d_securities d) \<and> conserved (d_cash d) \<longrightarrow> conserved securities \<and> conserved cash" by blast
  moreover from venue_lawsD(2) [OF laws v] obtain venue where
    "venue_settle Z (d_venue d) (dp_instruction pk) now = Ok venue" by blast
  moreover from venue_lawsD(3) [OF laws this]
  have "spent venue = insert (i_nullifier (dp_instruction pk)) (spent (d_venue d))" .
  ultimately show ?thesis by (auto simp: defmi_apply_def solvent_def)
qed

section \<open>Histories of settlements\<close>

text \<open>A package, the time it is judged against and the batch weights, if it settled.\<close>

type_synonym ('p, 's) dvp_op = "'p dvp_package \<times> u64 \<times> 's \<times> 's \<times> 's"

fun defmi_step ::
  "('p::ab_group_add, 's) prims \<Rightarrow> ('p, 'v) zkpi \<Rightarrow> ('p, 'v) defmi \<Rightarrow> ('p, 's) dvp_op \<Rightarrow> ('p, 'v) defmi option" where
  "defmi_step P Z d (pk, now, ws) = (case defmi_settle P Z d pk now ws of
     Ok (d', r) \<Rightarrow> if is_ok (r_status r) then Some d' else None
   | Err _ \<Rightarrow> None)"

fun dvp_nullifier :: "('p, 's) dvp_op \<Rightarrow> bytes" where
  "dvp_nullifier (pk, now, ws) = i_nullifier (dp_instruction pk)"

lemma defmi_stepD:
  assumes "defmi_step P Z d (pk, now, ws) = Some d'"
  shows "defmi_check P Z d pk now ws = Ok ()" and "defmi_apply Z d pk now = Ok d'"
  using assms by (auto simp: defmi_settle_def Let_def is_ok_iff split: result.splits if_splits)

lemma defmi_step_effect:
  assumes "venue_laws Z spent" "defmi_step P Z d (pk, now, ws) = Some d'"
  shows "spent (d_venue d') = insert (i_nullifier (dp_instruction pk)) (spent (d_venue d))"
    and "solvent d \<Longrightarrow> solvent d'"
proof -
  obtain securities cash venue where
    a: "defmi_apply Z d pk now = Ok (d\<lparr>d_securities := securities, d_cash := cash, d_venue := venue\<rparr>)"
    "spent venue = insert (i_nullifier (dp_instruction pk)) (spent (d_venue d))"
    "solvent d \<longrightarrow> conserved securities \<and> conserved cash"
    using defmi_apply_ok [OF assms(1) defmi_stepD(1) [OF assms(2)]] by blast
  then have "d' = d\<lparr>d_securities := securities, d_cash := cash, d_venue := venue\<rparr>"
    using defmi_stepD(2) [OF assms(2)] by simp
  with a(2,3) show "spent (d_venue d') = insert (i_nullifier (dp_instruction pk)) (spent (d_venue d))"
    and "solvent d \<Longrightarrow> solvent d'"
    by (simp_all add: solvent_def)
qed

lemma defmi_step_solvent:
  "venue_laws Z spent \<Longrightarrow> solvent d \<Longrightarrow> defmi_step P Z d op = Some d' \<Longrightarrow> solvent d'"
  by (cases op) (metis defmi_step_effect(2))

interpretation dvp_instructions: once_only "defmi_step P Z" "\<lambda>_. venue_laws Z spent"
    "\<lambda>op. Some (dvp_nullifier op)" "\<lambda>d. spent (d_venue d)"
  for P :: "('p::ab_group_add, 's) prims" and Z :: "('p, 'v) zkpi" and spent :: "'v \<Rightarrow> bytes set"
proof
  fix d d' :: "('p, 'v) defmi" and op :: "('p, 's) dvp_op"
  assume laws: "venue_laws Z spent" and step: "defmi_step P Z d op = Some d'"
  obtain pk now ws where op: "op = (pk, now, ws)" by (cases op)
  note d' = defmi_stepD [OF step [unfolded op]]
  from defmi_step_effect(1) [OF laws step [unfolded op]]
  have spent: "spent (d_venue d') = insert (dvp_nullifier op) (spent (d_venue d))"
    by (simp add: op)
  then show "spent (d_venue d) \<subseteq> spent (d_venue d')" by blast
  fix t assume t: "Some (dvp_nullifier op) = Some t"
  with spent show "t \<in> spent (d_venue d')" by simp
  from d'(1) have "venue_verify Z (d_venue d) (dp_instruction pk) now = Ok ()"
    by (auto simp: defmi_check_def)
  with venue_lawsD(1) [OF laws this] t op show "t \<notin> spent (d_venue d)" by simp
qed

section \<open>What the links fix\<close>

definition honest_leg :: "('p \<Rightarrow> 's::comm_ring_1) \<Rightarrow> 'p transfer \<Rightarrow> bool" where
  "honest_leg val t \<longleftrightarrow> (\<forall>tag. t_tag t = Some tag \<longrightarrow> val (tag_point tag) = 1)"

lemma leg_values:
  assumes val: "algebraic_reading P key val"
    and legs: "verify_package_legs P Z key securities cash pk ws = Ok ()"
    and tags: "honest_leg val (dp_securities_leg pk)" "honest_leg val (dp_cash_leg pk)"
  shows "val (t_amount_commitment (dp_securities_leg pk)) = val (i_amount_commitment (dp_instruction pk))"
    and "val (t_amount_commitment (dp_cash_leg pk)) =
      val (i_price_commitment (dp_instruction pk)) * val (i_amount_commitment (dp_instruction pk))"
proof -
  obtain w1 w2 w3 where ws: "ws = (w1, w2, w3)" by (cases ws)
  have b: "batch_verify P (dvp_batch P key pk ws)"
    using legs by (simp add: verify_package_legs_iff)
  have gen: "val (leg_generator key (t_tag t)) = 1" if "honest_leg val t" for t
    using that val_g [OF val] by (auto simp: leg_generator_def honest_leg_def split: option.splits)
  note same = val_same_value [OF val b, unfolded dvp_batch_def ws]
    and prod = val_product [OF val b, unfolded dvp_batch_def ws]
  show "val (t_amount_commitment (dp_securities_leg pk)) = val (i_amount_commitment (dp_instruction pk))"
    using same [of link_transcript "leg_generator key (t_tag (dp_securities_leg pk))" "ped_g key"
        "t_amount_commitment (dp_securities_leg pk)" "i_amount_commitment (dp_instruction pk)"
        "dp_quantity_link pk" w1] gen [OF tags(1)] val_g [OF val] by auto
  have "val (t_amount_commitment (dp_cash_leg pk)) = val (dp_cash_reference pk)"
    using same [of cash_link_transcript "leg_generator key (t_tag (dp_cash_leg pk))" "ped_g key"
        "t_amount_commitment (dp_cash_leg pk)" "dp_cash_reference pk"
        "dp_cash_link pk" w3] gen [OF tags(2)] val_g [OF val] by auto
  moreover have "val (dp_cash_reference pk) =
      val (i_price_commitment (dp_instruction pk)) * val (i_amount_commitment (dp_instruction pk))"
    using prod [of value_transcript "i_price_commitment (dp_instruction pk)"
        "i_amount_commitment (dp_instruction pk)" "dp_cash_reference pk" "dp_value_proof pk" w2] by auto
  ultimately show "val (t_amount_commitment (dp_cash_leg pk)) =
      val (i_price_commitment (dp_instruction pk)) * val (i_amount_commitment (dp_instruction pk))"
    by simp
qed

text \<open>One rail of an accepted package, over numbers.\<close>

lemma admitted_value:
  fixes P :: "('p::ab_group_add, 's::comm_ring_1) prims"
  assumes val: "algebraic_reading P (l_key l) val"
    and wide: "wide_scalars TYPE('s) n" "l_bits l \<le> m" "m < n"
    and reads: "reads val l (A, E)" "value_total (A, E) < 2 ^ n"
    and admits: "ledger_admits P l (payer, payee, t, ctx, b)"
    and carry: "ledger_carry l (payer, payee, t, ctx, b) = Some l'"
    and q: "honest_leg val t" "val (t_amount_commitment t) = of_nat q" "q < 2 ^ m" and "payer \<noteq> payee"
  shows "\<exists>x y. bt_get A payer = Some x \<and> q \<le> x \<and> bt_get A payee = Some y \<and>
    reads val l' (bt_insert payee (y + q) (bt_insert payer (x - q) A), E)"
proof -
  have "settle_transfer P l payer payee t ctx b = Ok l'"
    using carry admitted_settles [OF admits] by simp
  then obtain bal held where s: "check_transfer P l payer t ctx b = Ok ()"
    "bt_get (l_accounts l) payer = Some bal"
    "bt_get (bt_insert payer (bal - t_amount_commitment t) (l_accounts l)) payee = Some held"
    "l' = l\<lparr>l_accounts := bt_insert payee (held + t_amount_commitment t)
      (bt_insert payer (bal - t_amount_commitment t) (l_accounts l))\<rparr>"
    by (rule settle_transferD)
  from checked_value [OF val wide reads s(1) q(1) [unfolded honest_leg_def] q(2,3)] obtain x where
    x: "bt_get A payer = Some x" "q \<le> x" by auto
  from moved_reads [OF val reads(1) s(2,3) x q(2) s(4)] x \<open>payer \<noteq> payee\<close> show ?thesis by auto
qed

section \<open>A built package is accepted\<close>

text \<open>A rail on which the payer can open its account under the generator \<open>A\<close> and cover the amount.\<close>

definition rail_ready ::
  "('p::ab_group_add, 's::comm_ring_1) prims \<Rightarrow> 'p ledger \<Rightarrow> bytes \<Rightarrow> bytes \<Rightarrow> 'p \<Rightarrow> u64 \<Rightarrow> 's \<Rightarrow> u64 \<Rightarrow> bool" where
  "rail_ready P l payer payee A v r amount \<longleftrightarrow> payer \<noteq> payee \<and>
     ledger_balance l payer = Some (opens P l A (scalar_u64 v) r) \<and>
     ledger_balance l payee \<noteq> None \<and> amount \<le> v \<and> unat v < 2 ^ l_bits l \<and> range_width (l_bits l)"

text \<open>
  The rail after the amount has moved: the payer's account opens to the rest under the
  given blinding, and the payee's account has grown by the amount under the given blinding.
\<close>

definition rail_moved ::
  "('p::ab_group_add, 's::comm_ring_1) prims \<Rightarrow> 'p ledger \<Rightarrow> 'p ledger \<Rightarrow> bytes \<Rightarrow> bytes \<Rightarrow> 'p \<Rightarrow> u64 \<Rightarrow> 's \<Rightarrow> u64 \<Rightarrow> 's \<Rightarrow> bool" where
  "rail_moved P l l' payer payee A rest blinding amount delta \<longleftrightarrow>
     ledger_balance l' payer = Some (opens P l A (scalar_u64 rest) blinding) \<and>
     (\<exists>x. ledger_balance l payee = Some x \<and>
       ledger_balance l' payee = Some (x + opens P l A (scalar_u64 amount) delta))"

lemma build_leg:
  fixes P :: "('p::ab_group_add, 's::comm_ring_1) prims"
  assumes laws: "scalar_module P" "pedersen_commits P" "ristretto_encoding P" "range_complete P"
    and tag: "tag_of P l A gamma tag" and ready: "rail_ready P l payer payee A v r amount"
  obtains t sec where "build_transfer P l v r amount ctx tag gamma True drawn = Ok (t, sec)"
    and "ledger_admits P l (payer, payee, t, ctx, True)"
    and "t_amount_commitment t = smul P (scalar_u64 amount) (leg_generator (l_key l) tag) + smul P drawn (ped_h (l_key l))"
    and "t_tag t = tag" and "ts_amount_blinding sec = drawn"
    and "\<And>l'. ledger_carry l (payer, payee, t, ctx, True) = Some l' \<Longrightarrow> rail_moved P l l' payer payee A (v - amount)
      (ts_remainder_blinding sec + gamma * scalar_u64 (v - amount)) amount (gamma * scalar_u64 amount + drawn)"
proof -
  from ready have r: "bt_get (l_accounts l) payer = Some (opens P l A (scalar_u64 v) r)" "amount \<le> v"
    "unat v < 2 ^ l_bits l" "range_width (l_bits l)" "ledger_balance l payee \<noteq> None" "payer \<noteq> payee"
    by (auto simp: rail_ready_def ledger_balance_def)
  obtain t sec where t: "build_transfer P l v r amount ctx tag gamma True drawn = Ok (t, sec)"
    "check_transfer P l payer t ctx True = Ok ()"
    "t_amount_commitment t = opens P l A (scalar_u64 amount) (ts_payee_delta sec)"
    "t_remainder_commitment t = opens P l A (scalar_u64 (v - amount)) (r - ts_payee_delta sec)"
    using build_check [OF laws tag r(1-4)] unfolding build_transfer_def by blast
  note b = build_amount [OF t(1)]
  have g: "gens_commit P (ledger_gens l tag) x y = smul P x (leg_generator (l_key l) tag) + smul P y (ped_h (l_key l))" for x y
    using laws(2) by (auto simp: pedersen_commits_def ledger_gens_def tag_gens_def leg_generator_def split: option.splits)
  have eq: "r - ts_payee_delta sec = ts_remainder_blinding sec + gamma * scalar_u64 (v - amount)"
    unfolding b(4,5) scalar_u64_diff [OF r(2)] by (simp add: algebra_simps)
  have "rail_moved P l l' payer payee A (v - amount) (r - ts_payee_delta sec) amount (ts_payee_delta sec)"
    if "ledger_carry l (payer, payee, t, ctx, True) = Some l'" for l'
    using that r(5,6) t(3,4) by (auto simp: rail_moved_def apply_transfer_def ledger_balance_def Let_def)
  note moved = this [unfolded eq, unfolded b(4)]
  show thesis
    by (rule that [OF t(1) _ _ b(3,2) moved]) (use t(2) r(5) b(1) g in auto)
qed

lemma built_batch:
  fixes P :: "('p::ab_group_add, 's::comm_ring_1) prims"
  assumes laws: "pedersen_commits P" "sigma_complete P"
    and s: "t_amount_commitment (dp_securities_leg pk) =
      smul P (scalar_u64 q) (leg_generator key (t_tag (dp_securities_leg pk))) + smul P r1 (ped_h key)"
    and c: "t_amount_commitment (dp_cash_leg pk) =
      smul P (scalar_u64 v) (leg_generator key (t_tag (dp_cash_leg pk))) + smul P r2 (ped_h key)"
    and i: "i_amount_commitment (dp_instruction pk) = ped_commit P key (scalar_u64 q) o1"
      "i_price_commitment (dp_instruction pk) = ped_commit P key (scalar_u64 p) o2"
    and v: "checked_mul q p = Some v"
    and pk: "dp_quantity_link pk = same_value_prove P key link_transcript
        (leg_generator key (t_tag (dp_securities_leg pk))) (ped_g key) (t_amount_commitment (dp_securities_leg pk))
        (i_amount_commitment (dp_instruction pk)) (scalar_u64 q) r1 o1"
      "dp_cash_reference pk = commit_u64 P key v r3"
      "dp_value_proof pk = product_prove P key value_transcript (i_price_commitment (dp_instruction pk))
        (scalar_u64 p) o2 (scalar_u64 q) o1 r3"
      "dp_cash_link pk = same_value_prove P key cash_link_transcript
        (leg_generator key (t_tag (dp_cash_leg pk))) (ped_g key) (t_amount_commitment (dp_cash_leg pk))
        (dp_cash_reference pk) (scalar_u64 v) r2 r3"
  shows "batch_verify P (dvp_batch P key pk ws)"
proof -
  have c1: "ped_commit P key x y = smul P x (ped_g key) + smul P y (ped_h key)" for x y
    using laws(1) by (simp add: pedersen_commits_def)
  note sv = same_value_complete [OF laws(2)] and pv = product_complete [OF laws(2)]
  have qp: "(scalar_u64 v :: 's) = scalar_u64 p * scalar_u64 q"
    using v by (simp add: checked_mul_Some scalar_u64_def mult.commute)
  obtain w1 w2 w3 where ws: "ws = (w1, w2, w3)" by (cases ws)
  have "batch_verify P [same_value_terms P key link_transcript (leg_generator key (t_tag (dp_securities_leg pk)))
      (ped_g key) (t_amount_commitment (dp_securities_leg pk)) (i_amount_commitment (dp_instruction pk))
      (dp_quantity_link pk) w1]"
    unfolding pk(1) s i(1) c1 by (rule sv)
  moreover have "batch_verify P [product_terms P key value_transcript (i_price_commitment (dp_instruction pk))
      (i_amount_commitment (dp_instruction pk)) (dp_cash_reference pk) (dp_value_proof pk) w2]"
    unfolding pk(2,3) i commit_u64_def qp by (rule pv)
  moreover have "batch_verify P [same_value_terms P key cash_link_transcript (leg_generator key (t_tag (dp_cash_leg pk)))
      (ped_g key) (t_amount_commitment (dp_cash_leg pk)) (dp_cash_reference pk) (dp_cash_link pk) w3]"
    unfolding pk(4) unfolding pk(2) c commit_u64_def c1 by (rule sv)
  ultimately have "batch_verify P [b]" if "b \<in> set (dvp_batch P key pk ws)" for b
    using that by (auto simp: dvp_batch_def ws)
  then show ?thesis by (rule batch_all [OF laws(2)])
qed

text \<open>The package \<open>build_package\<close> puts together of two built legs, with its proofs.\<close>

definition package_of ::
  "('p::ab_group_add, 's::comm_ring_1) prims \<Rightarrow> ('p, 'v) zkpi \<Rightarrow> 'p pedersen \<Rightarrow> 'p instruction \<Rightarrow> 'p transfer \<Rightarrow> 'p transfer
    \<Rightarrow> u64 \<Rightarrow> u64 \<Rightarrow> u64 \<Rightarrow> 's instruction_openings \<Rightarrow> 's \<times> 's \<times> 's \<Rightarrow> 'p dvp_package" where
  "package_of P Z key i t1 t2 quantity price cash_value openings rs = (case rs of (r1, r2, r3) \<Rightarrow>
    \<lparr>dp_instruction = i,
    dp_securities_from = sd_securities_from (sides_of Z i), dp_securities_to = sd_securities_to (sides_of Z i),
    dp_cash_from = sd_cash_from (sides_of Z i), dp_cash_to = sd_cash_to (sides_of Z i),
    dp_securities_leg = t1, dp_cash_leg = t2,
    dp_quantity_link = same_value_prove P key link_transcript (leg_generator key (t_tag t1))
        (ped_g key) (t_amount_commitment t1) (i_amount_commitment i) (scalar_u64 quantity) r1 (io_amount openings),
    dp_cash_reference = commit_u64 P key cash_value r3,
    dp_value_proof = product_prove P key value_transcript (i_price_commitment i) (scalar_u64 price)
           (io_price openings) (scalar_u64 quantity) (io_amount openings) r3,
    dp_cash_link = same_value_prove P key cash_link_transcript (leg_generator key (t_tag t2))
           (ped_g key) (t_amount_commitment t2) (commit_u64 P key cash_value r3) (scalar_u64 cash_value) r2 r3\<rparr>)"

lemma build_package_package_of:
  assumes "build_transfer P securities (h_securities_balance h) (h_securities_blinding h) quantity
      (settle_domain @ ascii '':sec'') sec_tag sec_gamma True r1 = Ok (t1, s1)"
    and "build_transfer P cash (h_cash_balance h) (h_cash_blinding h) cash_value
      (settle_domain @ ascii '':cash'') cash_tag cash_gamma True r2 = Ok (t2, s2)"
    and "t_tag t1 = sec_tag" "t_tag t2 = cash_tag" "ts_amount_blinding s1 = r1" "ts_amount_blinding s2 = r2"
    and "checked_mul quantity price = Some cash_value"
  obtains cy where "build_package P Z key i securities cash quantity price h openings
      sec_tag sec_gamma cash_tag cash_gamma (r1, r2, r3) =
      Ok (package_of P Z key i t1 t2 quantity price cash_value openings (r1, r2, r3), cy)"
    and "cy_securities_balance cy = h_securities_balance h - quantity"
      "cy_securities_blinding cy = ts_remainder_blinding s1"
      "cy_cash_balance cy = h_cash_balance h - cash_value" "cy_cash_blinding cy = ts_remainder_blinding s2"
  using assms by (auto simp: build_package_def build_package_for_sides_def package_of_def Let_def)

lemma package_of_settles:
  fixes P :: "('p::ab_group_add, 's::comm_ring_1) prims"
  assumes laws: "pedersen_commits P" "sigma_complete P"
    and venue: "venue_laws Z spent" "venue_verify Z (d_venue d) i now = Ok ()"
    and admits: "ledger_admits P (d_securities d) (sd_securities_from (sides_of Z i), sd_securities_to (sides_of Z i),
        t1, settle_domain @ ascii '':sec'', True)"
      "ledger_admits P (d_cash d) (sd_cash_from (sides_of Z i), sd_cash_to (sides_of Z i),
        t2, settle_domain @ ascii '':cash'', True)"
    and apart: "sd_securities_from (sides_of Z i) \<noteq> sd_securities_to (sides_of Z i)"
      "sd_cash_from (sides_of Z i) \<noteq> sd_cash_to (sides_of Z i)"
    and t1: "t_amount_commitment t1 = smul P (scalar_u64 quantity) (leg_generator (d_key d) (t_tag t1)) +
      smul P r1 (ped_h (d_key d))"
    and t2: "t_amount_commitment t2 = smul P (scalar_u64 cash_value) (leg_generator (d_key d) (t_tag t2)) +
      smul P r2 (ped_h (d_key d))"
    and product: "checked_mul quantity price = Some cash_value"
    and i: "i_amount_commitment i = ped_commit P (d_key d) (scalar_u64 quantity) (io_amount openings)"
      "i_price_commitment i = ped_commit P (d_key d) (scalar_u64 price) (io_price openings)"
  obtains d' r where
    "defmi_settle P Z d (package_of P Z (d_key d) i t1 t2 quantity price cash_value openings (r1, r2, r3)) now ws = Ok (d', r)"
    and "is_ok (r_status r)"
    and "ledger_carry (d_securities d) (sd_securities_from (sides_of Z i), sd_securities_to (sides_of Z i),
        t1, settle_domain @ ascii '':sec'', True) = Some (d_securities d')"
    and "ledger_carry (d_cash d) (sd_cash_from (sides_of Z i), sd_cash_to (sides_of Z i),
        t2, settle_domain @ ascii '':cash'', True) = Some (d_cash d')"
proof -
  let ?pk = "package_of P Z (d_key d) i t1 t2 quantity price cash_value openings (r1, r2, r3)"
  have "batch_verify P (dvp_batch P (d_key d) ?pk ws)"
    by (rule built_batch [OF laws _ _ _ _ product]) (simp_all add: package_of_def t1 t2 i)
  with admits apart have "verify_package_legs P Z (d_key d) (d_securities d) (d_cash d) ?pk ws = Ok ()"
    by (simp add: verify_package_legs_iff package_of_def)
  with venue(2) have check: "defmi_check P Z d ?pk now ws = Ok ()" by (simp add: defmi_check_def package_of_def)
  from defmi_apply_ok [OF venue(1) this] obtain securities c v where
    ok: "defmi_apply Z d ?pk now = Ok (d\<lparr>d_securities := securities, d_cash := c, d_venue := v\<rparr>)"
    and carry: "ledger_carry (d_securities d) (securities_move ?pk) = Some securities"
      "ledger_carry (d_cash d) (cash_move ?pk) = Some c" by blast
  obtain r where "defmi_settle P Z d ?pk now ws =
      Ok (d\<lparr>d_securities := securities, d_cash := c, d_venue := v\<rparr>, r)" "is_ok (r_status r)"
    by (simp add: defmi_settle_def check ok)
  then show thesis
    by (rule that) (use carry in \<open>simp_all add: package_of_def\<close>)
qed

section \<open>An example settlement\<close>

text \<open>
  Party 2 delivers 3 units to party 1 for 21 in cash, over transparent ledgers and a venue
  that has settled nothing.
\<close>

definition demo_instruction :: "int instruction" where
  "demo_instruction = \<lparr>i_payer_handle = 1, i_payee_handle = 2, i_asset_commitment = 0,
     i_amount_commitment = 3, i_price_commitment = 7, i_nullifier = [42], i_deadline = 100, i_rest = []\<rparr>"

definition demo_rail :: "bytes \<Rightarrow> int \<Rightarrow> int \<Rightarrow> int ledger" where
  "demo_rail name b1 b2 = (ledger_new plain_key 64)\<lparr>l_accounts :=
     bt_insert (name @ enc_int 1) b1 (bt_insert (name @ enc_int 2) b2 bt_empty), l_minted := b1 + b2\<rparr>"

definition demo_defmi :: "(int, bytes set) defmi" where
  "demo_defmi = \<lparr>d_key = plain_key, d_securities = demo_rail securities_rail 0 10,
     d_cash = demo_rail cash_rail 50 0, d_venue = {}\<rparr>"

definition demo_leg_transfer :: "int \<Rightarrow> int \<Rightarrow> int transfer" where
  "demo_leg_transfer q r = \<lparr>t_amount_commitment = q, t_amount_range = None,
     t_remainder_commitment = r, t_remainder_range = [], t_tag = None\<rparr>"

definition demo_package :: "int dvp_package" where
  "demo_package = \<lparr>dp_instruction = demo_instruction,
     dp_securities_from = securities_rail @ enc_int 2, dp_securities_to = securities_rail @ enc_int 1,
     dp_cash_from = cash_rail @ enc_int 1, dp_cash_to = cash_rail @ enc_int 2,
     dp_securities_leg = demo_leg_transfer 3 7, dp_cash_leg = demo_leg_transfer 21 29,
     dp_quantity_link = [], dp_cash_reference = 21, dp_value_proof = [], dp_cash_link = []\<rparr>"

definition demo_settled :: "(int, bytes set) defmi" where
  "demo_settled = demo_defmi\<lparr>d_securities := (demo_rail securities_rail 0 10)\<lparr>l_accounts :=
       bt_insert (securities_rail @ enc_int 1) 3 (bt_insert (securities_rail @ enc_int 2) 7
         (l_accounts (demo_rail securities_rail 0 10)))\<rparr>,
     d_cash := (demo_rail cash_rail 50 0)\<lparr>l_accounts :=
       bt_insert (cash_rail @ enc_int 2) 21 (bt_insert (cash_rail @ enc_int 1) 29
         (l_accounts (demo_rail cash_rail 50 0)))\<rparr>,
     d_venue := {[42]}\<rparr>"

lemmas demo_dvp_defs = demo_package_def demo_instruction_def demo_defmi_def demo_rail_def
  demo_leg_transfer_def ledger_new_def ledger_balance_def plain_simps plain_zkpi_simps

lemma demo_dvp_check: "defmi_check plain plain_zkpi demo_defmi demo_package 5 ws = Ok ()"
  by (simp add: defmi_check_def verify_package_legs_iff demo_dvp_defs sides_of_def account_of_def
      check_transfer_def ledger_gens_def plain_in_range_def dvp_batch_def plain_terms_def plain_same_def
      plain_product_def leg_generator_def plain_key_def split: prod.splits)

lemma demo_dvp_apply: "defmi_apply plain_zkpi demo_defmi demo_package 5 = Ok demo_settled"
  by (simp add: defmi_apply_def apply_transfer_def demo_settled_def demo_dvp_defs)

lemma demo_dvp_step: "defmi_step plain plain_zkpi demo_defmi (demo_package, 5, ws) = Some demo_settled"
  by (simp add: defmi_settle_def demo_dvp_check demo_dvp_apply Let_def)

lemma demo_solvent: "solvent demo_defmi"
  by (simp add: solvent_def conserved_iff ledger_total_def demo_defmi_def demo_rail_def ledger_new_def
      bt_sum_insert_new)

section \<open>Properties\<close>

text \<open>
  C3: a settlement is all or nothing. It always returns a receipt. If the status is an
  error, the state is unchanged and the receipt's snapshots agree; if it is success, both
  legs have moved, each exactly its amount from one account to another with every other
  account as before, between the accounts the instruction names, and the venue has
  recorded the instruction's nullifier. Solvency of both rails is kept. Hypothesis: the
  venue settles what it verified, and records it.
\<close>

theorem dvp_all_or_nothing:
  assumes "venue_laws Z spent"
  shows "\<exists>d' r. defmi_settle P Z d pk now ws = Ok (d', r) \<and>
    (case r_status r of
       Err e \<Rightarrow> d' = d \<and> r_securities_after r = r_securities_before r \<and> r_cash_after r = r_cash_before r
     | Ok _ \<Rightarrow>
         moved (d_securities d) (account_of Z (i_payee_handle (dp_instruction pk)) securities_rail)
           (account_of Z (i_payer_handle (dp_instruction pk)) securities_rail)
           (t_amount_commitment (dp_securities_leg pk)) (d_securities d') \<and>
         moved (d_cash d) (account_of Z (i_payer_handle (dp_instruction pk)) cash_rail)
           (account_of Z (i_payee_handle (dp_instruction pk)) cash_rail)
           (t_amount_commitment (dp_cash_leg pk)) (d_cash d') \<and>
         spent (d_venue d') = insert (i_nullifier (dp_instruction pk)) (spent (d_venue d)) \<and>
         i_nullifier (dp_instruction pk) \<notin> spent (d_venue d)) \<and>
    (solvent d \<longrightarrow> solvent d')"
proof (cases "defmi_check P Z d pk now ws")
  case (Err e)
  then show ?thesis by (simp add: defmi_settle_def)
next
  case (Ok u)
  then have check: "defmi_check P Z d pk now ws = Ok ()" by simp
  then have v: "venue_verify Z (d_venue d) (dp_instruction pk) now = Ok ()"
    and legs: "verify_package_legs P Z (d_key d) (d_securities d) (d_cash d) pk ws = Ok ()"
    by (auto simp: defmi_check_def)
  note l = legs [unfolded verify_package_legs_iff]
  from defmi_apply_ok [OF assms check] obtain securities cash venue where
    a: "defmi_apply Z d pk now = Ok (d\<lparr>d_securities := securities, d_cash := cash, d_venue := venue\<rparr>)"
    "ledger_carry (d_securities d) (securities_move pk) = Some securities"
    "ledger_carry (d_cash d) (cash_move pk) = Some cash"
    "spent venue = insert (i_nullifier (dp_instruction pk)) (spent (d_venue d))"
    "solvent d \<longrightarrow> conserved securities \<and> conserved cash" by blast
  with carried_moved [OF _ a(2)] carried_moved [OF _ a(3)] l venue_lawsD(1) [OF assms v]
  show ?thesis
    by (auto simp: defmi_settle_def check solvent_def sides_of_def)
qed

theorem dvp_all_or_nothing_witness:
  "moved (d_securities demo_defmi) (securities_rail @ enc_int 2) (securities_rail @ enc_int 1) 3
      (d_securities demo_settled) \<and>
   moved (d_cash demo_defmi) (cash_rail @ enc_int 1) (cash_rail @ enc_int 2) 21 (d_cash demo_settled) \<and>
   solvent demo_settled"
proof -
  obtain d' r where w: "defmi_settle plain plain_zkpi demo_defmi demo_package 5 (1, 1, 1) = Ok (d', r)"
    "case r_status r of
       Err e \<Rightarrow> d' = demo_defmi \<and> r_securities_after r = r_securities_before r \<and> r_cash_after r = r_cash_before r
     | Ok _ \<Rightarrow>
         moved (d_securities demo_defmi) (account_of plain_zkpi (i_payee_handle (dp_instruction demo_package)) securities_rail)
           (account_of plain_zkpi (i_payer_handle (dp_instruction demo_package)) securities_rail)
           (t_amount_commitment (dp_securities_leg demo_package)) (d_securities d') \<and>
         moved (d_cash demo_defmi) (account_of plain_zkpi (i_payer_handle (dp_instruction demo_package)) cash_rail)
           (account_of plain_zkpi (i_payee_handle (dp_instruction demo_package)) cash_rail)
           (t_amount_commitment (dp_cash_leg demo_package)) (d_cash d') \<and>
         d_venue d' = insert (i_nullifier (dp_instruction demo_package)) (d_venue demo_defmi) \<and>
         i_nullifier (dp_instruction demo_package) \<notin> d_venue demo_defmi"
    "solvent demo_defmi \<longrightarrow> solvent d'"
    using dvp_all_or_nothing [OF plain_venue, of plain demo_defmi demo_package 5 "(1, 1, 1)"] by blast
  have "d' = demo_settled" "r_status r = Ok ()"
    using w(1) demo_dvp_step [of "(1, 1, 1)"] demo_dvp_check [of "(1, 1, 1)"]
    by (auto simp: defmi_settle_def Let_def)
  with w(2,3) demo_solvent show ?thesis
    by (simp add: account_of_def plain_zkpi_simps demo_package_def demo_instruction_def demo_leg_transfer_def)
qed

text \<open>
  C21: no instruction settles twice. Over any history of settlements the nullifiers are
  distinct, none of them was recorded before, solvency is kept throughout, and a package
  whose instruction has one of them is refused and leaves the state unchanged.
\<close>

theorem dvp_never_twice:
  assumes "venue_laws Z spent" "run (defmi_step P Z) d ops = Some d'"
  shows "distinct (map dvp_nullifier ops) \<and> (solvent d \<longrightarrow> solvent d') \<and>
    (\<forall>op \<in> set ops. i_nullifier (dp_instruction pk) = dvp_nullifier op \<longrightarrow>
      (\<exists>r. defmi_settle P Z d' pk now ws = Ok (d', r) \<and> \<not> is_ok (r_status r)))"
proof (intro conjI ballI impI)
  have "List.map_filter (\<lambda>op. Some (dvp_nullifier op)) ops = map dvp_nullifier ops"
    by (induction ops) (simp_all add: List.map_filter_simps)
  with dvp_instructions.run_tokens_distinct [OF assms] show "distinct (map dvp_nullifier ops)" by simp
next
  assume "solvent d"
  from run_invariant [of solvent "defmi_step P Z", OF defmi_step_solvent [OF assms(1)] this assms(2)]
  show "solvent d'" .
next
  fix op assume op: "op \<in> set ops" "i_nullifier (dp_instruction pk) = dvp_nullifier op"
  have "defmi_step P Z d' (pk, now, ws) = None"
    by (rule dvp_instructions.run_never_twice [OF assms op(1) refl]) (simp add: op)
  moreover have "\<exists>d1 r. defmi_settle P Z d' pk now ws = Ok (d1, r) \<and> (is_ok (r_status r) \<or> d1 = d')"
    using defmi_apply_ok [OF assms(1), of P d' pk now ws]
    by (cases "defmi_check P Z d' pk now ws") (auto simp: defmi_settle_def)
  ultimately show "\<exists>r. defmi_settle P Z d' pk now ws = Ok (d', r) \<and> \<not> is_ok (r_status r)"
    by (auto split: if_splits)
qed

theorem dvp_never_twice_witness:
  "\<exists>r. defmi_settle plain plain_zkpi demo_settled demo_package 6 (1, 1, 1) = Ok (demo_settled, r) \<and>
    \<not> is_ok (r_status r)"
  using dvp_never_twice [OF plain_venue, of plain demo_defmi "[(demo_package, 5, 1, 1, 1)]" demo_settled
      demo_package 6 "(1, 1, 1)"] demo_dvp_step [of "(1, 1, 1)"] by simp

text \<open>
  C7: what settles is what was instructed. If the instruction's amount and price commit to
  the numbers \<open>q\<close> and \<open>p\<close>, both below \<open>2 ^ 64\<close>, then an accepted package moves exactly \<open>q\<close>
  units of the security, which the deliverer holds, and exactly \<open>q * p\<close> of cash, which
  the payer holds, and the two ledgers read accordingly. Hypotheses: the proofs are sound,
  the tags have the value of their asset's generator, and the totals fit in the scalars.
\<close>

theorem dvp_moves_instructed_value:
  fixes P :: "('p::ab_group_add, 's::comm_ring_1) prims"
  assumes laws: "venue_laws Z spent" and val: "algebraic_reading P (d_key d) val"
    and keys: "l_key (d_securities d) = d_key d" "l_key (d_cash d) = d_key d"
    and wide: "wide_scalars TYPE('s) n" "128 < n" "l_bits (d_securities d) \<le> 128" "l_bits (d_cash d) \<le> 128"
    and reads: "reads val (d_securities d) (A, E)" "value_total (A, E) < 2 ^ n"
      "reads val (d_cash d) (B, F)" "value_total (B, F) < 2 ^ n"
    and tags: "honest_leg val (dp_securities_leg pk)" "honest_leg val (dp_cash_leg pk)"
    and q: "val (i_amount_commitment (dp_instruction pk)) = of_nat q" "q < 2 ^ 64"
    and p: "val (i_price_commitment (dp_instruction pk)) = of_nat p" "p < 2 ^ 64"
    and ok: "defmi_settle P Z d pk now ws = Ok (d', r)" "is_ok (r_status r)"
  shows "\<exists>x y u v. bt_get A (dp_securities_from pk) = Some x \<and> q \<le> x \<and> bt_get A (dp_securities_to pk) = Some y \<and>
    reads val (d_securities d')
      (bt_insert (dp_securities_to pk) (y + q) (bt_insert (dp_securities_from pk) (x - q) A), E) \<and>
    bt_get B (dp_cash_from pk) = Some u \<and> q * p \<le> u \<and> bt_get B (dp_cash_to pk) = Some v \<and>
    reads val (d_cash d')
      (bt_insert (dp_cash_to pk) (v + q * p) (bt_insert (dp_cash_from pk) (u - q * p) B), F)"
proof -
  have check: "defmi_check P Z d pk now ws = Ok ()"
    using ok by (auto simp: defmi_settle_def Let_def is_ok_iff)
  then have legs: "verify_package_legs P Z (d_key d) (d_securities d) (d_cash d) pk ws = Ok ()"
    by (auto simp: defmi_check_def)
  obtain securities cash venue where
    a: "defmi_apply Z d pk now = Ok (d\<lparr>d_securities := securities, d_cash := cash, d_venue := venue\<rparr>)"
    "ledger_carry (d_securities d) (securities_move pk) = Some securities"
    "ledger_carry (d_cash d) (cash_move pk) = Some cash"
    using defmi_apply_ok [OF laws check] by blast
  with ok check have d': "d_securities d' = securities" "d_cash d' = cash"
    by (auto simp: defmi_settle_def)
  have "p * q < 2 ^ 64 * 2 ^ 64" using p(2) q(2) by (intro mult_strict_mono) auto
  then have qp: "q * p < 2 ^ 128" "q < 2 ^ 128" using q(2) by (simp_all add: mult.commute)
  note lv = leg_values [OF val legs tags, unfolded q(1) p(1)]
  note l = legs [unfolded verify_package_legs_iff]
  have cash: "val (t_amount_commitment (dp_cash_leg pk)) = of_nat (q * p)"
    using lv(2) by (simp add: mult.commute)
  note s = admitted_value [OF _ wide(1,3,2) reads(1,2) _ a(2) tags(1) lv(1) qp(2), where P = P]
    and c = admitted_value [OF _ wide(1,4,2) reads(3,4) _ a(3) tags(2) cash qp(1), where P = P]
  from s c val keys l d' show ?thesis by simp
qed

theorem dvp_moves_instructed_value_witness:
  "\<exists>A B. bt_get A (securities_rail @ enc_int 1) = Some 3 \<and> bt_get A (securities_rail @ enc_int 2) = Some 7 \<and>
     bt_get B (cash_rail @ enc_int 1) = Some 29 \<and> bt_get B (cash_rail @ enc_int 2) = Some 21 \<and>
     reads (\<lambda>x. x) (d_securities demo_settled) (A, bt_empty) \<and> reads (\<lambda>x. x) (d_cash demo_settled) (B, bt_empty)"
proof -
  let ?A = "bt_insert (securities_rail @ enc_int 1) 0 (bt_insert (securities_rail @ enc_int 2) 10 bt_empty) :: (bytes, nat) btree_map"
  let ?B = "bt_insert (cash_rail @ enc_int 1) 50 (bt_insert (cash_rail @ enc_int 2) 0 bt_empty) :: (bytes, nat) btree_map"
  obtain r where r: "defmi_settle plain plain_zkpi demo_defmi demo_package 5 (1, 1, 1) = Ok (demo_settled, r)"
    "is_ok (r_status r)"
    using demo_dvp_step [of "(1, 1, 1)"] by (auto split: result.splits if_splits)
  have reads: "reads (\<lambda>x. x) (d_securities demo_defmi) (?A, bt_empty)" "reads (\<lambda>x. x) (d_cash demo_defmi) (?B, bt_empty)"
    by (simp_all add: reads_def demo_dvp_defs)
  have total: "value_total (?A, bt_empty) < 2 ^ 256" "value_total (?B, bt_empty) < 2 ^ 256"
    by (simp_all add: value_total_def bt_sum_insert_new)
  have val: "algebraic_reading plain (d_key demo_defmi) (\<lambda>x. x)"
    using plain_reading by (simp add: demo_defmi_def)
  have "\<exists>x y u v. bt_get ?A (dp_securities_from demo_package) = Some x \<and> 3 \<le> x \<and>
    bt_get ?A (dp_securities_to demo_package) = Some y \<and>
    reads (\<lambda>x. x) (d_securities demo_settled) (bt_insert (dp_securities_to demo_package) (y + 3)
      (bt_insert (dp_securities_from demo_package) (x - 3) ?A), bt_empty) \<and>
    bt_get ?B (dp_cash_from demo_package) = Some u \<and> 3 * 7 \<le> u \<and> bt_get ?B (dp_cash_to demo_package) = Some v \<and>
    reads (\<lambda>x. x) (d_cash demo_settled) (bt_insert (dp_cash_to demo_package) (v + 3 * 7)
      (bt_insert (dp_cash_from demo_package) (u - 3 * 7) ?B), bt_empty)"
    by (rule dvp_moves_instructed_value [OF plain_venue val _ _ plain_wide _ _ _ reads(1) total(1) reads(2) total(2)
          _ _ _ _ _ _ r])
      (simp_all add: demo_dvp_defs honest_leg_def)
  then show ?thesis by (force simp: demo_package_def)
qed

text \<open>
  a threshold package that verifies conserves the two reservation escrows and, read
  through the values, spends no more of either than is reserved: the instructed quantity
  of the security and quantity times price of the cash, with remainders in range. Every
  package the two builders return verifies.
\<close>

theorem threshold_package_covered:
  fixes P :: "('p::ab_group_add, 's::comm_ring_1) prims"
  assumes "algebraic_reading P key val" "threshold_reading Z key val"
  shows "(verify_threshold_package P Z key pk sec_reserve cash_reserve bits = Ok () \<longrightarrow>
      sec_reserve = i_amount_commitment (tp_instruction pk) + tp_securities_remainder pk \<and>
      cash_reserve = tp_cash_commitment pk + tp_cash_remainder pk \<and>
      val (tp_cash_commitment pk) =
        val (i_amount_commitment (tp_instruction pk)) * val (i_price_commitment (tp_instruction pk)) \<and>
      (\<exists>r < 2 ^ bits. val sec_reserve = val (i_amount_commitment (tp_instruction pk)) + of_nat r) \<and>
      (\<exists>r < 2 ^ bits. val cash_reserve =
        val (i_amount_commitment (tp_instruction pk)) * val (i_price_commitment (tp_instruction pk)) + of_nat r)) \<and>
    (build_threshold_package_from_proofs P Z key i sd sec_reserve cash_reserve cash proofs bits = Ok pk' \<or>
     build_threshold_package_from_contributions P Z key i sd sec_reserve cash_reserve cash nodes quorum k bits = Ok pk' \<longrightarrow>
      verify_threshold_package P Z key pk' sec_reserve cash_reserve bits = Ok () \<and>
      tp_instruction pk' = i \<and> tp_cash_commitment pk' = cash)"
proof (intro conjI impI)
  assume v: "verify_threshold_package P Z key pk sec_reserve cash_reserve bits = Ok ()"
  then show sec: "sec_reserve = i_amount_commitment (tp_instruction pk) + tp_securities_remainder pk"
    and cash: "cash_reserve = tp_cash_commitment pk + tp_cash_remainder pk"
    by (auto simp: verify_threshold_package_def algebra_simps split: if_splits)
  from v show prod: "val (tp_cash_commitment pk) =
      val (i_amount_commitment (tp_instruction pk)) * val (i_price_commitment (tp_instruction pk))"
    by (intro val_product_verify [OF assms(1)]) (auto simp: verify_threshold_package_def split: if_splits)
  from v have "verify_threshold_range Z key (tp_securities_remainder pk) (tp_securities_remainder_range pk)
        (dvp_securities_context Z)" "trp_bits (tp_securities_remainder_range pk) = bits"
      "verify_threshold_range Z key (tp_cash_remainder pk) (tp_cash_remainder_range pk) (dvp_cash_context Z)"
      "trp_bits (tp_cash_remainder_range pk) = bits"
    by (auto simp: verify_threshold_package_def split: if_splits)
  then have "\<exists>r < 2 ^ bits. val (tp_securities_remainder pk) = of_nat r"
    and "\<exists>r < 2 ^ bits. val (tp_cash_remainder pk) = of_nat r"
    using assms(2) unfolding threshold_reading_def by metis+
  then show "\<exists>r < 2 ^ bits. val sec_reserve = val (i_amount_commitment (tp_instruction pk)) + of_nat r"
    and "\<exists>r < 2 ^ bits. val cash_reserve =
        val (i_amount_commitment (tp_instruction pk)) * val (i_price_commitment (tp_instruction pk)) + of_nat r"
    unfolding sec cash val_add [OF assms(1)] prod by auto
qed (auto simp: build_threshold_package_from_proofs_def build_threshold_package_from_contributions_def
      Let_def split: if_splits)

theorem threshold_package_covered_witness:
  "\<exists>pk r s. build_threshold_package_from_proofs plain plain_zkpi plain_key demo_instruction
      (sides_of plain_zkpi demo_instruction) 5 30 21 \<lparr>dp_product = [],
        dp_securities_remainder = \<lparr>trp_bits = 8, trp_bytes = []\<rparr>,
        dp_cash_remainder = \<lparr>trp_bits = 8, trp_bytes = []\<rparr>\<rparr> 8 = Ok pk \<and>
    (5 :: int) = 3 + of_nat r \<and> (30 :: int) = 3 * 7 + of_nat s"
proof -
  let ?pf = "\<lparr>dp_product = [], dp_securities_remainder = \<lparr>trp_bits = 8, trp_bytes = []\<rparr>,
      dp_cash_remainder = \<lparr>trp_bits = 8, trp_bytes = []\<rparr>\<rparr>"
  obtain pk where pk: "build_threshold_package_from_proofs plain plain_zkpi plain_key demo_instruction
      (sides_of plain_zkpi demo_instruction) 5 30 21 ?pf 8 = Ok pk"
    by (simp add: build_threshold_package_from_proofs_def verify_threshold_package_def Let_def sides_of_def
        account_of_def demo_dvp_defs plain_product_def)
  note w = threshold_package_covered [OF plain_reading plain_threshold, of pk 5 30 8
      demo_instruction "sides_of plain_zkpi demo_instruction" 21 ?pf pk]
  have i: "i_amount_commitment demo_instruction = 3" "i_price_commitment demo_instruction = 7"
    by (simp_all add: demo_instruction_def)
  from w pk have "tp_instruction pk = demo_instruction"
    "verify_threshold_package plain plain_zkpi plain_key pk 5 30 8 = Ok ()" by blast+
  with w i have "\<exists>r. (5 :: int) = 3 + of_nat r" "\<exists>s. (30 :: int) = 3 * 7 + of_nat s"
    by auto
  with pk show ?thesis by blast
qed

text \<open>
  C22: a package built by the parties settles and moves what was built. Suppose the ledgers
  have a width the range proofs have, both payers can open their accounts, in range, and
  cover the quantity and its product with the price, and the instruction commits to that
  quantity and price. Then the package is built and the settlement accepts it. On each rail
  the payer's new balance opens under its asset's generator to the balance less what it
  paid, which is the balance carried, with the carried blinding plus the tag's \<open>gamma\<close>
  times that balance; and the payee's balance has grown by the quantity, on the cash rail
  by the product, under the blinding the payer drew and the tag's part of it.
\<close>

theorem built_package_settles:
  fixes P :: "('p::ab_group_add, 's::comm_ring_1) prims"
  assumes laws: "scalar_module P" "pedersen_commits P" "ristretto_encoding P" "range_complete P" "sigma_complete P"
    and venue: "venue_laws Z spent" "venue_verify Z (d_venue d) i now = Ok ()"
    and keys: "l_key (d_securities d) = d_key d" "l_key (d_cash d) = d_key d"
    and tags: "tag_of P (d_securities d) A sec_gamma sec_tag" "tag_of P (d_cash d) B cash_gamma cash_tag"
    and sec: "rail_ready P (d_securities d) (sd_securities_from (sides_of Z i)) (sd_securities_to (sides_of Z i)) A
      (h_securities_balance h) (h_securities_blinding h) quantity"
    and cash: "rail_ready P (d_cash d) (sd_cash_from (sides_of Z i)) (sd_cash_to (sides_of Z i)) B
      (h_cash_balance h) (h_cash_blinding h) cash_value"
    and product: "checked_mul quantity price = Some cash_value"
    and i: "i_amount_commitment i = ped_commit P (d_key d) (scalar_u64 quantity) (io_amount openings)"
      "i_price_commitment i = ped_commit P (d_key d) (scalar_u64 price) (io_price openings)"
  shows "\<exists>pk cy d' r. build_package P Z (d_key d) i (d_securities d) (d_cash d) quantity price h openings
      sec_tag sec_gamma cash_tag cash_gamma (r1, r2, r3) = Ok (pk, cy) \<and>
    defmi_settle P Z d pk now ws = Ok (d', r) \<and> is_ok (r_status r) \<and>
    cy_securities_balance cy = h_securities_balance h - quantity \<and>
    cy_cash_balance cy = h_cash_balance h - cash_value \<and>
    rail_moved P (d_securities d) (d_securities d') (sd_securities_from (sides_of Z i)) (sd_securities_to (sides_of Z i)) A
      (cy_securities_balance cy) (cy_securities_blinding cy + sec_gamma * scalar_u64 (cy_securities_balance cy))
      quantity (sec_gamma * scalar_u64 quantity + r1) \<and>
    rail_moved P (d_cash d) (d_cash d') (sd_cash_from (sides_of Z i)) (sd_cash_to (sides_of Z i)) B
      (cy_cash_balance cy) (cy_cash_blinding cy + cash_gamma * scalar_u64 (cy_cash_balance cy))
      cash_value (cash_gamma * scalar_u64 cash_value + r2)"
proof -
  obtain t1 s1 where b1: "build_transfer P (d_securities d) (h_securities_balance h) (h_securities_blinding h)
        quantity (settle_domain @ ascii '':sec'') sec_tag sec_gamma True r1 = Ok (t1, s1)"
    and l1: "ledger_admits P (d_securities d) (sd_securities_from (sides_of Z i), sd_securities_to (sides_of Z i),
        t1, settle_domain @ ascii '':sec'', True)"
    and a1: "t_amount_commitment t1 = smul P (scalar_u64 quantity) (leg_generator (d_key d) sec_tag) +
        smul P r1 (ped_h (d_key d))" "t_tag t1 = sec_tag" "ts_amount_blinding s1 = r1"
    and m1: "\<And>l'. ledger_carry (d_securities d) (sd_securities_from (sides_of Z i), sd_securities_to (sides_of Z i),
        t1, settle_domain @ ascii '':sec'', True) = Some l' \<Longrightarrow> rail_moved P (d_securities d) l'
        (sd_securities_from (sides_of Z i)) (sd_securities_to (sides_of Z i)) A (h_securities_balance h - quantity)
        (ts_remainder_blinding s1 + sec_gamma * scalar_u64 (h_securities_balance h - quantity)) quantity
        (sec_gamma * scalar_u64 quantity + r1)"
    using build_leg [OF laws(1-4) tags(1) sec, of "settle_domain @ ascii '':sec''" r1, unfolded keys(1)] by blast
  obtain t2 s2 where b2: "build_transfer P (d_cash d) (h_cash_balance h) (h_cash_blinding h)
        cash_value (settle_domain @ ascii '':cash'') cash_tag cash_gamma True r2 = Ok (t2, s2)"
    and l2: "ledger_admits P (d_cash d) (sd_cash_from (sides_of Z i), sd_cash_to (sides_of Z i),
        t2, settle_domain @ ascii '':cash'', True)"
    and a2: "t_amount_commitment t2 = smul P (scalar_u64 cash_value) (leg_generator (d_key d) cash_tag) +
        smul P r2 (ped_h (d_key d))" "t_tag t2 = cash_tag" "ts_amount_blinding s2 = r2"
    and m2: "\<And>l'. ledger_carry (d_cash d) (sd_cash_from (sides_of Z i), sd_cash_to (sides_of Z i),
        t2, settle_domain @ ascii '':cash'', True) = Some l' \<Longrightarrow> rail_moved P (d_cash d) l'
        (sd_cash_from (sides_of Z i)) (sd_cash_to (sides_of Z i)) B (h_cash_balance h - cash_value)
        (ts_remainder_blinding s2 + cash_gamma * scalar_u64 (h_cash_balance h - cash_value)) cash_value
        (cash_gamma * scalar_u64 cash_value + r2)"
    using build_leg [OF laws(1-4) tags(2) cash, of "settle_domain @ ascii '':cash''" r2, unfolded keys(2)] by blast
  have apart: "sd_securities_from (sides_of Z i) \<noteq> sd_securities_to (sides_of Z i)"
    "sd_cash_from (sides_of Z i) \<noteq> sd_cash_to (sides_of Z i)"
    using sec cash by (simp_all add: rail_ready_def)
  obtain cy where cy: "build_package P Z (d_key d) i (d_securities d) (d_cash d) quantity price h openings
      sec_tag sec_gamma cash_tag cash_gamma (r1, r2, r3) =
      Ok (package_of P Z (d_key d) i t1 t2 quantity price cash_value openings (r1, r2, r3), cy)"
    "cy_securities_balance cy = h_securities_balance h - quantity" "cy_securities_blinding cy = ts_remainder_blinding s1"
    "cy_cash_balance cy = h_cash_balance h - cash_value" "cy_cash_blinding cy = ts_remainder_blinding s2"
    by (rule build_package_package_of [OF b1 b2 a1(2) a2(2) a1(3) a2(3) product])
  obtain d' r where
    "defmi_settle P Z d (package_of P Z (d_key d) i t1 t2 quantity price cash_value openings (r1, r2, r3)) now ws = Ok (d', r)"
    "is_ok (r_status r)"
    "ledger_carry (d_securities d) (sd_securities_from (sides_of Z i), sd_securities_to (sides_of Z i),
        t1, settle_domain @ ascii '':sec'', True) = Some (d_securities d')"
    "ledger_carry (d_cash d) (sd_cash_from (sides_of Z i), sd_cash_to (sides_of Z i),
        t2, settle_domain @ ascii '':cash'', True) = Some (d_cash d')"
    using package_of_settles [OF laws(2,5) venue l1 l2 apart a1(1) [folded a1(2)] a2(1) [folded a2(2)] product i] by blast
  with cy m1 m2 show ?thesis by (metis (no_types, lifting))
qed

theorem built_package_settles_witness:
  "\<exists>pk cy d' r. build_package plain plain_zkpi plain_key demo_instruction (d_securities demo_defmi) (d_cash demo_defmi)
      3 7 \<lparr>h_securities_balance = 10, h_securities_blinding = 0, h_cash_balance = 50, h_cash_blinding = 0\<rparr>
      \<lparr>io_amount = 4, io_price = 6\<rparr> None 0 None 0 (1, 2, 3) = Ok (pk, cy) \<and>
    defmi_settle plain plain_zkpi demo_defmi pk 5 (1, 1, 1) = Ok (d', r) \<and> is_ok (r_status r) \<and>
    cy_securities_balance cy = 7 \<and> cy_cash_balance cy = 29 \<and>
    rail_moved plain (d_securities demo_defmi) (d_securities d') (sd_securities_from (sides_of plain_zkpi demo_instruction))
      (sd_securities_to (sides_of plain_zkpi demo_instruction)) 1 (cy_securities_balance cy)
      (cy_securities_blinding cy) 3 1 \<and>
    rail_moved plain (d_cash demo_defmi) (d_cash d') (sd_cash_from (sides_of plain_zkpi demo_instruction))
      (sd_cash_to (sides_of plain_zkpi demo_instruction)) 1 (cy_cash_balance cy) (cy_cash_blinding cy) 21 2"
proof -
  note w = built_package_settles [OF plain_module plain_pedersen plain_encoding plain_range_complete
      plain_sigma plain_venue, of demo_defmi demo_instruction 5 1 0 None 1 0 None
      "\<lparr>h_securities_balance = 10, h_securities_blinding = 0, h_cash_balance = 50, h_cash_blinding = 0\<rparr>" 3 21 7
      "\<lparr>io_amount = 4, io_price = 6\<rparr>" 1 2 3 "(1, 1, 1)"]
  have "d_key demo_defmi = plain_key" by (simp add: demo_defmi_def)
  moreover note w
  ultimately show ?thesis
    by (simp add: demo_dvp_defs rail_ready_def tag_of_def sides_of_def account_of_def opens_def
        plain_key_def scalar_u64_def checked_mul_def range_width_def)
qed

end
