(* ===== verification/Chain.thy ===== *)
theory Chain
  imports Crypto "HOL-Library.List_Lexorder"
begin

text \<open>
  The state a settlement contract keeps on a chain (\<open>chain.rs\<close>): accounts and escrows
  under their names, and nullifiers with the deadline past which they may be dropped. A
  mutator returns the new state and the storage it is charged for, or the rejection, which
  leaves the state as it was. The lemmas show that dropping expired nullifiers cannot be
  observed while time does not run backwards, and that the root determines the state.
\<close>

section \<open>The state and its operations\<close>

datatype call = Settle | Prepare | Claim | Unwind

record observable =
  ob_block :: u64
  ob_venue :: string
  ob_call :: call
  ob_handles :: "bytes list"
  ob_leg :: "bytes option"

record delta =
  slots_read :: nat
  slots_written :: nat
  bytes_written :: nat
  nullifiers_added :: nat

definition delta_merge :: "delta \<Rightarrow> delta \<Rightarrow> delta" where
  "delta_merge d other = \<lparr>slots_read = slots_read d + slots_read other,
     slots_written = slots_written d + slots_written other,
     bytes_written = bytes_written d + bytes_written other,
     nullifiers_added = nullifiers_added d + nullifiers_added other\<rparr>"

datatype rejected =
    NullifierSeen
  | Expired u64 u64
  | UnknownAccount

record escrow =
  e_payer :: bytes
  e_payee :: bytes
  e_held :: bytes
  e_deadline :: u64

record chain_state =
  c_accounts :: "(bytes, bytes) btree_map"
  c_nullifiers :: "(bytes, u64) btree_map"
  c_escrows :: "(bytes, escrow) btree_map"

definition chain_new :: chain_state where
  "chain_new = \<lparr>c_accounts = bt_empty, c_nullifiers = bt_empty, c_escrows = bt_empty\<rparr>"

definition chain_open ::
  "('p, 's) prims \<Rightarrow> chain_state \<Rightarrow> bytes \<Rightarrow> 'p \<Rightarrow> chain_state \<times> delta" where
  "chain_open P s handle commitment =
     (s\<lparr>c_accounts := bt_insert handle (compress P commitment) (c_accounts s)\<rparr>,
      \<lparr>slots_read = 0, slots_written = 1, bytes_written = 32, nullifiers_added = 0\<rparr>)"

definition chain_balance :: "('p, 's) prims \<Rightarrow> chain_state \<Rightarrow> bytes \<Rightarrow> 'p option" where
  "chain_balance P s handle = (case bt_get (c_accounts s) handle of
     None \<Rightarrow> None | Some raw \<Rightarrow> decompress P raw)"

definition chain_settle ::
  "('p, 's) prims \<Rightarrow> chain_state \<Rightarrow> bytes \<Rightarrow> u64 \<Rightarrow> u64 \<Rightarrow> (bytes \<times> 'p) list
    \<Rightarrow> (chain_state \<times> delta, rejected) result" where
  "chain_settle P s nullifier deadline now moves =
     and_then (ensure (\<not> deadline < now) (Expired deadline now)) (\<lambda>_.
     and_then (ensure (\<not> bt_contains (c_nullifiers s) nullifier) NullifierSeen) (\<lambda>_.
     and_then (try_for_each (\<lambda>(handle, _). ensure (bt_contains (c_accounts s) handle) UnknownAccount) moves) (\<lambda>_.
     Ok (s\<lparr>c_accounts := fold (\<lambda>(handle, commitment). bt_insert handle (compress P commitment)) moves (c_accounts s),
           c_nullifiers := bt_insert nullifier deadline (c_nullifiers s)\<rparr>,
         \<lparr>slots_read = length moves + 1, slots_written = length moves + 1,
          bytes_written = length moves * 32 + 32 + 8, nullifiers_added = 1\<rparr>))))"

definition chain_prepare ::
  "('p, 's) prims \<Rightarrow> chain_state \<Rightarrow> bytes \<Rightarrow> bytes \<Rightarrow> bytes \<Rightarrow> 'p \<Rightarrow> 'p \<Rightarrow> u64
    \<Rightarrow> (chain_state \<times> delta, rejected) result" where
  "chain_prepare P s leg payer payee remainder held deadline =
     and_then (ensure (\<not> (\<not> bt_contains (c_accounts s) payer \<or> \<not> bt_contains (c_accounts s) payee))
         UnknownAccount) (\<lambda>_.
     and_then (ensure (\<not> bt_contains (c_escrows s) leg) NullifierSeen) (\<lambda>_.
     Ok (s\<lparr>c_accounts := bt_insert payer (compress P remainder) (c_accounts s),
           c_escrows := bt_insert leg \<lparr>e_payer = payer, e_payee = payee, e_held = compress P held,
             e_deadline = deadline\<rparr> (c_escrows s)\<rparr>,
         \<lparr>slots_read = 2, slots_written = 2, bytes_written = 96, nullifiers_added = 0\<rparr>)))"

definition chain_claim ::
  "('p, 's) prims \<Rightarrow> chain_state \<Rightarrow> bytes \<Rightarrow> 'p \<Rightarrow> u64 \<Rightarrow> (chain_state \<times> delta, rejected) result" where
  "chain_claim P s leg credited now =
     and_then (ok_or (bt_get (c_escrows s) leg) UnknownAccount) (\<lambda>escrow.
     and_then (ensure (\<not> e_deadline escrow < now) (Expired (e_deadline escrow) now)) (\<lambda>_.
     Ok (s\<lparr>c_accounts := bt_insert (e_payee escrow) (compress P credited) (c_accounts s),
           c_escrows := bt_remove leg (c_escrows s)\<rparr>,
         \<lparr>slots_read = 2, slots_written = 2, bytes_written = 32, nullifiers_added = 0\<rparr>)))"

definition chain_unwind ::
  "('p, 's) prims \<Rightarrow> chain_state \<Rightarrow> bytes \<Rightarrow> 'p \<Rightarrow> u64 \<Rightarrow> (chain_state \<times> delta, rejected) result" where
  "chain_unwind P s leg returned now =
     and_then (ok_or (bt_get (c_escrows s) leg) UnknownAccount) (\<lambda>escrow.
     and_then (ensure (\<not> now \<le> e_deadline escrow) (Expired (e_deadline escrow) now)) (\<lambda>_.
     Ok (s\<lparr>c_accounts := bt_insert (e_payer escrow) (compress P returned) (c_accounts s),
           c_escrows := bt_remove leg (c_escrows s)\<rparr>,
         \<lparr>slots_read = 2, slots_written = 2, bytes_written = 32, nullifiers_added = 0\<rparr>)))"

definition chain_prune :: "chain_state \<Rightarrow> u64 \<Rightarrow> chain_state \<times> nat" where
  "chain_prune s now =
     (let kept = bt_retain (\<lambda>_ deadline. now \<le> deadline) (c_nullifiers s) in
      (s\<lparr>c_nullifiers := kept\<rparr>, bt_len (c_nullifiers s) - bt_len kept))"

definition chain_escrows :: "chain_state \<Rightarrow> nat" where "chain_escrows s = bt_len (c_escrows s)"
definition chain_accounts :: "chain_state \<Rightarrow> nat" where "chain_accounts s = bt_len (c_accounts s)"
definition chain_nullifiers :: "chain_state \<Rightarrow> nat" where "chain_nullifiers s = bt_len (c_nullifiers s)"

definition stored_bytes :: "chain_state \<Rightarrow> nat" where
  "stored_bytes s = sum_list (map (\<lambda>h. length h + 32) (bt_keys (c_accounts s))) +
     bt_len (c_nullifiers s) * (32 + 8) +
     sum_list (map (\<lambda>(l, e). length l + length (e_payer e) + length (e_payee e) + 32 + 8)
       (entries (c_escrows s)))"

definition root_input :: "chain_state \<Rightarrow> bytes" where
  "root_input s = ascii ''QOMM:CHAIN:STATE:v1'' @
     nat_be 8 (bt_len (c_accounts s)) @
     concat (map (\<lambda>(handle, commitment). nat_be 8 (length handle) @ handle @ commitment)
       (entries (c_accounts s))) @
     nat_be 8 (bt_len (c_nullifiers s)) @
     concat (map (\<lambda>(nullifier, deadline). nullifier @ be64 deadline) (entries (c_nullifiers s))) @
     nat_be 8 (bt_len (c_escrows s)) @
     concat (map (\<lambda>(leg, escrow). nat_be 8 (length leg) @ leg @
         nat_be 8 (length (e_payer escrow)) @ e_payer escrow @
         nat_be 8 (length (e_payee escrow)) @ e_payee escrow @ e_held escrow @ be64 (e_deadline escrow))
       (entries (c_escrows s)))"

definition chain_root :: "('p, 's) prims \<Rightarrow> chain_state \<Rightarrow> bytes" where
  "chain_root P s = sha256 P (root_input s)"

section \<open>Transactions\<close>

datatype 'p chain_tx =
    TxOpen bytes 'p
  | TxSettle bytes u64 u64 "(bytes \<times> 'p) list"
  | TxPrepare bytes bytes bytes 'p 'p u64
  | TxClaim bytes 'p u64
  | TxUnwind bytes 'p u64
  | TxPrune u64

fun chain_exec ::
  "('p, 's) prims \<Rightarrow> chain_state \<Rightarrow> 'p chain_tx \<Rightarrow> (chain_state \<times> delta, rejected) result" where
  "chain_exec P s (TxOpen h c) = Ok (chain_open P s h c)"
| "chain_exec P s (TxSettle n d now moves) = chain_settle P s n d now moves"
| "chain_exec P s (TxPrepare leg payer payee r h d) = chain_prepare P s leg payer payee r h d"
| "chain_exec P s (TxClaim leg c now) = chain_claim P s leg c now"
| "chain_exec P s (TxUnwind leg c now) = chain_unwind P s leg c now"
| "chain_exec P s (TxPrune now) =
     Ok (fst (chain_prune s now), \<lparr>slots_read = 0, slots_written = 0, bytes_written = 0, nullifiers_added = 0\<rparr>)"

text \<open>
  The state after a list of transactions and the answer to each of them; a rejected one
  leaves the state. \<open>without_prunes\<close> drops the transactions that only prune.
\<close>

fun chain_run ::
  "('p, 's) prims \<Rightarrow> chain_state \<Rightarrow> 'p chain_tx list \<Rightarrow> chain_state \<times> (delta, rejected) result list" where
  "chain_run P s [] = (s, [])"
| "chain_run P s (tx # txs) = (case chain_exec P s tx of
     Ok (s', d) \<Rightarrow> (case chain_run P s' txs of (s'', as) \<Rightarrow> (s'', Ok d # as))
   | Err e \<Rightarrow> (case chain_run P s txs of (s'', as) \<Rightarrow> (s'', Err e # as)))"

fun is_prune :: "'p chain_tx \<Rightarrow> bool" where
  "is_prune (TxPrune now) = True"
| "is_prune _ = False"

fun tx_time :: "'p chain_tx \<Rightarrow> u64 option" where
  "tx_time (TxSettle n d now moves) = Some now"
| "tx_time (TxPrune now) = Some now"
| "tx_time _ = None"

text \<open>Time does not run backwards, and an instruction's deadline is fixed by its nullifier.\<close>

fun timely :: "(bytes \<Rightarrow> u64) \<Rightarrow> u64 \<Rightarrow> 'p chain_tx list \<Rightarrow> bool" where
  "timely dl clock [] = True"
| "timely dl clock (tx # txs) =
     ((case tx of TxSettle n d now moves \<Rightarrow> d = dl n | _ \<Rightarrow> True) \<and>
      (case tx_time tx of None \<Rightarrow> timely dl clock txs | Some now \<Rightarrow> clock \<le> now \<and> timely dl now txs))"

section \<open>Pruning\<close>

text \<open>The second state has pruned: it lacks only nullifiers whose deadline has passed.\<close>

definition pruned :: "(bytes \<Rightarrow> u64) \<Rightarrow> u64 \<Rightarrow> chain_state \<Rightarrow> chain_state \<Rightarrow> bool" where
  "pruned dl clock s s' \<longleftrightarrow> c_accounts s' = c_accounts s \<and> c_escrows s' = c_escrows s \<and>
     (\<forall>n d. bt_get (c_nullifiers s) n = Some d \<longrightarrow> d = dl n) \<and>
     (\<forall>n. bt_get (c_nullifiers s') n = bt_get (c_nullifiers s) n \<or>
        bt_get (c_nullifiers s') n = None \<and> dl n < clock)"

lemma prunedD:
  assumes "pruned dl clock s s'" "clock \<le> now" "\<not> dl n < now"
  shows "bt_get (c_nullifiers s') n = bt_get (c_nullifiers s) n"
  using assms unfolding pruned_def by (meson less_le_trans)

lemma pruned_later: "pruned dl clock s s' \<Longrightarrow> clock \<le> now \<Longrightarrow> pruned dl now s s'"
  unfolding pruned_def by (meson less_le_trans)

lemma pruned_prune:
  assumes "pruned dl clock s s'" "clock \<le> now"
  shows "pruned dl now s (fst (chain_prune s' now))"
proof -
  note p = pruned_later [OF assms]
  have "bt_get (bt_retain (\<lambda>_ d. now \<le> d) (c_nullifiers s')) n = bt_get (c_nullifiers s) n \<or>
      bt_get (bt_retain (\<lambda>_ d. now \<le> d) (c_nullifiers s')) n = None \<and> dl n < now" for n
  proof (cases "bt_get (c_nullifiers s') n")
    case None
    with p show ?thesis unfolding pruned_def bt_get_retain by (metis option.simps(4))
  next
    case (Some d)
    with p have "bt_get (c_nullifiers s) n = Some d" "d = dl n"
      unfolding pruned_def by (metis option.distinct(1))+
    with Some show ?thesis by (auto simp: bt_get_retain)
  qed
  with p show ?thesis by (simp add: pruned_def chain_prune_def Let_def)
qed

lemma settle_same:
  assumes "c_accounts s' = c_accounts s" "bt_get (c_nullifiers s') n = bt_get (c_nullifiers s) n"
  shows "chain_settle P s' n d now moves = (case chain_settle P s n d now moves of
      Err e \<Rightarrow> Err e
    | Ok (s1, dt) \<Rightarrow> Ok (s'\<lparr>c_accounts := c_accounts s1, c_nullifiers := bt_insert n d (c_nullifiers s')\<rparr>, dt))"
  using assms
  by (cases "try_for_each (\<lambda>(handle, _). ensure (bt_contains (c_accounts s) handle) UnknownAccount) moves")
    (simp_all add: chain_settle_def ensure_def del: try_for_each_Ok)

lemma pruned_settle:
  assumes "pruned dl clock s s'" "clock \<le> now"
  shows "case chain_settle P s n (dl n) now moves of
      Ok (s1, d) \<Rightarrow> \<exists>s1'. chain_settle P s' n (dl n) now moves = Ok (s1', d) \<and> pruned dl now s1 s1'
    | Err e \<Rightarrow> chain_settle P s' n (dl n) now moves = Err e"
proof (cases "dl n < now")
  case True
  then show ?thesis by (simp add: chain_settle_def)
next
  case False
  have same: "c_accounts s' = c_accounts s" "bt_get (c_nullifiers s') n = bt_get (c_nullifiers s) n"
    using prunedD [OF assms False] assms(1) by (simp_all add: pruned_def)
  note eq = settle_same [OF same, of P "dl n" now moves]
  show ?thesis
  proof (cases "chain_settle P s n (dl n) now moves")
    case (Err e)
    with eq show ?thesis by simp
  next
    case (Ok r)
    obtain s1 d where r: "r = (s1, d)" by (cases r)
    from Ok r have s1: "c_nullifiers s1 = bt_insert n (dl n) (c_nullifiers s)" "c_escrows s1 = c_escrows s"
      by (auto simp: chain_settle_def)
    from pruned_later [OF assms] s1 have "pruned dl now s1
        (s'\<lparr>c_accounts := c_accounts s1, c_nullifiers := bt_insert n (dl n) (c_nullifiers s')\<rparr>)"
      by (auto simp: pruned_def)
    with Ok r eq show ?thesis by simp
  qed
qed

text \<open>An operation that does not touch the nullifiers answers alike.\<close>

lemma pruned_other:
  assumes p: "pruned dl clock s s'" and tx: "tx_time tx = None"
  shows "case chain_exec P s tx of
      Ok (s1, d) \<Rightarrow> \<exists>s1'. chain_exec P s' tx = Ok (s1', d) \<and> pruned dl clock s1 s1'
    | Err e \<Rightarrow> chain_exec P s' tx = Err e"
proof (cases tx)
  case (TxOpen h c)
  with p show ?thesis by (simp add: chain_open_def pruned_def)
next
  case (TxPrepare leg payer payee r h d)
  with p show ?thesis by (auto simp: chain_prepare_def ensure_def pruned_def)
next
  case (TxClaim leg c now)
  with p show ?thesis
    by (cases "bt_get (c_escrows s) leg") (auto simp: chain_claim_def ensure_def pruned_def)
next
  case (TxUnwind leg c now)
  with p show ?thesis
    by (cases "bt_get (c_escrows s) leg") (auto simp: chain_unwind_def ensure_def pruned_def)
qed (use tx in simp_all)

lemma chain_run_pruned:
  assumes "pruned dl clock s s'" "timely dl clock txs"
  shows "snd (chain_run P s (filter (\<lambda>tx. \<not> is_prune tx) txs)) =
      map snd (filter (\<lambda>(tx, a). \<not> is_prune tx) (zip txs (snd (chain_run P s' txs)))) \<and>
    (\<exists>clock'. pruned dl clock' (fst (chain_run P s (filter (\<lambda>tx. \<not> is_prune tx) txs))) (fst (chain_run P s' txs)))"
  using assms
proof (induction txs arbitrary: clock s s')
  case Nil
  then show ?case by auto
next
  case (Cons tx txs)
  show ?case
  proof (cases tx)
    case (TxPrune now)
    with Cons.prems have "pruned dl now s (fst (chain_prune s' now))" "timely dl now txs"
      by (auto intro: pruned_prune)
    from Cons.IH [OF this] TxPrune show ?thesis by (auto split: prod.splits)
  next
    case (TxSettle n d now moves)
    with Cons.prems have d: "d = dl n" "clock \<le> now" "timely dl now txs" by auto
    from pruned_settle [OF Cons.prems(1) d(2), of P n moves] pruned_later [OF Cons.prems(1) d(2)]
      Cons.IH [OF _ d(3)] TxSettle d(1) show ?thesis
      by (cases "chain_settle P s n (dl n) now moves") (fastforce split: prod.splits)+
  qed (use pruned_other [OF Cons.prems(1), of tx P] Cons in
      \<open>cases "chain_exec P s tx"; fastforce split: prod.splits\<close>)+
qed

section \<open>The root\<close>

text \<open>What a chain stores: commitments and nullifiers of 32 bytes, names and counts below \<open>2 ^ 64\<close>.\<close>

definition escrow_ok :: "escrow \<Rightarrow> bool" where
  "escrow_ok e \<longleftrightarrow> length (e_payer e) < 256 ^ 8 \<and> length (e_payee e) < 256 ^ 8 \<and> length (e_held e) = 32"

definition storable :: "chain_state \<Rightarrow> bool" where
  "storable s \<longleftrightarrow>
     bt_len (c_accounts s) < 256 ^ 8 \<and> bt_len (c_nullifiers s) < 256 ^ 8 \<and> bt_len (c_escrows s) < 256 ^ 8 \<and>
     list_all (\<lambda>(h, c). length h < 256 ^ 8 \<and> length c = 32) (entries (c_accounts s)) \<and>
     list_all (\<lambda>(n, d). length n = 32) (entries (c_nullifiers s)) \<and>
     list_all (\<lambda>(l, e). length l < 256 ^ 8 \<and> escrow_ok e) (entries (c_escrows s))"

definition account_bytes :: "bytes \<times> bytes \<Rightarrow> bytes" where
  "account_bytes x = prefixed 8 (fst x) @ snd x"

definition nullifier_bytes :: "bytes \<times> u64 \<Rightarrow> bytes" where
  "nullifier_bytes x = fst x @ nat_be 8 (unat (snd x))"

definition escrow_bytes :: "bytes \<times> escrow \<Rightarrow> bytes" where
  "escrow_bytes x = prefixed 8 (fst x) @ prefixed 8 (e_payer (snd x)) @ prefixed 8 (e_payee (snd x)) @
     e_held (snd x) @ be64 (e_deadline (snd x))"

lemma delimited_account: "delimited account_bytes (\<lambda>(h, c). length h < 256 ^ 8 \<and> length c = 32)"
  using delimited_pair [OF delimited_prefixed [of 8] delimited_id [of 32]]
  by (simp add: account_bytes_def [abs_def] case_prod_unfold)

lemma delimited_nullifier: "delimited nullifier_bytes (\<lambda>(n, d). length n = 32)"
  using delimited_pair [OF delimited_id [of 32] delimited_be64]
  by (simp add: nullifier_bytes_def [abs_def] case_prod_unfold)

lemma delimited_escrow: "delimited escrow_bytes (\<lambda>(l, e). length l < 256 ^ 8 \<and> escrow_ok e)"
proof -
  let ?f = "\<lambda>x :: bytes \<times> escrow. (fst x, e_payer (snd x), e_payee (snd x), e_held (snd x), e_deadline (snd x))"
  have "delimited (\<lambda>x. (\<lambda>y. prefixed 8 (fst y) @ prefixed 8 (fst (snd y)) @ prefixed 8 (fst (snd (snd y))) @
      fst (snd (snd (snd y))) @ nat_be 8 (unat (snd (snd (snd (snd y)))))) (?f x))
      (\<lambda>(l, e). length l < 256 ^ 8 \<and> escrow_ok e)"
    by (rule delimited_map [OF delimited_pair [OF delimited_prefixed [of 8] delimited_pair [OF
          delimited_prefixed [of 8] delimited_pair [OF delimited_prefixed [of 8] delimited_pair [OF
          delimited_id [of 32] delimited_be64]]]]])
      (auto simp: escrow_ok_def prod_eq_iff intro: escrow.equality)
  then show ?thesis by (simp add: escrow_bytes_def [abs_def])
qed

lemma root_input_counted:
  "root_input s = ascii ''QOMM:CHAIN:STATE:v1'' @ counted 8 account_bytes (entries (c_accounts s)) @
    counted 8 nullifier_bytes (entries (c_nullifiers s)) @ counted 8 escrow_bytes (entries (c_escrows s))"
  by (simp add: root_input_def counted_def account_bytes_def [abs_def] nullifier_bytes_def [abs_def]
      escrow_bytes_def [abs_def] prefixed_def bt_len_def case_prod_unfold)

section \<open>Settlements that do not meet\<close>

lemma fold_insert_get:
  "bt_get (fold (\<lambda>(h, c). bt_insert h (f c)) moves m) k =
    (case map_of (rev moves) k of None \<Rightarrow> bt_get m k | Some c \<Rightarrow> Some (f c))"
  by (induction moves arbitrary: m) (auto simp: map_add_def split: option.splits)

lemma chain_settleD:
  assumes "chain_settle P s n d now moves = Ok (s', dt)"
  shows "\<not> d < now" "\<not> bt_contains (c_nullifiers s) n"
    "\<forall>(h, c) \<in> set moves. bt_contains (c_accounts s) h"
    "c_accounts s' = fold (\<lambda>(h, c). bt_insert h (compress P c)) moves (c_accounts s)"
    "c_nullifiers s' = bt_insert n d (c_nullifiers s)" "c_escrows s' = c_escrows s"
  using assms by (auto simp: chain_settle_def)

lemma chain_settleI:
  assumes "\<not> d < now" "\<not> bt_contains (c_nullifiers s) n" "\<forall>(h, c) \<in> set moves. bt_contains (c_accounts s) h"
  shows "\<exists>dt. chain_settle P s n d now moves =
    Ok (s\<lparr>c_accounts := fold (\<lambda>(h, c). bt_insert h (compress P c)) moves (c_accounts s),
          c_nullifiers := bt_insert n d (c_nullifiers s)\<rparr>, dt)"
proof -
  have "try_for_each (\<lambda>(handle, _). ensure (bt_contains (c_accounts s) handle) UnknownAccount) moves = Ok ()"
    using assms(3) by auto
  with assms(1,2) show ?thesis by (simp add: chain_settle_def del: try_for_each_Ok)
qed

lemma fold_insert_commute:
  assumes "fst ` set moves \<inter> fst ` set moves' = {}"
  shows "fold (\<lambda>(h, c). bt_insert h (f c)) moves' (fold (\<lambda>(h, c). bt_insert h (f c)) moves m) =
    fold (\<lambda>(h, c). bt_insert h (f c)) moves (fold (\<lambda>(h, c). bt_insert h (f c)) moves' m)"
proof (rule bt_eqI)
  fix k
  have "map_of (rev moves) k = None \<or> map_of (rev moves') k = None"
    using assms by (auto simp: map_of_eq_None_iff)
  then show "bt_get (fold (\<lambda>(h, c). bt_insert h (f c)) moves' (fold (\<lambda>(h, c). bt_insert h (f c)) moves m)) k =
    bt_get (fold (\<lambda>(h, c). bt_insert h (f c)) moves (fold (\<lambda>(h, c). bt_insert h (f c)) moves' m)) k"
    by (auto simp: fold_insert_get split: option.splits)
qed

lemma fold_insert_dom:
  assumes "\<forall>(h, c) \<in> set moves. bt_contains m h"
  shows "bt_get (fold (\<lambda>(h, c). bt_insert h (f c)) moves m) k = None \<longleftrightarrow> bt_get m k = None"
proof (cases "map_of (rev moves) k")
  case (Some c)
  then have "(k, c) \<in> set moves" by (auto dest: map_of_SomeD)
  with assms Some show ?thesis by (auto simp: fold_insert_get)
qed (simp add: fold_insert_get)

definition demo_chain :: chain_state where
  "demo_chain = chain_new\<lparr>c_accounts := bt_insert [2] (replicate 32 0) (bt_insert [1] (replicate 32 7) bt_empty)\<rparr>"

section \<open>Properties\<close>

text \<open>
  C10: pruning cannot be observed. Run any list of transactions in which time does not run
  backwards and an instruction's deadline is fixed by its nullifier, once as it is and
  once without its prunes: every other transaction gets the same answer, error and charge
  included, and the accounts and escrows at the end are the same. Nullifiers kept by a
  prune have not expired, so the set is bounded by the instructions in flight.
\<close>

theorem prune_unobservable:
  assumes "timely dl 0 txs"
  shows "snd (chain_run P chain_new (filter (\<lambda>tx. \<not> is_prune tx) txs)) =
      map snd (filter (\<lambda>(tx, a). \<not> is_prune tx) (zip txs (snd (chain_run P chain_new txs)))) \<and>
    c_accounts (fst (chain_run P chain_new (filter (\<lambda>tx. \<not> is_prune tx) txs))) =
      c_accounts (fst (chain_run P chain_new txs)) \<and>
    c_escrows (fst (chain_run P chain_new (filter (\<lambda>tx. \<not> is_prune tx) txs))) =
      c_escrows (fst (chain_run P chain_new txs)) \<and>
    (\<forall>n d now. bt_get (c_nullifiers (fst (chain_prune s now))) n = Some d \<longrightarrow>
      bt_get (c_nullifiers s) n = Some d \<and> now \<le> d)"
proof -
  have "pruned dl 0 chain_new chain_new" by (simp add: pruned_def chain_new_def)
  from chain_run_pruned [OF this assms, of P] show ?thesis
    by (auto simp: pruned_def chain_prune_def Let_def bt_get_retain split: option.splits if_splits)
qed

theorem prune_unobservable_witness:
  "snd (chain_run plain chain_new [TxOpen [1] 5, TxSettle [7] 10 3 [([1], 4)], TxSettle [7] 10 12 [([1], 2)]]) =
    [snd (chain_run plain chain_new [TxOpen [1] 5, TxSettle [7] 10 3 [([1], 4)], TxPrune 11,
       TxSettle [7] 10 12 [([1], 2)]]) ! 0,
     snd (chain_run plain chain_new [TxOpen [1] 5, TxSettle [7] 10 3 [([1], 4)], TxPrune 11,
       TxSettle [7] 10 12 [([1], 2)]]) ! 1, Err (Expired 10 12)]"
  using prune_unobservable [of "\<lambda>_. 10" "[TxOpen [1] (5 :: int), TxSettle [7] 10 3 [([1], 4)], TxPrune 11,
      TxSettle [7] 10 12 [([1], 2)]]" plain chain_new]
  by (simp add: chain_open_def chain_settle_def chain_prune_def chain_new_def Let_def)

text \<open>
  C24: the root is taken over an encoding that determines the state: two storable states
  with the same hash input are equal, so a disagreement about the state is a disagreement
  about the root unless the hash collides.
\<close>

theorem root_determines_state:
  assumes "storable s" "storable s'" "root_input s = root_input s'"
  shows "s = s'"
proof -
  note d = delimitedD [OF delimited_counted [OF delimited_account, of 8]]
    delimitedD [OF delimited_counted [OF delimited_nullifier, of 8]]
    delimited_inj [OF delimited_counted [OF delimited_escrow, of 8]]
  have len: "length (entries (c_accounts x)) < 256 ^ 8 \<and> length (entries (c_nullifiers x)) < 256 ^ 8 \<and>
      length (entries (c_escrows x)) < 256 ^ 8" if "storable x" for x
    using that by (simp add: storable_def bt_len_def)
  have eq: "counted 8 account_bytes (entries (c_accounts s)) @
      counted 8 nullifier_bytes (entries (c_nullifiers s)) @ counted 8 escrow_bytes (entries (c_escrows s)) =
    counted 8 account_bytes (entries (c_accounts s')) @
      counted 8 nullifier_bytes (entries (c_nullifiers s')) @ counted 8 escrow_bytes (entries (c_escrows s'))"
    using assms(3) by (simp add: root_input_counted)
  have a: "entries (c_accounts s) = entries (c_accounts s')"
    and eq2: "counted 8 nullifier_bytes (entries (c_nullifiers s)) @ counted 8 escrow_bytes (entries (c_escrows s)) =
      counted 8 nullifier_bytes (entries (c_nullifiers s')) @ counted 8 escrow_bytes (entries (c_escrows s'))"
    using d(1) [OF _ _ eq] len assms(1,2) by (auto simp: storable_def)
  have n: "entries (c_nullifiers s) = entries (c_nullifiers s')"
    and eq3: "counted 8 escrow_bytes (entries (c_escrows s)) = counted 8 escrow_bytes (entries (c_escrows s'))"
    using d(2) [OF _ _ eq2] len assms(1,2) by (auto simp: storable_def)
  have e: "entries (c_escrows s) = entries (c_escrows s')"
    using d(3) [OF _ _ eq3] len assms(1,2) by (auto simp: storable_def)
  from a n e show ?thesis by (intro chain_state.equality) (simp_all add: entries_inject)
qed

theorem root_determines_state_witness:
  "demo_chain = chain_new\<lparr>c_accounts := bt_insert [1] (replicate 32 7) (bt_insert [2] (replicate 32 0) bt_empty)\<rparr>"
  by (rule root_determines_state)
    (simp_all add: storable_def demo_chain_def chain_new_def bt_len_def bt_insert.rep_eq bt_empty.rep_eq root_input_def)

text \<open>
  C25: two settlements that name different nullifiers and disjoint accounts commute: if both
  are accepted in one order they are accepted in the other and leave the same state. Two
  that write one account need not: there are settlements accepted in both orders that
  leave states with different hash inputs.
\<close>

theorem settlements_commute:
  "(\<forall>s s1 s2 d1 d2. n \<noteq> n' \<and> fst ` set moves \<inter> fst ` set moves' = {} \<and>
      chain_settle P s n dl now moves = Ok (s1, d1) \<and> chain_settle P s1 n' dl' now' moves' = Ok (s2, d2) \<longrightarrow>
      (\<exists>s1' e1 e2. chain_settle P s n' dl' now' moves' = Ok (s1', e1) \<and>
        chain_settle P s1' n dl now moves = Ok (s2, e2))) \<and>
   (\<exists>s m m' s1 s2 s1' s2' d1 d2 d3 d4.
      chain_settle plain s [1] 9 0 m = Ok (s1, d1) \<and> chain_settle plain s1 [2] 9 0 m' = Ok (s2, d2) \<and>
      chain_settle plain s [2] 9 0 m' = Ok (s1', d3) \<and> chain_settle plain s1' [1] 9 0 m = Ok (s2', d4) \<and>
      root_input s2 \<noteq> root_input s2')"
proof (intro conjI allI impI)
  fix s s1 s2 d1 d2
  assume a: "n \<noteq> n' \<and> fst ` set moves \<inter> fst ` set moves' = {} \<and>
      chain_settle P s n dl now moves = Ok (s1, d1) \<and> chain_settle P s1 n' dl' now' moves' = Ok (s2, d2)"
  then have ok: "chain_settle P s n dl now moves = Ok (s1, d1)" "chain_settle P s1 n' dl' now' moves' = Ok (s2, d2)"
    and ne: "n \<noteq> n'" "fst ` set moves \<inter> fst ` set moves' = {}" by blast+
  note b = chain_settleD [OF ok(1)] chain_settleD [OF ok(2)]
  let ?A = "fold (\<lambda>(h, c). bt_insert h (compress P c)) moves' (c_accounts s)"
  have dom: "bt_get (c_accounts s1) h = None \<longleftrightarrow> bt_get (c_accounts s) h = None" for h
    unfolding b(4) by (rule fold_insert_dom [OF b(3)])
  let ?s1' = "s\<lparr>c_accounts := ?A, c_nullifiers := bt_insert n' dl' (c_nullifiers s)\<rparr>"
  have m': "\<forall>(h, c) \<in> set moves'. bt_contains (c_accounts s) h"
    using b(9) by (simp only: dom)
  have A: "bt_get ?A h = None \<longleftrightarrow> bt_get (c_accounts s) h = None" for h
    by (rule fold_insert_dom [OF m'])
  have "\<exists>e1. chain_settle P s n' dl' now' moves' = Ok (?s1', e1)"
    by (rule chain_settleI) (use b(5,7,8) m' in \<open>auto split: if_splits\<close>)
  moreover have "\<exists>e2. chain_settle P ?s1' n dl now moves =
      Ok (?s1'\<lparr>c_accounts := fold (\<lambda>(h, c). bt_insert h (compress P c)) moves (c_accounts ?s1'),
          c_nullifiers := bt_insert n dl (c_nullifiers ?s1')\<rparr>, e2)"
    by (rule chain_settleI) (use ne(1) b(1,2,3) in \<open>simp_all add: A\<close>)
  moreover have "s2 = ?s1'\<lparr>c_accounts := fold (\<lambda>(h, c). bt_insert h (compress P c)) moves (c_accounts ?s1'),
          c_nullifiers := bt_insert n dl (c_nullifiers ?s1')\<rparr>"
    using fold_insert_commute [OF ne(2), of "compress P" "c_accounts s"] ne(1)
    by (intro chain_state.equality) (simp_all add: b bt_insert_commute)
  ultimately show "\<exists>s1' e1 e2. chain_settle P s n' dl' now' moves' = Ok (s1', e1) \<and>
        chain_settle P s1' n dl now moves = Ok (s2, e2)" by blast
next
  let ?s = "chain_new\<lparr>c_accounts := bt_insert [1] [] bt_empty\<rparr>"
  show "\<exists>s m m' s1 s2 s1' s2' d1 d2 d3 d4.
      chain_settle plain s [1] 9 0 m = Ok (s1, d1) \<and> chain_settle plain s1 [2] 9 0 m' = Ok (s2, d2) \<and>
      chain_settle plain s [2] 9 0 m' = Ok (s1', d3) \<and> chain_settle plain s1' [1] 9 0 m = Ok (s2', d4) \<and>
      root_input s2 \<noteq> root_input s2'"
    by (rule exI [of _ ?s], rule exI [of _ "[([1], 5)]"], rule exI [of _ "[([1], 6)]"])
      (simp add: chain_settle_def chain_new_def plain_simps root_input_def bt_insert.rep_eq
        bt_empty.rep_eq bt_len_def)
qed

theorem settlements_commute_witness:
  "\<exists>s1 s2 s1' d1 d2 e1 e2.
     chain_settle plain demo_chain [1] 9 0 [([1], 5)] = Ok (s1, d1) \<and>
     chain_settle plain s1 [2] 9 0 [([2], 6)] = Ok (s2, d2) \<and>
     chain_settle plain demo_chain [2] 9 0 [([2], 6)] = Ok (s1', e1) \<and>
     chain_settle plain s1' [1] 9 0 [([1], 5)] = Ok (s2, e2)"
proof -
  obtain s1 d1 s2 d2 where ok: "chain_settle plain demo_chain [1] 9 0 [([1], 5)] = Ok (s1, d1)"
    "chain_settle plain s1 [2] 9 0 [([2], 6)] = Ok (s2, d2)"
    by (simp add: chain_settle_def demo_chain_def chain_new_def)
  have "fst ` set [([1 :: u8], 5 :: int)] \<inter> fst ` set [([2], 6)] = {}" "[1 :: u8] \<noteq> [2]"
    by simp_all
  then have "\<exists>s1' e1 e2. chain_settle plain demo_chain [2] 9 0 [([2], 6)] = Ok (s1', e1) \<and>
      chain_settle plain s1' [1] 9 0 [([1], 5)] = Ok (s2, e2)"
    using settlements_commute [of "[1]" "[2]" "[([1], 5)]" "[([2], 6)]" plain 9 0 9 0] ok by blast
  with ok show ?thesis
    by blast
qed

end
