(* ===== verification/Strings.thy ===== *)
theory Strings
  imports Prelude
begin

text \<open>
  What the program uses of Rust's \<open>str\<close>. A string is the list of its Unicode code points;
  \<open>as_bytes\<close> is its UTF-8 encoding. The operations are those of the standard library:
  \<open>trim\<close> with the \<open>White_Space\<close> property, \<open>split\<close> at a character, \<open>lines\<close>, the decimal
  \<open>parse\<close> of an unsigned integer and its \<open>Display\<close>.
\<close>

section \<open>Strings\<close>

type_synonym str = "nat list"

definition lit :: "string \<Rightarrow> str" where
  "lit s = map of_char s"

definition utf8_char :: "nat \<Rightarrow> bytes" where
  "utf8_char c =
     (if c < 0x80 then [of_nat c]
      else if c < 0x800 then [of_nat (0xC0 + c div 64), of_nat (0x80 + c mod 64)]
      else if c < 0x10000 then
        [of_nat (0xE0 + c div 4096), of_nat (0x80 + c div 64 mod 64), of_nat (0x80 + c mod 64)]
      else [of_nat (0xF0 + c div 262144), of_nat (0x80 + c div 4096 mod 64),
        of_nat (0x80 + c div 64 mod 64), of_nat (0x80 + c mod 64)])"

definition as_bytes :: "str \<Rightarrow> bytes" where
  "as_bytes s = concat (map utf8_char s)"

definition is_whitespace :: "nat \<Rightarrow> bool" where
  "is_whitespace c \<longleftrightarrow> 9 \<le> c \<and> c \<le> 13 \<or> c = 32 \<or> c = 0x85 \<or> c = 0xA0 \<or> c = 0x1680 \<or>
     0x2000 \<le> c \<and> c \<le> 0x200A \<or> c = 0x2028 \<or> c = 0x2029 \<or> c = 0x202F \<or> c = 0x205F \<or> c = 0x3000"

definition trim :: "str \<Rightarrow> str" where
  "trim s = rev (dropWhile is_whitespace (rev (dropWhile is_whitespace s)))"

fun split_on :: "nat \<Rightarrow> str \<Rightarrow> str list" where
  "split_on c [] = [[]]"
| "split_on c (x # xs) = (if x = c then [] # split_on c xs
     else (case split_on c xs of [] \<Rightarrow> [[x]] | p # ps \<Rightarrow> (x # p) # ps))"

abbreviation (input) newline :: nat where "newline \<equiv> 10"
abbreviation (input) comma :: nat where "comma \<equiv> 44"
abbreviation (input) hash_sign :: nat where "hash_sign \<equiv> 35"

definition strip_cr :: "str \<Rightarrow> str" where
  "strip_cr s = (if s \<noteq> [] \<and> last s = 13 then butlast s else s)"

definition lines_of :: "str \<Rightarrow> str list" where
  "lines_of s = (let ps = split_on newline s in
     map strip_cr (butlast ps) @ (if last ps = [] then [] else [last ps]))"

section \<open>Numbers in decimal\<close>

definition is_digit :: "nat \<Rightarrow> bool" where
  "is_digit c \<longleftrightarrow> 48 \<le> c \<and> c \<le> 57"

definition digits_value :: "str \<Rightarrow> nat" where
  "digits_value s = foldl (\<lambda>acc c. 10 * acc + (c - 48)) 0 s"

text \<open>\<open>str::parse::<u64>\<close>: an optional plus sign, at least one digit, and no overflow.\<close>

definition parse_u64 :: "str \<Rightarrow> u64 option" where
  "parse_u64 s = (let ds = (case s of c # d # ds \<Rightarrow> if c = 43 then d # ds else s | _ \<Rightarrow> s) in
     if ds \<noteq> [] \<and> list_all is_digit ds \<and> digits_value ds < 2 ^ 64 then Some (of_nat (digits_value ds))
     else None)"

fun show_nat :: "nat \<Rightarrow> str" where
  "show_nat n = (if n < 10 then [48 + n] else show_nat (n div 10) @ [48 + n mod 10])"

declare show_nat.simps [simp del]

section \<open>Splitting\<close>

lemma split_on_not_Nil [simp]: "split_on c s \<noteq> []"
  by (induction s) (auto split: list.splits)

lemma length_split_on: "length (split_on c s) = Suc (count_list s c)"
  by (induction s) (auto split: list.splits)

lemma split_on_append_sep: "c \<notin> set p \<Longrightarrow> split_on c (p @ c # s) = p # split_on c s"
  by (induction p) auto

lemma split_on_single: "c \<notin> set p \<Longrightarrow> split_on c p = [p]"
  by (induction p) auto

text \<open>What a cut of a string leaves of its pieces: a number of whole ones, then a cut one.\<close>

lemma split_on_append:
  "split_on c (s @ t) = butlast (split_on c s) @ (last (split_on c s) @ hd (split_on c t)) # tl (split_on c t)"
proof (induction s)
  case Nil
  show ?case by (cases "split_on c t") (use split_on_not_Nil [of c t] in auto)
next
  case (Cons x s)
  show ?case
    using Cons split_on_not_Nil [of c s] by (cases "split_on c s") (auto split: list.splits)
qed

section \<open>Trimming\<close>

lemma trim_empty_iff: "trim s = [] \<longleftrightarrow> (\<forall>c \<in> set s. is_whitespace c)"
proof -
  have "trim s = [] \<longleftrightarrow> (\<forall>c \<in> set (dropWhile is_whitespace s). is_whitespace c)"
    by (simp add: trim_def)
  also have "\<dots> \<longleftrightarrow> (\<forall>c \<in> set s. is_whitespace c)"
    by (metis dropWhile_eq_Nil_conv hd_dropWhile hd_in_set set_dropWhileD)
  finally show ?thesis .
qed

lemma trim_id: "s = [] \<or> \<not> is_whitespace (hd s) \<and> \<not> is_whitespace (last s) \<Longrightarrow> trim s = s"
proof (elim disjE conjE)
  assume a: "\<not> is_whitespace (hd s)" "\<not> is_whitespace (last s)"
  then have "dropWhile is_whitespace s = s" by (cases s) auto
  moreover from a have "dropWhile is_whitespace (rev s) = rev s"
    by (cases s rule: rev_cases) auto
  ultimately show "trim s = s" by (simp add: trim_def)
qed (simp add: trim_def)

lemma trim_parts: "\<exists>u v. s = u @ trim s @ v \<and> (\<forall>c \<in> set u \<union> set v. is_whitespace c)"
proof -
  let ?d = "dropWhile is_whitespace s"
  have "s = takeWhile is_whitespace s @ ?d" by simp
  moreover have "?d = trim s @ rev (takeWhile is_whitespace (rev ?d))"
    by (metis rev_append rev_rev_ident takeWhile_dropWhile_id trim_def)
  ultimately have "s = takeWhile is_whitespace s @ trim s @ rev (takeWhile is_whitespace (rev ?d))"
    by metis
  moreover have "\<forall>c \<in> set (takeWhile is_whitespace s) \<union> set (rev (takeWhile is_whitespace (rev ?d))). is_whitespace c"
    by (auto dest: set_takeWhileD)
  ultimately show ?thesis by blast
qed

lemma comma_not_whitespace [simp]: "\<not> is_whitespace comma"
  by (simp add: is_whitespace_def)

lemma count_trim:
  assumes "\<not> is_whitespace c"
  shows "count_list (trim s) c = count_list s c"
proof -
  obtain u v where s: "s = u @ trim s @ v" and ws: "\<forall>c \<in> set u \<union> set v. is_whitespace c"
    using trim_parts by blast
  with assms have "c \<notin> set u" "c \<notin> set v" by auto
  then show ?thesis by (subst (2) s) (simp add: count_list_0_iff)
qed

lemma hd_trim: "trim s \<noteq> [] \<Longrightarrow> \<not> is_whitespace (hd (trim s))"
proof -
  assume "trim s \<noteq> []"
  then have "dropWhile is_whitespace s \<noteq> []" by (auto simp: trim_def dest: set_dropWhileD)
  obtain u v where "dropWhile is_whitespace s = u @ v" "trim s = u"
    by (metis (no_types) rev_append rev_rev_ident takeWhile_dropWhile_id trim_def)
  with \<open>trim s \<noteq> []\<close> \<open>dropWhile is_whitespace s \<noteq> []\<close> show ?thesis
    by (metis hd_append2 hd_dropWhile)
qed

lemma trim_append_hd:
  assumes "trim s \<noteq> []"
  shows "trim (s @ t) \<noteq> [] \<and> hd (trim (s @ t)) = hd (trim s)"
proof -
  have *: "hd (trim x) = hd (dropWhile is_whitespace x)" if "trim x \<noteq> []" for x
    using that by (metis hd_append2 rev_append rev_rev_ident takeWhile_dropWhile_id trim_def)
  from assms obtain c where "c \<in> set s" "\<not> is_whitespace c" by (auto simp: trim_empty_iff)
  then have "dropWhile is_whitespace (s @ t) = dropWhile is_whitespace s @ t"
    by (simp add: dropWhile_append1)
  moreover have "dropWhile is_whitespace s \<noteq> []" using \<open>c \<in> set s\<close> \<open>\<not> is_whitespace c\<close> by auto
  moreover have "trim (s @ t) \<noteq> []" using \<open>c \<in> set s\<close> \<open>\<not> is_whitespace c\<close> by (auto simp: trim_empty_iff)
  ultimately show ?thesis using * [OF assms] * [of "s @ t"] by simp
qed

section \<open>Printing and parsing numbers\<close>

lemma show_nat_not_Nil [simp]: "show_nat n \<noteq> []"
  by (subst show_nat.simps) simp

lemma show_nat_digits: "list_all is_digit (show_nat n)"
proof (induction n rule: show_nat.induct)
  case (1 n)
  then show ?case
    by (subst show_nat.simps) (auto simp: is_digit_def list_all_iff)
qed

lemma digits_value_show: "digits_value (show_nat n) = n"
proof (induction n rule: show_nat.induct)
  case (1 n)
  then show ?case
    by (subst show_nat.simps) (auto simp: digits_value_def)
qed

lemma parse_show: "parse_u64 (show_nat (unat w)) = Some w"
proof -
  have "(case show_nat n of c # d # ds \<Rightarrow> if c = 43 then d # ds else show_nat n | _ \<Rightarrow> show_nat n) = show_nat n" for n
    using show_nat_digits [of n] by (auto simp: is_digit_def split: list.splits)
  then show ?thesis
    using unat_bound [of w] by (simp add: parse_u64_def show_nat_digits digits_value_show)
qed

lemma show_nat_set: "c \<in> set (show_nat n) \<Longrightarrow> 48 \<le> c \<and> c \<le> 57"
  using show_nat_digits [of n] by (auto simp: list_all_iff is_digit_def)

lemma show_nat_no_sep [simp]: "comma \<notin> set (show_nat n)" "newline \<notin> set (show_nat n)"
  using show_nat_set [of _ n] by force+

lemma trim_show [simp]: "trim (show_nat n) = show_nat n"
  using show_nat_set [of "hd (show_nat n)" n] show_nat_set [of "last (show_nat n)" n]
  by (intro trim_id) (auto simp: is_whitespace_def)

end
