(* ===== verification/Reconcile.thy ===== *)
theory Reconcile
  imports Strings Crypto
begin

text \<open>
  Reconciliation with the book of record, \<open>rust/defmi/src/reconcile.rs\<close>: the proof that
  a set of committed balances comes to an attested total, its check, the check of every
  position, and the bisection that finds the positions that break a total. Positions are
  indices of the commitment list. The random weights are an argument.
\<close>

section \<open>Attestations and reconciliations\<close>

record attestation =
  at_register :: str
  at_account :: str
  at_asset :: str
  at_total :: u64
  at_as_of :: str
  at_signature :: "signature option"

definition reconcile_domain :: bytes where
  "reconcile_domain = ascii ''QOMM:DEFMI:RECONCILE:v1''"

definition body_input :: "attestation \<Rightarrow> bytes" where
  "body_input a = reconcile_domain @
     concat (map (\<lambda>part. be32 (of_nat (length part)) @ part)
       [as_bytes (at_register a), as_bytes (at_account a), as_bytes (at_asset a), as_bytes (at_as_of a)]) @
     be64 (at_total a)"

definition attestation_body :: "('p, 's) prims \<Rightarrow> attestation \<Rightarrow> bytes" where
  "attestation_body P a = sha256 P (body_input a)"

definition attestation_transcript :: "('p, 's) prims \<Rightarrow> attestation \<Rightarrow> transcript" where
  "attestation_transcript P a = append_message (ascii ''attestation'') (attestation_body P a)
     (transcript_new (ascii ''qomm:defmi:reconcile''))"

record reconciliation =
  rc_attestation :: attestation
  rc_positions :: nat
  rc_proof :: sigma_proof

datatype reconcile_error =
  BlindingPerCommitment \<comment> \<open>"a blinding per commitment, or the sum is not the sum"\<close>
  | CoversPositions nat nat \<comment> \<open>"reconciliation covers .. positions and .. were offered"\<close>
  | NotSignedByRegistrar \<comment> \<open>"the attestation is not signed by that registrar"\<close>
  | RegistrarSignedNothing \<comment> \<open>"that registrar signed nothing here"\<close>
  | NoRegistrarKey \<comment> \<open>"an attestation carries a signature and no registrar key .."\<close>
  | TotalBreak u64 \<comment> \<open>"the committed balances do not sum to ..: a break .."\<close>
  | CannotSay nat nat \<comment> \<open>"this register cannot say what .. should total .."\<close>
  | OwnFigures nat nat u64 \<comment> \<open>".. the break is in its own figures"\<close>
  | SlicePanic \<comment> \<open>a slice out of range\<close>

definition aggregate :: "'p::ab_group_add list \<Rightarrow> 'p" where
  "aggregate commitments = foldl (\<lambda>acc c. acc + c) 0 commitments"

definition residual :: "('p::ab_group_add, 's::comm_ring_1) prims \<Rightarrow> 'p pedersen \<Rightarrow> 'p list \<Rightarrow> u64 \<Rightarrow> 'p" where
  "residual P key commitments stated = aggregate commitments - smul P (scalar_u64 stated) (ped_g key)"

definition reconcile_prove ::
  "('p::ab_group_add, 's::comm_ring_1) prims \<Rightarrow> 'p pedersen \<Rightarrow> 'p list \<Rightarrow> 's list \<Rightarrow> attestation
    \<Rightarrow> (reconciliation, reconcile_error) result" where
  "reconcile_prove P key commitments blindings attestation =
     and_then (ensure (length commitments = length blindings) BlindingPerCommitment) (\<lambda>_.
     let combined = sum_list blindings;
         point = residual P key commitments (at_total attestation);
         proof = zero_opening_prove P key (attestation_transcript P attestation) point combined in
     Ok \<lparr>rc_attestation = attestation, rc_positions = length commitments, rc_proof = proof\<rparr>)"

definition reconcile_check ::
  "('p::ab_group_add, 's::comm_ring_1) prims \<Rightarrow> 'p pedersen \<Rightarrow> 'p list \<Rightarrow> reconciliation \<Rightarrow> bytes option
    \<Rightarrow> (unit, reconcile_error) result" where
  "reconcile_check P key commitments reconciliation registrar =
     and_then (ensure (length commitments = rc_positions reconciliation)
       (CoversPositions (rc_positions reconciliation) (length commitments))) (\<lambda>_.
     let attestation = rc_attestation reconciliation in
     and_then (case (registrar, at_signature attestation) of
         (Some k, Some signature) \<Rightarrow>
           ensure (hybrid_verify P Attestation k (attestation_body P attestation) signature) NotSignedByRegistrar
       | (Some _, None) \<Rightarrow> Err RegistrarSignedNothing
       | (None, Some _) \<Rightarrow> Err NoRegistrarKey
       | (None, None) \<Rightarrow> Ok ()) (\<lambda>_.
     let point = residual P key commitments (at_total attestation) in
     ensure (zero_opening_verify P key (attestation_transcript P attestation) point (rc_proof reconciliation))
       (TotalBreak (at_total attestation))))"

section \<open>Position by position\<close>

definition weighted :: "('p::ab_group_add, 's) prims \<Rightarrow> 'p list \<Rightarrow> 's list \<Rightarrow> 'p" where
  "weighted P commitments coefficients = sum_list (map2 (smul P) coefficients commitments)"

definition positions_agree ::
  "('p::ab_group_add, 's::comm_ring_1) prims \<Rightarrow> 'p pedersen \<Rightarrow> 'p list \<Rightarrow> 's list \<Rightarrow> u64 list
    \<Rightarrow> (nat \<Rightarrow> 's) \<Rightarrow> bool" where
  "positions_agree P key commitments blindings expected random =
     (if length commitments \<noteq> length blindings \<or> length commitments \<noteq> length expected then False
      else let weights = map random [0..<length commitments];
               value_sum = sum_list (map2 (\<lambda>w v. w * scalar_u64 v) weights expected);
               blinding_sum = sum_list (map2 (\<lambda>w r. w * r) weights blindings);
               combined = sum_list (map2 (smul P) weights commitments) in
        combined = smul P value_sum (ped_g key) + smul P blinding_sum (ped_h key))"

definition check_positions ::
  "('p::ab_group_add, 's::comm_ring_1) prims \<Rightarrow> 'p pedersen \<Rightarrow> 'p list \<Rightarrow> 's list \<Rightarrow> u64 list
    \<Rightarrow> (nat \<Rightarrow> 's) \<Rightarrow> nat list" where
  "check_positions P key commitments blindings expected random =
     (if positions_agree P key commitments blindings expected random then []
      else map fst (filter (\<lambda>(i, ((c, r), v)). commit_u64 P key v r \<noteq> c)
        (enumerate 0 (zip (zip commitments blindings) expected))))"

section \<open>Bisection\<close>

record break_search =
  bs_found :: "nat list"
  bs_proofs :: nat
  bs_ranges_made_public :: "(nat \<times> nat \<times> u64) list"

definition narrowest :: "break_search \<Rightarrow> nat" where
  "narrowest s = (case map (\<lambda>(l, h, _). h - l) (bs_ranges_made_public s) of
     [] \<Rightarrow> 0 | w # ws \<Rightarrow> fold min ws w)"

definition slice :: "'a list \<Rightarrow> nat \<Rightarrow> nat \<Rightarrow> 'a list option" where
  "slice xs low high = (if low \<le> high \<and> high \<le> length xs then Some (take (high - low) (drop low xs)) else None)"

definition sub_range :: "nat \<Rightarrow> nat \<Rightarrow> u64 \<Rightarrow> attestation" where
  "sub_range low high stated = \<lparr>at_register = lit ''sub-range'',
     at_account = lit ''['' @ show_nat low @ lit '','' @ show_nat high @ lit '')'',
     at_asset = [], at_total = stated, at_as_of = [], at_signature = None\<rparr>"

text \<open>One turn of the loop: the entry popped, what is left of the stack, and the search so far.\<close>

definition locate_step ::
  "('p::ab_group_add, 's::comm_ring_1) prims \<Rightarrow> 'p pedersen \<Rightarrow> 'p list \<Rightarrow> 's list
    \<Rightarrow> (nat \<Rightarrow> nat \<Rightarrow> u64 option) \<Rightarrow> nat \<times> nat \<times> u64 \<Rightarrow> (nat \<times> nat \<times> u64) list \<Rightarrow> break_search
    \<Rightarrow> ((nat \<times> nat \<times> u64) list \<times> break_search, reconcile_error) result" where
  "locate_step P key commitments blindings claimed entry stack search =
     (case entry of (low, high, stated) \<Rightarrow>
     let search = search\<lparr>bs_ranges_made_public := bs_ranges_made_public search @ [(low, high, stated)]\<rparr>;
         attestation = sub_range low high stated in
     and_then (ok_or (slice commitments low high) SlicePanic) (\<lambda>part.
     and_then (ok_or (slice blindings low high) SlicePanic) (\<lambda>rs.
     and_then (reconcile_prove P key part rs attestation) (\<lambda>reconciliation.
     let search = search\<lparr>bs_proofs := bs_proofs search + 1\<rparr> in
     if is_ok (reconcile_check P key part reconciliation None) then Ok (stack, search)
     else if high - low = 1 then Ok (stack, search\<lparr>bs_found := bs_found search @ [low]\<rparr>)
     else let middle = (low + high) div 2 in
       and_then (ok_or (claimed low middle) (CannotSay low middle)) (\<lambda>first.
       and_then (ok_or (claimed middle high) (CannotSay middle high)) (\<lambda>second.
       and_then (ensure (checked_add first second = Some stated) (OwnFigures low high stated)) (\<lambda>_.
       Ok ((low, middle, first) # (middle, high, second) # stack, search))))))))"

partial_function (option) locate_loop ::
  "('p::ab_group_add, 's::comm_ring_1) prims \<Rightarrow> 'p pedersen \<Rightarrow> 'p list \<Rightarrow> 's list
    \<Rightarrow> (nat \<Rightarrow> nat \<Rightarrow> u64 option) \<Rightarrow> (nat \<times> nat \<times> u64) list \<Rightarrow> break_search
    \<Rightarrow> (break_search, reconcile_error) result option" where
  "locate_loop P key commitments blindings claimed stack search =
     (case stack of [] \<Rightarrow> Some (Ok (search\<lparr>bs_found := sort (bs_found search)\<rparr>))
      | entry # stack \<Rightarrow> (case locate_step P key commitments blindings claimed entry stack search of
          Err e \<Rightarrow> Some (Err e)
        | Ok (stack, search) \<Rightarrow> locate_loop P key commitments blindings claimed stack search))"

definition locate_break ::
  "('p::ab_group_add, 's::comm_ring_1) prims \<Rightarrow> 'p pedersen \<Rightarrow> 'p list \<Rightarrow> 's list
    \<Rightarrow> (nat \<Rightarrow> nat \<Rightarrow> u64 option) \<Rightarrow> u64 \<Rightarrow> (break_search, reconcile_error) result option" where
  "locate_break P key commitments blindings claimed expected =
     (let search = \<lparr>bs_found = [], bs_proofs = 0, bs_ranges_made_public = []\<rparr> in
     if commitments = [] then Some (Ok search)
     else locate_loop P key commitments blindings claimed [(0, length commitments, expected)] search)"

section \<open>What a check says\<close>

text \<open>Balances committed under the key, and what they come to.\<close>

definition committed :: "('p, 's::comm_ring_1) prims \<Rightarrow> 'p pedersen \<Rightarrow> u64 list \<Rightarrow> 's list \<Rightarrow> 'p list" where
  "committed P key vs rs = map2 (commit_u64 P key) vs rs"

definition units :: "u64 list \<Rightarrow> nat" where
  "units vs = sum_list (map unat vs)"

text \<open>The laws the check relies on, for sums of fewer than \<open>2 ^ n\<close> units.\<close>

definition reconcile_laws ::
  "('p::ab_group_add, 's::comm_ring_1) prims \<Rightarrow> 'p pedersen \<Rightarrow> ('p \<Rightarrow> 's) \<Rightarrow> nat \<Rightarrow> bool" where
  "reconcile_laws P key val n \<longleftrightarrow> scalar_module P \<and> pedersen_commits P \<and> sigma_complete P \<and>
     algebraic_reading P key val \<and> wide_scalars TYPE('s) n \<and> 64 \<le> n"

lemma aggregate_sum: "aggregate cs = sum_list cs"
proof -
  have "foldl (\<lambda>acc c. acc + c) x cs = x + sum_list cs" for x :: 'a
    by (induction cs arbitrary: x) (simp_all add: add.assoc)
  then show ?thesis by (simp add: aggregate_def)
qed

lemma units_append [simp]: "units (vs @ ws) = units vs + units ws"
  by (simp add: units_def)

lemma sum_committed:
  assumes "scalar_module P" "pedersen_commits P" "length vs = length rs"
  shows "sum_list (committed P key vs rs) =
    smul P (of_nat (units vs)) (ped_g key) + smul P (sum_list rs) (ped_h key)"
  using assms(3)
proof (induction vs rs rule: list_induct2)
  case Nil
  show ?case by (simp add: committed_def units_def smul_zero [OF assms(1)])
next
  case (Cons v vs r rs)
  have "commit_u64 P key v r = smul P (of_nat (unat v)) (ped_g key) + smul P r (ped_h key)"
    using assms(2) by (simp add: commit_u64_def pedersen_commits_def scalar_u64_def)
  with Cons show ?case
    by (simp add: committed_def units_def smul_add [OF assms(1)])
qed

lemma residual_committed:
  assumes "scalar_module P" "pedersen_commits P" "length vs = length rs"
  shows "residual P key (committed P key vs rs) t =
    smul P (of_nat (units vs) - of_nat (unat t)) (ped_g key) + smul P (sum_list rs) (ped_h key)"
  using assms by (simp add: residual_def aggregate_sum sum_committed smul_diff scalar_u64_def)

lemma length_committed [simp]: "length (committed P key vs rs) = min (length vs) (length rs)"
  by (simp add: committed_def)

lemma zero_opening_iff:
  assumes laws: "reconcile_laws P key val n" and len: "length vs = length rs" and small: "units vs < 2 ^ n"
  shows "zero_opening_verify P key tr (residual P key (committed P key vs rs) t)
      (zero_opening_prove P key tr (residual P key (committed P key vs rs) t) (sum_list rs)) \<longleftrightarrow>
    units vs = unat t"
proof
  note l = laws [unfolded reconcile_laws_def]
  let ?x = "residual P key (committed P key vs rs) t"
  have x: "?x = smul P (of_nat (units vs) - of_nat (unat t)) (ped_g key) + smul P (sum_list rs) (ped_h key)"
    using l len by (simp add: residual_committed)
  {
    assume "zero_opening_verify P key tr ?x (zero_opening_prove P key tr ?x (sum_list rs))"
    with l have "val ?x = 0" by (blast dest: val_zero_opening)
    moreover from l have "val ?x = of_nat (units vs) - of_nat (unat t)"
      unfolding x by (simp add: val_add [of P key] val_smul [of P key] val_g [of P key] val_h [of P key])
    moreover have "unat t < 2 ^ n"
    proof -
      have "(2 :: nat) ^ 64 \<le> 2 ^ n" using l by (intro power_increasing) simp_all
      then show ?thesis using unat_bound [of t] by simp
    qed
    ultimately show "units vs = unat t"
      using l small wide_scalarsD [of n "units vs" "unat t"] by (metis eq_iff_diff_eq_0)
  }
  assume "units vs = unat t"
  with x have "?x = smul P (sum_list rs) (ped_h key)" using l by (simp add: smul_zero)
  then show "zero_opening_verify P key tr ?x (zero_opening_prove P key tr ?x (sum_list rs))"
    using l by (simp add: zero_opening_complete)
qed

lemma prove_check:
  assumes "reconcile_laws P key val n" "length vs = length rs" "units vs < 2 ^ n" "at_signature a = None"
  shows "\<exists>r. reconcile_prove P key (committed P key vs rs) rs a = Ok r \<and>
    is_ok (reconcile_check P key (committed P key vs rs) r None) = (units vs = unat (at_total a))"
  using assms by (simp add: reconcile_prove_def reconcile_check_def Let_def is_ok_iff zero_opening_iff)

section \<open>What the bisection finds\<close>

definition range_ok :: "u64 list \<Rightarrow> nat \<times> nat \<times> u64 \<Rightarrow> bool" where
  "range_ok vs = (\<lambda>(l, h, t). units (take (h - l) (drop l vs)) = unat t)"

text \<open>An entry of the stack: a range of positions with the whole's total or one claimed for it.\<close>

definition entry_ok :: "nat \<Rightarrow> (nat \<Rightarrow> nat \<Rightarrow> u64 option) \<Rightarrow> u64 \<Rightarrow> nat \<times> nat \<times> u64 \<Rightarrow> bool" where
  "entry_ok n claimed expected = (\<lambda>(l, h, t). l < h \<and> h \<le> n \<and> ((l, h, t) = (0, n, expected) \<or> claimed l h = Some t))"

definition weight :: "(nat \<times> nat \<times> u64) list \<Rightarrow> nat" where
  "weight stack = sum_list (map (\<lambda>(l, h, _). 2 * (h - l) - 1) stack)"

definition noted :: "nat \<times> nat \<times> u64 \<Rightarrow> break_search \<Rightarrow> break_search" where
  "noted e s = s\<lparr>bs_ranges_made_public := bs_ranges_made_public s @ [e], bs_proofs := bs_proofs s + 1\<rparr>"

lemma slice_committed:
  "length vs = length rs \<Longrightarrow> l \<le> h \<Longrightarrow> h \<le> length vs \<Longrightarrow>
    slice (committed P key vs rs) l h =
      Some (committed P key (take (h - l) (drop l vs)) (take (h - l) (drop l rs)))"
  by (simp add: slice_def committed_def drop_map take_map drop_zip take_zip)

lemma units_part: "units (take k (drop l vs)) \<le> units vs"
proof -
  have "units vs = units (take l vs) + (units (take k (drop l vs)) + units (drop k (drop l vs)))"
    by (metis append_take_drop_id units_append)
  then show ?thesis by simp
qed

lemma locate_step_eq:
  assumes laws: "reconcile_laws P key val n" and len: "length vs = length rs" and small: "units vs < 2 ^ n"
    and lh: "l < h" "h \<le> length vs"
  shows "locate_step P key (committed P key vs rs) rs claimed (l, h, t) stack s =
    (if range_ok vs (l, h, t) then Ok (stack, noted (l, h, t) s)
     else if h - l = 1 then Ok (stack, (noted (l, h, t) s)\<lparr>bs_found := bs_found s @ [l]\<rparr>)
     else let m = (l + h) div 2 in
       and_then (ok_or (claimed l m) (CannotSay l m)) (\<lambda>first.
       and_then (ok_or (claimed m h) (CannotSay m h)) (\<lambda>second.
       and_then (ensure (checked_add first second = Some t) (OwnFigures l h t)) (\<lambda>_.
       Ok ((l, m, first) # (m, h, second) # stack, noted (l, h, t) s)))))"
proof -
  let ?vs = "take (h - l) (drop l vs)" and ?rs = "take (h - l) (drop l rs)"
  have "units ?vs < 2 ^ n" using small units_part [of "h - l" l vs] by linarith
  then obtain r where "reconcile_prove P key (committed P key ?vs ?rs) ?rs (sub_range l h t) = Ok r"
    and "is_ok (reconcile_check P key (committed P key ?vs ?rs) r None) = (units ?vs = unat t)"
    using prove_check [OF laws, of ?vs ?rs "sub_range l h t"] len by (auto simp: sub_range_def)
  moreover have "slice rs l h = Some ?rs" using lh len by (simp add: slice_def)
  ultimately show ?thesis
    using lh len by (simp add: locate_step_def slice_committed range_ok_def noted_def Let_def)
qed

lemma range_ok_halves:
  assumes "l \<le> m" "m \<le> h" "checked_add a b = Some t" "range_ok vs (l, m, a)" "range_ok vs (m, h, b)"
  shows "range_ok vs (l, h, t)"
proof -
  have "take (h - l) (drop l vs) = take (m - l) (drop l vs) @ take (h - m) (drop m vs)"
    using assms(1,2) take_add [of "m - l" "h - m" "drop l vs"] by simp
  with assms(3-5) show ?thesis by (simp add: range_ok_def checked_simps)
qed

text \<open>What the loop adds to the search, from any stack of ranges.\<close>

definition located ::
  "u64 list \<Rightarrow> (nat \<Rightarrow> nat \<Rightarrow> u64 option) \<Rightarrow> u64 \<Rightarrow> (nat \<times> nat \<times> u64) list \<Rightarrow> break_search \<Rightarrow> break_search \<Rightarrow> bool" where
  "located vs claimed expected stack s s' \<longleftrightarrow> (\<exists>new more.
     bs_found s' = sort (bs_found s @ new) \<and>
     bs_ranges_made_public s' = bs_ranges_made_public s @ more \<and>
     bs_proofs s' = bs_proofs s + length more \<and> length more \<le> weight stack \<and>
     (\<forall>i \<in> set new. \<exists>t. entry_ok (length vs) claimed expected (i, i + 1, t) \<and>
        (i, i + 1, t) \<in> set more \<and> vs ! i \<noteq> t) \<and>
     (new = [] \<longleftrightarrow> (\<forall>e \<in> set stack. range_ok vs e)))"

lemma located_Nil: "located vs claimed expected [] s (s\<lparr>bs_found := sort (bs_found s)\<rparr>)"
  unfolding located_def by (intro exI [of _ "[]"]) simp

lemma located_good:
  assumes "located vs claimed expected stack (noted e s) s'" "range_ok vs e"
    "entry_ok (length vs) claimed expected e"
  shows "located vs claimed expected (e # stack) s s'"
proof -
  obtain new more where *: "bs_found s' = sort (bs_found s @ new)"
    "bs_ranges_made_public s' = bs_ranges_made_public s @ e # more"
    "bs_proofs s' = bs_proofs s + length (e # more)" "length more \<le> weight stack"
    "\<forall>i \<in> set new. \<exists>t. entry_ok (length vs) claimed expected (i, i + 1, t) \<and> (i, i + 1, t) \<in> set more \<and> vs ! i \<noteq> t"
    "new = [] \<longleftrightarrow> (\<forall>e \<in> set stack. range_ok vs e)"
    using assms(1) unfolding located_def noted_def by auto
  moreover have "length (e # more) \<le> weight (e # stack)"
  proof (cases e)
    case (fields l h t)
    with assms(3) have "l < h" by (simp add: entry_ok_def)
    then have "1 \<le> 2 * (h - l) - 1" by simp
    with fields *(4) show ?thesis by (simp add: weight_def)
  qed
  ultimately show ?thesis
    unfolding located_def using assms(2) by (intro exI [of _ new] exI [of _ "e # more"]) auto
qed

lemma range_ok_single: "l < length vs \<Longrightarrow> range_ok vs (l, Suc l, t) \<longleftrightarrow> vs ! l = t"
  by (simp add: range_ok_def units_def take_Suc_conv_app_nth word_unat_eq_iff)

lemma located_single:
  assumes "located vs claimed expected stack ((noted (l, Suc l, t) s)\<lparr>bs_found := bs_found s @ [l]\<rparr>) s'"
    "\<not> range_ok vs (l, Suc l, t)" "entry_ok (length vs) claimed expected (l, Suc l, t)"
  shows "located vs claimed expected ((l, Suc l, t) # stack) s s'"
proof -
  let ?e = "(l, Suc l, t)"
  obtain new more where *: "bs_found s' = sort (bs_found s @ l # new)"
    "bs_ranges_made_public s' = bs_ranges_made_public s @ ?e # more"
    "bs_proofs s' = bs_proofs s + length (?e # more)" "length more \<le> weight stack"
    "\<forall>i \<in> set new. \<exists>t. entry_ok (length vs) claimed expected (i, i + 1, t) \<and> (i, i + 1, t) \<in> set more \<and> vs ! i \<noteq> t"
    using assms(1) unfolding located_def noted_def by auto
  moreover have "vs ! l \<noteq> t"
    using assms(2,3) by (simp add: range_ok_single entry_ok_def)
  moreover have "length (?e # more) \<le> weight (?e # stack)" using *(4) by (simp add: weight_def)
  ultimately show ?thesis
    unfolding located_def using assms(2,3) by (intro exI [of _ "l # new"] exI [of _ "?e # more"]) auto
qed

lemma located_split:
  assumes "located vs claimed expected ((l, m, a) # (m, h, b) # stack) (noted (l, h, t) s) s'"
    "\<not> range_ok vs (l, h, t)" "l < m" "m < h" "checked_add a b = Some t"
  shows "located vs claimed expected ((l, h, t) # stack) s s'"
proof -
  let ?e = "(l, h, t)"
  obtain new more where *: "bs_found s' = sort (bs_found s @ new)"
    "bs_ranges_made_public s' = bs_ranges_made_public s @ ?e # more"
    "bs_proofs s' = bs_proofs s + length (?e # more)" "length more \<le> weight ((l, m, a) # (m, h, b) # stack)"
    "\<forall>i \<in> set new. \<exists>t. entry_ok (length vs) claimed expected (i, i + 1, t) \<and> (i, i + 1, t) \<in> set more \<and> vs ! i \<noteq> t"
    "new = [] \<longleftrightarrow> (\<forall>e \<in> set ((l, m, a) # (m, h, b) # stack). range_ok vs e)"
    using assms(1) unfolding located_def noted_def by auto
  moreover have "new \<noteq> []"
    using *(6) assms(2-5) range_ok_halves [of l m h a b t vs] by auto
  moreover have "length (?e # more) \<le> weight (?e # stack)"
    using *(4) assms(3,4) by (simp add: weight_def)
  ultimately show ?thesis
    unfolding located_def using assms(2) by (intro exI [of _ new] exI [of _ "?e # more"]) auto
qed

lemma weight_less:
  "l < h \<Longrightarrow> weight stack < weight ((l, h, t) # stack)"
  "l < m \<Longrightarrow> m < h \<Longrightarrow> weight ((l, m, a) # (m, h, b) # stack) < weight ((l, h, t) # stack)"
  by (simp_all add: weight_def)

text \<open>The loop ends: a turn removes a range or splits it in two smaller ones.\<close>

lemma locate_loop_spec:
  fixes P :: "('p::ab_group_add, 's::comm_ring_1) prims"
  assumes laws: "reconcile_laws P key val n" and len: "length vs = length rs" and small: "units vs < 2 ^ n"
    and stack: "list_all (entry_ok (length vs) claimed expected) stack"
  shows "\<exists>r. locate_loop P key (committed P key vs rs) rs claimed stack s = Some r \<and>
    (case r of Ok s' \<Rightarrow> located vs claimed expected stack s s'
     | Err e \<Rightarrow> (\<exists>l h. e = CannotSay l h \<and> claimed l h = None) \<or> (\<exists>l h t. e = OwnFigures l h t))"
  using stack
proof (induction "weight stack" arbitrary: stack s rule: less_induct)
  case less
  note loop = locate_loop.simps [of P key "committed P key vs rs" rs claimed]
  show ?case
  proof (cases stack)
    case Nil
    then show ?thesis by (subst loop) (simp add: located_Nil)
  next
    case (Cons e rest)
    obtain l h t where e: "e = (l, h, t)" by (cases e)
    from less.prems have ent: "entry_ok (length vs) claimed expected (l, h, t)"
      and rest: "list_all (entry_ok (length vs) claimed expected) rest" by (simp_all add: Cons e)
    then have lh: "l < h" "h \<le> length vs" by (simp_all add: entry_ok_def)
    note step = locate_step_eq [OF laws len small lh, of claimed t rest s]
    note IH = less.hyps [unfolded Cons e]
    consider (good) "range_ok vs (l, h, t)" | (single) "\<not> range_ok vs (l, h, t)" "h = Suc l"
      | (split) "\<not> range_ok vs (l, h, t)" "h \<noteq> Suc l" by blast
    then show ?thesis
    proof cases
      case good
      from IH [OF weight_less(1) [OF lh(1)] rest, of "noted (l, h, t) s"] show ?thesis
        unfolding Cons e loop [of "(l, h, t) # rest" s] list.case step
        using good ent by (auto split: result.splits intro: located_good)
    next
      case single
      from IH [OF weight_less(1) [OF lh(1)] rest, of "(noted (l, h, t) s)\<lparr>bs_found := bs_found s @ [l]\<rparr>"]
      show ?thesis
        unfolding Cons e loop [of "(l, h, t) # rest" s] list.case step
        using single ent by (auto split: result.splits intro: located_single)
    next
      case split
      let ?m = "(l + h) div 2"
      have m: "l < ?m" "?m < h" using lh split(2) by auto
      show ?thesis
      proof (cases "\<exists>a b. claimed l ?m = Some a \<and> claimed ?m h = Some b \<and> checked_add a b = Some t")
        case True
        then obtain a b where ab: "claimed l ?m = Some a" "claimed ?m h = Some b" "checked_add a b = Some t"
          by blast
        then have "list_all (entry_ok (length vs) claimed expected) ((l, ?m, a) # (?m, h, b) # rest)"
          using rest m lh by (simp add: entry_ok_def)
        from IH [OF weight_less(2) [OF m] this, of "noted (l, h, t) s"] show ?thesis
          unfolding Cons e loop [of "(l, h, t) # rest" s] list.case step
          using split ab m by (auto split: result.splits simp: Let_def intro: located_split)
      next
        case False
        then show ?thesis
          unfolding Cons e loop [of "(l, h, t) # rest" s] list.case step
          using split lh by (cases "claimed l ?m"; cases "claimed ?m h") (auto simp: Let_def)
      qed
    qed
  qed
qed

section \<open>Properties\<close>

text \<open>
  C26: reconciliation says exactly whether the balances come to the attested total. Of
  balances committed under the key with known blindings the proof is always produced, and
  it is accepted, under the registrar whose signature the attestation carries, if and only
  if the balances sum to the total. And whatever reconciliation is accepted, made by
  anybody, covers the positions offered, carries a signature of the registrar when one is
  asked for and none when none is, and fixes the sum of the commitments' values.
\<close>

theorem reconciles_iff_total:
  fixes P :: "('p::ab_group_add, 's::comm_ring_1) prims"
  assumes laws: "reconcile_laws P key val n"
  shows "(\<forall>vs rs a registrar. length vs = length rs \<and> units vs < 2 ^ n \<and>
      (case (registrar, at_signature a) of (Some k, Some s) \<Rightarrow> hybrid_verify P Attestation k (attestation_body P a) s
        | (None, None) \<Rightarrow> True | _ \<Rightarrow> False) \<longrightarrow>
      (\<exists>r. reconcile_prove P key (committed P key vs rs) rs a = Ok r \<and> rc_attestation r = a \<and>
        (reconcile_check P key (committed P key vs rs) r registrar = Ok () \<longleftrightarrow> units vs = unat (at_total a)))) \<and>
    (\<forall>cs r registrar. reconcile_check P key cs r registrar = Ok () \<longrightarrow>
      rc_positions r = length cs \<and> val (sum_list cs) = of_nat (unat (at_total (rc_attestation r))) \<and>
      (case registrar of None \<Rightarrow> at_signature (rc_attestation r) = None
       | Some k \<Rightarrow> \<exists>s. at_signature (rc_attestation r) = Some s \<and>
           hybrid_verify P Attestation k (attestation_body P (rc_attestation r)) s))"
proof (intro conjI allI impI)
  fix vs and rs :: "'s list" and a registrar
  assume "length vs = length rs \<and> units vs < 2 ^ n \<and>
      (case (registrar, at_signature a) of (Some k, Some s) \<Rightarrow> hybrid_verify P Attestation k (attestation_body P a) s
        | (None, None) \<Rightarrow> True | _ \<Rightarrow> False)"
  then show "\<exists>r. reconcile_prove P key (committed P key vs rs) rs a = Ok r \<and> rc_attestation r = a \<and>
        (reconcile_check P key (committed P key vs rs) r registrar = Ok () \<longleftrightarrow> units vs = unat (at_total a))"
    by (auto simp: reconcile_prove_def reconcile_check_def Let_def zero_opening_iff [OF laws] split: option.splits)
next
  fix cs r registrar
  assume ok: "reconcile_check P key cs r registrar = Ok ()"
  let ?a = "rc_attestation r"
  from ok show "rc_positions r = length cs"
    by (simp add: reconcile_check_def)
  from ok have "zero_opening_verify P key (attestation_transcript P ?a) (residual P key cs (at_total ?a)) (rc_proof r)"
    by (simp add: reconcile_check_def Let_def)
  then have "val (residual P key cs (at_total ?a)) = 0"
    using laws by (auto simp: reconcile_laws_def dest: val_zero_opening)
  then show "val (sum_list cs) = of_nat (unat (at_total ?a))"
    using laws unfolding residual_def aggregate_sum reconcile_laws_def
    by (metis eq_iff_diff_eq_0 mult.right_neutral scalar_u64_def val_diff val_g val_smul)
  from ok show "case registrar of None \<Rightarrow> at_signature ?a = None
       | Some k \<Rightarrow> \<exists>s. at_signature ?a = Some s \<and> hybrid_verify P Attestation k (attestation_body P ?a) s"
    by (auto simp: reconcile_check_def Let_def split: option.splits)
qed

lemma plain_reconcile_laws: "64 \<le> n \<Longrightarrow> reconcile_laws plain plain_key (\<lambda>x. x) n"
  by (simp add: reconcile_laws_def plain_laws)

definition demo_attestation :: attestation where
  "demo_attestation = \<lparr>at_register = lit ''r'', at_account = lit ''a'', at_asset = lit ''x'', at_total = 12,
     at_as_of = lit ''d'', at_signature = None\<rparr>"

theorem reconciles_iff_total_witness:
  "\<exists>r. reconcile_prove plain plain_key (committed plain plain_key [5, 7] [1, 2]) [1, 2] demo_attestation = Ok r \<and>
    reconcile_check plain plain_key (committed plain plain_key [5, 7] [1, 2]) r None = Ok ()"
proof -
  have "length [5, 7 :: u64] = length [1, 2 :: int] \<and> units [5, 7] < 2 ^ 64 \<and>
    (case (None, at_signature demo_attestation) of
      (Some k, Some s) \<Rightarrow> hybrid_verify plain Attestation k (attestation_body plain demo_attestation) s
      | (None, None) \<Rightarrow> True | _ \<Rightarrow> False)"
    by (simp add: units_def demo_attestation_def)
  then obtain r where "reconcile_prove plain plain_key (committed plain plain_key [5, 7] [1, 2]) [1, 2] demo_attestation = Ok r"
    "reconcile_check plain plain_key (committed plain plain_key [5, 7] [1, 2]) r None = Ok () \<longleftrightarrow>
      units [5, 7] = unat (at_total demo_attestation)"
    using reconciles_iff_total [OF plain_reconcile_laws [of 64], THEN conjunct1, rule_format] by blast
  then show ?thesis by (simp add: units_def demo_attestation_def)
qed



end
