(* ===== verification/Register.thy ===== *)
theory Register
  imports Reconcile
begin

text \<open>
  What a register sends and what is done with it, \<open>rust/defmi/src/register.rs\<close>: the
  position file and its parser, the two kinds of register, and the run that reconciles a
  ledger with one. An error keeps what its message prints. A row count is a \<open>u64\<close>, as
  \<open>usize\<close> is on the machines the program is built for.
\<close>

section \<open>Statements\<close>

record register_statement =
  st_register :: str
  st_account :: str
  st_asset :: str
  st_as_of :: str
  st_positions :: "(str \<times> u64) list"

definition checked_total :: "register_statement \<Rightarrow> u64 option" where
  "checked_total st = foldl (\<lambda>acc p. Option.bind acc (\<lambda>a. checked_add a (snd p))) (Some 0) (st_positions st)"

definition statement_total :: "register_statement \<Rightarrow> u64" where
  "statement_total st = (case checked_total st of Some t \<Rightarrow> t | None \<Rightarrow> u64_max)"

definition statement_attestation :: "register_statement \<Rightarrow> signature option \<Rightarrow> attestation" where
  "statement_attestation st signature = \<lparr>at_register = st_register st, at_account = st_account st,
     at_asset = st_asset st, at_total = statement_total st, at_as_of = st_as_of st, at_signature = signature\<rparr>"

definition signed_by ::
  "('p, 's) prims \<Rightarrow> (key_purpose \<Rightarrow> bytes \<Rightarrow> signature option) \<Rightarrow> register_statement \<Rightarrow> attestation option" where
  "signed_by P sign st = (let bare = statement_attestation st None in
     map_option (\<lambda>s. statement_attestation st (Some s)) (sign Attestation (attestation_body P bare)))"

definition quantities :: "register_statement \<Rightarrow> u64 list" where
  "quantities st = map snd (st_positions st)"

definition statement_handles :: "register_statement \<Rightarrow> str list" where
  "statement_handles st = map fst (st_positions st)"

section \<open>The position file\<close>

datatype line_why =
  NoQuantity \<comment> \<open>"no quantity. A register that means zero says zero."\<close>
  | NotAQuantity str
  | NoHandle \<comment> \<open>"no handle"\<close>
  | MoreThanQuantity \<comment> \<open>"others than a handle and a quantity"\<close>

datatype end_why =
  WantedCountAndTotal \<comment> \<open>"wanted a row count and a total"\<close>
  | WantedTotal \<comment> \<open>"wanted a total after the row count"\<close>
  | MoreThanTotal \<comment> \<open>"others than a count and a total"\<close>
  | NotARowCount str
  | NotATotal str
  | RowsAfter \<comment> \<open>"there are rows after it"\<close>
  | NoEndLine \<comment> \<open>"the file does not say how many rows it has .."\<close>
  | DeclaresRows u64 nat \<comment> \<open>"it declares .. row(s) and the file has .."\<close>
  | DoNotFit \<comment> \<open>"the positions do not fit a total"\<close>
  | DeclaresTotal u64 u64 \<comment> \<open>"it declares a total of .. and the rows come to .."\<close>

datatype file_error = EmptyFile | Header nat | Line nat line_why | End end_why

text \<open>The lines the parser looks at: trimmed, neither blank nor a comment.\<close>

definition kept :: "str \<Rightarrow> bool" where
  "kept l \<longleftrightarrow> l \<noteq> [] \<and> hd l \<noteq> hash_sign"

definition file_rows :: "str \<Rightarrow> str list" where
  "file_rows text = filter kept (map trim (lines_of text))"

definition fields_of :: "str \<Rightarrow> str list" where
  "fields_of line = map trim (split_on comma line)"

text \<open>A row is a position or the end line.\<close>

definition parse_row :: "nat \<Rightarrow> str \<Rightarrow> ((str \<times> u64) + (u64 \<times> u64), file_error) result" where
  "parse_row index line = (case fields_of line of
     [] \<Rightarrow> Err (Line (index + 1) NoQuantity)
   | handle # parts \<Rightarrow>
     if handle = lit ''end'' then
       (case parts of
          [] \<Rightarrow> Err (End WantedCountAndTotal)
        | [count] \<Rightarrow> Err (End WantedTotal)
        | count # tot # others \<Rightarrow>
            and_then (ensure (others = []) (End MoreThanTotal)) (\<lambda>_.
            and_then (ok_or (parse_u64 count) (End (NotARowCount count))) (\<lambda>n.
            and_then (ok_or (parse_u64 tot) (End (NotATotal tot))) (\<lambda>t. Ok (Inr (n, t))))))
     else
       (case parts of
          [] \<Rightarrow> Err (Line (index + 1) NoQuantity)
        | quantity # others \<Rightarrow>
            and_then (ok_or (parse_u64 quantity) (Line (index + 1) (NotAQuantity quantity))) (\<lambda>q.
            and_then (ensure (handle \<noteq> []) (Line (index + 1) NoHandle)) (\<lambda>_.
            and_then (ensure (others = []) (Line (index + 1) MoreThanQuantity)) (\<lambda>_. Ok (Inl (handle, q)))))))"

text \<open>The loop over the rows: the positions, what the end line declares, and the rows after it.\<close>

fun parse_rows ::
  "nat \<Rightarrow> str list \<Rightarrow> (str \<times> u64) list
    \<Rightarrow> ((str \<times> u64) list \<times> (u64 \<times> u64) option \<times> str list, file_error) result" where
  "parse_rows index [] positions = Ok (positions, None, [])"
| "parse_rows index (line # rows) positions = (case parse_row index line of
     Err e \<Rightarrow> Err e
   | Ok (Inr declared) \<Rightarrow> Ok (positions, Some declared, rows)
   | Ok (Inl position) \<Rightarrow> parse_rows (index + 1) rows (positions @ [position]))"

definition parse_kept :: "str list \<Rightarrow> (register_statement, file_error) result" where
  "parse_kept rows = (case rows of [] \<Rightarrow> Err EmptyFile | header # rows \<Rightarrow>
     let fields = fields_of header in
     and_then (ensure (length fields = 4) (Header (length fields))) (\<lambda>_.
     and_then (parse_rows 1 rows []) (\<lambda>(positions, declared, rest).
     and_then (ensure (positions \<noteq> []) EmptyFile) (\<lambda>_.
     and_then (ensure (rest = []) (End RowsAfter)) (\<lambda>_.
     and_then (ok_or declared (End NoEndLine)) (\<lambda>(count, tot).
     let st = \<lparr>st_register = fields ! 0, st_account = fields ! 1, st_asset = fields ! 2, st_as_of = fields ! 3,
               st_positions = positions\<rparr> in
     and_then (ensure (length positions = unat count) (End (DeclaresRows count (length positions)))) (\<lambda>_.
     and_then (ok_or (checked_total st) (End DoNotFit)) (\<lambda>found.
     and_then (ensure (found = tot) (End (DeclaresTotal tot found))) (\<lambda>_. Ok st)))))))))"

definition parse_file :: "str \<Rightarrow> (register_statement, file_error) result" where
  "parse_file text = parse_kept (file_rows text)"

section \<open>Registers\<close>

text \<open>The two implementations of the trait \<open>Register\<close>.\<close>

datatype register = FileRegister register_statement "signature option" | TotalOnly register_statement

fun reg_statement :: "register \<Rightarrow> register_statement" where
  "reg_statement (FileRegister st _) = st"
| "reg_statement (TotalOnly st) = st"

fun reg_positions :: "register \<Rightarrow> (str \<times> u64) list option" where
  "reg_positions (FileRegister st _) = Some (st_positions st)"
| "reg_positions (TotalOnly _) = None"

fun reg_signature :: "register \<Rightarrow> signature option" where
  "reg_signature (FileRegister _ s) = s"
| "reg_signature (TotalOnly _) = None"

definition read_register :: "str \<Rightarrow> (register, file_error) result" where
  "read_register text = and_then (parse_file text) (\<lambda>st. Ok (FileRegister st None))"

datatype report_reason =
  NoReason
  | PositionsOffered nat nat \<comment> \<open>"the register lists .. position(s) and the ledger offered .."\<close>
  | Refused reconcile_error
  | OffsettingPositions \<comment> \<open>"the totals agree and the positions do not .."\<close>
  | RegistersOwnTotal report_reason \<comment> \<open>".., and yet every position holds what the register says .."\<close>

record report =
  rp_register :: str
  rp_account :: str
  rp_asset :: str
  rp_as_of :: str
  rp_positions :: nat
  rp_register_total :: u64
  rp_agrees :: bool
  rp_reason :: report_reason
  rp_broken :: "(str \<times> u64) list"
  rp_search :: "break_search option"
  rp_reconciliation :: "reconciliation option"

definition empty_report :: "register_statement \<Rightarrow> report" where
  "empty_report st = \<lparr>rp_register = st_register st, rp_account = st_account st, rp_asset = st_asset st,
     rp_as_of = st_as_of st, rp_positions = length (st_positions st), rp_register_total = statement_total st,
     rp_agrees = False, rp_reason = NoReason, rp_broken = [], rp_search = None, rp_reconciliation = None\<rparr>"

definition register_run ::
  "('p::ab_group_add, 's::comm_ring_1) prims \<Rightarrow> 'p pedersen \<Rightarrow> register \<Rightarrow> 'p list \<Rightarrow> 's list \<Rightarrow> bytes option
    \<Rightarrow> (nat \<Rightarrow> 's) \<Rightarrow> report" where
  "register_run P key register commitments blindings registrar random = (
     let st = reg_statement register;
         attestation = statement_attestation st (reg_signature register);
         report = empty_report st in
     if length commitments \<noteq> length (st_positions st)
     then report\<lparr>rp_reason := PositionsOffered (length (st_positions st)) (length commitments)\<rparr>
     else case reconcile_prove P key commitments blindings attestation of
       Err why \<Rightarrow> report\<lparr>rp_reason := Refused why\<rparr>
     | Ok reconciliation \<Rightarrow>
       let totals_agree = reconcile_check P key commitments reconciliation registrar;
           broken = map_option (\<lambda>p. check_positions P key commitments blindings (map snd p) random)
             (reg_positions register) in
       if is_ok totals_agree \<and> (broken = None \<or> broken = Some [])
       then report\<lparr>rp_agrees := True, rp_reconciliation := Some reconciliation\<rparr>
       else
         let reason = (case totals_agree of Ok _ \<Rightarrow> OffsettingPositions | Err why \<Rightarrow> Refused why);
             report = report\<lparr>rp_reason := reason\<rparr> in
         case (reg_positions register, broken) of
           (Some positions, Some broken) \<Rightarrow>
             let report = report\<lparr>rp_broken := map (\<lambda>i. positions ! i) broken\<rparr> in
             if rp_broken report = [] then report\<lparr>rp_reason := RegistersOwnTotal reason\<rparr> else report
         | _ \<Rightarrow> report)"

definition localise ::
  "('p::ab_group_add, 's::comm_ring_1) prims \<Rightarrow> 'p pedersen \<Rightarrow> 'p list \<Rightarrow> 's list
    \<Rightarrow> (nat \<times> nat \<rightharpoonup> u64) \<Rightarrow> u64 \<Rightarrow> (break_search, reconcile_error) result option" where
  "localise P key commitments blindings subtotals expected =
     locate_break P key commitments blindings (\<lambda>low high. subtotals (low, high)) expected"

section \<open>Totals\<close>

lemma checked_total_Some:
  "checked_total st = Some t \<longleftrightarrow> units (quantities st) = unat t"
proof -
  have none: "foldl (\<lambda>acc p. Option.bind acc (\<lambda>a. checked_add a (snd p))) None ps = None"
    for ps :: "(str \<times> u64) list"
    by (induction ps) simp_all
  have "foldl (\<lambda>acc p. Option.bind acc (\<lambda>a. checked_add a (snd p))) (Some a) ps = Some t \<longleftrightarrow>
      unat a + units (map snd ps) = unat t" for a and ps :: "(str \<times> u64) list"
  proof (induction ps arbitrary: a)
    case Nil
    show ?case by (auto simp: units_def word_unat_eq_iff)
  next
    case (Cons p ps)
    show ?case
    proof (cases "checked_add a (snd p)")
      case None
      then have "2 ^ 64 \<le> unat a + unat (snd p)" by (simp add: checked_simps)
      with None none unat_bound [of t] show ?thesis by (simp add: units_def)
    next
      case (Some b)
      then have "unat b = unat a + unat (snd p)" by (simp add: checked_simps)
      with Some Cons [of b] show ?thesis by (simp add: units_def add.assoc)
    qed
  qed
  from this [of 0] show ?thesis by (simp add: checked_total_def quantities_def)
qed

section \<open>The rows of a cut file\<close>

lemma trim_strip_cr: "trim (strip_cr s) = trim s"
proof (cases s rule: rev_cases)
  case (snoc xs x)
  have ws: "is_whitespace 13" by (simp add: is_whitespace_def)
  have "trim (xs @ [13]) = trim xs"
  proof (cases "\<forall>c \<in> set xs. is_whitespace c")
    case True
    with ws show ?thesis by (auto simp: trim_def dest: set_dropWhileD)
  next
    case False
    with ws show ?thesis by (auto simp: trim_def dropWhile_append1)
  qed
  with snoc show ?thesis by (auto simp: strip_cr_def)
qed (simp add: strip_cr_def)

lemma file_rows_split: "file_rows text = filter kept (map trim (split_on newline text))"
proof -
  obtain ps p where ps: "split_on newline text = ps @ [p]"
    by (metis append_butlast_last_id split_on_not_Nil)
  show ?thesis
    by (simp add: file_rows_def lines_of_def ps Let_def trim_strip_cr comp_def)
      (simp add: kept_def trim_def)
qed

lemma file_rows_prefix:
  obtains k where "k \<le> length (file_rows (s @ t))" "file_rows s = take k (file_rows (s @ t))"
  | k l where "k < length (file_rows (s @ t))" "file_rows s = take k (file_rows (s @ t)) @ [l]"
      "count_list l comma \<le> count_list (file_rows (s @ t) ! k) comma"
proof -
  let ?row = "\<lambda>x. filter kept [trim x]"
  obtain ps x where ps: "split_on newline s = ps @ [x]"
    by (metis append_butlast_last_id split_on_not_Nil)
  obtain y qs where qs: "split_on newline t = y # qs"
    by (metis list.exhaust split_on_not_Nil)
  define R where "R = filter kept (map trim ps)"
  define T where "T = filter kept (map trim qs)"
  have s: "file_rows s = R @ ?row x" and st: "file_rows (s @ t) = R @ ?row (x @ y) @ T"
    by (simp_all add: file_rows_split ps qs split_on_append R_def T_def)
  show ?thesis
  proof (cases "kept (trim x)")
    case False
    with s st have "length R \<le> length (file_rows (s @ t))" "file_rows s = take (length R) (file_rows (s @ t))"
      by simp_all
    then show ?thesis by (rule that(1))
  next
    case True
    then have "trim (x @ y) \<noteq> []" "hd (trim (x @ y)) = hd (trim x)"
      using trim_append_hd [of x y] by (auto simp: kept_def)
    with True have "kept (trim (x @ y))" by (simp add: kept_def)
    then have "length R < length (file_rows (s @ t))" "file_rows (s @ t) ! length R = trim (x @ y)"
      "file_rows s = take (length R) (file_rows (s @ t)) @ [trim x]"
      using True s st by (simp_all add: nth_append)
    moreover have "count_list (trim x) comma \<le> count_list (trim (x @ y)) comma"
      by (simp add: count_trim)
    ultimately show ?thesis using that(2) by metis
  qed
qed

section \<open>What the parser accepted\<close>

lemma length_fields_of: "length (fields_of l) = Suc (count_list l comma)"
  by (simp add: fields_of_def length_split_on)

lemma fields_of_not_Nil [simp]: "fields_of l \<noteq> []"
  by (simp add: fields_of_def)

text \<open>A position has one comma, the end line two; the index only goes into messages.\<close>

lemma parse_row_position: "parse_row i l = Ok (Inl p) \<Longrightarrow> count_list l comma = 1"
  using length_fields_of [of l]
  by (auto simp: parse_row_def split: list.splits if_splits)

lemma parse_row_end: "parse_row i l = Ok (Inr d) \<Longrightarrow> count_list l comma = 2"
  using length_fields_of [of l]
  by (auto simp: parse_row_def split: list.splits if_splits)

lemma parse_row_index: "parse_row i l = Ok r \<Longrightarrow> parse_row j l = Ok r"
  by (auto simp: parse_row_def split: list.splits if_splits)

lemma parse_rows_positions:
  "list_all2 (\<lambda>l p. parse_row 0 l = Ok (Inl p)) ls ps \<Longrightarrow>
    parse_rows i (ls @ rest) acc = parse_rows (i + length ls) rest (acc @ ps)"
proof (induction arbitrary: i acc rule: list_all2_induct)
  case (Cons l ls p ps)
  then show ?case using parse_row_index [of 0 l "Inl p" i] by simp
qed simp

lemma parse_rowsD:
  assumes "parse_rows i ls acc = Ok (ps, Some d, rest)"
  shows "\<exists>body e new. ls = body @ e # rest \<and> ps = acc @ new \<and>
    list_all2 (\<lambda>l p. parse_row 0 l = Ok (Inl p)) body new \<and> parse_row 0 e = Ok (Inr d)"
  using assms
proof (induction i ls acc rule: parse_rows.induct)
  case (2 i l ls acc)
  show ?case
  proof (cases "parse_row i l")
    case (Ok r)
    then have r: "parse_row 0 l = Ok r" by (rule parse_row_index)
    show ?thesis
    proof (cases r)
      case (Inl p)
      have "parse_rows (i + 1) ls (acc @ [p]) = Ok (ps, Some d, rest)" using "2.prems" Ok Inl by simp
      from "2.IH" [OF Ok Inl this] obtain body e new where "ls = body @ e # rest" "ps = (acc @ [p]) @ new"
        "list_all2 (\<lambda>l p. parse_row 0 l = Ok (Inl p)) body new" "parse_row 0 e = Ok (Inr d)" by blast
      with r Inl show ?thesis
        by (intro exI [of _ "l # body"] exI [of _ e] exI [of _ "p # new"]) simp
    next
      case (Inr d')
      with "2.prems" Ok r show ?thesis
        by (intro exI [of _ "[]"] exI [of _ l]) auto
    qed
  qed (use "2.prems" in simp)
qed simp

lemma parse_keptD:
  assumes "parse_kept rows = Ok st"
  obtains header body e count where "rows = header # body @ [e]"
    "list_all2 (\<lambda>l p. parse_row 0 l = Ok (Inl p)) body (st_positions st)"
    "parse_row 0 e = Ok (Inr (count, statement_total st))" "st_positions st \<noteq> []"
    "length (st_positions st) = unat count" "checked_total st = Some (statement_total st)"
    "fields_of header = [st_register st, st_account st, st_asset st, st_as_of st]"
proof -
  from assms obtain header ls where rows: "rows = header # ls"
    by (auto simp: parse_kept_def split: list.splits)
  note p = assms [unfolded rows parse_kept_def list.case Let_def and_then_Ok ensure_Ok]
  then obtain r where f: "length (fields_of header) = 4" and r: "parse_rows 1 ls [] = Ok r" by blast
  obtain ps d rest where "r = (ps, d, rest)" by (cases r)
  with p r obtain count t where ne: "ps \<noteq> []" and p: "parse_rows 1 ls [] = Ok (ps, Some (count, t), [])"
    and st: "st = \<lparr>st_register = fields_of header ! 0, st_account = fields_of header ! 1,
      st_asset = fields_of header ! 2, st_as_of = fields_of header ! 3, st_positions = ps\<rparr>"
    and c: "length ps = unat count" "checked_total st = Some t"
    by (clarsimp simp only: ok_or_Ok and_then_Ok ensure_Ok result.inject prod.case) blast
  from f obtain x y z w where h: "fields_of header = [x, y, z, w]"
    by (auto simp: length_Suc_conv eval_nat_numeral)
  obtain body e where body: "ls = body @ [e]" "list_all2 (\<lambda>l p. parse_row 0 l = Ok (Inl p)) body ps"
    "parse_row 0 e = Ok (Inr (count, t))"
    using parse_rowsD [OF p] by auto
  have t: "statement_total st = t" and ps: "st_positions st = ps"
    using c by (simp_all add: statement_total_def st)
  show ?thesis
    by (rule that [of header body e count], unfold t ps) (simp_all add: rows body ne c, simp_all add: st h)
qed

section \<open>Writing a statement\<close>

text \<open>The format the module describes: a header, a row per position, the end line.\<close>

definition render_header :: "register_statement \<Rightarrow> str" where
  "render_header st = st_register st @ comma # st_account st @ comma # st_asset st @ comma # st_as_of st"

definition render_row :: "str \<times> u64 \<Rightarrow> str" where
  "render_row p = fst p @ comma # show_nat (unat (snd p))"

definition render_end :: "register_statement \<Rightarrow> str" where
  "render_end st = lit ''end'' @ comma # show_nat (length (st_positions st)) @ comma #
     show_nat (unat (statement_total st))"

definition render_statement :: "register_statement \<Rightarrow> str" where
  "render_statement st = concat (map (\<lambda>l. l @ [newline])
     (render_header st # map render_row (st_positions st) @ [render_end st]))"

text \<open>What the format can carry.\<close>

definition plain_field :: "str \<Rightarrow> bool" where
  "plain_field f \<longleftrightarrow> comma \<notin> set f \<and> newline \<notin> set f \<and> trim f = f"

definition plain_handle :: "str \<Rightarrow> bool" where
  "plain_handle h \<longleftrightarrow> plain_field h \<and> kept h \<and> h \<noteq> lit ''end''"

definition writable :: "register_statement \<Rightarrow> bool" where
  "writable st \<longleftrightarrow> list_all plain_field [st_register st, st_account st, st_asset st, st_as_of st] \<and>
     (st_register st \<noteq> [] \<longrightarrow> kept (st_register st)) \<and> st_positions st \<noteq> [] \<and>
     list_all plain_handle (map fst (st_positions st)) \<and> length (st_positions st) < 2 ^ 64 \<and>
     checked_total st \<noteq> None"

lemma trim_idD: "trim s = s \<Longrightarrow> s \<noteq> [] \<Longrightarrow> \<not> is_whitespace (hd s) \<and> \<not> is_whitespace (last s)"
proof -
  assume a: "trim s = s" "s \<noteq> []"
  then have "s = rev (dropWhile is_whitespace (rev (dropWhile is_whitespace s)))" by (simp add: trim_def)
  then obtain d where "s = rev (dropWhile is_whitespace d)" by blast
  with a show ?thesis by (metis hd_dropWhile hd_trim last_rev rev_is_Nil_conv)
qed

lemma trim_comma: "trim a = a \<Longrightarrow> trim z = z \<Longrightarrow> trim (a @ comma # z) = a @ comma # z"
proof (rule trim_id, intro disjI2 conjI)
  assume "trim a = a" "trim z = z"
  then show "\<not> is_whitespace (hd (a @ comma # z))" "\<not> is_whitespace (last (a @ comma # z))"
    using trim_idD [of a] trim_idD [of z] by (simp_all add: hd_append last_append)
qed

lemma fields_comma: "comma \<notin> set a \<Longrightarrow> trim a = a \<Longrightarrow> fields_of (a @ comma # z) = a # fields_of z"
  by (simp add: fields_of_def split_on_append_sep)

lemma fields_last: "comma \<notin> set a \<Longrightarrow> trim a = a \<Longrightarrow> fields_of a = [a]"
  by (simp add: fields_of_def split_on_single)

lemma file_rows_lines:
  "\<forall>l \<in> set ls. newline \<notin> set l \<and> trim l = l \<and> kept l \<Longrightarrow> file_rows (concat (map (\<lambda>l. l @ [newline]) ls)) = ls"
proof (induction ls)
  case Nil
  show ?case by (simp add: file_rows_split trim_def kept_def)
next
  case (Cons l ls)
  then show ?case by (simp add: file_rows_split split_on_append_sep)
qed

lemma lit_end: "lit ''end'' = [101, 110, 100]"
  by (simp add: lit_def)

lemma parse_render_row: "plain_handle (fst p) \<Longrightarrow> parse_row 0 (render_row p) = Ok (Inl p)"
  by (simp add: plain_handle_def plain_field_def parse_row_def render_row_def fields_comma fields_last parse_show kept_def)

lemma trim_end: "trim (lit ''end'') = lit ''end''"
  by (rule trim_id) (simp add: lit_end is_whitespace_def)

lemma end_no_sep [simp]: "comma \<notin> set (lit ''end'')" "newline \<notin> set (lit ''end'')"
  by (simp_all add: lit_end)

lemma parse_render_end:
  assumes "length (st_positions st) < 2 ^ 64"
  shows "parse_row i (render_end st) = Ok (Inr (of_nat (length (st_positions st)), statement_total st))"
proof -
  have "parse_u64 (show_nat (length (st_positions st))) = Some (of_nat (length (st_positions st)))"
    using assms parse_show [of "of_nat (length (st_positions st))"] by (simp add: unat_of_nat)
  moreover have "fields_of (render_end st) =
      [lit ''end'', show_nat (length (st_positions st)), show_nat (unat (statement_total st))]"
    by (simp add: render_end_def fields_comma fields_last trim_end)
  ultimately show ?thesis by (simp add: parse_row_def parse_show)
qed

lemma render_rows:
  assumes "writable st"
  shows "file_rows (render_statement st) = render_header st # map render_row (st_positions st) @ [render_end st]"
  unfolding render_statement_def
proof (rule file_rows_lines, rule ballI)
  fix l
  assume "l \<in> set (render_header st # map render_row (st_positions st) @ [render_end st])"
  then consider "l = render_header st" | p where "p \<in> set (st_positions st)" "l = render_row p" | "l = render_end st"
    by auto
  then show "newline \<notin> set l \<and> trim l = l \<and> kept l"
  proof cases
    case 1
    with assms have "newline \<notin> set l" "trim l = l"
      by (auto simp: writable_def plain_field_def render_header_def intro!: trim_comma)
    moreover from 1 assms have "kept l"
      by (cases "st_register st") (auto simp: writable_def render_header_def kept_def)
    ultimately show ?thesis by simp
  next
    case 2
    with assms have "plain_handle (fst p)" by (auto simp: writable_def list_all_iff)
    then have "newline \<notin> set (render_row p)" "trim (render_row p) = render_row p" "kept (render_row p)"
      by (auto simp: plain_handle_def plain_field_def render_row_def kept_def intro!: trim_comma)
    with 2 show ?thesis by simp
  next
    case 3
    then have "newline \<notin> set l" "trim l = l"
      by (auto simp: render_end_def trim_end intro!: trim_comma)
    moreover from 3 have "kept l" by (simp add: render_end_def kept_def lit_end)
    ultimately show ?thesis by simp
  qed
qed

lemma parse_kept_rendered:
  assumes "writable st"
  shows "parse_kept (render_header st # map render_row (st_positions st) @ [render_end st]) = Ok st"
proof -
  note w = assms [unfolded writable_def]
  have f: "fields_of (render_header st) = [st_register st, st_account st, st_asset st, st_as_of st]"
    using w by (simp add: render_header_def plain_field_def fields_comma fields_last)
  have "list_all2 (\<lambda>l p. parse_row 0 l = Ok (Inl p)) (map render_row (st_positions st)) (st_positions st)"
    using w by (simp add: list_all2_conv_all_nth list_all_length parse_render_row)
  then have p: "parse_rows 1 (map render_row (st_positions st) @ [render_end st]) [] =
      Ok (st_positions st, Some (of_nat (length (st_positions st)), statement_total st), [])"
    using w by (simp add: parse_rows_positions parse_render_end)
  have t: "checked_total st = Some (statement_total st)"
    using w by (auto simp: statement_total_def)
  have eta: "\<lparr>st_register = st_register st, st_account = st_account st, st_asset = st_asset st,
      st_as_of = st_as_of st, st_positions = st_positions st\<rparr> = st" by simp
  with w t show ?thesis
    unfolding parse_kept_def list.case f Let_def p
    by (simp add: unat_of_nat eta)
qed

lemma length_file_rows: "length (file_rows s) \<le> Suc (count_list s newline)"
  by (metis file_rows_split length_filter_le length_map length_split_on)

section \<open>Properties\<close>

text \<open>
  C29: a written statement reads back. If no field has a comma, a line break or blanks
  around it, no handle is empty, a comment or \<open>end\<close>, and the quantities fit a total, then
  the parser returns exactly the statement, positions in their order.
\<close>

theorem parse_render:
  assumes "writable st"
  shows "parse_file (render_statement st) = Ok st"
  using assms by (simp add: parse_file_def render_rows parse_kept_rendered)

definition demo_statement :: register_statement where
  "demo_statement = \<lparr>st_register = lit ''JASDEC'', st_account = lit ''a1'', st_asset = lit ''JP36'',
     st_as_of = lit ''2026-08-22'', st_positions = [(lit ''p0'', 1200), (lit ''p1'', 4500)]\<rparr>"

theorem parse_render_witness: "parse_file (render_statement demo_statement) = Ok demo_statement"
proof -
  have "checked_total demo_statement = Some 5700"
    by (simp add: checked_total_Some quantities_def demo_statement_def units_def)
  then have "writable demo_statement"
    by (simp add: writable_def demo_statement_def plain_field_def plain_handle_def kept_def lit_def trim_def
        is_whitespace_def)
  then show ?thesis by (rule parse_render)
qed

lemma positions_unique:
  assumes "list_all2 (\<lambda>l p. parse_row 0 l = Ok (Inl p)) ls ps" "list_all2 (\<lambda>l p. parse_row 0 l = Ok (Inl p)) ls qs"
  shows "ps = qs"
proof (rule nth_equalityI)
  show "length ps = length qs" using assms by (simp add: list_all2_conv_all_nth)
  fix i
  assume "i < length ps"
  with assms have "parse_row 0 (ls ! i) = Ok (Inl (ps ! i))" "parse_row 0 (ls ! i) = Ok (Inl (qs ! i))"
    by (simp_all add: list_all2_conv_all_nth)
  then show "ps ! i = qs ! i" by simp
qed

text \<open>
  C28: a file that lost its end never reads as another statement. If a file parses, then
  what is left of it after cutting any number of characters off its end is refused, or
  reads as the same statement; and if a row was lost it is refused.
\<close>

theorem truncation_detected:
  assumes full: "parse_file (front @ lost) = Ok st"
  shows "(\<forall>st'. parse_file front = Ok st' \<longrightarrow> st' = st) \<and>
    (length (file_rows front) < length (file_rows (front @ lost)) \<longrightarrow> \<not> is_ok (parse_file front))"
proof -
  let ?F = "file_rows (front @ lost)" and ?K = "file_rows front"
  obtain h body e c where F: "?F = h # body @ [e]"
    and body: "list_all2 (\<lambda>l p. parse_row 0 l = Ok (Inl p)) body (st_positions st)"
    and hdr: "fields_of h = [st_register st, st_account st, st_asset st, st_as_of st]"
    using full unfolding parse_file_def by (rule parse_keptD)
  have row: "count_list (?F ! Suc i) comma = 1 \<and> (\<exists>p. parse_row 0 (?F ! Suc i) = Ok (Inl p))" if "i < length body" for i
    using body that parse_row_position by (fastforce simp: F nth_append list_all2_conv_all_nth)
  have main: "st' = st \<and> length ?K = length ?F" if ok: "parse_file front = Ok st'" for st'
  proof -
    obtain h' body' e' c' where K: "?K = h' # body' @ [e']"
      and body': "list_all2 (\<lambda>l p. parse_row 0 l = Ok (Inl p)) body' (st_positions st')"
      and e': "parse_row 0 e' = Ok (Inr (c', statement_total st'))"
      and hdr': "fields_of h' = [st_register st', st_account st', st_asset st', st_as_of st']"
      using ok unfolding parse_file_def by (rule parse_keptD)
    have "\<exists>l. ?K = h # body @ [l]"
    proof (cases rule: file_rows_prefix [of front lost])
      case (1 k)
      have "\<not> length body' < length body"
      proof
        assume "length body' < length body"
        then have "?F ! Suc (length body') = e'"
          using 1 K by (metis append_is_Nil_conv length_append_singleton length_Cons lessI nth_Cons_Suc
              nth_append_length nth_take length_take min.absorb2)
        with row [OF \<open>length body' < length body\<close>] e' show False by auto
      qed
      moreover from 1 have "k = length ?K" by simp
      ultimately have "k = length ?F" using 1(1) by (simp add: K F)
      with 1(2) show ?thesis by (simp add: F)
    next
      case (2 k l)
      then have k: "k = Suc (length body')" "l = e'"
        using arg_cong [OF 2(2), of length] arg_cong [OF 2(2), of last] by (simp_all add: K)
      have "\<not> length body' < length body"
        using row [of "length body'"] 2(3) parse_row_end [OF e'] by (auto simp: k)
      with 2(1) have "k = Suc (length body)" by (simp add: F k)
      with 2(2) show ?thesis by (simp add: F)
    qed
    then have "h' = h" "body' = body" by (auto simp: K)
    with body body' hdr hdr' have "st' = st"
      by (cases st; cases st') (simp, blast dest: positions_unique)
    then show ?thesis using \<open>body' = body\<close> by (simp add: K F)
  qed
  then show ?thesis by (auto simp: is_ok_iff)
qed

theorem truncation_detected_witness:
  "\<not> is_ok (parse_file (render_header demo_statement @ [newline] @ render_row (lit ''p0'', 1200)))"
proof -
  define front where "front = render_header demo_statement @ [newline] @ render_row (lit ''p0'', 1200)"
  define lost where "lost = [newline] @ render_row (lit ''p1'', 4500) @ [newline] @ render_end demo_statement @ [newline]"
  have "checked_total demo_statement = Some 5700"
    by (simp add: checked_total_Some quantities_def demo_statement_def units_def)
  then have w: "writable demo_statement"
    by (simp add: writable_def demo_statement_def plain_field_def plain_handle_def kept_def lit_def trim_def
        is_whitespace_def)
  have cut: "front @ lost = render_statement demo_statement"
    by (simp add: front_def lost_def render_statement_def demo_statement_def)
  have "length (file_rows (front @ lost)) = 4" unfolding cut render_rows [OF w] by (simp add: demo_statement_def)
  moreover have "count_list front newline = 1"
    by (simp add: front_def render_header_def render_row_def demo_statement_def lit_def count_list_0_iff)
  then have "length (file_rows front) \<le> 2" using length_file_rows [of front] by simp
  moreover have "parse_file (front @ lost) = Ok demo_statement"
    unfolding cut parse_file_def render_rows [OF w] by (rule parse_kept_rendered [OF w])
  ultimately show ?thesis using truncation_detected [of front lost demo_statement] by (simp add: front_def)
qed

section \<open>What a run reports\<close>

definition differing :: "u64 list \<Rightarrow> u64 list \<Rightarrow> nat list" where
  "differing vs es = filter (\<lambda>i. vs ! i \<noteq> es ! i) [0..<length vs]"

text \<open>The weighted sum of the differences, which the batched check compares with zero.\<close>

definition weighted_gap :: "'s::comm_ring_1 list \<Rightarrow> u64 list \<Rightarrow> u64 list \<Rightarrow> 's" where
  "weighted_gap ws vs es = sum_list (map2 (\<lambda>w v. w * scalar_u64 v) ws vs) - sum_list (map2 (\<lambda>w v. w * scalar_u64 v) ws es)"

lemma sum_weighted:
  assumes "scalar_module P" "pedersen_commits P" "length ws = length vs" "length vs = length rs"
  shows "sum_list (map2 (smul P) ws (committed P key vs rs)) =
    smul P (sum_list (map2 (\<lambda>w v. w * scalar_u64 v) ws vs)) (ped_g key) +
    smul P (sum_list (map2 (\<lambda>w r. w * r) ws rs)) (ped_h key)"
  using assms(3,4)
proof (induction ws vs rs rule: list_induct3)
  case Nil
  show ?case by (simp add: committed_def smul_zero [OF assms(1)])
next
  case (Cons w ws v vs r rs)
  have "smul P w (commit_u64 P key v r) = smul P (w * scalar_u64 v) (ped_g key) + smul P (w * r) (ped_h key)"
    using assms(1,2) by (simp add: commit_u64_def pedersen_commits_def smul_add_right smul_mult)
  with Cons show ?case
    by (simp add: committed_def smul_add [OF assms(1)])
qed

lemma positions_agree_iff:
  assumes laws: "reconcile_laws P key val n" and len: "length vs = length rs" "length es = length vs"
  shows "positions_agree P key (committed P key vs rs) rs es random \<longleftrightarrow>
    weighted_gap (map random [0..<length vs]) vs es = 0"
proof -
  note l = laws [unfolded reconcile_laws_def]
  let ?ws = "map random [0..<length vs]"
  let ?sum = "\<lambda>vs. sum_list (map2 (\<lambda>w v. w * scalar_u64 v) ?ws vs)"
  have "positions_agree P key (committed P key vs rs) rs es random \<longleftrightarrow>
      smul P (?sum vs) (ped_g key) = smul P (?sum es) (ped_g key)"
    using sum_weighted [of P ?ws vs rs key] l len by (simp add: positions_agree_def Let_def)
  also have "\<dots> \<longleftrightarrow> ?sum vs = ?sum es"
  proof
    assume "smul P (?sum vs) (ped_g key) = smul P (?sum es) (ped_g key)"
    then have "val (smul P (?sum vs) (ped_g key)) = val (smul P (?sum es) (ped_g key))" by (rule arg_cong)
    with l show "?sum vs = ?sum es"
      by (simp only: val_smul [of P key] val_g [of P key] mult_1_right)
  qed (rule arg_cong)
  also have "\<dots> \<longleftrightarrow> weighted_gap ?ws vs es = 0"
    by (simp only: weighted_gap_def right_minus_eq)
  finally show ?thesis .
qed

lemma commit_u64_inject:
  assumes laws: "reconcile_laws P key val n"
  shows "commit_u64 P key v r = commit_u64 P key w r \<longleftrightarrow> v = w"
proof
  note l = laws [unfolded reconcile_laws_def]
  have read: "val (commit_u64 P key x r) = of_nat (unat x)" for x
    using l by (simp add: commit_u64_def pedersen_commits_def val_add [of P key] val_smul [of P key] val_g [of P key]
        val_h [of P key] scalar_u64_def)
  assume "commit_u64 P key v r = commit_u64 P key w r"
  then have "(of_nat (unat v) :: 'b) = of_nat (unat w)" by (metis read)
  moreover have "unat x < 2 ^ n" for x :: u64
  proof -
    have "(2 :: nat) ^ 64 \<le> 2 ^ n" using l by (intro power_increasing) simp_all
    then show ?thesis using unat_bound [of x] by simp
  qed
  ultimately have "unat v = unat w" using l wide_scalarsD by blast
  then show "v = w" by (simp only: word_unat_eq_iff)
qed simp

lemma enumerate_nth: "enumerate 0 xs = map (\<lambda>i. (i, xs ! i)) [0..<length xs]"
  by (rule nth_equalityI) (simp_all add: nth_enumerate_eq)

lemma check_positions_eq:
  assumes laws: "reconcile_laws P key val n" and len: "length vs = length rs" "length es = length vs"
  shows "check_positions P key (committed P key vs rs) rs es random =
    (if weighted_gap (map random [0..<length vs]) vs es = 0 then [] else differing vs es)"
proof -
  have "map fst (filter (\<lambda>(i, (c, r), v). commit_u64 P key v r \<noteq> c) (enumerate 0 (zip (zip (committed P key vs rs) rs) es)))
      = filter (\<lambda>i. commit_u64 P key (es ! i) (rs ! i) \<noteq> commit_u64 P key (vs ! i) (rs ! i)) [0..<length vs]"
    using len by (simp add: enumerate_nth filter_map comp_def committed_def) (rule filter_cong; simp)
  then show ?thesis
    by (auto simp: check_positions_def positions_agree_iff [OF laws len] differing_def commit_u64_inject [OF laws]
        intro!: filter_cong)
qed

lemma weighted_gap_refl: "weighted_gap ws vs vs = 0"
  by (simp add: weighted_gap_def)

lemma differing_Nil: "length es = length vs \<Longrightarrow> differing vs es = [] \<longleftrightarrow> vs = es"
  by (subst list_eq_iff_nth_eq) (auto simp: differing_def filter_empty_conv)

lemma register_run_file:
  assumes "length cs = length (st_positions st)"
    and "reconcile_prove P key cs rs (statement_attestation st s) = Ok r"
  shows "rp_agrees (register_run P key (FileRegister st s) cs rs registrar random) \<longleftrightarrow>
      is_ok (reconcile_check P key cs r registrar) \<and> check_positions P key cs rs (quantities st) random = []"
    and "\<not> rp_agrees (register_run P key (FileRegister st s) cs rs registrar random) \<Longrightarrow>
      rp_broken (register_run P key (FileRegister st s) cs rs registrar random) =
      map (\<lambda>i. st_positions st ! i) (check_positions P key cs rs (quantities st) random)"
  using assms by (simp_all add: register_run_def Let_def empty_report_def quantities_def split: if_splits)

lemma register_run_total:
  assumes "length cs = length (st_positions st)"
    and "reconcile_prove P key cs rs (statement_attestation st None) = Ok r"
  shows "rp_agrees (register_run P key (TotalOnly st) cs rs registrar random) \<longleftrightarrow>
      is_ok (reconcile_check P key cs r registrar)"
  using assms by (simp add: register_run_def Let_def empty_report_def)

text \<open>
  what a run reports. Against a register that sends positions, a ledger that holds at
  every position what the register says agrees; one that does not, unless the random weights
  cancel the differences, does not agree, and the report names exactly the positions that
  differ, in order, even when the totals coincide. Against a register that sends a total only, it
  agrees exactly when the balances come to that total.
\<close>

theorem run_reports:
  fixes P :: "('p::ab_group_add, 's::comm_ring_1) prims"
  assumes laws: "reconcile_laws P key val n" and len: "length vs = length rs" "length (st_positions st) = length vs"
    and small: "units vs < 2 ^ n" "units (quantities st) < 2 ^ 64"
  shows "let by_file = register_run P key (FileRegister st None) (committed P key vs rs) rs None random;
         by_total = register_run P key (TotalOnly st) (committed P key vs rs) rs None random in
    (vs = quantities st \<longrightarrow> rp_agrees by_file) \<and>
    (vs \<noteq> quantities st \<and> weighted_gap (map random [0..<length vs]) vs (quantities st) \<noteq> 0 \<longrightarrow>
      \<not> rp_agrees by_file \<and> rp_broken by_file = map (\<lambda>i. st_positions st ! i) (differing vs (quantities st))) \<and>
    (rp_agrees by_total \<longleftrightarrow> units vs = units (quantities st))"
proof -
  let ?cs = "committed P key vs rs"
  have "checked_total st = Some (of_nat (units (quantities st)))"
    using small(2) by (simp add: checked_total_Some unat_of_nat)
  then have tot: "unat (statement_total st) = units (quantities st)"
    using small(2) by (simp add: statement_total_def unat_of_nat)
  obtain r where r: "reconcile_prove P key ?cs rs (statement_attestation st None) = Ok r"
    and ok: "is_ok (reconcile_check P key ?cs r None) \<longleftrightarrow> units vs = units (quantities st)"
    using prove_check [OF laws len(1) small(1), of "statement_attestation st None"] tot
    by (auto simp: statement_attestation_def)
  have q: "length (quantities st) = length vs"
    using len(2) by (simp add: quantities_def)
  have "length ?cs = length (st_positions st)" using len by simp
  note file_run = register_run_file [OF this r, of None random] and total_run = register_run_total [OF this r, of None random]
  show ?thesis
    unfolding Let_def using file_run total_run ok differing_Nil [OF q]
    by (auto simp: check_positions_eq [OF laws len(1) q] weighted_gap_refl)
qed

theorem run_reports_witness:
  "rp_broken (register_run plain plain_key (FileRegister demo_statement None)
      (committed plain plain_key [4500, 1200] [1, 2]) [1, 2] None (\<lambda>i. int i + 1)) =
    [(lit ''p0'', 1200), (lit ''p1'', 4500)]"
proof -
  have "length (st_positions demo_statement) = length [4500, 1200 :: u64]"
    "units (quantities demo_statement) < 2 ^ 64" "[4500, 1200] \<noteq> quantities demo_statement"
    "weighted_gap (map (\<lambda>i. int i + 1) [0..<length [4500, 1200 :: u64]]) [4500, 1200] (quantities demo_statement) \<noteq> 0"
    "map (\<lambda>i. st_positions demo_statement ! i) (differing [4500, 1200] (quantities demo_statement)) =
      [(lit ''p0'', 1200), (lit ''p1'', 4500)]"
    by (simp_all add: demo_statement_def quantities_def units_def weighted_gap_def scalar_u64_def differing_def)
  then show ?thesis
    using run_reports [OF plain_reconcile_laws [of 64], of "[4500, 1200]" "[1, 2]" demo_statement "\<lambda>i. int i + 1"]
    by (simp add: units_def Let_def)
qed

end
