(* ===== verification/Credit.thy ===== *)
theory Credit
  imports Strings Crypto
begin

text \<open>
  Credit lines and the default waterfall, \<open>rust/defmi/src/credit.rs\<close>: a cap backed by
  haircut collateral, a pledge valued at a signed price, the resolution that draws a
  shortfall from the tranches in order, and the book that writes a resolution down once.
  Unchecked \<open>u64\<close> sums wrap, as in the release build the program ships. The drawn scalars
  and batch weights are arguments; \<open>CreditPanic\<close> is an assertion or an index out of range.
\<close>

section \<open>Credit lines\<close>

record 'p credit_line =
  cl_handle :: bytes
  cl_rail :: bytes
  cl_cap_commitment :: 'p
  cl_collateral_commitment :: 'p
  cl_haircut_bp :: u64
  cl_backing :: range_proof
  cl_backing_commitment :: bytes

record 'p credit_ctx =
  cc_key :: "'p pedersen"
  cc_bits :: nat

datatype credit_error =
  HaircutNotFraction \<comment> \<open>"the haircut is not a fraction"\<close>
  | CollateralOverflows \<comment> \<open>"collateral overflows"\<close>
  | CapOverflows \<comment> \<open>"cap overflows"\<close>
  | NotCovered \<comment> \<open>"the pledged collateral does not cover the cap"\<close>
  | BackingFailed \<comment> \<open>"the backing proof failed"\<close>
  | BackingElsewhere \<comment> \<open>"the backing proof is about other commitments"\<close>
  | NotSignedPrice \<comment> \<open>"that is not the price the quorum signed"\<close>
  | ValuationOverflows \<comment> \<open>"the valuation overflows"\<close>
  | OtherPrice \<comment> \<open>"valued at a price other than the one the quorum signed"\<close>
  | ValuationFails \<comment> \<open>"the valuation does not hold"\<close>
  | NotProvedValue \<comment> \<open>"the opening offered is not the value that was proved"\<close>
  | OnePerTranche \<comment> \<open>"one balance and one blinding per tranche"\<close>
  | ShortfallExceeds \<comment> \<open>"the shortfall exceeds what the waterfall holds"\<close>
  | Overdrawn \<comment> \<open>"a tranche is overdrawn"\<close>
  | ShortfallNotInRange \<comment> \<open>"the shortfall is not in range"\<close>
  | OneDrawPerTranche \<comment> \<open>"one draw per tranche, present or zero"\<close>
  | ShortfallElsewhere \<comment> \<open>"the shortfall range is about another commitment"\<close>
  | ShortfallNotPositive \<comment> \<open>"the shortfall is not shown to be a positive amount"\<close>
  | NotInOrder \<comment> \<open>"the draws are not in tranche order"\<close>
  | WithinElsewhere \<comment> \<open>"a tranche's range proof is about another commitment"\<close>
  | NoOrderProof \<comment> \<open>"a draw below the first tranche has no order proof"\<close>
  | DrawsDoNotAdd \<comment> \<open>"a tranche was drawn before the one above it was exhausted, or .."\<close>
  | AlreadyWritten \<comment> \<open>"this resolution has already been written down"\<close>
  | CreditPanic

definition credit_ctx_new :: "'p pedersen \<Rightarrow> nat \<Rightarrow> 'p credit_ctx" where
  "credit_ctx_new key bits = \<lparr>cc_key = key, cc_bits = bits\<rparr>"

definition backing_transcript :: transcript where
  "backing_transcript = transcript_new (ascii ''qomm:credit:backing'')"

definition credit_grant ::
  "('p::ab_group_add, 's::comm_ring_1) prims \<Rightarrow> 'p credit_ctx \<Rightarrow> bytes \<Rightarrow> bytes \<Rightarrow> u64 \<Rightarrow> 's \<Rightarrow> u64 \<Rightarrow> 's \<Rightarrow> u64
    \<Rightarrow> ('p credit_line, credit_error) result" where
  "credit_grant P ctx handle rail cap cap_blinding collateral collateral_blinding haircut_bp =
     and_then (ensure (\<not> 10000 \<le> haircut_bp) HaircutNotFraction) (\<lambda>_.
     let scale = 10000 - haircut_bp in
     and_then (ok_or (checked_mul collateral scale) CollateralOverflows) (\<lambda>lendable.
     and_then (ok_or (checked_mul cap 10000) CapOverflows) (\<lambda>owed.
     and_then (ensure (\<not> lendable < owed) NotCovered) (\<lambda>_.
     let slack = lendable - owed;
         slack_blinding = collateral_blinding * scalar_u64 scale - cap_blinding * scalar_u64 10000 in
     and_then (range_one P (key_gens (cc_key ctx)) backing_transcript slack slack_blinding (cc_bits ctx)
       BackingFailed CreditPanic) (\<lambda>(backing, commitment).
     Ok \<lparr>cl_handle = handle, cl_rail = rail,
         cl_cap_commitment = commit_u64 P (cc_key ctx) cap cap_blinding,
         cl_collateral_commitment = commit_u64 P (cc_key ctx) collateral collateral_blinding,
         cl_haircut_bp = haircut_bp, cl_backing = backing, cl_backing_commitment = commitment\<rparr>)))))"

definition credit_check ::
  "('p::ab_group_add, 's::comm_ring_1) prims \<Rightarrow> 'p credit_ctx \<Rightarrow> 'p credit_line \<Rightarrow> (unit, credit_error) result" where
  "credit_check P ctx line =
     and_then (ensure (\<not> 10000 \<le> cl_haircut_bp line) HaircutNotFraction) (\<lambda>_.
     let scale = scalar_u64 (10000 - cl_haircut_bp line);
         expected = smul P scale (cl_collateral_commitment line) - smul P (scalar_u64 10000) (cl_cap_commitment line) in
     and_then (ensure (compress P expected = cl_backing_commitment line) BackingElsewhere) (\<lambda>_.
     ensure (range_verify P (key_gens (cc_key ctx)) backing_transcript (cl_backing line)
       [cl_backing_commitment line] (cc_bits ctx)) NotCovered))"

section \<open>The default waterfall\<close>

record 'p tranche =
  tr_name :: str
  tr_commitment :: 'p

record 'p draw =
  dr_tranche :: nat
  dr_amount_commitment :: 'p
  dr_within :: range_proof
  dr_within_commitment :: bytes
  dr_ordering :: "sigma_proof option"

record 'p resolution =
  re_shortfall_commitment :: 'p
  re_shortfall_range :: range_proof
  re_shortfall_range_commitment :: bytes
  re_draws :: "'p draw list"
  re_balance :: sigma_proof

record 'p waterfall =
  wf_key :: "'p pedersen"
  wf_bits :: nat
  wf_tranches :: "'p tranche list"

definition waterfall_new :: "'p pedersen \<Rightarrow> 'p tranche list \<Rightarrow> nat \<Rightarrow> ('p waterfall, credit_error) result" where
  "waterfall_new key tranches bits =
     and_then (ensure (tranches \<noteq> []) CreditPanic) (\<lambda>_.
     Ok \<lparr>wf_key = key, wf_bits = bits, wf_tranches = tranches\<rparr>)"

definition within_transcript :: "nat \<Rightarrow> transcript" where
  "within_transcript index = append_u64 (ascii ''k'') index (transcript_new (ascii ''qomm:waterfall:within''))"

definition order_transcript :: "nat \<Rightarrow> transcript" where
  "order_transcript index = append_u64 (ascii ''k'') index (transcript_new (ascii ''qomm:waterfall:order''))"

definition shortfall_transcript :: transcript where
  "shortfall_transcript = transcript_new (ascii ''qomm:waterfall:shortfall'')"

definition balance_transcript :: transcript where
  "balance_transcript = transcript_new (ascii ''qomm:waterfall:balance'')"

text \<open>The loop over the balances: each tranche gives what it can of what remains.\<close>

fun take_from :: "u64 \<Rightarrow> u64 list \<Rightarrow> u64 list" where
  "take_from remaining [] = []"
| "take_from remaining (balance # balances) =
     (let take = min balance remaining in take # take_from (remaining - take) balances)"

text \<open>The loop over the draws; \<open>over\<close> is what the tranche above is left with, and its blinding.\<close>

fun build_draws ::
  "('p::ab_group_add, 's::comm_ring_1) prims \<Rightarrow> 'p waterfall \<Rightarrow> nat \<Rightarrow> (u64 \<times> 's) option
    \<Rightarrow> (u64 \<times> 's \<times> u64 \<times> 's) list \<Rightarrow> ('p draw list, credit_error) result" where
  "build_draws P w index over [] = Ok []"
| "build_draws P w index over ((balance, blinding, amount, draw_blinding) # rest) = (
     let left = balance - amount;
         left_blinding = blinding - draw_blinding in
     and_then (range_one P (key_gens (wf_key w)) (within_transcript index) left left_blinding (wf_bits w)
       Overdrawn CreditPanic) (\<lambda>(within, within_commitment).
     let ordering = map_option (\<lambda>(above_value, above_blinding).
           product_prove P (wf_key w) (order_transcript index) (commit_u64 P (wf_key w) above_value above_blinding)
             (scalar_u64 above_value) above_blinding (scalar_u64 amount) draw_blinding 0) over;
         draw = \<lparr>dr_tranche = index, dr_amount_commitment = commit_u64 P (wf_key w) amount draw_blinding,
                 dr_within = within, dr_within_commitment = within_commitment, dr_ordering = ordering\<rparr> in
     and_then (build_draws P w (index + 1) (Some (left, left_blinding)) rest) (\<lambda>draws. Ok (draw # draws))))"

definition waterfall_build ::
  "('p::ab_group_add, 's::comm_ring_1) prims \<Rightarrow> 'p waterfall \<Rightarrow> u64 \<Rightarrow> 's \<Rightarrow> u64 list \<Rightarrow> 's list \<Rightarrow> (nat \<Rightarrow> 's)
    \<Rightarrow> ('p resolution \<times> u64 list, credit_error) result" where
  "waterfall_build P w shortfall shortfall_blinding balances blindings random =
     and_then (ensure (length balances = length (wf_tranches w) \<and> length blindings = length (wf_tranches w))
       OnePerTranche) (\<lambda>_.
     and_then (ensure (\<not> sum_list balances < shortfall) ShortfallExceeds) (\<lambda>_.
     let amounts = take_from shortfall balances in
     and_then (ensure (amounts \<noteq> []) CreditPanic) (\<lambda>_.
     let drawn = map random [0..<length amounts - 1];
         draw_blindings = drawn @ [shortfall_blinding - sum_list drawn] in
     and_then (build_draws P w 0 None (zip balances (zip blindings (zip amounts draw_blindings)))) (\<lambda>draws.
     and_then (range_one P (key_gens (wf_key w)) shortfall_transcript shortfall shortfall_blinding (wf_bits w)
       ShortfallNotInRange CreditPanic) (\<lambda>(shortfall_range, shortfall_range_commitment).
     let residual = commit_u64 P (wf_key w) shortfall shortfall_blinding - sum_list (map dr_amount_commitment draws);
         balance = opening_prove P (wf_key w) balance_transcript residual 0 0 in
     Ok (\<lparr>re_shortfall_commitment = commit_u64 P (wf_key w) shortfall shortfall_blinding,
          re_shortfall_range = shortfall_range, re_shortfall_range_commitment = shortfall_range_commitment,
          re_draws = draws, re_balance = balance\<rparr>, amounts))))))"

text \<open>The loop of the check: it returns the equations for the batch.\<close>

fun check_draws ::
  "('p::ab_group_add, 's) prims \<Rightarrow> 'p waterfall \<Rightarrow> (nat \<Rightarrow> 's) \<Rightarrow> nat \<Rightarrow> 'p option \<Rightarrow> ('p tranche \<times> 'p draw) list
    \<Rightarrow> (('p, 's) terms list, credit_error) result" where
  "check_draws P w random index over [] = Ok []"
| "check_draws P w random index over ((tranche, draw) # rest) =
     and_then (ensure (dr_tranche draw = index) NotInOrder) (\<lambda>_.
     let remaining = tr_commitment tranche - dr_amount_commitment draw in
     and_then (ensure (dr_within_commitment draw = compress P remaining) WithinElsewhere) (\<lambda>_.
     and_then (ensure (range_verify P (key_gens (wf_key w)) (within_transcript index) (dr_within draw)
       [dr_within_commitment draw] (wf_bits w)) Overdrawn) (\<lambda>_.
     and_then (case (dr_ordering draw, over) of
         (None, Some _) \<Rightarrow> Err NoOrderProof
       | (Some proof, Some above_commitment) \<Rightarrow>
           Ok [product_terms P (wf_key w) (order_transcript index) above_commitment (dr_amount_commitment draw) 0
             proof (random index)]
       | _ \<Rightarrow> Ok []) (\<lambda>equations.
     and_then (check_draws P w random (index + 1) (Some remaining) rest) (\<lambda>others. Ok (equations @ others))))))"

definition waterfall_check ::
  "('p::ab_group_add, 's) prims \<Rightarrow> 'p waterfall \<Rightarrow> 'p resolution \<Rightarrow> (nat \<Rightarrow> 's) \<Rightarrow> (unit, credit_error) result" where
  "waterfall_check P w resolution random =
     and_then (ensure (length (re_draws resolution) = length (wf_tranches w)) OneDrawPerTranche) (\<lambda>_.
     and_then (ensure (re_shortfall_range_commitment resolution = compress P (re_shortfall_commitment resolution))
       ShortfallElsewhere) (\<lambda>_.
     and_then (ensure (range_verify P (key_gens (wf_key w)) shortfall_transcript (re_shortfall_range resolution)
       [re_shortfall_range_commitment resolution] (wf_bits w)) ShortfallNotPositive) (\<lambda>_.
     and_then (check_draws P w random 0 None (zip (wf_tranches w) (re_draws resolution))) (\<lambda>equations.
     let residual = re_shortfall_commitment resolution - sum_list (map dr_amount_commitment (re_draws resolution));
         batch = equations @ [opening_terms P (wf_key w) balance_transcript residual (re_balance resolution)
           (random (length (re_draws resolution)))] in
     ensure (batch_verify P batch) DrawsDoNotAdd))))"

definition waterfall_applied :: "'p::ab_group_add waterfall \<Rightarrow> 'p resolution \<Rightarrow> 'p tranche list" where
  "waterfall_applied w resolution = map (\<lambda>(t, d). \<lparr>tr_name = tr_name t, tr_commitment = tr_commitment t - dr_amount_commitment d\<rparr>)
     (zip (wf_tranches w) (re_draws resolution))"

section \<open>Valued collateral\<close>

record 'p valued_collateral =
  vc_quantity :: 'p
  vc_price :: 'p
  vc_value :: 'p
  vc_proof :: sigma_proof

definition valuation_transcript :: transcript where
  "valuation_transcript = transcript_new (ascii ''qomm:credit:valuation'')"

definition value_pledge ::
  "('p::ab_group_add, 's::comm_ring_1) prims \<Rightarrow> 'p credit_ctx \<Rightarrow> u64 \<Rightarrow> 's \<Rightarrow> u64 \<Rightarrow> 's \<Rightarrow> 's \<Rightarrow> 'p
    \<Rightarrow> ('p valued_collateral \<times> u64, credit_error) result" where
  "value_pledge P ctx quantity quantity_blinding price price_blinding value_blinding signed_price_commitment =
     and_then (ensure (commit_u64 P (cc_key ctx) price price_blinding = signed_price_commitment) NotSignedPrice) (\<lambda>_.
     and_then (ok_or (checked_mul quantity price) ValuationOverflows) (\<lambda>v.
     let proof = product_prove P (cc_key ctx) valuation_transcript (commit_u64 P (cc_key ctx) quantity quantity_blinding)
           (scalar_u64 quantity) quantity_blinding (scalar_u64 price) price_blinding value_blinding in
     Ok (\<lparr>vc_quantity = commit_u64 P (cc_key ctx) quantity quantity_blinding, vc_price = signed_price_commitment,
          vc_value = commit_u64 P (cc_key ctx) v value_blinding, vc_proof = proof\<rparr>, v)))"

definition check_pledge ::
  "('p, 's) prims \<Rightarrow> 'p credit_ctx \<Rightarrow> 'p valued_collateral \<Rightarrow> 'p \<Rightarrow> (unit, credit_error) result" where
  "check_pledge P ctx pledge signed_price_commitment =
     and_then (ensure (vc_price pledge = signed_price_commitment) OtherPrice) (\<lambda>_.
     ensure (product_verify P (cc_key ctx) valuation_transcript (vc_quantity pledge) (vc_price pledge) (vc_value pledge)
       (vc_proof pledge)) ValuationFails)"

definition grant_against ::
  "('p::ab_group_add, 's::comm_ring_1) prims \<Rightarrow> 'p credit_ctx \<Rightarrow> bytes \<Rightarrow> bytes \<Rightarrow> u64 \<Rightarrow> 's \<Rightarrow> 'p valued_collateral
    \<Rightarrow> u64 \<Rightarrow> 's \<Rightarrow> u64 \<Rightarrow> 'p \<Rightarrow> ('p credit_line, credit_error) result" where
  "grant_against P ctx handle rail cap cap_blinding pledge v value_blinding haircut_bp signed_price_commitment =
     and_then (check_pledge P ctx pledge signed_price_commitment) (\<lambda>_.
     and_then (ensure (commit_u64 P (cc_key ctx) v value_blinding = vc_value pledge) NotProvedValue) (\<lambda>_.
     credit_grant P ctx handle rail cap cap_blinding v value_blinding haircut_bp))"

section \<open>The book of tranches\<close>

record 'p tranche_book =
  tb_tranches :: "'p tranche list"
  tb_applied :: "bytes set"

definition resolution_id :: "('p, 's) prims \<Rightarrow> 'p resolution \<Rightarrow> bytes" where
  "resolution_id P resolution = sha256 P (ascii ''QOMM:DEFMI:RESOLUTION:v1'' @
     compress P (re_shortfall_commitment resolution) @
     concat (map (\<lambda>d. compress P (dr_amount_commitment d)) (re_draws resolution)))"

definition tranche_book_new :: "'p tranche list \<Rightarrow> 'p tranche_book" where
  "tranche_book_new tranches = \<lparr>tb_tranches = tranches, tb_applied = {}\<rparr>"

definition applied_count :: "'p tranche_book \<Rightarrow> nat" where
  "applied_count b = card (tb_applied b)"

definition tranche_apply ::
  "('p::ab_group_add, 's) prims \<Rightarrow> 'p tranche_book \<Rightarrow> 'p pedersen \<Rightarrow> nat \<Rightarrow> 'p resolution \<Rightarrow> (nat \<Rightarrow> 's)
    \<Rightarrow> ('p tranche_book, credit_error) result" where
  "tranche_apply P b key bits resolution random =
     (let id = resolution_id P resolution in
     and_then (ensure (id \<notin> tb_applied b) AlreadyWritten) (\<lambda>_.
     and_then (waterfall_new key (tb_tranches b) bits) (\<lambda>w.
     and_then (waterfall_check P w resolution random) (\<lambda>_.
     Ok (b\<lparr>tb_tranches := waterfall_applied w resolution, tb_applied := insert id (tb_applied b)\<rparr>)))))"

section \<open>Draws in turn\<close>

text \<open>A tranche gives at most what it has, and only when the one above it has nothing left.\<close>

fun in_turn :: "u64 option \<Rightarrow> (u64 \<times> u64) list \<Rightarrow> bool" where
  "in_turn over [] \<longleftrightarrow> True"
| "in_turn over ((balance, amount) # rest) \<longleftrightarrow>
     (\<forall>left. over = Some left \<longrightarrow> left = 0 \<or> amount = 0) \<and> amount \<le> balance \<and> in_turn (Some (balance - amount)) rest"

lemma length_take_from [simp]: "length (take_from r bs) = length bs"
  by (induction r bs rule: take_from.induct) (simp_all add: Let_def)

lemma take_from_in_turn: "over = None \<or> over = Some 0 \<or> r = 0 \<Longrightarrow> in_turn over (zip bs (take_from r bs))"
proof (induction r bs arbitrary: over rule: take_from.induct)
  case (2 r b bs)
  have "Some (b - min b r) = Some 0 \<or> r - min b r = 0" by (auto simp: min_def)
  then have "in_turn (Some (b - min b r)) (zip bs (take_from (r - min b r) bs))" using 2(1) by blast
  with 2(2) show ?case by (auto simp: Let_def min_def)
qed simp

lemma take_from_sum: "unat r \<le> sum_list (map unat bs) \<Longrightarrow> sum_list (map unat (take_from r bs)) = unat r"
proof (induction r bs rule: take_from.induct)
  case (2 r b bs)
  have "unat (r - min b r) = unat r - unat (min b r)" by (rule unat_sub_le) simp
  moreover have "unat (min b r) = min (unat b) (unat r)" by (simp add: unat_min)
  ultimately show ?case using 2 by (auto simp: Let_def min_def)
qed simp

lemma in_turn_le: "in_turn over (zip bs as) \<Longrightarrow> i < length bs \<Longrightarrow> i < length as \<Longrightarrow> as ! i \<le> bs ! i"
proof (induction bs as arbitrary: over i rule: list_induct2')
  case (4 b bs a as)
  then show ?case by (cases i) auto
qed simp_all

lemma zero_in_turn: "length bs = n \<Longrightarrow> in_turn over (zip bs (replicate n 0))"
  by (induction bs arbitrary: n over) auto

section \<open>Built draws pass the check\<close>

definition credit_laws :: "('p::ab_group_add, 's::comm_ring_1) prims \<Rightarrow> bool" where
  "credit_laws P \<longleftrightarrow> scalar_module P \<and> pedersen_commits P \<and> range_complete P \<and> sigma_complete P"

lemma commit_u64_eq:
  "pedersen_commits P \<Longrightarrow> commit_u64 P key v r = smul P (of_nat (unat v)) (ped_g key) + smul P r (ped_h key)"
  by (simp add: commit_u64_def pedersen_commits_def scalar_u64_def)

lemma commit_u64_diff:
  assumes "credit_laws P" "b \<le> (a :: u64)"
  shows "commit_u64 P key a r - commit_u64 P key b s = commit_u64 P key (a - b) (r - s)"
proof -
  have "unat a = unat (a - b) + unat b" using assms(2) by (simp add: unat_sub_le word_le_nat_alt)
  then have "(of_nat (unat a) :: 'b) = of_nat (unat (a - b)) + of_nat (unat b)" by (simp only: of_nat_add)
  moreover have "smul P r (ped_h key) = smul P (r - s) (ped_h key) + smul P s (ped_h key)"
    using assms(1) smul_add [of P "r - s" s "ped_h key"] by (simp add: credit_laws_def)
  ultimately show ?thesis
    using assms(1) by (simp only: commit_u64_eq credit_laws_def smul_add [of P]) (simp add: algebra_simps)
qed

lemma commit_zero: "credit_laws P \<Longrightarrow> commit_u64 P key 0 0 = 0"
  by (simp add: commit_u64_eq credit_laws_def smul_zero)

text \<open>The openings the draws are built from: balance, its blinding, amount, its blinding.\<close>

definition opened_tranches :: "('p, 's::comm_ring_1) prims \<Rightarrow> 'p waterfall \<Rightarrow> u64 list \<Rightarrow> 's list \<Rightarrow> bool" where
  "opened_tranches P w balances blindings \<longleftrightarrow>
     length balances = length (wf_tranches w) \<and> length blindings = length (wf_tranches w) \<and>
     map tr_commitment (wf_tranches w) = map2 (commit_u64 P (wf_key w)) balances blindings \<and>
     (\<forall>b \<in> set balances. unat b < 2 ^ wf_bits w)"

lemma ordering_holds:
  assumes "credit_laws P" "left = 0 \<or> amount = (0 :: u64)"
  shows "batch_verify P [product_terms P key t (commit_u64 P key left r) (commit_u64 P key amount s) 0
    (product_prove P key t (commit_u64 P key left r) (scalar_u64 left) r (scalar_u64 amount) s 0) weight]"
proof -
  have "scalar_u64 left * scalar_u64 amount = (0 :: 'b)" using assms(2) by (auto simp: scalar_u64_def)
  moreover from assms(1) have "ped_commit P key 0 0 = 0"
    by (simp add: credit_laws_def pedersen_commits_def smul_zero)
  ultimately show ?thesis
    using product_complete [of P key t "scalar_u64 left" r "scalar_u64 amount" s 0 weight] assms(1)
    by (simp add: credit_laws_def commit_u64_def)
qed

lemma build_draws_check:
  fixes P :: "('p::ab_group_add, 's::comm_ring_1) prims"
  assumes laws: "credit_laws P"
    and len: "length ts = length es"
    and open_: "map tr_commitment ts = map (\<lambda>(b, r, _). commit_u64 P (wf_key w) b r) es"
    and bits: "\<forall>(b, _) \<in> set es. unat b < 2 ^ wf_bits w" and width: "range_width (wf_bits w)"
    and turn: "in_turn (map_option fst over) (map (\<lambda>(b, _, a, _). (b, a)) es)"
  shows "\<exists>ds eqs. build_draws P w i over es = Ok ds \<and> length ds = length es \<and>
    map dr_amount_commitment ds = map (\<lambda>(_, _, a, s). commit_u64 P (wf_key w) a s) es \<and>
    check_draws P w random i (map_option (\<lambda>(v, r). commit_u64 P (wf_key w) v r) over) (zip ts ds) = Ok eqs \<and>
    (\<forall>e \<in> set eqs. batch_verify P [e])"
  using len open_ bits turn
proof (induction es arbitrary: ts over i)
  case (Cons e es)
  obtain b r a s where e: "e = (b, r, a, s)" by (cases e)
  from Cons.prems(1) obtain t ts' where ts: "ts = t # ts'" by (cases ts) auto
  from Cons.prems(4) have a: "a \<le> b" and over: "\<forall>left. map_option fst over = Some left \<longrightarrow> left = 0 \<or> a = 0"
    and turn: "in_turn (map_option fst (Some (b - a, r - s))) (map (\<lambda>(b, _, a, _). (b, a)) es)"
    by (simp_all add: e)
  have "unat (b - a) < 2 ^ wf_bits w" using a Cons.prems(3) by (auto simp: e unat_sub_le)
  then obtain pf where pf: "range_one P (key_gens (wf_key w)) (within_transcript i) (b - a) (r - s) (wf_bits w)
        Overdrawn CreditPanic = Ok (pf, compress P (commit_u64 P (wf_key w) (b - a) (r - s)))"
      "range_verify P (key_gens (wf_key w)) (within_transcript i) pf
        [compress P (commit_u64 P (wf_key w) (b - a) (r - s))] (wf_bits w)"
    using range_one_exists [of P "wf_bits w" "b - a" "key_gens (wf_key w)" "within_transcript i" "r - s"] laws width
    by (metis credit_laws_def commit_u64_def key_gens_commit)
  have rem: "tr_commitment t - commit_u64 P (wf_key w) a s = commit_u64 P (wf_key w) (b - a) (r - s)"
    using Cons.prems(2) commit_u64_diff [OF laws a, of "wf_key w" r s] by (simp add: ts e)
  obtain ds eqs where IH: "build_draws P w (i + 1) (Some (b - a, r - s)) es = Ok ds" "length ds = length es"
      "map dr_amount_commitment ds = map (\<lambda>(_, _, a, s). commit_u64 P (wf_key w) a s) es"
      "check_draws P w random (i + 1) (Some (commit_u64 P (wf_key w) (b - a) (r - s))) (zip ts' ds) = Ok eqs"
      "\<forall>e \<in> set eqs. batch_verify P [e]"
    using Cons.IH [of ts' "Some (b - a, r - s)" "i + 1", OF _ _ _ turn] Cons.prems(1-3) by (auto simp: ts e)
  show ?case
  proof (cases over)
    case None
    with IH pf rem show ?thesis by (simp add: e ts Let_def)
  next
    case (Some lo)
    obtain l o' where lo: "lo = (l, o')" by (cases lo)
    with Some over have "l = 0 \<or> a = 0" by simp
    note ord = ordering_holds [OF laws this, of "wf_key w" "order_transcript i" o' s "random i"]
    with Some lo IH pf rem show ?thesis by (simp add: e ts Let_def)
  qed
qed simp

lemma zip4_maps:
  assumes "length bs = n" "length rs = n" "length as = n" "length ss = n"
  shows "map (\<lambda>(b, r, _). f b r) (zip bs (zip rs (zip as ss))) = map2 f bs rs"
    and "map (\<lambda>(b, _, a, _). (b, a)) (zip bs (zip rs (zip as ss))) = zip bs as"
    and "map (\<lambda>(_, _, a, s). g a s) (zip bs (zip rs (zip as ss))) = map2 g as ss"
  using assms by (intro nth_equalityI; simp)+

lemma waterfall_entries:
  assumes "opened_tranches P w balances blindings" "length amounts = length (wf_tranches w)"
    "length ss = length (wf_tranches w)"
  shows "length (wf_tranches w) = length (zip balances (zip blindings (zip amounts ss)))"
    and "map tr_commitment (wf_tranches w) =
      map (\<lambda>(b, r, _). commit_u64 P (wf_key w) b r) (zip balances (zip blindings (zip amounts ss)))"
    and "\<forall>(b, _) \<in> set (zip balances (zip blindings (zip amounts ss))). unat b < 2 ^ wf_bits w"
    and "map (\<lambda>(b, _, a, _). (b, a)) (zip balances (zip blindings (zip amounts ss))) = zip balances amounts"
    and "map (\<lambda>(_, _, a, s). commit_u64 P (wf_key w) a s) (zip balances (zip blindings (zip amounts ss))) =
      map2 (commit_u64 P (wf_key w)) amounts ss"
proof -
  note o = assms(1) [unfolded opened_tranches_def]
  have z: "length balances = length (wf_tranches w)" "length blindings = length (wf_tranches w)"
    using o by simp_all
  note z = zip4_maps [OF z assms(2,3)]
  show "map tr_commitment (wf_tranches w) =
      map (\<lambda>(b, r, _). commit_u64 P (wf_key w) b r) (zip balances (zip blindings (zip amounts ss)))"
    using o by (simp only: z)
  show "\<forall>(b, _) \<in> set (zip balances (zip blindings (zip amounts ss))). unat b < 2 ^ wf_bits w"
    using o by (auto dest: set_zip_leftD)
qed (use assms in \<open>simp_all add: opened_tranches_def zip4_maps\<close>)

text \<open>
  Draws made by the builder for openings that are taken in turn, with any shortfall and
  balance proof that verify, are a resolution the check accepts.
\<close>

lemma resolution_checks:
  assumes laws: "credit_laws P" and opened: "opened_tranches P w balances blindings"
    and len: "length amounts = length (wf_tranches w)" "length ss = length (wf_tranches w)"
    and turn: "in_turn None (zip balances amounts)"
    and s: "unat shortfall < 2 ^ wf_bits w" and width: "range_width (wf_bits w)"
    and residual: "commit_u64 P (wf_key w) shortfall sb - sum_list (map2 (commit_u64 P (wf_key w)) amounts ss) =
      ped_commit P (wf_key w) v r"
  shows "\<exists>ds pf. build_draws P w 0 None (zip balances (zip blindings (zip amounts ss))) = Ok ds \<and>
    map dr_amount_commitment ds = map2 (commit_u64 P (wf_key w)) amounts ss \<and>
    range_one P (key_gens (wf_key w)) shortfall_transcript shortfall sb (wf_bits w) ShortfallNotInRange CreditPanic =
      Ok (pf, compress P (commit_u64 P (wf_key w) shortfall sb)) \<and>
    waterfall_check P w \<lparr>re_shortfall_commitment = commit_u64 P (wf_key w) shortfall sb, re_shortfall_range = pf,
      re_shortfall_range_commitment = compress P (commit_u64 P (wf_key w) shortfall sb), re_draws = ds,
      re_balance = opening_prove P (wf_key w) balance_transcript (ped_commit P (wf_key w) v r) v r\<rparr> random = Ok ()"
proof -
  let ?es = "zip balances (zip blindings (zip amounts ss))"
  note e = waterfall_entries [OF opened len]
  have "in_turn (map_option fst (None :: (u64 \<times> 'b) option)) (map (\<lambda>(b, _, a, _). (b, a)) ?es)"
    using turn by (simp add: e(4))
  from build_draws_check [OF laws e(1-3) width this, of 0 random] obtain ds eqs where
    ds: "build_draws P w 0 None ?es = Ok ds" "length ds = length ?es"
      "map dr_amount_commitment ds = map2 (commit_u64 P (wf_key w)) amounts ss"
      "check_draws P w random 0 None (zip (wf_tranches w) ds) = Ok eqs" "\<forall>e \<in> set eqs. batch_verify P [e]"
    unfolding e(5) by auto
  obtain pf where pf: "range_one P (key_gens (wf_key w)) shortfall_transcript shortfall sb (wf_bits w)
      ShortfallNotInRange CreditPanic = Ok (pf, compress P (commit_u64 P (wf_key w) shortfall sb))"
    "range_verify P (key_gens (wf_key w)) shortfall_transcript pf
      [compress P (commit_u64 P (wf_key w) shortfall sb)] (wf_bits w)"
    using range_one_exists [OF _ width s] laws by (metis credit_laws_def commit_u64_def key_gens_commit)
  have sc: "sigma_complete P" using laws by (simp add: credit_laws_def)
  have "batch_verify P (eqs @ [opening_terms P (wf_key w) balance_transcript (ped_commit P (wf_key w) v r)
      (opening_prove P (wf_key w) balance_transcript (ped_commit P (wf_key w) v r) v r) (random (length ds))])"
    by (rule batch_all [OF sc]) (use ds(5) opening_complete [OF sc] in auto)
  with ds pf residual e(1) show ?thesis
    by (intro exI [of _ ds] exI [of _ pf]) (simp add: waterfall_check_def Let_def)
qed

lemma applied_commitments:
  "length (re_draws res) = length (wf_tranches w) \<Longrightarrow>
    map tr_commitment (waterfall_applied w res) =
      map2 (\<lambda>t d. t - d) (map tr_commitment (wf_tranches w)) (map dr_amount_commitment (re_draws res))"
  by (simp add: waterfall_applied_def list_eq_iff_nth_eq)

lemma waterfall_check_length: "waterfall_check P w res random = Ok () \<Longrightarrow> length (re_draws res) = length (wf_tranches w)"
  by (simp add: waterfall_check_def)

lemma sum_commitments:
  assumes "credit_laws P" "length as = length ss"
  shows "sum_list (map2 (commit_u64 P key) as ss) =
    smul P (of_nat (sum_list (map unat as))) (ped_g key) + smul P (sum_list ss) (ped_h key)"
  using assms(2)
proof (induction as ss rule: list_induct2)
  case Nil
  show ?case using assms(1) by (simp add: smul_zero credit_laws_def)
next
  case (Cons a as s ss)
  then show ?case
    using assms(1) by (simp add: credit_laws_def commit_u64_eq smul_add [of P])
qed

section \<open>Properties\<close>

text \<open>
  a resolution built for a shortfall the tranches cover is accepted, at a width the range
  proofs have. The draws take
  from the tranches in turn, each as much as it has before the next is touched, and come
  to the shortfall; every tranche is left with its balance less its draw.
\<close>

theorem built_resolution_checks:
  fixes P :: "('p::ab_group_add, 's::comm_ring_1) prims"
  assumes laws: "credit_laws P" and opened: "opened_tranches P w balances blindings" and ne: "wf_tranches w \<noteq> []"
    and cover: "unat shortfall \<le> sum_list (map unat balances)" "sum_list (map unat balances) < 2 ^ 64"
    and bits: "unat shortfall < 2 ^ wf_bits w" and width: "range_width (wf_bits w)"
  shows "\<exists>res amounts. waterfall_build P w shortfall sb balances blindings random = Ok (res, amounts) \<and>
    waterfall_check P w res random' = Ok () \<and> sum_list (map unat amounts) = unat shortfall \<and>
    in_turn None (zip balances amounts) \<and>
    (\<exists>ss. map tr_commitment (waterfall_applied w res) =
      map2 (commit_u64 P (wf_key w)) (map2 (-) balances amounts) ss)"
proof -
  let ?as = "take_from shortfall balances"
  let ?d = "map random [0..<length ?as - 1]"
  let ?ss = "?d @ [sb - sum_list ?d]"
  have len: "length ?as = length (wf_tranches w)" "length ?ss = length (wf_tranches w)"
    using opened ne by (simp_all add: opened_tranches_def)
  have sum: "unat (sum_list balances) = sum_list (map unat balances)"
    using cover(2) by (induction balances) (simp_all add: unat_add_less)
  have as: "sum_list (map unat ?as) = unat shortfall" by (rule take_from_sum [OF cover(1)])
  have turn: "in_turn None (zip balances ?as)" by (rule take_from_in_turn) simp
  have "sum_list (map2 (commit_u64 P (wf_key w)) ?as ?ss) = commit_u64 P (wf_key w) shortfall sb"
    using len laws by (subst sum_commitments) (simp_all add: as commit_u64_eq credit_laws_def)
  then have res: "commit_u64 P (wf_key w) shortfall sb - sum_list (map2 (commit_u64 P (wf_key w)) ?as ?ss) =
      ped_commit P (wf_key w) 0 0"
    using commit_zero [OF laws, of "wf_key w"] by (simp add: commit_u64_def scalar_u64_def)
  from resolution_checks [OF laws opened len turn bits width res, of random'] obtain ds pf where
    ds: "build_draws P w 0 None (zip balances (zip blindings (zip ?as ?ss))) = Ok ds"
      "map dr_amount_commitment ds = map2 (commit_u64 P (wf_key w)) ?as ?ss"
    and pf: "range_one P (key_gens (wf_key w)) shortfall_transcript shortfall sb (wf_bits w) ShortfallNotInRange CreditPanic =
      Ok (pf, compress P (commit_u64 P (wf_key w) shortfall sb))"
    and ok: "waterfall_check P w \<lparr>re_shortfall_commitment = commit_u64 P (wf_key w) shortfall sb, re_shortfall_range = pf,
      re_shortfall_range_commitment = compress P (commit_u64 P (wf_key w) shortfall sb), re_draws = ds,
      re_balance = opening_prove P (wf_key w) balance_transcript (ped_commit P (wf_key w) 0 0) 0 0\<rparr> random' = Ok ()"
    (is "waterfall_check P w ?res _ = _") by blast
  have "?as \<noteq> []" using len(1) ne by (metis length_0_conv)
  moreover have "\<not> sum_list balances < shortfall" using cover(1) sum by (simp add: word_less_nat_alt)
  ultimately have "waterfall_build P w shortfall sb balances blindings random = Ok (?res, ?as)"
    using opened ds pf res by (simp add: waterfall_build_def Let_def opened_tranches_def)
  moreover have "length ds = length (wf_tranches w)" using arg_cong [OF ds(2), of length] len by simp
  then have "map tr_commitment (waterfall_applied w ?res) =
      map2 (commit_u64 P (wf_key w)) (map2 (-) balances ?as) (map2 (-) blindings ?ss)"
    using opened len in_turn_le [OF turn]
    by (simp add: applied_commitments ds(2) opened_tranches_def)
      (intro nth_equalityI; simp add: commit_u64_diff [OF laws])
  ultimately show ?thesis using ok as turn by blast
qed

definition demo_waterfall :: "int waterfall" where
  "demo_waterfall = \<lparr>wf_key = plain_key, wf_bits = 64,
     wf_tranches = [\<lparr>tr_name = lit ''skin'', tr_commitment = 30\<rparr>, \<lparr>tr_name = lit ''fund'', tr_commitment = 50\<rparr>]\<rparr>"

lemma plain_credit_laws: "credit_laws plain"
  by (simp add: credit_laws_def plain_laws)

lemma demo_opened: "opened_tranches plain demo_waterfall [30, 50] [1, 2]"
  by (simp add: opened_tranches_def demo_waterfall_def commit_u64_def scalar_u64_def plain_simps plain_key_def)

theorem built_resolution_checks_witness:
  "\<exists>res amounts. waterfall_build plain demo_waterfall 40 7 [30, 50] [1, 2] (\<lambda>_. 3) = Ok (res, amounts) \<and>
    waterfall_check plain demo_waterfall res (\<lambda>_. 1) = Ok () \<and> sum_list (map unat amounts) = 40"
proof -
  have "wf_tranches demo_waterfall \<noteq> []" "unat (40 :: u64) \<le> sum_list (map unat [30, 50 :: u64])"
    "sum_list (map unat [30, 50 :: u64]) < 2 ^ 64" "unat (40 :: u64) < 2 ^ wf_bits demo_waterfall" "range_width (wf_bits demo_waterfall)"
    by (simp_all add: demo_waterfall_def range_width_def)
  from built_resolution_checks [OF plain_credit_laws demo_opened this, of 7 "\<lambda>_. 3" "\<lambda>_. 1"] show ?thesis
    by auto
qed

text \<open>
  C30: the check does not tie the draws to the shortfall. For any waterfall whose width is
  one the range proofs have, 8, 16, 32 or 64, whose tranches can be opened to amounts in
  range, and any shortfall in range, there is a resolution of that shortfall that
  draws nothing from any tranche, and the check accepts it: the residual is only proved to
  have some opening, not to be a commitment to zero.
\<close>

theorem waterfall_unbalanced:
  fixes P :: "('p::ab_group_add, 's::comm_ring_1) prims"
  assumes laws: "credit_laws P" and opened: "opened_tranches P w balances blindings"
    and bits: "unat shortfall < 2 ^ wf_bits w" and width: "range_width (wf_bits w)"
  shows "\<exists>res. waterfall_check P w res random = Ok () \<and>
    re_shortfall_commitment res = commit_u64 P (wf_key w) shortfall sb \<and>
    map tr_commitment (waterfall_applied w res) = map tr_commitment (wf_tranches w)"
proof -
  let ?n = "length (wf_tranches w)"
  let ?as = "replicate ?n (0 :: u64)" and ?ss = "replicate ?n (0 :: 's)"
  have zeros: "map2 (commit_u64 P (wf_key w)) ?as ?ss = replicate ?n 0"
    by (simp add: zip_replicate commit_zero [OF laws])
  have "sum_list (replicate m (0 :: 'p)) = 0" for m by (induction m) simp_all
  then have "sum_list (map2 (commit_u64 P (wf_key w)) ?as ?ss) = 0"
    unfolding zeros .
  then have res: "commit_u64 P (wf_key w) shortfall sb - sum_list (map2 (commit_u64 P (wf_key w)) ?as ?ss) =
      ped_commit P (wf_key w) (scalar_u64 shortfall) sb"
    by (simp add: commit_u64_def)
  have len: "length ?as = ?n" "length ?ss = ?n" and turn: "in_turn None (zip balances ?as)"
    using opened by (simp_all add: zero_in_turn opened_tranches_def)
  from resolution_checks [OF laws opened len turn bits width res, of random] obtain ds pf where
    ds: "map dr_amount_commitment ds = replicate ?n 0"
    and ok: "waterfall_check P w \<lparr>re_shortfall_commitment = commit_u64 P (wf_key w) shortfall sb, re_shortfall_range = pf,
      re_shortfall_range_commitment = compress P (commit_u64 P (wf_key w) shortfall sb), re_draws = ds,
      re_balance = opening_prove P (wf_key w) balance_transcript (ped_commit P (wf_key w) (scalar_u64 shortfall) sb)
        (scalar_u64 shortfall) sb\<rparr> random = Ok ()" (is "waterfall_check P w ?res _ = _")
    unfolding zeros by blast
  have "length ds = ?n" using arg_cong [OF ds, of length] by simp
  then have "map tr_commitment (waterfall_applied w ?res) = map tr_commitment (wf_tranches w)"
    by (simp add: applied_commitments ds) (intro nth_equalityI; simp)
  with ok show ?thesis by (intro exI [of _ ?res]) simp
qed

theorem waterfall_unbalanced_witness:
  "\<exists>res. waterfall_check plain demo_waterfall res (\<lambda>_. 1) = Ok () \<and> re_shortfall_commitment res = 40 \<and>
    map tr_commitment (waterfall_applied demo_waterfall res) = [30, 50]"
proof -
  have "unat (40 :: u64) < 2 ^ wf_bits demo_waterfall" "range_width (wf_bits demo_waterfall)"
    by (simp_all add: demo_waterfall_def range_width_def)
  from waterfall_unbalanced [OF plain_credit_laws demo_opened this, of "\<lambda>_. 1" 0] show ?thesis
    by (simp add: demo_waterfall_def commit_u64_def scalar_u64_def plain_simps plain_key_def)
qed

section \<open>Credit lines\<close>

lemma unat_10000: "unat (10000 :: u64) = 10000"
  by simp

lemma commit_combination:
  assumes "scalar_module P" "pedersen_commits P"
  shows "smul P a (ped_commit P key v r) - smul P b (ped_commit P key u s) = ped_commit P key (a * v - b * u) (a * r - b * s)"
proof -
  have c: "ped_commit P key x y = smul P x (ped_g key) + smul P y (ped_h key)" for x y
    using assms(2) by (simp add: pedersen_commits_def)
  show ?thesis
    unfolding c smul_add_right [OF assms(1)] smul_diff [OF assms(1)] smul_mult [OF assms(1)]
    by (simp add: algebra_simps)
qed

lemma credit_grantE:
  assumes "credit_grant P ctx handle rail cap rc col rl haircut = Ok line"
  obtains lendable owed pf c where "\<not> 10000 \<le> haircut" "unat haircut < 10000"
    "unat (10000 - haircut) = 10000 - unat haircut"
    "unat lendable = unat col * unat (10000 - haircut)" "unat owed = unat cap * 10000" "unat owed \<le> unat lendable"
    "unat (lendable - owed) = unat lendable - unat owed"
    "range_one P (key_gens (cc_key ctx)) backing_transcript (lendable - owed)
      (rl * scalar_u64 (10000 - haircut) - rc * scalar_u64 10000) (cc_bits ctx) BackingFailed CreditPanic = Ok (pf, c)"
    "line = \<lparr>cl_handle = handle, cl_rail = rail, cl_cap_commitment = commit_u64 P (cc_key ctx) cap rc,
      cl_collateral_commitment = commit_u64 P (cc_key ctx) col rl, cl_haircut_bp = haircut, cl_backing = pf,
      cl_backing_commitment = c\<rparr>"
proof -
  from assms obtain lendable owed pf c where h: "\<not> 10000 \<le> haircut"
    and l: "checked_mul col (10000 - haircut) = Some lendable" and o: "checked_mul cap 10000 = Some owed"
    and cov: "\<not> lendable < owed"
    and pf: "range_one P (key_gens (cc_key ctx)) backing_transcript (lendable - owed)
      (rl * scalar_u64 (10000 - haircut) - rc * scalar_u64 10000) (cc_bits ctx) BackingFailed CreditPanic = Ok (pf, c)"
    and line: "line = \<lparr>cl_handle = handle, cl_rail = rail, cl_cap_commitment = commit_u64 P (cc_key ctx) cap rc,
      cl_collateral_commitment = commit_u64 P (cc_key ctx) col rl, cl_haircut_bp = haircut, cl_backing = pf,
      cl_backing_commitment = c\<rparr>"
    by (auto simp: credit_grant_def Let_def)
  have scale: "unat haircut < 10000" "unat (10000 - haircut) = 10000 - unat haircut"
    using h by (simp_all add: unat_sub_le word_le_nat_alt)
  have "unat lendable = unat col * unat (10000 - haircut)" "unat owed = unat cap * 10000"
    "unat owed \<le> unat lendable" "unat (lendable - owed) = unat lendable - unat owed"
    using l o cov by (simp_all add: checked_simps not_less word_le_nat_alt unat_sub_le)
  with h scale pf line show thesis by (intro that)
qed

lemma credit_grant_covered:
  assumes "credit_grant P ctx handle rail cap rc col rl haircut = Ok line"
  shows "unat haircut < 10000 \<and> unat cap * 10000 \<le> unat col * (10000 - unat haircut)"
  by (rule credit_grantE [OF assms]) simp

lemma credit_grant_checks:
  assumes laws: "credit_laws P" and ok: "credit_grant P ctx handle rail cap rc col rl haircut = Ok line"
    and width: "range_width (cc_bits ctx)"
    and slack: "unat col * (10000 - unat haircut) - unat cap * 10000 < 2 ^ cc_bits ctx"
  shows "credit_check P ctx line = Ok ()"
proof -
  let ?scale = "10000 - haircut"
  from ok obtain lendable owed pf c where h: "\<not> 10000 \<le> haircut" and scale: "unat ?scale = 10000 - unat haircut"
    and n: "unat lendable = unat col * unat ?scale" "unat owed = unat cap * 10000" "unat owed \<le> unat lendable"
      "unat (lendable - owed) = unat lendable - unat owed"
    and pf: "range_one P (key_gens (cc_key ctx)) backing_transcript (lendable - owed)
      (rl * scalar_u64 ?scale - rc * scalar_u64 10000) (cc_bits ctx) BackingFailed CreditPanic = Ok (pf, c)"
    and line: "line = \<lparr>cl_handle = handle, cl_rail = rail, cl_cap_commitment = commit_u64 P (cc_key ctx) cap rc,
      cl_collateral_commitment = commit_u64 P (cc_key ctx) col rl, cl_haircut_bp = haircut, cl_backing = pf,
      cl_backing_commitment = c\<rparr>"
    by (rule credit_grantE)
  let ?C = "gens_commit P (key_gens (cc_key ctx)) (scalar_u64 (lendable - owed)) (rl * scalar_u64 ?scale - rc * scalar_u64 10000)"
  have "(of_nat (unat col * unat ?scale) :: 'b) = of_nat (unat (lendable - owed)) + of_nat (unat cap * 10000)"
    using n by (simp only: of_nat_add [symmetric]) simp
  then have sc: "scalar_u64 ?scale * scalar_u64 col - scalar_u64 10000 * scalar_u64 cap =
      (scalar_u64 (lendable - owed) :: 'b)"
    by (simp only: scalar_u64_def unat_10000 of_nat_mult) (simp only: algebra_simps add_diff_cancel)
  have combined: "smul P (scalar_u64 ?scale) (commit_u64 P (cc_key ctx) col rl) -
      smul P (scalar_u64 10000) (commit_u64 P (cc_key ctx) cap rc) = ?C"
    using laws by (simp only: commit_u64_def credit_laws_def commit_combination key_gens_commit sc mult.commute [of rl]
        mult.commute [of rc])
  have "unat (lendable - owed) < 2 ^ cc_bits ctx" using slack by (simp add: n scale)
  moreover have "range_complete P" using laws by (simp add: credit_laws_def)
  ultimately have "c = compress P ?C \<and> range_verify P (key_gens (cc_key ctx)) backing_transcript pf [c] (cc_bits ctx)"
    using range_one_exists [OF _ width] pf by (metis (no_types, lifting) result.inject(1) prod.inject)
  with combined h show ?thesis by (auto simp: credit_check_def line Let_def)
qed

lemma credit_check_backed:
  fixes P :: "('p::ab_group_add, 's::comm_ring_1) prims"
  assumes val: "algebraic_reading P (cc_key ctx) val" and wide: "wide_scalars TYPE('s) n"
    and ok: "credit_check P ctx line = Ok ()"
    and cap: "val (cl_cap_commitment line) = of_nat cap" and col: "val (cl_collateral_commitment line) = of_nat col"
    and small: "cap * 10000 + 2 ^ cc_bits ctx < 2 ^ n" "col * 10000 < 2 ^ n"
  shows "unat (cl_haircut_bp line) < 10000 \<and> cap * 10000 \<le> col * (10000 - unat (cl_haircut_bp line))"
proof -
  let ?h = "cl_haircut_bp line"
  let ?x = "smul P (scalar_u64 (10000 - ?h)) (cl_collateral_commitment line) - smul P (scalar_u64 10000) (cl_cap_commitment line)"
  from ok have h: "\<not> 10000 \<le> ?h" and c: "range_verify P (key_gens (cc_key ctx)) backing_transcript (cl_backing line)
      [compress P ?x] (cc_bits ctx)"
    by (auto simp: credit_check_def Let_def)
  then obtain v where v: "v < 2 ^ cc_bits ctx" "val ?x = of_nat v * val (gen_B (key_gens (cc_key ctx)))"
    using val_range [OF val c, of ?x] by (auto simp: key_gens_def)
  have scale: "unat (10000 - ?h) = 10000 - unat ?h" and hl: "unat ?h < 10000"
    using h by (simp_all add: unat_sub_le word_le_nat_alt)
  define A where "A = 10000 - unat ?h"
  have "val ?x = of_nat A * of_nat col - of_nat 10000 * of_nat cap"
    by (simp only: val_diff [OF val] val_smul [OF val] cap col scalar_u64_def scale A_def unat_10000)
  with v(2) have "(of_nat v :: 's) = of_nat A * of_nat col - of_nat 10000 * of_nat cap"
    by (simp only: key_gens_def pedersen_gens.simps val_g [OF val] mult_1_right)
  then have "(of_nat (cap * 10000 + v) :: 's) = of_nat (col * (10000 - unat ?h))"
    by (simp only: of_nat_add of_nat_mult A_def [symmetric]) (simp add: algebra_simps)
  moreover have "cap * 10000 + v < 2 ^ n" using small(1) v(1) by linarith
  moreover have "col * (10000 - unat ?h) < 2 ^ n"
    using small(2) by (meson diff_le_self le_less_trans mult_le_mono2)
  ultimately have "cap * 10000 + v = col * (10000 - unat ?h)" using wide by (blast dest: wide_scalarsD)
  then show ?thesis using hl by simp
qed

text \<open>
  C32: a credit line is backed. A line that is granted is covered by its haircut collateral,
  and passes the check if the width is one the range proofs have and the collateral exceeds
  the cap by an amount in range, as it always does at 64 bits; and any line that passes the check, from whoever it comes, has a
  cap of at most the haircut value of the collateral it commits to. A line granted against
  a valued pledge is covered at the price the quorum signed. Hypotheses: the amounts
  committed are small numbers.
\<close>

theorem credit_line_backed:
  fixes P :: "('p::ab_group_add, 's::comm_ring_1) prims"
  assumes laws: "credit_laws P" and val: "algebraic_reading P (cc_key ctx) val" and wide: "wide_scalars TYPE('s) n"
    and bits: "128 + cc_bits ctx < n"
  shows "(\<forall>handle rail cap rc col rl haircut line. credit_grant P ctx handle rail cap rc col rl haircut = Ok line \<longrightarrow>
      unat haircut < 10000 \<and> unat cap * 10000 \<le> unat col * (10000 - unat haircut) \<and>
      (range_width (cc_bits ctx) \<longrightarrow> unat col * (10000 - unat haircut) - unat cap * 10000 < 2 ^ cc_bits ctx \<longrightarrow>
        credit_check P ctx line = Ok ())) \<and>
    (\<forall>line cap col. credit_check P ctx line = Ok () \<and> cap < 2 ^ 64 \<and> col < 2 ^ 64 \<and>
      val (cl_cap_commitment line) = of_nat cap \<and> val (cl_collateral_commitment line) = of_nat col \<longrightarrow>
      unat (cl_haircut_bp line) < 10000 \<and> cap * 10000 \<le> col * (10000 - unat (cl_haircut_bp line))) \<and>
    (\<forall>handle rail cap rc pledge v rv haircut signed line q p.
      grant_against P ctx handle rail cap rc pledge v rv haircut signed = Ok line \<and> q < 2 ^ 64 \<and> p < 2 ^ 64 \<and>
      val (vc_quantity pledge) = of_nat q \<and> val signed = of_nat p \<longrightarrow>
      unat v = q * p \<and> unat cap * 10000 \<le> q * p * (10000 - unat haircut))"
proof (intro conjI allI impI; (elim conjE)?)
  have "(2 :: nat) ^ 128 \<le> 2 ^ n" using bits by (intro power_increasing) simp_all
  then have n: "(x :: nat) < 2 ^ 128 \<Longrightarrow> x < 2 ^ n" for x using less_le_trans by blast
  {
    fix handle rail cap rc col rl haircut line
    assume g: "credit_grant P ctx handle rail cap rc col rl haircut = Ok line"
    from credit_grant_covered [OF g] show "unat haircut < 10000"
      "unat cap * 10000 \<le> unat col * (10000 - unat haircut)" by simp_all
    assume "range_width (cc_bits ctx)" "unat col * (10000 - unat haircut) - unat cap * 10000 < 2 ^ cc_bits ctx"
    then show "credit_check P ctx line = Ok ()" by (rule credit_grant_checks [OF laws g])
  next
    fix line cap col
    assume a: "credit_check P ctx line = Ok ()" "cap < 2 ^ 64" "col < 2 ^ 64"
      "val (cl_cap_commitment line) = of_nat cap" "val (cl_collateral_commitment line) = of_nat col"
    have "(2 :: nat) ^ cc_bits ctx \<le> 2 ^ (n - 1)" "(2 :: nat) ^ 128 \<le> 2 ^ (n - 1)"
      using bits by (intro power_increasing; simp)+
    moreover have "(2 :: nat) ^ n = 2 * 2 ^ (n - 1)" using bits by (simp add: power_eq_if)
    moreover have "cap * 10000 < 2 ^ 128" "col * 10000 < 2 ^ 128" using a(2,3) by simp_all
    ultimately have "cap * 10000 + 2 ^ cc_bits ctx < 2 ^ n" "col * 10000 < 2 ^ n" by linarith+
    from credit_check_backed [OF val wide a(1,4,5) this] show "unat (cl_haircut_bp line) < 10000"
      "cap * 10000 \<le> col * (10000 - unat (cl_haircut_bp line))" by simp_all
  next
    fix handle rail cap rc pledge v rv haircut signed line q p
    assume a: "grant_against P ctx handle rail cap rc pledge v rv haircut signed = Ok line" "q < 2 ^ 64" "p < 2 ^ 64"
      "val (vc_quantity pledge) = of_nat q" "val signed = of_nat p"
    then have pv: "product_verify P (cc_key ctx) valuation_transcript (vc_quantity pledge) signed (vc_value pledge) (vc_proof pledge)"
      and v: "commit_u64 P (cc_key ctx) v rv = vc_value pledge"
      and g: "credit_grant P ctx handle rail cap rc v rv haircut = Ok line"
      by (auto simp: grant_against_def check_pledge_def)
    have "val (vc_value pledge) = of_nat (unat v)"
      using laws unfolding v [symmetric]
      by (simp add: credit_laws_def commit_u64_eq val_add [OF val] val_smul [OF val] val_g [OF val] val_h [OF val])
    with val_product_verify [OF val pv] a have "(of_nat (unat v) :: 's) = of_nat (q * p)" by simp
    moreover have "q * p < 2 ^ 128" using a(2,3) mult_strict_mono [of q "2 ^ 64" p "2 ^ 64"] by simp
    moreover have "unat v < 2 ^ 128" using unat_bound [of v] by simp
    ultimately show qp: "unat v = q * p" using wide n by (blast dest: wide_scalarsD)
    show "unat cap * 10000 \<le> q * p * (10000 - unat haircut)"
      using credit_grant_covered [OF g] by (simp add: qp)
  }
qed

definition demo_ctx :: "int credit_ctx" where
  "demo_ctx = credit_ctx_new plain_key 64"

theorem credit_line_backed_witness:
  "\<exists>line. credit_grant plain demo_ctx [1] [2] 90 3 100 4 1000 = Ok line \<and> credit_check plain demo_ctx line = Ok ()"
proof -
  have key: "algebraic_reading plain (cc_key demo_ctx) (\<lambda>x. x)" "128 + cc_bits demo_ctx < 200"
    using plain_reading by (simp_all add: demo_ctx_def credit_ctx_new_def)
  have "\<exists>line. credit_grant plain demo_ctx [1] [2] 90 3 100 4 1000 = Ok line"
    by (simp add: credit_grant_def demo_ctx_def credit_ctx_new_def checked_mul_def range_one_def plain_simps Let_def)
  then obtain line where line: "credit_grant plain demo_ctx [1] [2] 90 3 100 4 1000 = Ok line" ..
  have "range_width (cc_bits demo_ctx)"
    "unat (100 :: u64) * (10000 - unat (1000 :: u64)) - unat (90 :: u64) * 10000 < 2 ^ cc_bits demo_ctx"
    by (simp_all add: demo_ctx_def credit_ctx_new_def range_width_def)
  with line credit_line_backed [OF plain_credit_laws key(1) plain_wide key(2), THEN conjunct1] show ?thesis by blast
qed

section \<open>Writing a resolution down\<close>

type_synonym ('p, 's) tranche_op = "'p pedersen \<times> nat \<times> 'p resolution \<times> (nat \<Rightarrow> 's)"

fun tranche_step :: "('p::ab_group_add, 's) prims \<Rightarrow> 'p tranche_book \<Rightarrow> ('p, 's) tranche_op \<Rightarrow> 'p tranche_book option" where
  "tranche_step P b (key, bits, resolution, random) = result_ok (tranche_apply P b key bits resolution random)"

fun tranche_token :: "('p, 's) prims \<Rightarrow> ('p, 's) tranche_op \<Rightarrow> bytes option" where
  "tranche_token P (_, _, resolution, _) = Some (resolution_id P resolution)"

lemma tranche_applyD:
  assumes "tranche_apply P b key bits res random = Ok b'"
  shows "resolution_id P res \<notin> tb_applied b" "tb_applied b' = insert (resolution_id P res) (tb_applied b)"
    "waterfall_check P \<lparr>wf_key = key, wf_bits = bits, wf_tranches = tb_tranches b\<rparr> res random = Ok ()"
    "tb_tranches b' = waterfall_applied \<lparr>wf_key = key, wf_bits = bits, wf_tranches = tb_tranches b\<rparr> res"
  using assms by (auto simp: tranche_apply_def waterfall_new_def Let_def)

interpretation tranche_once: once_only "tranche_step P" "\<lambda>_. True" "tranche_token P" tb_applied
proof unfold_locales
  fix s a s' t
  assume step: "tranche_step P s a = Some s'"
  obtain key bits res random where a: "a = (key, bits, res, random)" by (cases a)
  with step have "tranche_apply P s key bits res random = Ok s'" by simp
  note d = tranche_applyD [OF this]
  show "tb_applied s \<subseteq> tb_applied s'" using d(2) by auto
  show "t \<notin> tb_applied s" "t \<in> tb_applied s'" if "tranche_token P a = Some t"
    using that d(1,2) by (simp_all add: a)
qed simp

text \<open>What an accepted loop over the draws established of each, in the values.\<close>

lemma check_draws_reading:
  fixes P :: "('p::ab_group_add, 's::idom) prims"
  assumes val: "algebraic_reading P (wf_key w) val"
    and ok: "check_draws P w random i over tds = Ok eqs" and batch: "batch_verify P bs" "set eqs \<subseteq> set bs"
  shows "\<forall>(t, d) \<in> set tds. \<exists>r < 2 ^ wf_bits w. val (tr_commitment t - dr_amount_commitment d) = of_nat r"
    and "\<forall>k < length tds. \<forall>o'. (if k = 0 then over else
        Some (tr_commitment (fst (tds ! (k - 1))) - dr_amount_commitment (snd (tds ! (k - 1))))) = Some o' \<longrightarrow>
        val o' = 0 \<or> val (dr_amount_commitment (snd (tds ! k))) = 0"
  using ok batch(2)
proof (induction tds arbitrary: i over eqs)
  case (Cons td tds)
  obtain t d where td: "td = (t, d)" by (cases td)
  let ?rem = "tr_commitment t - dr_amount_commitment d"
  {
    case 1
    then obtain eqs' where rest: "check_draws P w random (i + 1) (Some ?rem) tds = Ok eqs'" "set eqs' \<subseteq> set bs"
      and rv: "range_verify P (key_gens (wf_key w)) (within_transcript i) (dr_within d) [compress P ?rem] (wf_bits w)"
      by (auto simp: td Let_def split: option.splits)
    from val_range [OF val rv, of ?rem] have "\<exists>r < 2 ^ wf_bits w. val ?rem = of_nat r"
      by (simp add: key_gens_def val_g [OF val])
    with Cons.IH(1) [OF rest] show ?case by (auto simp: td)
  next
    case 2
    then obtain eqs' where rest: "check_draws P w random (i + 1) (Some ?rem) tds = Ok eqs'" "set eqs' \<subseteq> set bs"
      by (auto simp: td Let_def split: option.splits)
    have first: "val o' = 0 \<or> val (dr_amount_commitment d) = 0" if "over = Some o'" for o'
    proof -
      from 2 that obtain pf where "product_terms P (wf_key w) (order_transcript i) o' (dr_amount_commitment d) 0 pf (random i) \<in> set bs"
        by (auto simp: td Let_def split: option.splits)
      from val_product [OF val batch(1) this] have "val o' * val (dr_amount_commitment d) = 0"
        by (simp add: val_zero [OF val])
      then show ?thesis by simp
    qed
    show ?case
    proof (intro allI impI)
      fix k o'
      assume k: "k < length (td # tds)" and o': "(if k = 0 then over else
        Some (tr_commitment (fst ((td # tds) ! (k - 1))) - dr_amount_commitment (snd ((td # tds) ! (k - 1))))) = Some o'"
      show "val o' = 0 \<or> val (dr_amount_commitment (snd ((td # tds) ! k))) = 0"
      proof (cases k)
        case 0
        with o' first show ?thesis by (simp add: td)
      next
        case (Suc j)
        with k o' Cons.IH(2) [OF rest, rule_format, of j o'] show ?thesis
          by (cases j) (simp_all add: td)
      qed
    qed
  }
qed simp_all

text \<open>
  C31: a default is resolved once, and in order. Over any history of a tranche book no
  resolution is written down twice; and a resolution that is written down leaves every
  tranche a number in range, and draws on a tranche only when the one above it is left with
  nothing. Hypothesis for the second part: the proofs are sound.
\<close>

theorem resolved_once_in_order:
  fixes P :: "('p::ab_group_add, 's::idom) prims"
  assumes run: "run (tranche_step P) (tranche_book_new ts) ops = Some b"
    and last: "tranche_apply P b key bits res random = Ok b'" and val: "algebraic_reading P key val"
  shows "distinct (List.map_filter (tranche_token P) (ops @ [(key, bits, res, random)])) \<and>
    (\<forall>k < length (tb_tranches b'). (\<exists>r < 2 ^ bits. val (tr_commitment (tb_tranches b' ! k)) = of_nat r) \<and>
      (0 < k \<longrightarrow> val (dr_amount_commitment (re_draws res ! k)) = 0 \<or> val (tr_commitment (tb_tranches b' ! (k - 1))) = 0))"
proof (intro conjI)
  have "run (tranche_step P) (tranche_book_new ts) (ops @ [(key, bits, res, random)]) = Some b'"
    using run last by (simp add: run_append)
  then show "distinct (List.map_filter (tranche_token P) (ops @ [(key, bits, res, random)]))"
    using tranche_once.run_tokens_distinct by blast
  let ?w = "\<lparr>wf_key = key, wf_bits = bits, wf_tranches = tb_tranches b\<rparr>"
  note a = tranche_applyD [OF last]
  let ?tds = "zip (tb_tranches b) (re_draws res)"
  obtain eqs bs where c: "check_draws P ?w random 0 None ?tds = Ok eqs" "batch_verify P (eqs @ bs)"
    and len: "length (re_draws res) = length (tb_tranches b)"
    using a(3) by (auto simp: waterfall_check_def Let_def)
  have "algebraic_reading P (wf_key ?w) val" "set eqs \<subseteq> set (eqs @ bs)" using val by simp_all
  from check_draws_reading [OF this(1) c this(2)]
  have r: "\<forall>(t, d) \<in> set ?tds. \<exists>r < 2 ^ bits. val (tr_commitment t - dr_amount_commitment d) = of_nat r"
    "\<forall>k < length ?tds. \<forall>o'. (if k = 0 then None else
        Some (tr_commitment (fst (?tds ! (k - 1))) - dr_amount_commitment (snd (?tds ! (k - 1))))) = Some o' \<longrightarrow>
        val o' = 0 \<or> val (dr_amount_commitment (snd (?tds ! k))) = 0"
    by simp_all
  show "\<forall>k < length (tb_tranches b'). (\<exists>r < 2 ^ bits. val (tr_commitment (tb_tranches b' ! k)) = of_nat r) \<and>
      (0 < k \<longrightarrow> val (dr_amount_commitment (re_draws res ! k)) = 0 \<or> val (tr_commitment (tb_tranches b' ! (k - 1))) = 0)"
  proof (intro allI impI)
    fix k
    assume k: "k < length (tb_tranches b')"
    then have kl: "k < length ?tds" using len by (simp add: a(4) waterfall_applied_def)
    have tr: "tr_commitment (tb_tranches b' ! j) =
        tr_commitment (fst (?tds ! j)) - dr_amount_commitment (snd (?tds ! j))" if "j \<le> k" for j
      using that kl by (simp add: a(4) waterfall_applied_def)
    have "?tds ! k \<in> set ?tds" using kl by (rule nth_mem)
    with r(1) have "\<exists>r < 2 ^ bits. val (tr_commitment (tb_tranches b' ! k)) = of_nat r"
      unfolding tr [OF order_refl] by (force simp: split_beta)
    moreover have "val (dr_amount_commitment (re_draws res ! k)) = 0 \<or> val (tr_commitment (tb_tranches b' ! (k - 1))) = 0"
      if "0 < k"
      using r(2) [rule_format, OF kl, of "tr_commitment (tb_tranches b' ! (k - 1))"] that kl tr [of "k - 1"] by auto
    ultimately show "(\<exists>r < 2 ^ bits. val (tr_commitment (tb_tranches b' ! k)) = of_nat r) \<and>
      (0 < k \<longrightarrow> val (dr_amount_commitment (re_draws res ! k)) = 0 \<or> val (tr_commitment (tb_tranches b' ! (k - 1))) = 0)"
      by blast
  qed
qed

theorem resolved_once_in_order_witness:
  "\<exists>res b'. tranche_apply plain (tranche_book_new (wf_tranches demo_waterfall)) plain_key 64 res (\<lambda>_. 1) = Ok b' \<and>
    (\<forall>k < 2. \<exists>r < 2 ^ 64. tr_commitment (tb_tranches b' ! k) = int r)"
proof -
  let ?b = "tranche_book_new (wf_tranches demo_waterfall)"
  have turn: "length [30, 10 :: u64] = length (wf_tranches demo_waterfall)"
    "length [3, 4 :: int] = length (wf_tranches demo_waterfall)" "in_turn None (zip [30, 50] [30, 10 :: u64])"
    "unat (40 :: u64) < 2 ^ wf_bits demo_waterfall" "range_width (wf_bits demo_waterfall)"
    "commit_u64 plain (wf_key demo_waterfall) 40 7 -
      sum_list (map2 (commit_u64 plain (wf_key demo_waterfall)) [30, 10] [3, 4]) = ped_commit plain (wf_key demo_waterfall) 0 0"
    by (simp_all add: demo_waterfall_def commit_u64_def scalar_u64_def plain_simps plain_key_def range_width_def)
  obtain res where ok: "waterfall_check plain demo_waterfall res (\<lambda>_. 1) = Ok ()"
    using resolution_checks [OF plain_credit_laws demo_opened turn, of "\<lambda>_. 1"] by blast
  then have len: "length (re_draws res) = 2"
    using waterfall_check_length [OF ok] by (simp add: demo_waterfall_def)
  from ok obtain b' where b': "tranche_apply plain ?b plain_key 64 res (\<lambda>_. 1) = Ok b'"
    and tr: "tb_tranches b' = waterfall_applied demo_waterfall res"
    by (simp add: tranche_apply_def waterfall_new_def tranche_book_new_def demo_waterfall_def Let_def)
  have "run (tranche_step plain) ?b [] = Some ?b" by simp
  from resolved_once_in_order [OF this b' plain_reading] have
    "\<forall>k < length (tb_tranches b'). \<exists>r < 2 ^ 64. tr_commitment (tb_tranches b' ! k) = int r" by simp
  moreover have "length (tb_tranches b') = 2" using len by (simp add: tr waterfall_applied_def demo_waterfall_def)
  ultimately show ?thesis using b' by auto
qed

end
