(* ===== verification/Netting.thy ===== *)
theory Netting
  imports Credit Assets Zkpi
begin

text \<open>
  Netting cycles, \<open>rust/defmi/src/netting.rs\<close>: position books of commitments, orders with
  one leg per rail, the cycle that admits them and its close. A gross rail checks a cover
  proof on every leg; a net rail checks one coverage proof per handle at the close.
  Operations of the cycle return the new cycle with the outcome, since a refusal counts.
  Headrooms are integers, as the source computes them in \<open>i128\<close>.
\<close>

section \<open>Books, legs and orders\<close>

datatype mode = GrossGross | GrossNet | NetNet

definition mode_securities_net :: "mode \<Rightarrow> bool" where
  "mode_securities_net m \<longleftrightarrow> m = NetNet"

definition mode_cash_net :: "mode \<Rightarrow> bool" where
  "mode_cash_net m \<longleftrightarrow> m \<noteq> GrossGross"

fun mode_label :: "mode \<Rightarrow> bytes" where
  "mode_label GrossGross = ascii ''gross-gross''"
| "mode_label GrossNet = ascii ''gross-net''"
| "mode_label NetNet = ascii ''net-net''"

record 'p net_leg =
  nl_payer :: bytes
  nl_payee :: bytes
  nl_delta :: 'p
  nl_delta_link :: sigma_proof
  nl_cover :: "(range_proof \<times> bytes) option"

record 'p net_order =
  no_instruction :: "'p instruction"
  no_securities :: "'p net_leg"
  no_cash :: "'p net_leg"
  no_cash_reference :: 'p
  no_value_proof :: sigma_proof

record coverage =
  cv_handle :: bytes
  cv_proof :: range_proof
  cv_commitment :: bytes

record batch_attestation =
  ba_digest :: bytes
  ba_signature :: signature

definition attestation_message :: "bytes \<Rightarrow> bytes" where
  "attestation_message digest = ascii ''QOMM:DEFMI:BATCH-ATTESTATION:v1'' @ digest"

definition batch_sign :: "(key_purpose \<Rightarrow> bytes \<Rightarrow> signature option) \<Rightarrow> bytes \<Rightarrow> batch_attestation option" where
  "batch_sign sign digest = map_option (\<lambda>s. \<lparr>ba_digest = digest, ba_signature = s\<rparr>)
     (sign Attestation (attestation_message digest))"

record 'p position_book =
  pb_key :: "'p pedersen"
  pb_tag :: "'p blinded_tag"
  pb_net :: bool
  pb_rail :: bytes
  pb_bits :: nat
  pb_positions :: "(bytes, 'p) btree_map"
  pb_opening :: "(bytes, 'p) btree_map"
  pb_credit :: "(bytes, 'p credit_line) btree_map"

datatype netting_error =
  HandleAlreadyOpen \<comment> \<open>"that handle is already open in this book"\<close>
  | UnknownHandle \<comment> \<open>"unknown position handle"\<close>
  | OtherRail \<comment> \<open>"a cap for another rail does not relax this one"\<close>
  | CreditRefused credit_error
  | ShortOfCap \<comment> \<open>"the order would leave the position short of its cap"\<close>
  | HeadroomRange \<comment> \<open>"the headroom is beyond the range .."\<close>
  | CoverFailed \<comment> \<open>"the cover proof failed", "the coverage proof failed"\<close>
  | PaysItself \<comment> \<open>"a leg cannot pay itself"\<close>
  | NetCarriesCover \<comment> \<open>"a net rail must not carry a per-order cover proof"\<close>
  | GrossNeedsCover \<comment> \<open>"a gross rail needs a cover proof on every leg"\<close>
  | CoverElsewhere \<comment> \<open>"the cover proof is about another position"\<close>
  | GoesToWaterfall \<comment> \<open>"the net position is short of its cap at the close; .."\<close>
  | CoverageElsewhere \<comment> \<open>"the coverage proof is about another position"\<close>
  | PositionNotCovered \<comment> \<open>"the net position is not covered, even against its cap"\<close>
  | NoIdentity \<comment> \<open>"a cycle needs an identity; .."\<close>
  | AttestedNotNet \<comment> \<open>"a batch attestation replaces the per-trade instruction, .."\<close>
  | ModeDisagrees \<comment> \<open>"the mode and the books disagree about which rail nets"\<close>
  | NoQuorumKey \<comment> \<open>"an attested cycle needs the key ..", "an attested cycle needs the quorum's key"\<close>
  | CycleClosed \<comment> \<open>"the cycle is closed"\<close>
  | VenueRefused bytes
  | LegsDoNotMatch \<comment> \<open>"the legs do not match what the instruction says"\<close>
  | NeedsAttestation \<comment> \<open>"an attested cycle needs an attestation"\<close>
  | AttestsOther \<comment> \<open>"the attestation is for other positions"\<close>
  | NotSignedByQuorum \<comment> \<open>"the attestation is not signed by the quorum"\<close>
  | NotEveryCovered \<comment> \<open>"not every net position is covered"\<close>
  | NotConserved \<comment> \<open>"a rail does not conserve value"\<close>
  | NettingPanic

definition book_new ::
  "'p pedersen \<Rightarrow> 'p blinded_tag \<Rightarrow> bool \<Rightarrow> bytes \<Rightarrow> nat \<Rightarrow> ('p position_book, netting_error) result" where
  "book_new key tag net rail bits =
     and_then (ensure (bits = 8 \<or> bits = 16 \<or> bits = 32 \<or> bits = 64) NettingPanic) (\<lambda>_.
     Ok \<lparr>pb_key = key, pb_tag = tag, pb_net = net, pb_rail = rail, pb_bits = bits, pb_positions = bt_empty,
         pb_opening = bt_empty, pb_credit = bt_empty\<rparr>)"

definition book_tagged :: "'p position_book \<Rightarrow> 'p pedersen" where
  "book_tagged b = key_for (pb_tag b) (pb_key b)"

definition book_gens :: "'p position_book \<Rightarrow> 'p pedersen_gens" where
  "book_gens b = tag_gens (pb_tag b) (pb_key b)"

definition book_open :: "'p position_book \<Rightarrow> bytes \<Rightarrow> 'p \<Rightarrow> ('p position_book, netting_error) result" where
  "book_open b handle commitment =
     and_then (ensure (\<not> bt_contains (pb_opening b) handle) HandleAlreadyOpen) (\<lambda>_.
     Ok (b\<lparr>pb_positions := bt_insert handle commitment (pb_positions b),
           pb_opening := bt_insert handle commitment (pb_opening b)\<rparr>))"

definition book_balance :: "'p position_book \<Rightarrow> bytes \<Rightarrow> 'p option" where
  "book_balance b handle = bt_get (pb_positions b) handle"

definition book_handles :: "'p position_book \<Rightarrow> bytes list" where
  "book_handles b = bt_keys (pb_positions b)"

definition book_grant ::
  "('p::ab_group_add, 's::comm_ring_1) prims \<Rightarrow> 'p position_book \<Rightarrow> 'p credit_ctx \<Rightarrow> 'p credit_line
    \<Rightarrow> ('p position_book, netting_error) result" where
  "book_grant P b ctx line =
     and_then (ensure (bt_contains (pb_positions b) (cl_handle line)) UnknownHandle) (\<lambda>_.
     and_then (ensure (cl_rail line = pb_rail b) OtherRail) (\<lambda>_.
     and_then (map_err CreditRefused (credit_check P ctx line)) (\<lambda>_.
     Ok (b\<lparr>pb_credit := bt_insert (cl_handle line) line (pb_credit b)\<rparr>))))"

definition book_cap :: "'p::ab_group_add position_book \<Rightarrow> bytes \<Rightarrow> 'p" where
  "book_cap b handle = (case bt_get (pb_credit b) handle of Some l \<Rightarrow> cl_cap_commitment l | None \<Rightarrow> 0)"

definition cover_transcript :: "'p position_book \<Rightarrow> bytes \<Rightarrow> transcript" where
  "cover_transcript b payer = append_message (ascii ''payer'') payer
     (append_message (ascii ''rail'') (pb_rail b) (transcript_new (ascii ''qomm:cycle:cover'')))"

definition close_transcript :: "'p position_book \<Rightarrow> bytes \<Rightarrow> transcript" where
  "close_transcript b handle = append_message (ascii ''handle'') handle
     (append_message (ascii ''rail'') (pb_rail b) (transcript_new (ascii ''qomm:cycle:close'')))"

definition net_link_transcript :: "'p position_book \<Rightarrow> transcript" where
  "net_link_transcript b = append_message (ascii ''rail'') (pb_rail b) (transcript_new (ascii ''qomm:cycle:link''))"

definition build_leg ::
  "('p::ab_group_add, 's::comm_ring_1) prims \<Rightarrow> 'p position_book \<Rightarrow> bytes \<Rightarrow> bytes \<Rightarrow> u64 \<Rightarrow> 's \<Rightarrow> i64 \<Rightarrow> 's
    \<Rightarrow> 'p \<Rightarrow> 's \<Rightarrow> u64 \<Rightarrow> 's \<Rightarrow> ('p net_leg, netting_error) result" where
  "build_leg P b payer payee amount blinding position_value position_blinding reference reference_blinding
       cap_value cap_blinding = (
     let tagged = book_tagged b;
         delta = commit_u64 P tagged amount blinding;
         delta_link = same_value_prove P (pb_key b) (net_link_transcript b) (ped_g tagged) (ped_g (pb_key b))
           delta reference (scalar_u64 amount) blinding reference_blinding in
     and_then (if pb_net b then Ok None else
       let headroom = sint position_value - uint amount + uint cap_value in
       and_then (ensure (\<not> headroom < 0) ShortOfCap) (\<lambda>_.
       and_then (ensure (\<not> 2 ^ pb_bits b \<le> headroom) HeadroomRange) (\<lambda>_.
       let headroom_blinding = position_blinding - blinding + cap_blinding in
       and_then (range_one P (book_gens b) (cover_transcript b payer) (of_int headroom) headroom_blinding (pb_bits b)
         CoverFailed NettingPanic) (\<lambda>cover. Ok (Some cover))))) (\<lambda>cover.
     Ok \<lparr>nl_payer = payer, nl_payee = payee, nl_delta = delta, nl_delta_link = delta_link, nl_cover = cover\<rparr>))"

text \<open>The check returns the equation the leg adds to the batch.\<close>

definition book_check ::
  "('p::ab_group_add, 's) prims \<Rightarrow> 'p position_book \<Rightarrow> 'p net_leg \<Rightarrow> 'p \<Rightarrow> 's \<Rightarrow> (('p, 's) terms, netting_error) result" where
  "book_check P b leg reference weight =
     and_then (try_for_each (\<lambda>handle. ensure (bt_contains (pb_positions b) handle) UnknownHandle)
       [nl_payer leg, nl_payee leg]) (\<lambda>_.
     and_then (ensure (nl_payer leg \<noteq> nl_payee leg) PaysItself) (\<lambda>_.
     let tagged = book_tagged b;
         equation = same_value_terms P (pb_key b) (net_link_transcript b) (ped_g tagged) (ped_g (pb_key b))
           (nl_delta leg) reference (nl_delta_link leg) weight in
     and_then (case (nl_cover leg, pb_net b) of
         (Some _, True) \<Rightarrow> Err NetCarriesCover
       | (None, False) \<Rightarrow> Err GrossNeedsCover
       | (Some (proof, commitment), False) \<Rightarrow>
           and_then (ok_or (bt_get (pb_positions b) (nl_payer leg)) NettingPanic) (\<lambda>position.
           let expected = position - nl_delta leg + book_cap b (nl_payer leg) in
           and_then (ensure (commitment = compress P expected) CoverElsewhere) (\<lambda>_.
           ensure (range_verify P (book_gens b) (cover_transcript b (nl_payer leg)) proof [commitment] (pb_bits b))
             ShortOfCap))
       | (None, True) \<Rightarrow> Ok ()) (\<lambda>_.
     Ok equation)))"

definition book_apply :: "'p::ab_group_add position_book \<Rightarrow> 'p net_leg \<Rightarrow> ('p position_book, netting_error) result" where
  "book_apply b leg =
     and_then (ok_or (bt_get (pb_positions b) (nl_payer leg)) NettingPanic) (\<lambda>x.
     and_then (ok_or (bt_get (pb_positions b) (nl_payee leg)) NettingPanic) (\<lambda>y.
     Ok (b\<lparr>pb_positions := bt_insert (nl_payee leg) (y + nl_delta leg)
       (bt_insert (nl_payer leg) (x - nl_delta leg) (pb_positions b))\<rparr>)))"

definition build_coverage ::
  "('p::ab_group_add, 's::comm_ring_1) prims \<Rightarrow> 'p position_book \<Rightarrow> bytes \<Rightarrow> i64 \<Rightarrow> 's \<Rightarrow> u64 \<Rightarrow> 's
    \<Rightarrow> (coverage, netting_error) result" where
  "build_coverage P b handle v blinding cap_value cap_blinding = (
     let headroom = sint v + uint cap_value in
     and_then (ensure (\<not> headroom < 0) GoesToWaterfall) (\<lambda>_.
     and_then (ensure (\<not> 2 ^ pb_bits b \<le> headroom) HeadroomRange) (\<lambda>_.
     and_then (range_one P (book_gens b) (close_transcript b handle) (of_int headroom) (blinding + cap_blinding)
       (pb_bits b) CoverFailed NettingPanic) (\<lambda>(proof, commitment).
     Ok \<lparr>cv_handle = handle, cv_proof = proof, cv_commitment = commitment\<rparr>))))"

definition check_coverage ::
  "('p::ab_group_add, 's) prims \<Rightarrow> 'p position_book \<Rightarrow> coverage \<Rightarrow> (unit, netting_error) result" where
  "check_coverage P b c =
     and_then (ok_or (bt_get (pb_positions b) (cv_handle c)) UnknownHandle) (\<lambda>position.
     let expected = position + book_cap b (cv_handle c) in
     and_then (ensure (cv_commitment c = compress P expected) CoverageElsewhere) (\<lambda>_.
     ensure (range_verify P (book_gens b) (close_transcript b (cv_handle c)) (cv_proof c) [cv_commitment c] (pb_bits b))
       PositionNotCovered))"

definition book_conserved :: "'p::ab_group_add position_book \<Rightarrow> bool" where
  "book_conserved b \<longleftrightarrow> sum_list (bt_values (pb_positions b)) = sum_list (bt_values (pb_opening b))"

definition book_snapshot_input :: "('p, 's) prims \<Rightarrow> 'p position_book \<Rightarrow> bytes" where
  "book_snapshot_input P b = ascii ''QOMM:DEFMI:CYCLE:v1'' @ pb_rail b @
     concat (map (\<lambda>(handle, position). be32 (of_nat (length handle)) @ handle @ compress P position)
       (entries (pb_positions b)))"

definition book_snapshot :: "('p, 's) prims \<Rightarrow> 'p position_book \<Rightarrow> bytes" where
  "book_snapshot P b = sha256 P (book_snapshot_input P b)"

section \<open>The cycle\<close>

record ('p, 'v) cycle =
  cy_key :: "'p pedersen"
  cy_id :: bytes
  cy_mode :: mode
  cy_attest_batch :: bool
  cy_securities :: "'p position_book"
  cy_cash :: "'p position_book"
  cy_venue :: 'v
  cy_quorum :: "bytes option"
  cy_admitted :: nat
  cy_refused :: nat
  cy_closed :: bool

definition cycle_value_transcript :: transcript where
  "cycle_value_transcript = transcript_new (ascii ''qomm:cycle:value'')"

definition cycle_new ::
  "'p pedersen \<Rightarrow> bytes \<Rightarrow> mode \<Rightarrow> 'p position_book \<Rightarrow> 'p position_book \<Rightarrow> 'v \<Rightarrow> bool \<Rightarrow> bytes option
    \<Rightarrow> (('p, 'v) cycle, netting_error) result" where
  "cycle_new key ident mode securities cash venue attest_batch quorum =
     and_then (ensure (ident \<noteq> []) NoIdentity) (\<lambda>_.
     and_then (ensure (\<not> (attest_batch \<and> mode \<noteq> NetNet)) AttestedNotNet) (\<lambda>_.
     let (securities_net, cash_net) = (case mode of GrossGross \<Rightarrow> (False, False) | GrossNet \<Rightarrow> (False, True)
       | NetNet \<Rightarrow> (True, True)) in
     and_then (ensure (\<not> (pb_net securities \<noteq> securities_net \<or> pb_net cash \<noteq> cash_net)) ModeDisagrees) (\<lambda>_.
     and_then (ensure (\<not> (attest_batch \<and> quorum = None)) NoQuorumKey) (\<lambda>_.
     Ok \<lparr>cy_key = key, cy_id = ident, cy_mode = mode, cy_attest_batch = attest_batch, cy_securities = securities,
         cy_cash = cash, cy_venue = venue, cy_quorum = quorum, cy_admitted = 0, cy_refused = 0, cy_closed = False\<rparr>))))"

text \<open>The two assignments of an order, as both ways of taking one make them.\<close>

definition apply_order :: "('p::ab_group_add, 'v) cycle \<Rightarrow> 'p net_order \<Rightarrow> (('p, 'v) cycle, netting_error) result" where
  "apply_order c order =
     and_then (book_apply (cy_securities c) (no_securities order)) (\<lambda>securities.
     and_then (book_apply (cy_cash c) (no_cash order)) (\<lambda>cash.
     Ok (c\<lparr>cy_securities := securities, cy_cash := cash\<rparr>)))"

definition accumulate :: "('p::ab_group_add, 'v) cycle \<Rightarrow> 'p net_order \<Rightarrow> ('p, 'v) cycle \<times> (unit, netting_error) result" where
  "accumulate c order =
     (case and_then (try_for_each (\<lambda>(book, leg).
           and_then (try_for_each (\<lambda>handle. ensure (book_balance book handle \<noteq> None) UnknownHandle)
             [nl_payer leg, nl_payee leg]) (\<lambda>_.
           ensure (nl_payer leg \<noteq> nl_payee leg) PaysItself))
         [(cy_securities c, no_securities order), (cy_cash c, no_cash order)])
         (\<lambda>_. apply_order c order) of
       Ok c' \<Rightarrow> (c'\<lparr>cy_admitted := cy_admitted c' + 1\<rparr>, Ok ())
     | Err e \<Rightarrow> (c, Err e))"

text \<open>The checks of \<open>admit\<close>, each of which counts a refusal when it fails.\<close>

definition order_checks ::
  "('p::ab_group_add, 's) prims \<Rightarrow> ('p, 'v) zkpi \<Rightarrow> ('p, 'v) cycle \<Rightarrow> 'p net_order \<Rightarrow> u64 \<Rightarrow> 's \<times> 's \<times> 's
    \<Rightarrow> (unit, netting_error) result" where
  "order_checks P Z c order now weights = (case weights of (w1, w2, w3) \<Rightarrow>
     and_then (map_err VenueRefused (venue_verify Z (cy_venue c) (no_instruction order) now)) (\<lambda>_.
     let first = product_terms P (cy_key c) cycle_value_transcript (i_price_commitment (no_instruction order))
           (i_amount_commitment (no_instruction order)) (no_cash_reference order) (no_value_proof order) w1 in
     and_then (book_check P (cy_securities c) (no_securities order) (i_amount_commitment (no_instruction order)) w2) (\<lambda>second.
     and_then (book_check P (cy_cash c) (no_cash order) (no_cash_reference order) w3) (\<lambda>third.
     ensure (batch_verify P [first, second, third]) LegsDoNotMatch))))"

definition cycle_admit ::
  "('p::ab_group_add, 's) prims \<Rightarrow> ('p, 'v) zkpi \<Rightarrow> ('p, 'v) cycle \<Rightarrow> 'p net_order \<Rightarrow> u64 \<Rightarrow> 's \<times> 's \<times> 's
    \<Rightarrow> ('p, 'v) cycle \<times> (unit, netting_error) result" where
  "cycle_admit P Z c order now weights =
     (if cy_closed c then (c, Err CycleClosed)
      else if cy_attest_batch c then accumulate c order
      else case order_checks P Z c order now weights of
        Err reason \<Rightarrow> (c\<lparr>cy_refused := cy_refused c + 1\<rparr>, Err reason)
      | Ok _ \<Rightarrow> (case apply_order c order of
          Err e \<Rightarrow> (c, Err e)
        | Ok c' \<Rightarrow> (case venue_settle Z (cy_venue c') (no_instruction order) now of
            Err e \<Rightarrow> (c', Err (VenueRefused e))
          | Ok venue \<Rightarrow> (c'\<lparr>cy_venue := venue, cy_admitted := cy_admitted c' + 1\<rparr>, Ok ()))))"

definition batch_digest_input :: "('p, 's) prims \<Rightarrow> ('p, 'v) cycle \<Rightarrow> bytes" where
  "batch_digest_input P c = ascii ''QOMM:DEFMI:CYCLE:v1:batch'' @ be64 (of_nat (length (cy_id c))) @ cy_id c @
     mode_label (cy_mode c) @ book_snapshot P (cy_securities c) @ book_snapshot P (cy_cash c) @
     be64 (of_nat (cy_admitted c))"

definition batch_digest :: "('p, 's) prims \<Rightarrow> ('p, 'v) cycle \<Rightarrow> bytes" where
  "batch_digest P c = sha256 P (batch_digest_input P c)"

definition cycle_close ::
  "('p::ab_group_add, 's) prims \<Rightarrow> ('p, 'v) cycle \<Rightarrow> coverage list \<Rightarrow> coverage list \<Rightarrow> batch_attestation option
    \<Rightarrow> (('p, 'v) cycle, netting_error) result" where
  "cycle_close P c securities_coverage cash_coverage attestation =
     and_then (if cy_attest_batch c then
         and_then (ok_or (cy_quorum c) NoQuorumKey) (\<lambda>quorum.
         case attestation of None \<Rightarrow> Err NeedsAttestation
         | Some a \<Rightarrow> if ba_digest a \<noteq> batch_digest P c then Err AttestsOther
             else ensure (hybrid_verify P Attestation quorum (attestation_message (ba_digest a)) (ba_signature a))
               NotSignedByQuorum)
       else Ok ()) (\<lambda>_.
     and_then (try_for_each (\<lambda>(book, coverage).
         if \<not> pb_net book then Ok ()
         else and_then (ensure (set (map cv_handle coverage) = set (book_handles book)) NotEveryCovered) (\<lambda>_.
           try_for_each (check_coverage P book) coverage))
       [(cy_securities c, securities_coverage), (cy_cash c, cash_coverage)]) (\<lambda>_.
     and_then (ensure (book_conserved (cy_securities c) \<and> book_conserved (cy_cash c)) NotConserved) (\<lambda>_.
     Ok (c\<lparr>cy_closed := True\<rparr>))))"

definition prove_cash_reference ::
  "('p, 's::comm_ring_1) prims \<Rightarrow> 'p pedersen \<Rightarrow> 'p \<Rightarrow> u64 \<Rightarrow> 's \<Rightarrow> u64 \<Rightarrow> 's \<Rightarrow> 's \<Rightarrow> sigma_proof" where
  "prove_cash_reference P key price_commitment price price_blinding quantity quantity_blinding cash_blinding =
     product_prove P key cycle_value_transcript price_commitment (scalar_u64 price) price_blinding (scalar_u64 quantity)
       quantity_blinding cash_blinding"

section \<open>What an accepted leg establishes\<close>

lemma book_checkD:
  assumes "book_check P b leg reference weight = Ok equation"
  shows "bt_contains (pb_positions b) (nl_payer leg)" "bt_contains (pb_positions b) (nl_payee leg)"
    "nl_payer leg \<noteq> nl_payee leg"
    "equation = same_value_terms P (pb_key b) (net_link_transcript b) (tag_point (pb_tag b)) (ped_g (pb_key b))
       (nl_delta leg) reference (nl_delta_link leg) weight"
    "nl_cover leg = None \<longleftrightarrow> pb_net b"
    "\<not> pb_net b \<Longrightarrow> \<exists>pf x. bt_get (pb_positions b) (nl_payer leg) = Some x \<and>
       range_verify P (book_gens b) (cover_transcript b (nl_payer leg)) pf
         [compress P (x - nl_delta leg + book_cap b (nl_payer leg))] (pb_bits b)"
  using assms
  by (auto simp: book_check_def Let_def book_tagged_def key_for_def with_value_generator_def
      split: option.splits bool.splits if_splits)

lemma book_apply_Ok:
  "bt_contains (pb_positions b) (nl_payer leg) \<Longrightarrow> bt_contains (pb_positions b) (nl_payee leg) \<Longrightarrow>
    book_apply b leg = Ok (b\<lparr>pb_positions := bt_insert (nl_payee leg) (the (bt_get (pb_positions b) (nl_payee leg)) + nl_delta leg)
      (bt_insert (nl_payer leg) (the (bt_get (pb_positions b) (nl_payer leg)) - nl_delta leg) (pb_positions b))\<rparr>)"
  by (auto simp: book_apply_def)

text \<open>A book whose positions and openings name the same handles and have the same sum.\<close>

definition book_inv :: "'p::ab_group_add position_book \<Rightarrow> bool" where
  "book_inv b \<longleftrightarrow> book_conserved b \<and> (\<forall>h. bt_get (pb_positions b) h = None \<longleftrightarrow> bt_get (pb_opening b) h = None)"

lemma book_conserved_sum: "book_conserved b \<longleftrightarrow> bt_sum (\<lambda>v. v) (pb_positions b) = bt_sum (\<lambda>v. v) (pb_opening b)"
  by (simp add: book_conserved_def bt_sum_def)

lemma book_new_inv: "book_new key tag net rail bits = Ok b \<Longrightarrow> book_inv b"
  by (auto simp: book_new_def book_inv_def book_conserved_def)

lemma book_open_inv:
  assumes inv: "book_inv b" and ok: "book_open b h x = Ok b'"
  shows "book_inv b'"
proof -
  from ok have new: "bt_get (pb_opening b) h = None"
    and b': "b' = b\<lparr>pb_positions := bt_insert h x (pb_positions b), pb_opening := bt_insert h x (pb_opening b)\<rparr>"
    by (auto simp: book_open_def)
  moreover from inv new have "bt_get (pb_positions b) h = None" by (auto simp: book_inv_def)
  ultimately show ?thesis using inv by (auto simp: book_inv_def book_conserved_sum bt_sum_insert_new)
qed

lemma book_apply_inv:
  assumes inv: "book_inv b" and ok: "book_apply b leg = Ok b'" and ne: "nl_payer leg \<noteq> nl_payee leg"
  shows "book_inv b'"
proof -
  from ok obtain x y where xy: "bt_get (pb_positions b) (nl_payer leg) = Some x" "bt_get (pb_positions b) (nl_payee leg) = Some y"
    and b': "b' = b\<lparr>pb_positions := bt_insert (nl_payee leg) (y + nl_delta leg)
      (bt_insert (nl_payer leg) (x - nl_delta leg) (pb_positions b))\<rparr>"
    by (auto simp: book_apply_def)
  have "bt_sum (\<lambda>v. v) (pb_positions b') = bt_sum (\<lambda>v. v) (pb_positions b)"
    using bt_balances.total_move_apart [OF xy ne, of "nl_delta leg"] by (simp add: b')
  moreover have "bt_get (pb_opening b) (nl_payer leg) \<noteq> None" "bt_get (pb_opening b) (nl_payee leg) \<noteq> None"
    using inv xy unfolding book_inv_def by (metis option.distinct(1))+
  ultimately show ?thesis using inv by (auto simp: book_inv_def book_conserved_sum b')
qed

lemma book_grant_inv: "book_inv b \<Longrightarrow> book_grant P b ctx line = Ok b' \<Longrightarrow> book_inv b'"
  by (auto simp: book_grant_def book_inv_def book_conserved_def)

section \<open>Histories of a cycle\<close>

datatype ('p, 's) cycle_op =
  Admit "'p net_order" u64 "'s \<times> 's \<times> 's"
  | Close "coverage list" "coverage list" "batch_attestation option"
  | OpenSecurities bytes 'p
  | OpenCash bytes 'p
  | GrantSecurities "'p credit_ctx" "'p credit_line"
  | GrantCash "'p credit_ctx" "'p credit_line"
  | ApplySecurities "'p net_leg"
  | ApplyCash "'p net_leg"

text \<open>What a call leaves behind, whether it was accepted or not.\<close>

definition kept_or :: "'a \<Rightarrow> ('a, 'e) result \<Rightarrow> 'a" where
  "kept_or x r = (case r of Ok y \<Rightarrow> y | Err _ \<Rightarrow> x)"

fun cycle_exec ::
  "('p::ab_group_add, 's::comm_ring_1) prims \<Rightarrow> ('p, 'v) zkpi \<Rightarrow> ('p, 'v) cycle \<Rightarrow> ('p, 's) cycle_op \<Rightarrow> ('p, 'v) cycle" where
  "cycle_exec P Z c (Admit order now ws) = fst (cycle_admit P Z c order now ws)"
| "cycle_exec P Z c (Close sc cc a) = kept_or c (cycle_close P c sc cc a)"
| "cycle_exec P Z c (OpenSecurities h x) = c\<lparr>cy_securities := kept_or (cy_securities c) (book_open (cy_securities c) h x)\<rparr>"
| "cycle_exec P Z c (OpenCash h x) = c\<lparr>cy_cash := kept_or (cy_cash c) (book_open (cy_cash c) h x)\<rparr>"
| "cycle_exec P Z c (GrantSecurities ctx l) = c\<lparr>cy_securities := kept_or (cy_securities c) (book_grant P (cy_securities c) ctx l)\<rparr>"
| "cycle_exec P Z c (GrantCash ctx l) = c\<lparr>cy_cash := kept_or (cy_cash c) (book_grant P (cy_cash c) ctx l)\<rparr>"
| "cycle_exec P Z c (ApplySecurities leg) = c\<lparr>cy_securities := kept_or (cy_securities c) (book_apply (cy_securities c) leg)\<rparr>"
| "cycle_exec P Z c (ApplyCash leg) = c\<lparr>cy_cash := kept_or (cy_cash c) (book_apply (cy_cash c) leg)\<rparr>"

text \<open>
  The books are public fields of the cycle and \<open>PositionBook::apply\<close> is public. It does not
  refuse a leg that pays itself, which only \<open>check\<close> and \<open>accumulate\<close> do.
\<close>

fun pays_apart :: "('p, 's) cycle_op \<Rightarrow> bool" where
  "pays_apart (ApplySecurities leg) \<longleftrightarrow> nl_payer leg \<noteq> nl_payee leg"
| "pays_apart (ApplyCash leg) \<longleftrightarrow> nl_payer leg \<noteq> nl_payee leg"
| "pays_apart _ \<longleftrightarrow> True"

definition cycle_inv :: "('p::ab_group_add, 'v) cycle \<Rightarrow> bool" where
  "cycle_inv c \<longleftrightarrow> book_inv (cy_securities c) \<and> book_inv (cy_cash c)"

lemma kept_or_inv: "I x \<Longrightarrow> (\<And>y. r = Ok y \<Longrightarrow> I y) \<Longrightarrow> I (kept_or x r)"
  by (cases r) (simp_all add: kept_or_def)

lemma apply_order_inv:
  assumes "cycle_inv c" "apply_order c order = Ok c'"
    "nl_payer (no_securities order) \<noteq> nl_payee (no_securities order)" "nl_payer (no_cash order) \<noteq> nl_payee (no_cash order)"
  shows "cycle_inv c'"
  using assms by (auto simp: apply_order_def cycle_inv_def intro: book_apply_inv)

text \<open>An order whose checks pass is applied: nothing panics after them.\<close>

lemma order_checksD:
  assumes "order_checks P Z c order now (w1, w2, w3) = Ok ()"
  obtains e2 e3 where "venue_verify Z (cy_venue c) (no_instruction order) now = Ok ()"
    "book_check P (cy_securities c) (no_securities order) (i_amount_commitment (no_instruction order)) w2 = Ok e2"
    "book_check P (cy_cash c) (no_cash order) (no_cash_reference order) w3 = Ok e3"
    "batch_verify P [product_terms P (cy_key c) cycle_value_transcript (i_price_commitment (no_instruction order))
       (i_amount_commitment (no_instruction order)) (no_cash_reference order) (no_value_proof order) w1, e2, e3]"
  using assms by (auto simp: order_checks_def Let_def)

lemma apply_order_Ok:
  assumes "bt_contains (pb_positions (cy_securities c)) (nl_payer (no_securities order))"
    "bt_contains (pb_positions (cy_securities c)) (nl_payee (no_securities order))"
    "bt_contains (pb_positions (cy_cash c)) (nl_payer (no_cash order))"
    "bt_contains (pb_positions (cy_cash c)) (nl_payee (no_cash order))"
  shows "\<exists>s' k'. book_apply (cy_securities c) (no_securities order) = Ok s' \<and>
    book_apply (cy_cash c) (no_cash order) = Ok k' \<and> apply_order c order = Ok (c\<lparr>cy_securities := s', cy_cash := k'\<rparr>)"
  using assms by (auto simp: apply_order_def book_apply_def)

lemma admit_inv:
  assumes inv: "cycle_inv c"
  shows "cycle_inv (fst (cycle_admit P Z c order now ws))"
proof -
  consider (closed) "cy_closed c" | (attested) "\<not> cy_closed c" "cy_attest_batch c"
    | (checked) "\<not> cy_closed c" "\<not> cy_attest_batch c" by blast
  then show ?thesis
  proof cases
    case attested
    then show ?thesis
      using inv apply_order_inv [OF inv, of order]
      by (auto simp: cycle_admit_def accumulate_def cycle_inv_def split: result.splits)
  next
    case checked
    show ?thesis
    proof (cases "order_checks P Z c order now ws")
      case (Ok u)
      obtain w1 w2 w3 where ws: "ws = (w1, w2, w3)" by (cases ws)
      from Ok order_checksD [of P Z c order now w1 w2 w3]
      have "nl_payer (no_securities order) \<noteq> nl_payee (no_securities order)" "nl_payer (no_cash order) \<noteq> nl_payee (no_cash order)"
        unfolding ws by (metis book_checkD(3) old.unit.exhaust)+
      from apply_order_inv [OF inv _ this] checked Ok inv show ?thesis
        by (auto simp: cycle_admit_def cycle_inv_def split: result.splits)
    qed (use inv checked in \<open>simp add: cycle_admit_def cycle_inv_def\<close>)
  qed (use inv in \<open>simp add: cycle_admit_def\<close>)
qed

lemma kept_open: "book_inv b \<Longrightarrow> book_inv (kept_or b (book_open b h x))"
  by (rule kept_or_inv [of book_inv]) (auto intro: book_open_inv)

lemma kept_grant: "book_inv b \<Longrightarrow> book_inv (kept_or b (book_grant P b ctx l))"
  by (rule kept_or_inv [of book_inv]) (auto intro: book_grant_inv)

lemma kept_apply: "book_inv b \<Longrightarrow> nl_payer leg \<noteq> nl_payee leg \<Longrightarrow> book_inv (kept_or b (book_apply b leg))"
  by (rule kept_or_inv [of book_inv]) (auto intro: book_apply_inv)

text \<open>A leg that pays itself leaves the book with its amount in excess.\<close>

lemma apply_self:
  assumes inv: "book_inv b" and open_: "bt_contains (pb_positions b) (nl_payer leg)" and self: "nl_payee leg = nl_payer leg"
  shows "\<exists>b'. book_apply b leg = Ok b' \<and> pb_opening b' = pb_opening b \<and>
    bt_sum (\<lambda>v. v) (pb_positions b') = nl_delta leg + bt_sum (\<lambda>v. v) (pb_opening b)"
proof -
  from open_ obtain x where x: "bt_get (pb_positions b) (nl_payer leg) = Some x" by auto
  then have "book_apply b leg = Ok (b\<lparr>pb_positions := bt_insert (nl_payer leg) (x + nl_delta leg) (pb_positions b)\<rparr>)"
    by (simp add: book_apply_def self)
  with bt_balances.total_add [OF x, of "nl_delta leg"] inv show ?thesis
    by (simp add: book_inv_def book_conserved_sum)
qed

lemma cycle_close_state: "cycle_close P c sc cc a = Ok c' \<Longrightarrow> c' = c\<lparr>cy_closed := True\<rparr>"
  by (simp add: cycle_close_def)

lemma cycle_exec_inv:
  assumes "cycle_inv c" "pays_apart op"
  shows "cycle_inv (cycle_exec P Z c op)"
proof (cases op)
  case (Close sc cc a)
  have "cycle_inv (kept_or c (cycle_close P c sc cc a))"
    by (rule kept_or_inv [of cycle_inv]) (use assms in \<open>auto simp: cycle_inv_def dest!: cycle_close_state\<close>)
  with Close show ?thesis by simp
next
  case (Admit order now ws)
  with assms show ?thesis by (simp add: admit_inv)
qed (use assms in \<open>simp_all add: cycle_inv_def kept_open kept_grant kept_apply\<close>)

lemma cycle_history_inv:
  "cycle_inv c \<Longrightarrow> list_all pays_apart ops \<Longrightarrow> cycle_inv (fold (\<lambda>op c. cycle_exec P Z c op) ops c)"
  by (induction ops arbitrary: c) (simp_all add: cycle_exec_inv)

lemma close_conserved:
  "cycle_close P c sc cc a = Ok c' \<Longrightarrow> book_conserved (cy_securities c) \<and> book_conserved (cy_cash c)"
  by (simp add: cycle_close_def)

lemma excess_not_closed:
  assumes "cycle_inv c" "nl_payee leg = nl_payer leg" "nl_delta leg \<noteq> 0"
    and "op = ApplySecurities leg \<and> bt_contains (pb_positions (cy_securities c)) (nl_payer leg) \<or>
      op = ApplyCash leg \<and> bt_contains (pb_positions (cy_cash c)) (nl_payer leg)"
  shows "cycle_close P (cycle_exec P Z c op) sc cc a \<noteq> Ok c'"
proof -
  have "\<not> book_conserved (kept_or b (book_apply b leg))"
    if "book_inv b" "bt_contains (pb_positions b) (nl_payer leg)" for b
    using apply_self [OF that assms(2)] assms(3) by (auto simp: kept_or_def book_conserved_sum)
  with assms(1,4) have "\<not> (book_conserved (cy_securities (cycle_exec P Z c op)) \<and> book_conserved (cy_cash (cycle_exec P Z c op)))"
    unfolding cycle_inv_def by auto
  then show ?thesis using close_conserved by blast
qed

lemma try_for_each_Err: "try_for_each f xs = Err e \<Longrightarrow> \<exists>x \<in> set xs. f x = Err e"
  by (induction xs) (auto simp: and_then_Err)

lemma close_not_conserved:
  assumes "cycle_close P c sc cc a = Err NotConserved"
  shows "\<not> (book_conserved (cy_securities c) \<and> book_conserved (cy_cash c))"
proof -
  have "check_coverage P b x \<noteq> Err NotConserved" for b x
    by (auto simp: check_coverage_def and_then_Err Let_def)
  then have cov: "try_for_each (check_coverage P b) xs \<noteq> Err NotConserved" for b xs
    using try_for_each_Err by fastforce
  show ?thesis
  proof (rule ccontr)
    assume "\<not> ?thesis"
    with assms have "try_for_each (\<lambda>(book, coverage).
         if \<not> pb_net book then Ok ()
         else and_then (ensure (set (map cv_handle coverage) = set (book_handles book)) NotEveryCovered) (\<lambda>_.
           try_for_each (check_coverage P book) coverage)) [(cy_securities c, sc), (cy_cash c, cc)] = Err NotConserved"
      unfolding cycle_close_def and_then_Err ensure_Err by (auto simp: and_then_Err split: if_splits option.splits)
    from try_for_each_Err [OF this] cov show False
      by (auto simp: and_then_Err split: if_splits)
  qed
qed

section \<open>Properties\<close>

text \<open>
  C11: netting conserves value. Start a cycle on two fresh books and make any calls on it
  and on its books, accepted or refused, attested or not, provided no leg that pays itself
  is applied to a book directly. Then on each rail the positions sum to the opening
  positions and the same handles are open in both, and a close is never refused because a
  rail does not conserve. The proviso is needed, for \<open>PositionBook::apply\<close> has no such
  check: applied to an open handle, a leg that pays itself a commitment other than zero
  leaves a cycle that no close accepts.
\<close>

theorem cycle_conserves:
  assumes books: "book_new key tag net rail bits = Ok securities" "book_new key tag' net' rail' bits' = Ok cash"
    and start: "cycle_new key ident m securities cash venue attest quorum = Ok c0"
    and apart: "list_all pays_apart ops"
  shows "let c = fold (\<lambda>op c. cycle_exec P Z c op) ops c0 in
    book_conserved (cy_securities c) \<and> book_conserved (cy_cash c) \<and>
    set (bt_keys (pb_positions (cy_securities c))) = set (bt_keys (pb_opening (cy_securities c))) \<and>
    set (bt_keys (pb_positions (cy_cash c))) = set (bt_keys (pb_opening (cy_cash c))) \<and>
    (\<forall>sc cc a. cycle_close P c sc cc a \<noteq> Err NotConserved) \<and>
    (\<forall>leg op. nl_payee leg = nl_payer leg \<and> nl_delta leg \<noteq> 0 \<and>
      (op = ApplySecurities leg \<and> bt_contains (pb_positions (cy_securities c)) (nl_payer leg) \<or>
       op = ApplyCash leg \<and> bt_contains (pb_positions (cy_cash c)) (nl_payer leg)) \<longrightarrow>
      (\<forall>sc cc a c'. cycle_close P (cycle_exec P Z c op) sc cc a \<noteq> Ok c'))"
proof -
  have "cy_securities c0 = securities" "cy_cash c0 = cash"
    using start by (auto simp: cycle_new_def Let_def split: mode.splits)
  then have "cycle_inv c0" using books by (simp add: cycle_inv_def book_new_inv)
  then have inv: "cycle_inv (fold (\<lambda>op c. cycle_exec P Z c op) ops c0)" using apart by (rule cycle_history_inv)
  have nc: "cycle_close P c sc cc a \<noteq> Err NotConserved" if "cycle_inv c" for c sc cc and a :: "batch_attestation option"
    using that close_not_conserved unfolding cycle_inv_def book_inv_def by blast
  have keys: "set (bt_keys (pb_positions b)) = set (bt_keys (pb_opening b))" if "book_inv b" for b :: "'a position_book"
    using that by (auto simp: book_inv_def bt_keys_iff set_eq_iff)
  define c where "c = fold (\<lambda>op c. cycle_exec P Z c op) ops c0"
  note inv = inv [folded c_def]
  from inv have b: "book_inv (cy_securities c)" "book_inv (cy_cash c)" by (simp_all add: cycle_inv_def)
  then have "book_conserved (cy_securities c)" "book_conserved (cy_cash c)" by (simp_all add: book_inv_def)
  moreover have "\<forall>sc cc a. cycle_close P c sc cc a \<noteq> Err NotConserved" using nc [OF inv] by blast
  moreover have "\<forall>leg op. nl_payee leg = nl_payer leg \<and> nl_delta leg \<noteq> 0 \<and>
      (op = ApplySecurities leg \<and> bt_contains (pb_positions (cy_securities c)) (nl_payer leg) \<or>
       op = ApplyCash leg \<and> bt_contains (pb_positions (cy_cash c)) (nl_payer leg)) \<longrightarrow>
      (\<forall>sc cc a c'. cycle_close P (cycle_exec P Z c op) sc cc a \<noteq> Ok c')"
    using excess_not_closed [OF inv] by blast
  ultimately show ?thesis
    unfolding Let_def c_def [symmetric] by (intro conjI keys b)
qed

definition demo_tag :: "int blinded_tag" where
  "demo_tag = \<lparr>tag_point = 1, tag_membership = None\<rparr>"

definition demo_book :: "bool \<Rightarrow> bytes \<Rightarrow> (bytes, int) btree_map \<Rightarrow> int position_book" where
  "demo_book net rail m = \<lparr>pb_key = plain_key, pb_tag = demo_tag, pb_net = net, pb_rail = rail, pb_bits = 64,
     pb_positions = m, pb_opening = m, pb_credit = bt_empty\<rparr>"

definition demo_positions :: "(bytes, int) btree_map" where
  "demo_positions = bt_insert [1] 100 (bt_insert [2] 0 (bt_insert [3] 0 bt_empty))"

definition demo_cycle :: "mode \<Rightarrow> (int, bytes set) cycle" where
  "demo_cycle m = \<lparr>cy_key = plain_key, cy_id = [7], cy_mode = m, cy_attest_batch = False,
     cy_securities = demo_book (mode_securities_net m) (ascii ''securities'') demo_positions,
     cy_cash = demo_book (mode_cash_net m) (ascii ''cash'') demo_positions,
     cy_venue = {}, cy_quorum = None, cy_admitted = 0, cy_refused = 0, cy_closed = False\<rparr>"

definition demo_net_instruction :: "int instruction" where
  "demo_net_instruction = \<lparr>i_payer_handle = 1, i_payee_handle = 2, i_asset_commitment = 0, i_amount_commitment = 3,
     i_price_commitment = 7, i_nullifier = [9], i_deadline = 50, i_rest = []\<rparr>"

definition demo_net_leg :: "bytes \<Rightarrow> bytes \<Rightarrow> int \<Rightarrow> (range_proof \<times> bytes) option \<Rightarrow> int net_leg" where
  "demo_net_leg payer payee delta cover = \<lparr>nl_payer = payer, nl_payee = payee, nl_delta = delta, nl_delta_link = [],
     nl_cover = cover\<rparr>"

definition demo_order :: "(range_proof \<times> bytes) option \<Rightarrow> int net_order" where
  "demo_order cover = \<lparr>no_instruction = demo_net_instruction, no_securities = demo_net_leg [1] [2] 3 cover,
     no_cash = demo_net_leg [2] [1] 21 None, no_cash_reference = 21, no_value_proof = []\<rparr>"

lemmas demo_cycle_defs = demo_cycle_def demo_book_def demo_positions_def demo_order_def demo_net_leg_def demo_tag_def
  demo_net_instruction_def mode_securities_net_def mode_cash_net_def

lemma demo_checks:
  "order_checks plain plain_zkpi (demo_cycle GrossNet) (demo_order (Some ([], enc_int 97))) 5 (1, 1, 1) = Ok ()"
  "order_checks plain plain_zkpi (demo_cycle NetNet) (demo_order None) 5 (1, 1, 1) = Ok ()"
  by (simp_all add: order_checks_def book_check_def book_tagged_def key_for_def with_value_generator_def book_cap_def
      book_gens_def tag_gens_def demo_cycle_defs plain_simps plain_zkpi_simps plain_key_def plain_terms_def plain_same_def
      plain_product_def plain_in_range_def Let_def)

lemma admit_Ok:
  assumes "\<not> cy_closed c" "\<not> cy_attest_batch c" "order_checks P Z c order now ws = Ok ()" "venue_laws Z spent"
  shows "\<exists>s' k' v'. book_apply (cy_securities c) (no_securities order) = Ok s' \<and>
    book_apply (cy_cash c) (no_cash order) = Ok k' \<and> venue_settle Z (cy_venue c) (no_instruction order) now = Ok v' \<and>
    cycle_admit P Z c order now ws =
      (c\<lparr>cy_securities := s', cy_cash := k', cy_venue := v', cy_admitted := cy_admitted c + 1\<rparr>, Ok ())"
proof -
  obtain w1 w2 w3 where ws: "ws = (w1, w2, w3)" by (cases ws)
  obtain e2 e3 where c: "venue_verify Z (cy_venue c) (no_instruction order) now = Ok ()"
    "book_check P (cy_securities c) (no_securities order) (i_amount_commitment (no_instruction order)) w2 = Ok e2"
    "book_check P (cy_cash c) (no_cash order) (no_cash_reference order) w3 = Ok e3"
    using assms(3) unfolding ws by (rule order_checksD)
  from venue_lawsD(2) [OF assms(4) c(1)] obtain v' where "venue_settle Z (cy_venue c) (no_instruction order) now = Ok v'" by blast
  with apply_order_Ok [OF book_checkD(1,2) [OF c(2)] book_checkD(1,2) [OF c(3)]] assms(1-3) show ?thesis
    by (auto simp: cycle_admit_def)
qed

lemma admit_checked:
  assumes "\<not> cy_attest_batch c" "cycle_admit P Z c order now ws = (c', Ok ())"
  shows "\<not> cy_closed c \<and> order_checks P Z c order now ws = Ok ()"
  using assms by (auto simp: cycle_admit_def split: if_splits result.splits)

definition moved_leg :: "'p::ab_group_add position_book \<Rightarrow> 'p net_leg \<Rightarrow> 'p position_book \<Rightarrow> bool" where
  "moved_leg b leg b' \<longleftrightarrow> (\<exists>x y. bt_get (pb_positions b) (nl_payer leg) = Some x \<and> bt_get (pb_positions b) (nl_payee leg) = Some y \<and>
     b' = b\<lparr>pb_positions := bt_insert (nl_payee leg) (y + nl_delta leg)
       (bt_insert (nl_payer leg) (x - nl_delta leg) (pb_positions b))\<rparr>)"

lemma book_apply_moved: "book_apply b leg = Ok b' \<longleftrightarrow> moved_leg b leg b'"
  by (auto simp: book_apply_def moved_leg_def)

text \<open>The payer of a gross leg is covered after it: position and cap are a number in range.\<close>

lemma gross_covered:
  fixes P :: "('p::ab_group_add, 's::comm_ring_1) prims"
  assumes val: "algebraic_reading P (pb_key b) val" and tag: "val (tag_point (pb_tag b)) = 1"
    and ok: "book_check P b leg reference w = Ok e" "book_apply b leg = Ok b'" and gross: "\<not> pb_net b"
  shows "\<exists>x r. bt_get (pb_positions b') (nl_payer leg) = Some x \<and> r < 2 ^ pb_bits b \<and>
    val (x + book_cap b (nl_payer leg)) = of_nat r"
proof -
  obtain pf x where x: "bt_get (pb_positions b) (nl_payer leg) = Some x" and rv: "range_verify P (book_gens b)
      (cover_transcript b (nl_payer leg)) pf [compress P (x - nl_delta leg + book_cap b (nl_payer leg))] (pb_bits b)"
    using book_checkD(6) [OF ok(1) gross] by blast
  from val_range [OF val rv, of "x - nl_delta leg + book_cap b (nl_payer leg)"] obtain r where
    "r < 2 ^ pb_bits b" "val (x - nl_delta leg + book_cap b (nl_payer leg)) = of_nat r"
    by (auto simp: book_gens_def tag_gens_def tag)
  moreover have "bt_get (pb_positions b') (nl_payer leg) = Some (x - nl_delta leg)"
    using ok(2) x book_checkD(3) [OF ok(1)] by (auto simp: book_apply_def)
  ultimately show ?thesis by blast
qed

theorem cycle_conserves_witness:
  "\<exists>b c0. book_new plain_key demo_tag True [1] 64 = Ok b \<and> cycle_new plain_key [7] NetNet b b ({} :: bytes set) False None = Ok c0 \<and>
    book_conserved (cy_cash (fold (\<lambda>op c. cycle_exec plain plain_zkpi c op)
      [OpenCash [1] 5, OpenCash [2] 6, Admit (demo_order None) 0 (1, 1, 1), ApplyCash (demo_net_leg [1] [2] 4 None)] c0))"
proof -
  obtain b where b: "book_new plain_key demo_tag True [1] 64 = Ok b" "pb_net b" by (simp add: book_new_def)
  then obtain c0 where c0: "cycle_new plain_key [7] NetNet b b ({} :: bytes set) False None = Ok c0"
    by (simp add: cycle_new_def)
  have "list_all pays_apart [OpenCash [1] 5, OpenCash [2] 6, Admit (demo_order None) 0 (1, 1, 1 :: int),
      ApplyCash (demo_net_leg [1] [2] 4 None)]"
    by (simp add: demo_net_leg_def)
  from cycle_conserves [OF b(1) b(1) c0 this, where P = plain and Z = plain_zkpi, unfolded Let_def, THEN conjunct2,
      THEN conjunct1] b(1) c0 show ?thesis by blast
qed

text \<open>
  an admitted order moves what was instructed. In a cycle that is not attested an
  admitted order moves, from the payers to the payees its legs name, the instructed
  quantity of the security and quantity times price of cash, in the values of the
  commitments; it settles the instruction, whose nullifier was not settled before; and on
  a gross rail the payer's position together with its cap is left a number in range.
  Hypotheses: the proofs are sound, the venue behaves, the tags have the value of the
  generator.
\<close>

theorem admitted_order_moves:
  fixes P :: "('p::ab_group_add, 's::comm_ring_1) prims"
  assumes laws: "venue_laws Z spent" and val: "algebraic_reading P (cy_key c) val"
    and keys: "pb_key (cy_securities c) = cy_key c" "pb_key (cy_cash c) = cy_key c"
    and tags: "val (tag_point (pb_tag (cy_securities c))) = 1" "val (tag_point (pb_tag (cy_cash c))) = 1"
    and ok: "\<not> cy_attest_batch c" "cycle_admit P Z c order now ws = (c', Ok ())"
  shows "moved_leg (cy_securities c) (no_securities order) (cy_securities c') \<and>
    moved_leg (cy_cash c) (no_cash order) (cy_cash c') \<and>
    val (nl_delta (no_securities order)) = val (i_amount_commitment (no_instruction order)) \<and>
    val (nl_delta (no_cash order)) =
      val (i_price_commitment (no_instruction order)) * val (i_amount_commitment (no_instruction order)) \<and>
    i_nullifier (no_instruction order) \<notin> spent (cy_venue c) \<and>
    spent (cy_venue c') = insert (i_nullifier (no_instruction order)) (spent (cy_venue c)) \<and>
    cy_admitted c' = cy_admitted c + 1 \<and>
    (\<forall>(b, b', leg) \<in> {(cy_securities c, cy_securities c', no_securities order), (cy_cash c, cy_cash c', no_cash order)}.
      \<not> pb_net b \<longrightarrow> (\<exists>x r. bt_get (pb_positions b') (nl_payer leg) = Some x \<and> r < 2 ^ pb_bits b \<and>
        val (x + book_cap b (nl_payer leg)) = of_nat r))"
proof -
  obtain w1 w2 w3 where ws: "ws = (w1, w2, w3)" by (cases ws)
  let ?i = "no_instruction order"
  from admit_checked [OF ok] have open_: "\<not> cy_closed c" and oc: "order_checks P Z c order now ws = Ok ()" by simp_all
  obtain s' k' v' where ap: "book_apply (cy_securities c) (no_securities order) = Ok s'"
    "book_apply (cy_cash c) (no_cash order) = Ok k'" "venue_settle Z (cy_venue c) ?i now = Ok v'"
    and c': "c' = c\<lparr>cy_securities := s', cy_cash := k', cy_venue := v', cy_admitted := cy_admitted c + 1\<rparr>"
    using admit_Ok [OF open_ ok(1) oc laws] ok(2) by auto
  obtain e2 e3 where c: "venue_verify Z (cy_venue c) ?i now = Ok ()"
    "book_check P (cy_securities c) (no_securities order) (i_amount_commitment ?i) w2 = Ok e2"
    "book_check P (cy_cash c) (no_cash order) (no_cash_reference order) w3 = Ok e3"
    and batch: "batch_verify P [product_terms P (cy_key c) cycle_value_transcript (i_price_commitment ?i)
       (i_amount_commitment ?i) (no_cash_reference order) (no_value_proof order) w1, e2, e3]" (is "batch_verify P ?bs")
    using oc unfolding ws by (rule order_checksD)
  note g = val_g [OF val]
  have "val (no_cash_reference order) = val (i_price_commitment ?i) * val (i_amount_commitment ?i)"
    by (rule val_product [OF val batch]) (rule list.set_intros(1))
  moreover have "val (nl_delta (no_securities order)) = val (i_amount_commitment ?i)"
    using val_same_value [OF val batch] book_checkD(4) [OF c(2)] tags(1) g
    by (metis keys(1) list.set_intros(1,2) mult.right_neutral)
  moreover have "val (nl_delta (no_cash order)) = val (no_cash_reference order)"
    using val_same_value [OF val batch] book_checkD(4) [OF c(3)] tags(2) g
    by (metis keys(2) list.set_intros(1,2) mult.right_neutral)
  moreover note gross_covered [of P "cy_securities c" val, OF _ tags(1) c(2) ap(1)]
    gross_covered [of P "cy_cash c" val, OF _ tags(2) c(3) ap(2)]
  ultimately show ?thesis
    using val keys ap venue_lawsD(1) [OF laws c(1)] venue_lawsD(3) [OF laws ap(3)]
    by (simp add: c' book_apply_moved)
qed

theorem admitted_order_moves_witness:
  "\<exists>c'. cycle_admit plain plain_zkpi (demo_cycle GrossNet) (demo_order (Some ([], enc_int 97))) 5 (1, 1, 1) = (c', Ok ()) \<and>
    (\<exists>x r. bt_get (pb_positions (cy_securities c')) [1] = Some x \<and> r < 2 ^ 64 \<and> x = int r)"
proof -
  let ?c = "demo_cycle GrossNet" and ?o = "demo_order (Some ([], enc_int 97))"
  have c: "\<not> cy_closed ?c" "\<not> cy_attest_batch ?c" "cy_key ?c = plain_key" "pb_key (cy_securities ?c) = cy_key ?c"
    "pb_key (cy_cash ?c) = cy_key ?c" "tag_point (pb_tag (cy_securities ?c)) = 1" "tag_point (pb_tag (cy_cash ?c)) = 1"
    by (simp_all add: demo_cycle_defs)
  obtain c' where ok: "cycle_admit plain plain_zkpi ?c ?o 5 (1, 1, 1) = (c', Ok ())"
    using admit_Ok [OF c(1,2) demo_checks(1) plain_venue] by blast
  from admitted_order_moves [OF plain_venue plain_reading [folded c(3)] c(4-7) c(2) ok]
  have "\<not> pb_net (cy_securities ?c) \<longrightarrow> (\<exists>x r. bt_get (pb_positions (cy_securities c')) (nl_payer (no_securities ?o)) = Some x \<and>
      r < 2 ^ pb_bits (cy_securities ?c) \<and> x + book_cap (cy_securities ?c) (nl_payer (no_securities ?o)) = of_nat r)"
    by blast
  with ok show ?thesis by (simp add: demo_cycle_defs book_cap_def)
qed

text \<open>
  C33: on a netted rail anybody can be charged. Whenever a cycle whose rails both net
  admits an order, it also admits the order with the payer and payee of either leg
  replaced by any two open handles, and then moves the amounts between those: no check
  relates the handles of a leg to the parties the instruction names, and a net leg
  carries no proof of its payer.
\<close>

theorem net_payer_unbound:
  assumes laws: "venue_laws Z spent" and net: "pb_net (cy_securities c)" "pb_net (cy_cash c)"
    and ok: "cycle_admit P Z c order now ws = (c', Ok ())"
    and open_: "bt_contains (pb_positions (cy_securities c)) a" "bt_contains (pb_positions (cy_securities c)) b" "a \<noteq> b"
      "bt_contains (pb_positions (cy_cash c)) d" "bt_contains (pb_positions (cy_cash c)) e" "d \<noteq> e"
  shows "let forged = order\<lparr>no_securities := (no_securities order)\<lparr>nl_payer := a, nl_payee := b\<rparr>,
      no_cash := (no_cash order)\<lparr>nl_payer := d, nl_payee := e\<rparr>\<rparr> in
    \<exists>c''. cycle_admit P Z c forged now ws = (c'', Ok ()) \<and>
    moved_leg (cy_securities c) (no_securities forged) (cy_securities c'') \<and>
    moved_leg (cy_cash c) (no_cash forged) (cy_cash c'')"
proof (cases "cy_attest_batch c")
  case True
  have "\<not> cy_closed c" using ok by (auto simp: cycle_admit_def split: if_splits)
  with True open_ show ?thesis
    by (auto simp: cycle_admit_def accumulate_def book_balance_def apply_order_def book_apply_def moved_leg_def Let_def)
next
  case False
  define forged where "forged = order\<lparr>no_securities := (no_securities order)\<lparr>nl_payer := a, nl_payee := b\<rparr>,
    no_cash := (no_cash order)\<lparr>nl_payer := d, nl_payee := e\<rparr>\<rparr>"
  from admit_checked [OF False ok] have oc: "\<not> cy_closed c" "order_checks P Z c order now ws = Ok ()" by simp_all
  obtain w1 w2 w3 where ws: "ws = (w1, w2, w3)" by (cases ws)
  have same: "book_check P k (leg\<lparr>nl_payer := x, nl_payee := y\<rparr>) r w = Ok t"
    if "book_check P k leg r w = Ok t" "pb_net k" "bt_contains (pb_positions k) x" "bt_contains (pb_positions k) y" "x \<noteq> y"
    for k leg r w t x y
    using that by (auto simp: book_check_def Let_def split: option.splits bool.splits)
  have "order_checks P Z c forged now ws = Ok ()"
    using oc(2) same [OF _ net(1) open_(1-3)] same [OF _ net(2) open_(4-6)]
    by (auto simp: order_checks_def ws forged_def Let_def)
  from admit_Ok [OF oc(1) False this laws] show ?thesis
    unfolding Let_def forged_def [symmetric] by (auto simp: book_apply_moved)
qed

theorem net_payer_unbound_witness:
  "\<exists>c''. cycle_admit plain plain_zkpi (demo_cycle NetNet)
      ((demo_order None)\<lparr>no_securities := (no_securities (demo_order None))\<lparr>nl_payer := [3], nl_payee := [2]\<rparr>,
        no_cash := (no_cash (demo_order None))\<lparr>nl_payer := [3], nl_payee := [1]\<rparr>\<rparr>) 5 (1, 1, 1) = (c'', Ok ())"
proof -
  let ?c = "demo_cycle NetNet"
  have c: "\<not> cy_closed ?c" "\<not> cy_attest_batch ?c" "pb_net (cy_securities ?c)" "pb_net (cy_cash ?c)"
    "bt_contains (pb_positions (cy_securities ?c)) [3]" "bt_contains (pb_positions (cy_securities ?c)) [2]" "[3 :: u8] \<noteq> [2]"
    "bt_contains (pb_positions (cy_cash ?c)) [3]" "bt_contains (pb_positions (cy_cash ?c)) [1]" "[3 :: u8] \<noteq> [1]"
    by (simp_all add: demo_cycle_defs)
  obtain c' where ok: "cycle_admit plain plain_zkpi ?c (demo_order None) 5 (1, 1, 1) = (c', Ok ())"
    using admit_Ok [OF c(1,2) demo_checks(2) plain_venue] by blast
  from net_payer_unbound [OF plain_venue c(3,4) ok c(5-10)] show ?thesis unfolding Let_def by blast
qed

text \<open>
  C34: a cycle that closes is covered and stays closed. On every netted rail each open
  handle's position together with its cap is a number in range; an attested cycle carries
  the quorum's signature over the digest of its own identity, mode, positions and count;
  the close changes nothing else, and every later order is refused.
\<close>

theorem closed_cycle_covered:
  fixes P :: "('p::ab_group_add, 's::comm_ring_1) prims"
  assumes ok: "cycle_close P c sc cc a = Ok c'"
    and val: "algebraic_reading P (pb_key (cy_securities c)) val" "pb_key (cy_cash c) = pb_key (cy_securities c)"
    and tags: "val (tag_point (pb_tag (cy_securities c))) = 1" "val (tag_point (pb_tag (cy_cash c))) = 1"
  shows "c' = c\<lparr>cy_closed := True\<rparr> \<and> (\<forall>order now ws. cycle_admit P Z c' order now ws = (c', Err CycleClosed)) \<and>
    (\<forall>b \<in> {cy_securities c, cy_cash c}. pb_net b \<longrightarrow> (\<forall>h x. bt_get (pb_positions b) h = Some x \<longrightarrow>
      (\<exists>r < 2 ^ pb_bits b. val (x + book_cap b h) = of_nat r))) \<and>
    (cy_attest_batch c \<longrightarrow> (\<exists>quorum s. cy_quorum c = Some quorum \<and>
      hybrid_verify P Attestation quorum (attestation_message (batch_digest P c)) s))"
proof (intro conjI)
  show c': "c' = c\<lparr>cy_closed := True\<rparr>" using ok by (rule cycle_close_state)
  then show "\<forall>order now ws. cycle_admit P Z c' order now ws = (c', Err CycleClosed)"
    by (simp add: cycle_admit_def)
  show "cy_attest_batch c \<longrightarrow> (\<exists>quorum s. cy_quorum c = Some quorum \<and>
      hybrid_verify P Attestation quorum (attestation_message (batch_digest P c)) s)"
    using ok by (auto simp: cycle_close_def split: option.splits if_splits)
  have covered: "\<exists>r < 2 ^ pb_bits b. val (x + book_cap b h) = of_nat r"
    if "pb_net b" "set (map cv_handle cs) = set (book_handles b)" "\<forall>c \<in> set cs. check_coverage P b c = Ok ()"
      "bt_get (pb_positions b) h = Some x" "pb_key b = pb_key (cy_securities c)" "val (tag_point (pb_tag b)) = 1" for b cs h x
  proof -
    have "h \<in> set (book_handles b)" using that(4) by (simp add: book_handles_def bt_keys_iff)
    with that(2) have "h \<in> cv_handle ` set cs" by simp
    then obtain k where k: "k \<in> set cs" "cv_handle k = h" by blast
    with that(3,4) have "range_verify P (book_gens b) (close_transcript b h) (cv_proof k) [compress P (x + book_cap b h)] (pb_bits b)"
      by (auto simp: check_coverage_def Let_def)
    from val_range [OF val(1) this, of "x + book_cap b h"] show ?thesis
      using that(5,6) by (simp add: book_gens_def tag_gens_def)
  qed
  from ok have books: "\<forall>(b, cs) \<in> set [(cy_securities c, sc), (cy_cash c, cc)]. pb_net b \<longrightarrow>
      set (map cv_handle cs) = set (book_handles b) \<and> (\<forall>c \<in> set cs. check_coverage P b c = Ok ())"
    by (auto simp: cycle_close_def split: if_splits)
  then show "\<forall>b \<in> {cy_securities c, cy_cash c}. pb_net b \<longrightarrow> (\<forall>h x. bt_get (pb_positions b) h = Some x \<longrightarrow>
      (\<exists>r < 2 ^ pb_bits b. val (x + book_cap b h) = of_nat r))"
    using covered [of "cy_securities c" sc] covered [of "cy_cash c" cc] val(2) tags by auto
qed

definition demo_coverage :: "int position_book \<Rightarrow> coverage list" where
  "demo_coverage b = map (\<lambda>(h, x). \<lparr>cv_handle = h, cv_proof = [], cv_commitment = enc_int x\<rparr>) (entries (pb_positions b))"

theorem closed_cycle_covered_witness:
  "\<exists>c'. cycle_close plain (demo_cycle NetNet) (demo_coverage (cy_securities (demo_cycle NetNet)))
      (demo_coverage (cy_cash (demo_cycle NetNet))) None = Ok c' \<and>
    cycle_admit plain plain_zkpi c' (demo_order None) 5 (1, 1, 1) = (c', Err CycleClosed)"
proof -
  let ?c = "demo_cycle NetNet"
  obtain c' where ok: "cycle_close plain ?c (demo_coverage (cy_securities ?c)) (demo_coverage (cy_cash ?c)) None = Ok c'"
    by (simp add: cycle_close_def demo_coverage_def check_coverage_def book_handles_def bt_keys_def book_cap_def book_gens_def
        tag_gens_def book_conserved_def demo_cycle_defs bt_insert.rep_eq bt_empty.rep_eq plain_simps plain_key_def
        plain_in_range_def Let_def)
  have "algebraic_reading plain (pb_key (cy_securities ?c)) (\<lambda>x. x)" "pb_key (cy_cash ?c) = pb_key (cy_securities ?c)"
    "tag_point (pb_tag (cy_securities ?c)) = 1" "tag_point (pb_tag (cy_cash ?c)) = 1"
    using plain_reading by (simp_all add: demo_cycle_defs)
  from closed_cycle_covered [OF ok this] ok show ?thesis by blast
qed

end
