(* ===== verification/Ccp.thy ===== *)
theory Ccp
  imports Credit
begin

text \<open>
  Clearing, \<open>rust/defmi/src/ccp.rs\<close>: signed obligations, their novation to a house, the
  check that redoes it, net positions, the provider's waterfall and the registry that
  accepts a cleared cycle. A signer is a function with a public key. Messages keep their
  numbers; \<open>u32\<close> length prefixes wrap.
\<close>

section \<open>Obligations and novation\<close>

definition ccp_domain :: bytes where
  "ccp_domain = ascii ''QOMM:DEFMI:CCP:v1''"

record 'p obligation =
  ob_payer :: bytes
  ob_payee :: bytes
  ob_asset :: str
  ob_commitment :: 'p

definition obligation_body :: "('p, 's) prims \<Rightarrow> 'p obligation \<Rightarrow> bytes" where
  "obligation_body P ob = ccp_domain @ ascii '':obligation:'' @
     concat (map (\<lambda>part. be32 (of_nat (length part)) @ part) [ob_payer ob, ob_payee ob, as_bytes (ob_asset ob)]) @
     compress P (ob_commitment ob)"

record 'p signed_obligation =
  so_obligation :: "'p obligation"
  so_by_payer :: signature
  so_by_payee :: signature

record 'p novation =
  nv_house :: bytes
  nv_asset :: str
  nv_before :: "'p signed_obligation list"
  nv_after :: "'p obligation list"
  nv_owed_to_house :: 'p
  nv_owed_by_house :: 'p

definition novation_edges :: "'p novation \<Rightarrow> nat" where
  "novation_edges n = length (nv_before n)"

type_synonym signer = "key_purpose \<Rightarrow> bytes \<Rightarrow> signature option"

record clearing_provider =
  cp_name :: str
  cp_handle :: bytes
  cp_signing :: signer
  cp_public_key :: bytes

definition provider_new :: "str \<Rightarrow> bytes \<Rightarrow> signer \<Rightarrow> bytes \<Rightarrow> clearing_provider" where
  "provider_new name handle signing key = \<lparr>cp_name = name, cp_handle = handle, cp_signing = signing, cp_public_key = key\<rparr>"

datatype ccp_error =
  NothingToNovate \<comment> \<open>"nothing to novate"\<close>
  | MixedAssets \<comment> \<open>"an obligation graph is per asset"\<close>
  | SigningFailed \<comment> \<open>"hybrid clearing attestation signing failed" and its like\<close>
  | PayerDidNotSign \<comment> \<open>"the payer did not sign this"\<close>
  | PayeeDidNotSign \<comment> \<open>"the payee did not sign this"\<close>
  | DifferentHouse \<comment> \<open>"novated by a different house than the one being checked"\<close>
  | EdgeCount nat nat \<comment> \<open>".. edges became .., not .."\<close>
  | NotToHouse nat \<comment> \<open>"edge .. does not run from its payer to the house"\<close>
  | NotFromHouse nat \<comment> \<open>"edge .. does not run from the house to its payee"\<close>
  | ChangedAmount nat \<comment> \<open>"edge .. changed amount on the way through"\<close>
  | AnotherAsset nat \<comment> \<open>"edge .. is in another asset"\<close>
  | TotalsDiffer \<comment> \<open>"the published totals are not the totals of the edges"\<close>
  | NotFlat \<comment> \<open>"the house's book is not flat: .."\<close>
  | OtherTrades \<comment> \<open>"the attestation is over a different trade set"\<close>
  | NotSignedByProvider \<comment> \<open>"not signed by that provider"\<close>
  | NoOwnTranche \<comment> \<open>"no tranche of its own, .."\<close>
  | WaterfallForOther \<comment> \<open>"a waterfall built for .."\<close>
  | MarginElsewhere \<comment> \<open>"the margin is under another handle, .."\<close>
  | MarginUnbacked credit_error \<comment> \<open>"the margin's backing proof: .."\<close>
  | NotAdmitted \<comment> \<open>".. is not an admitted provider"\<close>
  | HandleNotRegistered \<comment> \<open>"novated under a handle this provider did not register"\<close>
  | UnknownPayerParty nat \<comment> \<open>"edge ..: the payer is not a known party"\<close>
  | UnknownPayeeParty nat \<comment> \<open>"edge ..: the payee is not a known party"\<close>
  | Disagreed nat ccp_error \<comment> \<open>"edge ..: .."\<close>
  | CcpPanic

definition to_house_edge :: "bytes \<Rightarrow> str \<Rightarrow> 'p signed_obligation \<Rightarrow> 'p obligation" where
  "to_house_edge house asset edge = \<lparr>ob_payer = ob_payer (so_obligation edge), ob_payee = house, ob_asset = asset,
     ob_commitment = ob_commitment (so_obligation edge)\<rparr>"

definition from_house_edge :: "bytes \<Rightarrow> str \<Rightarrow> 'p signed_obligation \<Rightarrow> 'p obligation" where
  "from_house_edge house asset edge = \<lparr>ob_payer = house, ob_payee = ob_payee (so_obligation edge), ob_asset = asset,
     ob_commitment = ob_commitment (so_obligation edge)\<rparr>"

definition novate :: "clearing_provider \<Rightarrow> 'p::ab_group_add signed_obligation list \<Rightarrow> ('p novation, ccp_error) result" where
  "novate provider edges = (case edges of [] \<Rightarrow> Err NothingToNovate | first # _ \<Rightarrow>
     let asset = ob_asset (so_obligation first) in
     and_then (ensure (\<not> list_ex (\<lambda>e. ob_asset (so_obligation e) \<noteq> asset) edges) MixedAssets) (\<lambda>_.
     let after = concat (map (\<lambda>e. [to_house_edge (cp_handle provider) asset e, from_house_edge (cp_handle provider) asset e]) edges);
         to_house = foldl (\<lambda>acc e. acc + ob_commitment (so_obligation e)) 0 edges;
         by_house = foldl (\<lambda>acc e. acc + ob_commitment (so_obligation e)) 0 edges in
     Ok \<lparr>nv_house = cp_handle provider, nv_asset = asset, nv_before = edges, nv_after = after,
         nv_owed_to_house = to_house, nv_owed_by_house = by_house\<rparr>))"

record attestation =
  ca_provider :: str
  ca_handle :: bytes
  ca_cycle :: bytes
  ca_digest :: bytes
  ca_signature :: signature
  ca_edges :: nat
  ca_asset :: str

definition attestation_digest :: "('p, 's) prims \<Rightarrow> 'p novation \<Rightarrow> bytes \<Rightarrow> bytes" where
  "attestation_digest P n cycle = sha256 P (ccp_domain @ ascii '':novation:'' @
     concat (map (\<lambda>field. be64 (of_nat (length field)) @ field) [cycle, nv_house n, as_bytes (nv_asset n)]) @
     concat (map (\<lambda>e. obligation_body P (so_obligation e)) (nv_before n)))"

definition provider_attest ::
  "('p, 's) prims \<Rightarrow> clearing_provider \<Rightarrow> 'p novation \<Rightarrow> bytes \<Rightarrow> (attestation, ccp_error) result" where
  "provider_attest P provider n cycle =
     (let digest = attestation_digest P n cycle in
     and_then (ok_or (cp_signing provider Attestation digest) SigningFailed) (\<lambda>signature.
     Ok \<lparr>ca_provider = cp_name provider, ca_handle = cp_handle provider, ca_cycle = cycle, ca_digest = digest,
         ca_signature = signature, ca_edges = novation_edges n, ca_asset = nv_asset n\<rparr>))"

definition sign_obligation ::
  "('p, 's) prims \<Rightarrow> 'p obligation \<Rightarrow> signer \<Rightarrow> signer \<Rightarrow> ('p signed_obligation, ccp_error) result" where
  "sign_obligation P ob payer payee =
     (let body = obligation_body P ob in
     and_then (ok_or (payer SettlementInstruction body) SigningFailed) (\<lambda>by_payer.
     and_then (ok_or (payee SettlementInstruction body) SigningFailed) (\<lambda>by_payee.
     Ok \<lparr>so_obligation = ob, so_by_payer = by_payer, so_by_payee = by_payee\<rparr>)))"

definition check_agreement ::
  "('p, 's) prims \<Rightarrow> 'p signed_obligation \<Rightarrow> bytes \<Rightarrow> bytes \<Rightarrow> (unit, ccp_error) result" where
  "check_agreement P edge payer payee =
     (let body = obligation_body P (so_obligation edge) in
     and_then (ensure (hybrid_verify P SettlementInstruction payer body (so_by_payer edge)) PayerDidNotSign) (\<lambda>_.
     ensure (hybrid_verify P SettlementInstruction payee body (so_by_payee edge)) PayeeDidNotSign))"

text \<open>The loop of the check; the two running totals are its state.\<close>

fun check_edges ::
  "bytes \<Rightarrow> 'p::ab_group_add novation \<Rightarrow> nat \<Rightarrow> 'p signed_obligation list \<Rightarrow> 'p \<Rightarrow> 'p \<Rightarrow> ('p \<times> 'p, ccp_error) result" where
  "check_edges house n index [] to_house by_house = Ok (to_house, by_house)"
| "check_edges house n index (edge # edges) to_house by_house = (
     let ob = so_obligation edge;
         first = nv_after n ! (2 * index);
         second = nv_after n ! (2 * index + 1) in
     and_then (ensure (\<not> (ob_payer first \<noteq> ob_payer ob \<or> ob_payee first \<noteq> house)) (NotToHouse index)) (\<lambda>_.
     and_then (ensure (\<not> (ob_payer second \<noteq> house \<or> ob_payee second \<noteq> ob_payee ob)) (NotFromHouse index)) (\<lambda>_.
     and_then (ensure (\<not> (ob_commitment first \<noteq> ob_commitment ob \<or> ob_commitment second \<noteq> ob_commitment ob))
       (ChangedAmount index)) (\<lambda>_.
     and_then (ensure (\<not> (ob_asset ob \<noteq> nv_asset n \<or> ob_asset first \<noteq> nv_asset n \<or> ob_asset second \<noteq> nv_asset n))
       (AnotherAsset index)) (\<lambda>_.
     check_edges house n (index + 1) edges (to_house + ob_commitment first) (by_house + ob_commitment second))))))"

definition check_novation :: "bytes \<Rightarrow> 'p::ab_group_add novation \<Rightarrow> (unit, ccp_error) result" where
  "check_novation house n =
     and_then (ensure (nv_house n = house) DifferentHouse) (\<lambda>_.
     and_then (ensure (length (nv_after n) = 2 * length (nv_before n)) (EdgeCount (length (nv_before n)) (length (nv_after n)))) (\<lambda>_.
     and_then (check_edges house n 0 (nv_before n) 0 0) (\<lambda>(to_house, by_house).
     and_then (ensure (\<not> (to_house \<noteq> nv_owed_to_house n \<or> by_house \<noteq> nv_owed_by_house n)) TotalsDiffer) (\<lambda>_.
     ensure (to_house = by_house) NotFlat))))"

definition check_attestation ::
  "('p, 's) prims \<Rightarrow> attestation \<Rightarrow> 'p novation \<Rightarrow> bytes \<Rightarrow> (unit, ccp_error) result" where
  "check_attestation P a n provider =
     and_then (ensure (ca_digest a = attestation_digest P n (ca_cycle a)) OtherTrades) (\<lambda>_.
     ensure (hybrid_verify P Attestation provider (ca_digest a) (ca_signature a)) NotSignedByProvider)"

definition add_position ::
  "'p::ab_group_add novation \<Rightarrow> 'p obligation \<Rightarrow> (bytes, 'p \<times> 'p) btree_map \<Rightarrow> (bytes, 'p \<times> 'p) btree_map" where
  "add_position n edge out =
     (if ob_payer edge = nv_house n
      then let slot = (case bt_get out (ob_payee edge) of Some s \<Rightarrow> s | None \<Rightarrow> (0, 0)) in
        bt_insert (ob_payee edge) (fst slot, snd slot + ob_commitment edge) out
      else let slot = (case bt_get out (ob_payer edge) of Some s \<Rightarrow> s | None \<Rightarrow> (0, 0)) in
        bt_insert (ob_payer edge) (fst slot + ob_commitment edge, snd slot) out)"

definition net_positions :: "'p::ab_group_add novation \<Rightarrow> (bytes, 'p \<times> 'p) btree_map" where
  "net_positions n = fold (add_position n) (nv_after n) bt_empty"

section \<open>The provider's waterfall and the registry\<close>

record 'p provider_waterfall =
  pw_provider :: str
  pw_tranches :: "'p tranche list"
  pw_own :: nat

definition for_provider :: "str \<Rightarrow> 'p \<Rightarrow> 'p \<Rightarrow> 'p \<Rightarrow> 'p \<Rightarrow> 'p provider_waterfall" where
  "for_provider provider defaulter_margin defaulter_fund provider_capital mutualised =
     \<lparr>pw_provider = provider,
      pw_tranches = [\<lparr>tr_name = provider @ lit '':defaulter margin'', tr_commitment = defaulter_margin\<rparr>,
        \<lparr>tr_name = provider @ lit '':defaulter fund contribution'', tr_commitment = defaulter_fund\<rparr>,
        \<lparr>tr_name = provider @ lit '':provider capital'', tr_commitment = provider_capital\<rparr>,
        \<lparr>tr_name = provider @ lit '':mutualised pool'', tr_commitment = mutualised\<rparr>],
      pw_own = 2\<rparr>"

definition own_capital :: "'p provider_waterfall \<Rightarrow> 'p tranche option" where
  "own_capital w = (if pw_own w < length (pw_tranches w) then Some (pw_tranches w ! pw_own w) else None)"

definition has_own_capital :: "'p provider_waterfall \<Rightarrow> bool" where
  "has_own_capital w \<longleftrightarrow> own_capital w \<noteq> None"

definition provider_waterfall_new :: "'p provider_waterfall \<Rightarrow> 'p pedersen \<Rightarrow> nat \<Rightarrow> ('p waterfall, credit_error) result" where
  "provider_waterfall_new w key bits = waterfall_new key (pw_tranches w) bits"

record 'p admitted =
  ad_handle :: bytes
  ad_identity :: bytes
  ad_margin :: "'p credit_line"
  ad_waterfall :: "'p provider_waterfall"

type_synonym 'p clearing_registry = "(str, 'p admitted) btree_map"

definition registry_admit ::
  "('p::ab_group_add, 's::comm_ring_1) prims \<Rightarrow> 'p clearing_registry \<Rightarrow> 'p credit_ctx \<Rightarrow> clearing_provider
    \<Rightarrow> 'p credit_line \<Rightarrow> 'p provider_waterfall \<Rightarrow> ('p clearing_registry, ccp_error) result" where
  "registry_admit P registry ctx provider margin w =
     and_then (ensure (has_own_capital w) NoOwnTranche) (\<lambda>_.
     and_then (ensure (pw_provider w = cp_name provider) WaterfallForOther) (\<lambda>_.
     and_then (ensure (cl_handle margin = cp_handle provider) MarginElsewhere) (\<lambda>_.
     and_then (map_err MarginUnbacked (credit_check P ctx margin)) (\<lambda>_.
     Ok (bt_insert (cp_name provider) \<lparr>ad_handle = cp_handle provider, ad_identity = cp_public_key provider,
       ad_margin = margin, ad_waterfall = w\<rparr> registry)))))"

definition registry_names :: "'p clearing_registry \<Rightarrow> str list" where
  "registry_names registry = bt_keys registry"

definition check_parties ::
  "('p, 's) prims \<Rightarrow> (bytes, bytes) btree_map \<Rightarrow> nat \<times> 'p signed_obligation \<Rightarrow> (unit, ccp_error) result" where
  "check_parties P parties = (\<lambda>(index, edge).
     and_then (ok_or (bt_get parties (ob_payer (so_obligation edge))) (UnknownPayerParty index)) (\<lambda>payer.
     and_then (ok_or (bt_get parties (ob_payee (so_obligation edge))) (UnknownPayeeParty index)) (\<lambda>payee.
     map_err (Disagreed index) (check_agreement P edge payer payee))))"

definition check_cycle ::
  "('p::ab_group_add, 's) prims \<Rightarrow> 'p clearing_registry \<Rightarrow> attestation \<Rightarrow> 'p novation \<Rightarrow> (bytes, bytes) btree_map
    \<Rightarrow> (unit, ccp_error) result" where
  "check_cycle P registry a n parties =
     and_then (ok_or (bt_get registry (ca_provider a)) NotAdmitted) (\<lambda>entry.
     and_then (ensure (ad_handle entry = nv_house n) HandleNotRegistered) (\<lambda>_.
     and_then (check_novation (ad_handle entry) n) (\<lambda>_.
     and_then (try_for_each (check_parties P parties) (enumerate 0 (nv_before n))) (\<lambda>_.
     check_attestation P a n (ad_identity entry)))))"

definition waterfall_for :: "'p clearing_registry \<Rightarrow> str \<Rightarrow> 'p provider_waterfall option" where
  "waterfall_for registry provider = map_option ad_waterfall (bt_get registry provider)"

definition margin_for :: "'p clearing_registry \<Rightarrow> str \<Rightarrow> 'p credit_line option" where
  "margin_for registry provider = map_option ad_margin (bt_get registry provider)"

section \<open>Default across providers\<close>

record default_across =
  da_member :: bytes
  da_per_provider :: "(str \<times> u64) list"

definition checked_total_shortfall :: "default_across \<Rightarrow> u64 option" where
  "checked_total_shortfall d = foldl (\<lambda>acc p. Option.bind acc (\<lambda>a. checked_add a (snd p))) (Some 0) (da_per_provider d)"

definition total_shortfall :: "default_across \<Rightarrow> u64" where
  "total_shortfall d = (case checked_total_shortfall d of Some t \<Rightarrow> t | None \<Rightarrow> u64_max)"

definition netted_shortfall :: "default_across \<Rightarrow> u64 option" where
  "netted_shortfall d = None"

definition houses :: "default_across \<Rightarrow> nat" where
  "houses d = length (da_per_provider d)"

definition flat_book :: "('p, 's) prims \<Rightarrow> 'p novation \<Rightarrow> bytes \<times> bytes" where
  "flat_book P n = (compress P (nv_owed_to_house n), compress P (nv_owed_by_house n))"

section \<open>Novation redone\<close>

abbreviation novated_edges :: "bytes \<Rightarrow> str \<Rightarrow> 'p signed_obligation list \<Rightarrow> 'p obligation list" where
  "novated_edges house asset es \<equiv> concat (map (\<lambda>e. [to_house_edge house asset e, from_house_edge house asset e]) es)"

abbreviation owed :: "('p::ab_group_add signed_obligation \<Rightarrow> bool) \<Rightarrow> 'p signed_obligation list \<Rightarrow> 'p" where
  "owed Q es \<equiv> sum_list (map (\<lambda>e. ob_commitment (so_obligation e)) (filter Q es))"

lemma foldl_owed: "foldl (\<lambda>acc e. acc + ob_commitment (so_obligation e)) a es = a + owed (\<lambda>_. True) es"
  by (induction es arbitrary: a) (simp_all add: add.assoc)

lemma edge_pairs:
  "xs = concat (map (\<lambda>e. [f e, g e]) es) \<longleftrightarrow>
    length xs = 2 * length es \<and> (\<forall>j < length es. xs ! (2 * j) = f (es ! j) \<and> xs ! (2 * j + 1) = g (es ! j))"
proof (induction es arbitrary: xs)
  case (Cons e es)
  show ?case
  proof (cases "length xs = 2 * length (e # es)")
    case True
    then obtain x y ys where xs: "xs = x # y # ys" by (auto simp: length_Suc_conv)
    show ?thesis by (auto simp: xs Cons.IH [of ys] All_less_Suc2)
  next
    case False
    have "length (concat (map (\<lambda>e. [f e, g e]) zs)) = 2 * length zs" for zs by (induction zs) simp_all
    with False show ?thesis by metis
  qed
qed simp

lemma edge_eq:
  "to_house_edge house (nv_asset n) e = x \<longleftrightarrow> ob_payer x = ob_payer (so_obligation e) \<and> ob_payee x = house \<and>
     ob_asset x = nv_asset n \<and> ob_commitment x = ob_commitment (so_obligation e)"
  "from_house_edge house (nv_asset n) e = x \<longleftrightarrow> ob_payer x = house \<and> ob_payee x = ob_payee (so_obligation e) \<and>
     ob_asset x = nv_asset n \<and> ob_commitment x = ob_commitment (so_obligation e)"
  by (cases x; auto simp: to_house_edge_def from_house_edge_def)+

lemma check_edges_Ok:
  "check_edges house n i es t b = Ok r \<longleftrightarrow>
     (\<forall>j < length es. ob_asset (so_obligation (es ! j)) = nv_asset n \<and>
        nv_after n ! (2 * (i + j)) = to_house_edge house (nv_asset n) (es ! j) \<and>
        nv_after n ! (2 * (i + j) + 1) = from_house_edge house (nv_asset n) (es ! j)) \<and>
     r = (t + owed (\<lambda>_. True) es, b + owed (\<lambda>_. True) es)"
proof (induction es arbitrary: i t b)
  case (Cons e es)
  let ?A = "to_house_edge house (nv_asset n)" and ?B = "from_house_edge house (nv_asset n)"
  have "check_edges house n i (e # es) t b = Ok r \<longleftrightarrow>
     ob_asset (so_obligation e) = nv_asset n \<and> nv_after n ! (2 * i) = ?A e \<and> nv_after n ! (2 * i + 1) = ?B e \<and>
     check_edges house n (i + 1) es (t + ob_commitment (so_obligation e)) (b + ob_commitment (so_obligation e)) = Ok r"
    by (auto simp: Let_def eq_commute [of "nv_after n ! _"] edge_eq)
  then show ?case
    by (auto simp: Cons.IH All_less_Suc2 add.assoc)
qed auto

lemma check_novation_Ok:
  "check_novation house n = Ok () \<longleftrightarrow> nv_house n = house \<and> nv_after n = novated_edges house (nv_asset n) (nv_before n) \<and>
     (\<forall>e \<in> set (nv_before n). ob_asset (so_obligation e) = nv_asset n) \<and>
     nv_owed_to_house n = owed (\<lambda>_. True) (nv_before n) \<and> nv_owed_by_house n = owed (\<lambda>_. True) (nv_before n)"
  by (auto simp: check_novation_def check_edges_Ok edge_pairs all_set_conv_all_nth)

text \<open>
  C35: the check anyone can run accepts exactly what the house would have produced: for a
  non-empty set of signed obligations, a novation passes \<open>check_novation\<close> under a house's
  handle if and only if it is the result of that house's \<open>novate\<close> on those obligations,
  edge for edge, total for total.
\<close>

theorem novation_checked_iff:
  assumes "nv_before n \<noteq> []"
  shows "check_novation (cp_handle house) n = Ok () \<longleftrightarrow> novate house (nv_before n) = Ok n"
proof -
  obtain first es where b: "nv_before n = first # es" using assms by (cases "nv_before n") auto
  show ?thesis
    unfolding check_novation_Ok novate_def b foldl_owed Let_def
    by (cases n) (use b in \<open>auto simp: list_ex_iff\<close>)
qed

definition demo_edge :: "nat \<Rightarrow> nat \<Rightarrow> int \<Rightarrow> int signed_obligation" where
  "demo_edge i j c = \<lparr>so_obligation = \<lparr>ob_payer = [of_nat i], ob_payee = [of_nat j], ob_asset = lit ''EUR'', ob_commitment = c\<rparr>,
     so_by_payer = [], so_by_payee = []\<rparr>"

definition demo_house :: clearing_provider where
  "demo_house = provider_new (lit ''H'') [9] (\<lambda>purpose m. Some ([7] @ m)) [7]"

definition demo_novation :: "int novation" where
  "demo_novation = (case novate demo_house [demo_edge 1 2 5, demo_edge 2 3 4] of Ok n \<Rightarrow> n)"

lemma demo_novation_eq: "novate demo_house [demo_edge 1 2 5, demo_edge 2 3 4] = Ok demo_novation"
  by (simp add: demo_novation_def novate_def demo_edge_def ensure_def Let_def)

lemma demo_novation_before: "nv_before demo_novation = [demo_edge 1 2 5, demo_edge 2 3 4]"
  by (simp add: demo_novation_def novate_def demo_edge_def ensure_def Let_def)

theorem novation_checked_iff_witness:
  "check_novation (cp_handle demo_house) demo_novation = Ok ()"
  using novation_checked_iff [of demo_novation demo_house] demo_novation_eq by (simp add: demo_novation_before)

section \<open>Net positions\<close>

definition position :: "bytes \<Rightarrow> 'p::ab_group_add signed_obligation list \<Rightarrow> 'p \<times> 'p \<Rightarrow> 'p \<times> 'p" where
  "position m es s = (fst s + owed (\<lambda>e. ob_payer (so_obligation e) = m) es, snd s + owed (\<lambda>e. ob_payee (so_obligation e) = m) es)"

lemma position_Cons: "position m (e # es) s = position m es (position m [e] s)"
  by (simp add: position_def add.assoc)

lemma position_none:
  "\<forall>e \<in> set es. m \<noteq> ob_payer (so_obligation e) \<and> m \<noteq> ob_payee (so_obligation e) \<Longrightarrow> position m es s = s"
  by (induction es) (auto simp: position_def)

abbreviation slot_of :: "(bytes, 'p \<times> 'p) btree_map \<Rightarrow> bytes \<Rightarrow> 'p::ab_group_add \<times> 'p" where
  "slot_of out m \<equiv> (case bt_get out m of Some s \<Rightarrow> s | None \<Rightarrow> (0, 0))"

lemma add_novated:
  assumes "m \<noteq> nv_house n"
  shows "bt_get (add_position n (from_house_edge (nv_house n) a e) (add_position n (to_house_edge (nv_house n) a e) out)) m =
    (if m = ob_payer (so_obligation e) \<or> m = ob_payee (so_obligation e)
     then Some (position m [e] (slot_of out m)) else bt_get out m)"
  using assms
  by (auto simp: add_position_def to_house_edge_def from_house_edge_def position_def Let_def split: option.splits)

lemma positions_of:
  assumes "m \<noteq> nv_house n"
  shows "bt_get (fold (add_position n) (novated_edges (nv_house n) a es) out) m =
    (if \<exists>e \<in> set es. m = ob_payer (so_obligation e) \<or> m = ob_payee (so_obligation e)
     then Some (position m es (slot_of out m)) else bt_get out m)"
proof (induction es arbitrary: out)
  case (Cons e es)
  let ?in = "\<lambda>e. m = ob_payer (so_obligation e) \<or> m = ob_payee (so_obligation e)"
  show ?case
    using position_none [of es m] position_none [of "[e]" m]
    by (cases "?in e"; cases "\<exists>e' \<in> set es. ?in e'")
      (simp_all add: Cons.IH add_novated [OF assms] position_Cons [of m e es] split: option.splits)
qed simp

text \<open>
  after a novation that passes its check, every participant but the house holds one
  net position, and it is the participant's own trades: what they owe the house is the sum
  of the commitments of the obligations they were to pay, their claim on it the sum of those
  they were to receive; nobody else appears, and the house owes in total what it is owed.
\<close>

theorem novated_positions:
  assumes "check_novation house n = Ok ()" and "m \<noteq> house"
  shows "bt_get (net_positions n) m =
      (if \<exists>e \<in> set (nv_before n). m = ob_payer (so_obligation e) \<or> m = ob_payee (so_obligation e)
       then Some (sum_list [ob_commitment (so_obligation e). e \<leftarrow> nv_before n, ob_payer (so_obligation e) = m],
                  sum_list [ob_commitment (so_obligation e). e \<leftarrow> nv_before n, ob_payee (so_obligation e) = m])
       else None) \<and>
    nv_owed_to_house n = nv_owed_by_house n"
proof -
  have f: "concat (map (\<lambda>e. if Q e then [f e] else []) es) = map f (filter Q es)" for Q es and f :: "'a signed_obligation \<Rightarrow> 'a"
    by (induction es) simp_all
  from assms(1) have h: "house = nv_house n" and after: "nv_after n = novated_edges (nv_house n) (nv_asset n) (nv_before n)"
    by (simp_all add: check_novation_Ok)
  show ?thesis
    using assms(1) positions_of [OF assms(2) [unfolded h], of "nv_asset n" "nv_before n" bt_empty]
    by (simp add: net_positions_def after position_def f check_novation_Ok)
qed

theorem novated_positions_witness:
  "bt_get (net_positions demo_novation) [2] = Some (4, 5) \<and> bt_get (net_positions demo_novation) [3] = Some (0, 4)"
proof -
  have c: "check_novation [9] demo_novation = Ok ()"
    by (simp add: demo_novation_def novate_def demo_edge_def demo_house_def provider_new_def ensure_def Let_def
        check_novation_Ok to_house_edge_def from_house_edge_def)
  show ?thesis
    using novated_positions [OF c, of "[2]"] novated_positions [OF c, of "[3]"]
    by (simp add: demo_novation_before) (simp add: demo_edge_def)
qed

section \<open>The registry\<close>

definition admit_step ::
  "('p::ab_group_add, 's::comm_ring_1) prims \<Rightarrow> 'p credit_ctx \<Rightarrow> 'p clearing_registry
    \<Rightarrow> clearing_provider \<times> 'p credit_line \<times> 'p provider_waterfall \<Rightarrow> 'p clearing_registry option" where
  "admit_step P ctx registry = (\<lambda>(provider, margin, w). result_ok (registry_admit P registry ctx provider margin w))"

definition margined ::
  "('p::ab_group_add, 's::comm_ring_1) prims \<Rightarrow> 'p credit_ctx \<Rightarrow> 'p clearing_registry \<Rightarrow> bool" where
  "margined P ctx registry \<longleftrightarrow> (\<forall>name entry. bt_get registry name = Some entry \<longrightarrow>
     cl_handle (ad_margin entry) = ad_handle entry \<and> credit_check P ctx (ad_margin entry) = Ok () \<and>
     pw_provider (ad_waterfall entry) = name \<and> own_capital (ad_waterfall entry) \<noteq> None)"

lemma run_margined: "run (admit_step P ctx) bt_empty ops = Some registry \<Longrightarrow> margined P ctx registry"
  by (rule run_invariant [of "margined P ctx"])
    (auto simp: admit_step_def margined_def registry_admit_def has_own_capital_def split: if_splits)

text \<open>
  C36: a house cannot invent a trade, and only a house with something at stake is believed.
  If the registry, built by any sequence of admissions, accepts a cleared cycle, then the
  attesting provider is admitted with a margin line under its own handle whose backing check
  passes and a waterfall made for it with a tranche of its own; the novation is checked
  under that handle; both parties of every original obligation are known and signed its
  body; and the provider signed the digest of exactly these obligations.
\<close>

theorem cleared_cycle_agreed:
  assumes "run (admit_step P ctx) bt_empty ops = Some registry" and "check_cycle P registry a n parties = Ok ()"
  shows "\<exists>entry. bt_get registry (ca_provider a) = Some entry \<and> ad_handle entry = nv_house n \<and>
    cl_handle (ad_margin entry) = nv_house n \<and> credit_check P ctx (ad_margin entry) = Ok () \<and>
    pw_provider (ad_waterfall entry) = ca_provider a \<and> own_capital (ad_waterfall entry) \<noteq> None \<and>
    check_novation (nv_house n) n = Ok () \<and>
    list_all (\<lambda>e. \<exists>payer payee. bt_get parties (ob_payer (so_obligation e)) = Some payer \<and>
      bt_get parties (ob_payee (so_obligation e)) = Some payee \<and>
      hybrid_verify P SettlementInstruction payer (obligation_body P (so_obligation e)) (so_by_payer e) \<and>
      hybrid_verify P SettlementInstruction payee (obligation_body P (so_obligation e)) (so_by_payee e)) (nv_before n) \<and>
    hybrid_verify P Attestation (ad_identity entry) (attestation_digest P n (ca_cycle a)) (ca_signature a)"
proof -
  from assms(2) obtain entry where e: "bt_get registry (ca_provider a) = Some entry" "ad_handle entry = nv_house n"
      "check_novation (nv_house n) n = Ok ()" "check_attestation P a n (ad_identity entry) = Ok ()"
    and p: "\<forall>x \<in> set (enumerate 0 (nv_before n)). check_parties P parties x = Ok ()"
    by (auto simp: check_cycle_def)
  have "check_parties P parties (j, nv_before n ! j) = Ok ()" if "j < length (nv_before n)" for j
    using p that by (auto simp: in_set_enumerate_eq)
  then have "list_all (\<lambda>e. \<exists>payer payee. bt_get parties (ob_payer (so_obligation e)) = Some payer \<and>
      bt_get parties (ob_payee (so_obligation e)) = Some payee \<and>
      hybrid_verify P SettlementInstruction payer (obligation_body P (so_obligation e)) (so_by_payer e) \<and>
      hybrid_verify P SettlementInstruction payee (obligation_body P (so_obligation e)) (so_by_payee e)) (nv_before n)"
    by (simp add: list_all_length check_parties_def check_agreement_def Let_def)
  with e run_margined [OF assms(1)] show ?thesis
    by (auto simp: margined_def check_attestation_def)
qed

definition signs :: "('p, 's) prims \<Rightarrow> signer \<Rightarrow> bytes \<Rightarrow> bool" where
  "signs P sign key \<longleftrightarrow> (\<forall>purpose m s. sign purpose m = Some s \<longrightarrow> hybrid_verify P purpose key m s)"

definition agreed :: "('p, 's) prims \<Rightarrow> (bytes, bytes) btree_map \<Rightarrow> 'p signed_obligation \<Rightarrow> bool" where
  "agreed P parties e \<longleftrightarrow> (\<exists>sp sq payer payee. sign_obligation P (so_obligation e) sp sq = Ok e \<and>
     bt_get parties (ob_payer (so_obligation e)) = Some payer \<and> signs P sp payer \<and>
     bt_get parties (ob_payee (so_obligation e)) = Some payee \<and> signs P sq payee)"

lemma agreed_checked: "agreed P parties e \<Longrightarrow> check_parties P parties (i, e) = Ok ()"
proof -
  assume "agreed P parties e"
  then obtain sp sq payer payee where a: "sign_obligation P (so_obligation e) sp sq = Ok e"
    and k: "bt_get parties (ob_payer (so_obligation e)) = Some payer" "signs P sp payer"
      "bt_get parties (ob_payee (so_obligation e)) = Some payee" "signs P sq payee"
    unfolding agreed_def by blast
  have "sp SettlementInstruction (obligation_body P (so_obligation e)) = Some (so_by_payer e)"
    "sq SettlementInstruction (obligation_body P (so_obligation e)) = Some (so_by_payee e)"
    using a by (cases e; auto simp: sign_obligation_def Let_def)+
  with k show ?thesis by (simp add: check_parties_def check_agreement_def signs_def Let_def)
qed

lemma novate_checked: "novate house es = Ok n \<Longrightarrow> check_novation (cp_handle house) n = Ok () \<and> nv_before n = es \<and> nv_house n = cp_handle house"
  unfolding check_novation_Ok by (cases es) (auto simp: novate_def foldl_owed list_ex_iff Let_def)

text \<open>
  C37: an honest cycle clears. When every obligation is signed by both of its parties with
  the keys the deployment knows, and an admitted house novates them and attests the result,
  the registry accepts the cycle, whoever else is admitted.
\<close>

theorem honest_cycle_clears:
  assumes "registry_admit P registry ctx house margin w = Ok registry'" and "signs P (cp_signing house) (cp_public_key house)"
    and "\<forall>e \<in> set es. agreed P parties e" and "novate house es = Ok n" and "provider_attest P house n cycle = Ok a"
  shows "check_cycle P registry' a n parties = Ok ()"
proof -
  have n: "check_novation (cp_handle house) n = Ok ()" "nv_before n = es" "nv_house n = cp_handle house"
    using novate_checked [OF assms(4)] by simp_all
  have e: "bt_get registry' (cp_name house) = Some \<lparr>ad_handle = cp_handle house, ad_identity = cp_public_key house,
      ad_margin = margin, ad_waterfall = w\<rparr>"
    using assms(1) by (auto simp: registry_admit_def)
  have a: "ca_provider a = cp_name house" "check_attestation P a n (cp_public_key house) = Ok ()"
    using assms(2,5) by (auto simp: provider_attest_def check_attestation_def signs_def Let_def)
  have "\<forall>x \<in> set (enumerate 0 es). check_parties P parties x = Ok ()"
    using assms(3) agreed_checked [of P parties] by (force simp: in_set_enumerate_eq)
  then show ?thesis by (simp add: check_cycle_def a e n)
qed

definition demo_key :: "bytes \<Rightarrow> signer" where
  "demo_key key purpose m = Some (key @ m)"

definition demo_signed :: "nat \<Rightarrow> nat \<Rightarrow> int \<Rightarrow> int signed_obligation" where
  "demo_signed i j c = (case sign_obligation plain (so_obligation (demo_edge i j c)) (demo_key [of_nat i]) (demo_key [of_nat j]) of Ok e \<Rightarrow> e)"

definition demo_parties :: "(bytes, bytes) btree_map" where
  "demo_parties = bt_insert [1] [1] (bt_insert [2] [2] (bt_insert [3] [3] bt_empty))"

definition demo_fall :: "int provider_waterfall" where
  "demo_fall = for_provider (lit ''H'') 1 2 3 4"

lemma demo_agreed:
  assumes "bt_get demo_parties [of_nat i] = Some [of_nat i]" "bt_get demo_parties [of_nat j] = Some [of_nat j]"
  shows "agreed plain demo_parties (demo_signed i j c)"
proof -
  have o: "so_obligation (demo_signed i j c) = so_obligation (demo_edge i j c)"
    by (simp add: demo_signed_def sign_obligation_def demo_key_def Let_def)
  then have s: "sign_obligation plain (so_obligation (demo_signed i j c)) (demo_key [of_nat i]) (demo_key [of_nat j]) = Ok (demo_signed i j c)"
    by (simp add: demo_signed_def sign_obligation_def demo_key_def Let_def)
  have k: "signs plain (demo_key k) k" for k by (simp add: signs_def demo_key_def plain_simps)
  have p: "ob_payer (so_obligation (demo_signed i j c)) = [of_nat i]" "ob_payee (so_obligation (demo_signed i j c)) = [of_nat j]"
    unfolding o by (simp_all add: demo_edge_def)
  show ?thesis unfolding agreed_def p using s k assms by blast
qed

lemma demo_admitted:
  "\<exists>margin registry. registry_admit plain bt_empty demo_ctx demo_house margin demo_fall = Ok registry"
proof -
  obtain line where g: "credit_grant plain demo_ctx [9] [2] 90 3 100 4 1000 = Ok line"
    using that by (simp add: credit_grant_def demo_ctx_def credit_ctx_new_def checked_mul_def range_one_def plain_simps Let_def)
  have "cl_handle line = [9]" using g by (auto simp: credit_grant_def Let_def split: if_splits option.splits)
  moreover have "credit_check plain demo_ctx line = Ok ()"
    by (rule credit_grant_checks [OF plain_credit_laws g]) (simp_all add: demo_ctx_def credit_ctx_new_def range_width_def)
  ultimately have "registry_admit plain bt_empty demo_ctx demo_house line demo_fall \<noteq> Err e" for e
    by (simp add: registry_admit_def demo_house_def provider_new_def demo_fall_def for_provider_def has_own_capital_def own_capital_def)
  then show ?thesis by (metis result.exhaust)
qed

definition demo_cycle :: "int novation" where
  "demo_cycle = (case novate demo_house [demo_signed 1 2 5, demo_signed 2 3 4] of Ok n \<Rightarrow> n)"

lemma demo_cycle_novated:
  "novate demo_house [demo_signed 1 2 5, demo_signed 2 3 4] = Ok demo_cycle"
  "\<exists>a. provider_attest plain demo_house demo_cycle [4] = Ok a"
  by (simp_all add: demo_cycle_def novate_def demo_signed_def sign_obligation_def demo_key_def demo_edge_def ensure_def
      demo_house_def provider_new_def provider_attest_def Let_def)

theorem honest_cycle_clears_witness:
  "\<exists>margin registry a. registry_admit plain bt_empty demo_ctx demo_house margin demo_fall = Ok registry \<and>
    provider_attest plain demo_house demo_cycle [4] = Ok a \<and> check_cycle plain registry a demo_cycle demo_parties = Ok ()"
proof -
  have s: "signs plain (cp_signing demo_house) (cp_public_key demo_house)"
    by (simp add: signs_def demo_house_def provider_new_def plain_simps)
  have "agreed plain demo_parties (demo_signed 1 2 5)" "agreed plain demo_parties (demo_signed 2 3 4)"
    by (rule demo_agreed; simp add: demo_parties_def)+
  then have "\<forall>e \<in> set [demo_signed 1 2 5, demo_signed 2 3 4]. agreed plain demo_parties e" by simp
  from honest_cycle_clears [OF _ s this demo_cycle_novated(1)] demo_admitted demo_cycle_novated(2)
  show ?thesis by blast
qed

theorem cleared_cycle_agreed_witness:
  "\<exists>registry a entry. check_cycle plain registry a demo_cycle demo_parties = Ok () \<and>
    bt_get registry (ca_provider a) = Some entry \<and> credit_check plain demo_ctx (ad_margin entry) = Ok () \<and>
    own_capital (ad_waterfall entry) \<noteq> None"
proof -
  obtain margin registry a where r: "registry_admit plain bt_empty demo_ctx demo_house margin demo_fall = Ok registry"
    and a: "provider_attest plain demo_house demo_cycle [4] = Ok a"
    using demo_admitted demo_cycle_novated(2) by blast
  have p: "list_all (\<lambda>e. \<forall>i. check_parties plain demo_parties (i, e) = Ok ()) [demo_signed 1 2 5, demo_signed 2 3 4]"
    using agreed_checked [OF demo_agreed [of 1 2 5]] agreed_checked [OF demo_agreed [of 2 3 4]] by (simp add: demo_parties_def)
  have n: "check_novation (cp_handle demo_house) demo_cycle = Ok ()"
    "nv_before demo_cycle = [demo_signed 1 2 5, demo_signed 2 3 4]" "nv_house demo_cycle = cp_handle demo_house"
    using novate_checked [OF demo_cycle_novated(1)] by simp_all
  have e: "bt_get registry (cp_name demo_house) = Some \<lparr>ad_handle = cp_handle demo_house, ad_identity = cp_public_key demo_house,
      ad_margin = margin, ad_waterfall = demo_fall\<rparr>"
    using r by (auto simp: registry_admit_def)
  have "ca_provider a = cp_name demo_house" "check_attestation plain a demo_cycle (cp_public_key demo_house) = Ok ()"
    using a by (auto simp: provider_attest_def check_attestation_def demo_house_def provider_new_def plain_simps Let_def)
  with e n p have c: "check_cycle plain registry a demo_cycle demo_parties = Ok ()" by (simp add: check_cycle_def)
  have "run (admit_step plain demo_ctx) bt_empty [(demo_house, margin, demo_fall)] = Some registry"
    using r by (simp add: admit_step_def)
  from cleared_cycle_agreed [OF this c] c show ?thesis by blast
qed

end
