(* ===== verification/Hex.thy ===== *)
theory Hex
  imports Strings
begin

text \<open>
  The \<open>hex\<close> encoding of 32-byte identifiers, which the books of the program use as map
  keys. A \<open>[u8; 32]\<close> is a 256-bit word read big-endian; \<open>key\<close> is \<open>hex::encode\<close> of its bytes
  and \<open>hex_decode\<close> the standard decoding. The key determines the identifier, is 64
  characters long and decodes to the bytes it was made from.
\<close>

type_synonym id32 = "256 word"

definition id_bytes :: "id32 \<Rightarrow> bytes" where
  "id_bytes i = nat_be 32 (unat i)"

definition hex_digit :: "nat \<Rightarrow> nat" where
  "hex_digit d = (if d < 10 then 48 + d else 87 + d)"

definition hex_value :: "nat \<Rightarrow> nat option" where
  "hex_value c = (if 48 \<le> c \<and> c \<le> 57 then Some (c - 48) else if 97 \<le> c \<and> c \<le> 102 then Some (c - 87)
     else if 65 \<le> c \<and> c \<le> 70 then Some (c - 55) else None)"

definition hex_encode :: "bytes \<Rightarrow> str" where
  "hex_encode bs = concat (map (\<lambda>b. [hex_digit (unat b div 16), hex_digit (unat b mod 16)]) bs)"

fun hex_decode :: "str \<Rightarrow> bytes option" where
  "hex_decode [] = Some []"
| "hex_decode [c] = None"
| "hex_decode (c # d # cs) = (case (hex_value c, hex_value d, hex_decode cs) of
     (Some x, Some y, Some bs) \<Rightarrow> Some (of_nat (16 * x + y) # bs) | _ \<Rightarrow> None)"

definition key :: "id32 \<Rightarrow> str" where
  "key i = hex_encode (id_bytes i)"

lemma hex_value_digit: "d < 16 \<Longrightarrow> hex_value (hex_digit d) = Some d"
  by (auto simp: hex_value_def hex_digit_def)

lemma length_hex_encode [simp]: "length (hex_encode bs) = 2 * length bs"
  by (induction bs) (simp_all add: hex_encode_def)

lemma hex_decode_encode [simp]: "hex_decode (hex_encode bs) = Some bs"
proof (induction bs)
  case (Cons b bs)
  have "unat b < 256" using unat_bound [of b] by simp
  then have "hex_value (hex_digit (unat b div 16)) = Some (unat b div 16)"
    "hex_value (hex_digit (unat b mod 16)) = Some (unat b mod 16)"
    by (intro hex_value_digit; simp)+
  moreover have "(of_nat (16 * (unat b div 16) + unat b mod 16) :: u8) = b" by (simp only: mult_div_mod_eq of_nat_unat) simp
  ultimately show ?case using Cons by (simp add: hex_encode_def)
qed (simp add: hex_encode_def)

lemma id_bytes_inject [simp]: "id_bytes i = id_bytes j \<longleftrightarrow> i = j"
proof
  assume "id_bytes i = id_bytes j"
  moreover have "unat i < 256 ^ 32" "unat j < 256 ^ 32"
    using unat_bound [of i] unat_bound [of j] by simp_all
  ultimately have "unat i = unat j" unfolding id_bytes_def by (rule nat_be_inject)
  then show "i = j" by (simp only: word_unat_eq_iff)
qed simp

lemma length_id_bytes [simp]: "length (id_bytes i) = 32"
  by (simp add: id_bytes_def)

lemma key_inject [simp]: "key i = key j \<longleftrightarrow> i = j"
  by (metis hex_decode_encode id_bytes_inject key_def option.inject)

lemma hex_decode_key [simp]: "hex_decode (key i) = Some (id_bytes i)"
  by (simp add: key_def)

lemma hex_digits_ascii: "c \<in> set (hex_encode bs) \<Longrightarrow> c < 128"
proof -
  have "hex_digit (unat (b :: u8) div 16) < 128 \<and> hex_digit (unat b mod 16) < 128" for b
    using unat_bound [of b] by (auto simp: hex_digit_def)
  then show "c \<in> set (hex_encode bs) \<Longrightarrow> c < 128" by (auto simp: hex_encode_def)
qed

lemma length_as_bytes_ascii: "\<forall>c \<in> set s. c < 128 \<Longrightarrow> length (as_bytes s) = length s"
  by (induction s) (auto simp: as_bytes_def utf8_char_def)

lemma length_key [simp]: "length (as_bytes (key i)) = 64"
  unfolding key_def by (subst length_as_bytes_ascii) (auto dest: hex_digits_ascii)

end
