(* ===== verification/CentralBank.thy ===== *)
theory CentralBank
  imports BTree Hex
begin

text \<open>
  The common collateral pool and the intraday overdraft,
  \<open>rust/defmi/src/central_bank_liquidity.rs\<close>. Every public operation is \<open>atomic\<close> applied to
  its \<open>_inner\<close> body; a body returns the changed book with its result, and a body that
  stops early returns no book, which is what working on a clone amounts to. Amounts are
  \<open>u64\<close> and the valuation is computed in \<open>u128\<close>.
\<close>

section \<open>The book\<close>

datatype boj_error =
  InvalidOperation | DuplicateOperation | InvalidParticipant | DuplicateParticipant
  | UnknownParticipant | ParticipantUnavailable | InvalidCollateral | UnknownCollateral
  | StaleValuation | InvalidReservation | UnknownReservation | InvalidFundsReceipt
  | DuplicateFundsReceipt | InsufficientCollateral | InvalidSettlement | StaleSequence
  | TooEarlyForEndOfDay | BusinessDayAlreadyClosed | InvalidBusinessDay
  | ArithmeticOverflow | InvalidStoredState
  | BojPanic \<comment> \<open>an \<open>expect\<close> or an index that fails\<close>

datatype participant_status = Active | CollateralShortfall | Overdue | Suspended

datatype reservation_status = ReservationActive | Consumed | Released

record boj_participant =
  bp_legal_entity_id :: id32
  bp_funds_account_id :: id32
  bp_jgb_account_id :: id32
  bp_current_account_balance :: u64
  bp_other_secured_exposure :: u64
  bp_intraday_overdraft :: u64
  bp_business_day :: u32
  bp_repayment_deadline :: u64
  bp_business_day_closed :: bool
  bp_sequence :: u64
  bp_status :: participant_status

record jgb_lot =
  jl_lot_id :: id32
  jl_asset_id :: id32
  jl_owner :: id32
  jl_face_value :: u64
  jl_market_price :: u64
  jl_index_ratio :: u64
  jl_valuation_rate_bps :: u16
  jl_valuation_epoch :: u64
  jl_pledged :: bool
  jl_sequence :: u64

definition collateral_value_yen :: "jgb_lot \<Rightarrow> (u64, boj_error) result" where
  "collateral_value_yen lot =
     and_then (ensure (\<not> (jl_face_value lot = 0 \<or> jl_market_price lot = 0 \<or> jl_index_ratio lot = 0 \<or>
         jl_valuation_rate_bps lot = 0 \<or> (ucast (jl_valuation_rate_bps lot) :: u128) > 10000)) InvalidCollateral) (\<lambda>_.
     and_then (ok_or (Option.bind (Option.bind
         (checked_mul (ucast (jl_face_value lot) :: u128) (ucast (jl_market_price lot)))
         (\<lambda>v. checked_mul v (ucast (jl_index_ratio lot))))
         (\<lambda>v. checked_mul v (ucast (jl_valuation_rate_bps lot)))) ArithmeticOverflow) (\<lambda>numerator.
     and_then (ok_or (Option.bind (Option.bind (checked_mul (100 :: u128) 1000000)
         (\<lambda>v. checked_mul v 1000000)) (\<lambda>v. checked_mul v 10000)) ArithmeticOverflow) (\<lambda>denominator.
     let q = unat numerator div unat denominator in
     if q < 2 ^ 64 then Ok (of_nat q) else Err ArithmeticOverflow)))"

record intraday_reservation =
  ir_reservation_id :: id32
  ir_legal_entity_id :: id32
  ir_instruction_commitment :: id32
  ir_amount :: u64
  ir_expires_at :: u64
  ir_status :: reservation_status
  ir_consumed :: u64

definition is_live :: "intraday_reservation \<Rightarrow> u64 \<Rightarrow> bool" where
  "is_live r now \<longleftrightarrow> ir_status r = ReservationActive \<and> now < ir_expires_at r"

record boj_book =
  bb_participants :: "(str, boj_participant) btree_map"
  bb_collateral_lots :: "(str, jgb_lot) btree_map"
  bb_reservations :: "(str, intraday_reservation) btree_map"
  bb_completed_settlements :: "str set"
  bb_applied_funds_receipts :: "str set"
  bb_applied_operations :: "str set"

definition boj_default :: boj_book where
  "boj_default = \<lparr>bb_participants = bt_empty, bb_collateral_lots = bt_empty, bb_reservations = bt_empty,
     bb_completed_settlements = {}, bb_applied_funds_receipts = {}, bb_applied_operations = {}\<rparr>"

definition boj_is_empty :: "boj_book \<Rightarrow> bool" where
  "boj_is_empty b \<longleftrightarrow> bt_len (bb_participants b) = 0 \<and> bt_len (bb_collateral_lots b) = 0 \<and>
     bt_len (bb_reservations b) = 0 \<and> bb_completed_settlements b = {} \<and>
     bb_applied_funds_receipts b = {} \<and> bb_applied_operations b = {}"

definition has_zero :: "id32 list \<Rightarrow> bool" where
  "has_zero xs \<longleftrightarrow> 0 \<in> set xs"

definition check_sequence :: "u64 \<Rightarrow> u64 \<Rightarrow> (unit, boj_error) result" where
  "check_sequence actual expected = ensure (actual = expected) StaleSequence"

definition bump :: "u64 \<Rightarrow> (u64, boj_error) result" where
  "bump s = ok_or (checked_add s 1) ArithmeticOverflow"

definition validate_participant :: "str \<times> boj_participant \<Rightarrow> (unit, boj_error) result" where
  "validate_participant = (\<lambda>(k, p). ensure (\<not> (k \<noteq> key (bp_legal_entity_id p) \<or>
     has_zero [bp_legal_entity_id p, bp_funds_account_id p, bp_jgb_account_id p] \<or>
     bp_business_day p = 0 \<or> bp_repayment_deadline p = 0 \<or>
     (bp_status p = Overdue \<and> \<not> bp_business_day_closed p) \<or>
     (bp_current_account_balance p \<noteq> 0 \<and> bp_intraday_overdraft p \<noteq> 0))) InvalidParticipant)"

definition validate_lot :: "boj_book \<Rightarrow> str \<times> jgb_lot \<Rightarrow> (unit, boj_error) result" where
  "validate_lot b = (\<lambda>(k, l).
     and_then (ensure (\<not> (k \<noteq> key (jl_lot_id l) \<or> has_zero [jl_lot_id l, jl_asset_id l, jl_owner l] \<or>
       \<not> bt_contains (bb_participants b) (key (jl_owner l)))) InvalidCollateral) (\<lambda>_.
     and_then (collateral_value_yen l) (\<lambda>_. Ok ())))"

definition validate_reservation :: "boj_book \<Rightarrow> str \<times> intraday_reservation \<Rightarrow> (unit, boj_error) result" where
  "validate_reservation b = (\<lambda>(k, r). ensure (\<not> (k \<noteq> key (ir_reservation_id r) \<or>
     has_zero [ir_reservation_id r, ir_legal_entity_id r, ir_instruction_commitment r] \<or>
     ir_amount r = 0 \<or> ir_expires_at r = 0 \<or> \<not> bt_contains (bb_participants b) (key (ir_legal_entity_id r)) \<or>
     (ir_status r \<noteq> Consumed \<and> ir_consumed r \<noteq> 0) \<or> ir_consumed r > ir_amount r)) InvalidReservation)"

definition boj_validate :: "boj_book \<Rightarrow> (unit, boj_error) result" where
  "boj_validate b =
     and_then (try_for_each validate_participant (entries (bb_participants b))) (\<lambda>_.
     and_then (try_for_each (validate_lot b) (entries (bb_collateral_lots b))) (\<lambda>_.
     and_then (try_for_each (validate_reservation b) (entries (bb_reservations b))) (\<lambda>_.
     ensure (\<not> (\<exists>v \<in> bb_completed_settlements b \<union> bb_applied_funds_receipts b \<union> bb_applied_operations b.
       length (as_bytes v) \<noteq> 64 \<or> hex_decode v = None)) InvalidStoredState)))"

definition atomic :: "(boj_book \<Rightarrow> (boj_book \<times> 'a, boj_error) result) \<Rightarrow> boj_book \<Rightarrow> (boj_book \<times> 'a, boj_error) result" where
  "atomic operation b = and_then (operation b) (\<lambda>(b', r). and_then (boj_validate b') (\<lambda>_. Ok (b', r)))"

definition ensure_new_operation :: "boj_book \<Rightarrow> id32 \<Rightarrow> (unit, boj_error) result" where
  "ensure_new_operation b op =
     and_then (ensure (op \<noteq> 0) InvalidOperation) (\<lambda>_.
     ensure (key op \<notin> bb_applied_operations b) DuplicateOperation)"

section \<open>Collateral, reservations and status\<close>

definition collateral_value :: "boj_book \<Rightarrow> id32 \<Rightarrow> (u64, boj_error) result" where
  "collateral_value b entity =
     try_fold (\<lambda>acc lot. and_then (collateral_value_yen lot) (\<lambda>v. ok_or (checked_add acc v) ArithmeticOverflow)) 0
       (filter (\<lambda>lot. jl_owner lot = entity \<and> jl_pledged lot) (bt_values (bb_collateral_lots b)))"

definition live_reserved :: "boj_book \<Rightarrow> id32 \<Rightarrow> u64 \<Rightarrow> (u64, boj_error) result" where
  "live_reserved b entity now =
     try_fold (\<lambda>acc r. ok_or (checked_add acc (ir_amount r)) ArithmeticOverflow) 0
       (filter (\<lambda>r. ir_legal_entity_id r = entity \<and> is_live r now) (bt_values (bb_reservations b)))"

definition required_of :: "boj_book \<Rightarrow> id32 \<Rightarrow> u64 \<Rightarrow> u64 \<Rightarrow> u64 \<Rightarrow> (u64, boj_error) result" where
  "required_of b entity now exposure overdraft =
     ok_or (Option.bind (checked_add exposure overdraft) (\<lambda>v.
       Option.bind (result_ok (live_reserved b entity now)) (\<lambda>r. checked_add v r))) ArithmeticOverflow"

definition available_headroom :: "boj_book \<Rightarrow> id32 \<Rightarrow> u64 \<Rightarrow> (u64, boj_error) result" where
  "available_headroom b entity now =
     and_then (ok_or (bt_get (bb_participants b) (key entity)) UnknownParticipant) (\<lambda>p.
     and_then (required_of b entity now (bp_other_secured_exposure p) (bp_intraday_overdraft p)) (\<lambda>required.
     and_then (collateral_value b entity) (\<lambda>collateral.
     Ok (saturating_sub collateral required))))"

definition put_participant :: "str \<Rightarrow> boj_participant \<Rightarrow> boj_book \<Rightarrow> boj_book" where
  "put_participant k p b = b\<lparr>bb_participants := bt_insert k p (bb_participants b)\<rparr>"

definition put_lot :: "str \<Rightarrow> jgb_lot \<Rightarrow> boj_book \<Rightarrow> boj_book" where
  "put_lot k l b = b\<lparr>bb_collateral_lots := bt_insert k l (bb_collateral_lots b)\<rparr>"

definition put_reservation :: "str \<Rightarrow> intraday_reservation \<Rightarrow> boj_book \<Rightarrow> boj_book" where
  "put_reservation k r b = b\<lparr>bb_reservations := bt_insert k r (bb_reservations b)\<rparr>"

definition applied :: "id32 \<Rightarrow> boj_book \<Rightarrow> boj_book" where
  "applied op b = b\<lparr>bb_applied_operations := insert (key op) (bb_applied_operations b)\<rparr>"

definition received :: "id32 \<Rightarrow> boj_book \<Rightarrow> boj_book" where
  "received i b = b\<lparr>bb_applied_funds_receipts := insert (key i) (bb_applied_funds_receipts b)\<rparr>"

definition completed :: "id32 \<Rightarrow> boj_book \<Rightarrow> boj_book" where
  "completed i b = b\<lparr>bb_completed_settlements := insert (key i) (bb_completed_settlements b)\<rparr>"

definition refresh_status_by_key :: "boj_book \<Rightarrow> str \<Rightarrow> u64 \<Rightarrow> (boj_book, boj_error) result" where
  "refresh_status_by_key b k now =
     and_then (ok_or (bt_get (bb_participants b) k) UnknownParticipant) (\<lambda>p.
     and_then (collateral_value b (bp_legal_entity_id p)) (\<lambda>collateral.
     and_then (required_of b (bp_legal_entity_id p) now (bp_other_secured_exposure p) (bp_intraday_overdraft p)) (\<lambda>required.
     Ok (if bp_status p \<noteq> Suspended \<and> bp_status p \<noteq> Overdue
         then put_participant k (p\<lparr>bp_status := if collateral < required then CollateralShortfall else Active\<rparr>) b
         else b))))"

section \<open>Requests\<close>

record register_participant =
  rp_operation_id :: id32
  rp_participant :: boj_participant

record pledge_collateral =
  pl_operation_id :: id32
  pl_expected_participant_sequence :: u64
  pl_lot :: jgb_lot

record revalue_collateral =
  rv_operation_id :: id32
  rv_lot_id :: id32
  rv_expected_lot_sequence :: u64
  rv_expected_participant_sequence :: u64
  rv_market_price :: u64
  rv_index_ratio :: u64
  rv_valuation_rate_bps :: u16
  rv_valuation_epoch :: u64

record reserve_liquidity =
  rs_operation_id :: id32
  rs_reservation_id :: id32
  rs_legal_entity_id :: id32
  rs_instruction_commitment :: id32
  rs_expected_participant_sequence :: u64
  rs_amount :: u64
  rs_expires_at :: u64

record release_liquidity =
  rl_operation_id :: id32
  rl_reservation_id :: id32
  rl_legal_entity_id :: id32
  rl_expected_participant_sequence :: u64

record return_collateral =
  rc_operation_id :: id32
  rc_lot_id :: id32
  rc_expected_lot_sequence :: u64
  rc_expected_participant_sequence :: u64

record funds_receipt =
  fr_operation_id :: id32
  fr_receipt_id :: id32
  fr_legal_entity_id :: id32
  fr_expected_participant_sequence :: u64
  fr_amount :: u64

record funds_receipt_outcome =
  fo_overdraft_repayment :: u64
  fo_current_account_balance_after :: u64
  fo_intraday_overdraft_after :: u64

record update_exposure =
  ux_operation_id :: id32
  ux_legal_entity_id :: id32
  ux_expected_participant_sequence :: u64
  ux_new_exposure :: u64

record open_business_day =
  od_operation_id :: id32
  od_legal_entity_id :: id32
  od_expected_participant_sequence :: u64
  od_business_day :: u32
  od_repayment_deadline :: u64

record collateral_dvp =
  cd_operation_id :: id32
  cd_settlement_id :: id32
  cd_instruction_commitment :: id32
  cd_buyer :: id32
  cd_seller :: id32
  cd_lot_id :: id32
  cd_payment :: u64
  cd_buyer_pledges_on_receipt :: bool
  cd_overdraft_reservation_id :: id32
  cd_expected_buyer_sequence :: u64
  cd_expected_seller_sequence :: u64
  cd_expected_lot_sequence :: u64

record end_business_day =
  ed_operation_id :: id32
  ed_legal_entity_id :: id32
  ed_expected_participant_sequence :: u64

record dvp_outcome =
  do_overdraft_draw :: u64
  do_seller_overdraft_repayment :: u64
  do_buyer_cash_after :: u64
  do_seller_cash_after :: u64

section \<open>Operations\<close>

definition register_participant_inner :: "register_participant \<Rightarrow> u64 \<Rightarrow> boj_book \<Rightarrow> (boj_book \<times> unit, boj_error) result" where
  "register_participant_inner rq now b =
     and_then (ensure_new_operation b (rp_operation_id rq)) (\<lambda>_.
     let p = rp_participant rq; k = key (bp_legal_entity_id p) in
     and_then (ensure (\<not> (has_zero [bp_legal_entity_id p, bp_funds_account_id p, bp_jgb_account_id p] \<or>
       bp_business_day p = 0 \<or> bp_repayment_deadline p \<le> now \<or> bp_sequence p \<noteq> 0 \<or> bp_intraday_overdraft p \<noteq> 0 \<or>
       bp_business_day_closed p \<or> bp_status p \<noteq> Active)) InvalidParticipant) (\<lambda>_.
     and_then (ensure (\<not> (bt_contains (bb_participants b) k \<or>
       list_ex (\<lambda>q. bp_funds_account_id q = bp_funds_account_id p \<or> bp_jgb_account_id q = bp_jgb_account_id p)
         (bt_values (bb_participants b)))) DuplicateParticipant) (\<lambda>_.
     Ok (applied (rp_operation_id rq) (put_participant k p b), ()))))"

definition pledge_collateral_inner :: "pledge_collateral \<Rightarrow> u64 \<Rightarrow> boj_book \<Rightarrow> (boj_book \<times> u64, boj_error) result" where
  "pledge_collateral_inner rq now b =
     and_then (ensure_new_operation b (pl_operation_id rq)) (\<lambda>_.
     let lot = pl_lot rq; k = key (jl_owner lot) in
     and_then (ensure (\<not> (has_zero [jl_lot_id lot, jl_asset_id lot, jl_owner lot] \<or> \<not> jl_pledged lot \<or>
       jl_sequence lot \<noteq> 0 \<or> bt_contains (bb_collateral_lots b) (key (jl_lot_id lot)))) InvalidCollateral) (\<lambda>_.
     and_then (collateral_value_yen lot) (\<lambda>v.
     and_then (ok_or (bt_get (bb_participants b) k) UnknownParticipant) (\<lambda>p.
     and_then (check_sequence (bp_sequence p) (pl_expected_participant_sequence rq)) (\<lambda>_.
     and_then (ensure (\<not> (bp_status p = Suspended \<or> bp_status p = Overdue \<or> bp_business_day_closed p \<or>
       now \<ge> bp_repayment_deadline p)) ParticipantUnavailable) (\<lambda>_.
     and_then (bump (bp_sequence p)) (\<lambda>n.
     and_then (refresh_status_by_key (put_lot (key (jl_lot_id lot)) (lot\<lparr>jl_sequence := 1\<rparr>)
       (put_participant k (p\<lparr>bp_sequence := n\<rparr>) b)) k now) (\<lambda>b.
     Ok (applied (pl_operation_id rq) b, v)))))))))"

definition revalue_collateral_inner :: "revalue_collateral \<Rightarrow> u64 \<Rightarrow> boj_book \<Rightarrow> (boj_book \<times> u64, boj_error) result" where
  "revalue_collateral_inner rq now b =
     and_then (ensure_new_operation b (rv_operation_id rq)) (\<lambda>_.
     and_then (ok_or (bt_get (bb_collateral_lots b) (key (rv_lot_id rq))) UnknownCollateral) (\<lambda>lot.
     and_then (check_sequence (jl_sequence lot) (rv_expected_lot_sequence rq)) (\<lambda>_.
     and_then (ensure (\<not> rv_valuation_epoch rq \<le> jl_valuation_epoch lot) StaleValuation) (\<lambda>_.
     and_then (bump (jl_sequence lot)) (\<lambda>ln.
     let lot' = lot\<lparr>jl_market_price := rv_market_price rq, jl_index_ratio := rv_index_ratio rq,
           jl_valuation_rate_bps := rv_valuation_rate_bps rq, jl_valuation_epoch := rv_valuation_epoch rq,
           jl_sequence := ln\<rparr>;
         k = key (jl_owner lot) in
     and_then (collateral_value_yen lot') (\<lambda>_.
     and_then (ok_or (bt_get (bb_participants b) k) UnknownParticipant) (\<lambda>p.
     and_then (check_sequence (bp_sequence p) (rv_expected_participant_sequence rq)) (\<lambda>_.
     and_then (bump (bp_sequence p)) (\<lambda>n.
     let b = put_participant k (p\<lparr>bp_sequence := n\<rparr>) (put_lot (key (rv_lot_id rq)) lot' b) in
     and_then (collateral_value b (jl_owner lot)) (\<lambda>v.
     and_then (refresh_status_by_key b k now) (\<lambda>b.
     Ok (applied (rv_operation_id rq) b, v))))))))))))"

definition reserve_liquidity_inner :: "reserve_liquidity \<Rightarrow> u64 \<Rightarrow> boj_book \<Rightarrow> (boj_book \<times> u64, boj_error) result" where
  "reserve_liquidity_inner rq now b =
     and_then (ensure_new_operation b (rs_operation_id rq)) (\<lambda>_.
     and_then (ensure (\<not> (has_zero [rs_reservation_id rq, rs_legal_entity_id rq, rs_instruction_commitment rq] \<or>
       rs_amount rq = 0 \<or> rs_expires_at rq \<le> now \<or> bt_contains (bb_reservations b) (key (rs_reservation_id rq))))
       InvalidReservation) (\<lambda>_.
     let k = key (rs_legal_entity_id rq) in
     and_then (refresh_status_by_key b k now) (\<lambda>b.
     and_then (ok_or (bt_get (bb_participants b) k) UnknownParticipant) (\<lambda>p.
     and_then (check_sequence (bp_sequence p) (rs_expected_participant_sequence rq)) (\<lambda>_.
     and_then (ensure (\<not> (bp_status p \<noteq> Active \<or> bp_business_day_closed p \<or>
       rs_expires_at rq > bp_repayment_deadline p \<or> now \<ge> bp_repayment_deadline p)) ParticipantUnavailable) (\<lambda>_.
     and_then (available_headroom b (rs_legal_entity_id rq) now) (\<lambda>headroom.
     and_then (ensure (\<not> rs_amount rq > headroom) InsufficientCollateral) (\<lambda>_.
     let b = put_reservation (key (rs_reservation_id rq)) \<lparr>ir_reservation_id = rs_reservation_id rq,
         ir_legal_entity_id = rs_legal_entity_id rq, ir_instruction_commitment = rs_instruction_commitment rq,
         ir_amount = rs_amount rq, ir_expires_at = rs_expires_at rq, ir_status = ReservationActive, ir_consumed = 0\<rparr> b in
     and_then (ok_or (bt_get (bb_participants b) k) BojPanic) (\<lambda>p.
     and_then (bump (bp_sequence p)) (\<lambda>n.
     Ok (applied (rs_operation_id rq) (put_participant k (p\<lparr>bp_sequence := n\<rparr>) b), headroom - rs_amount rq)))))))))))"

definition release_liquidity_inner :: "release_liquidity \<Rightarrow> u64 \<Rightarrow> boj_book \<Rightarrow> (boj_book \<times> u64, boj_error) result" where
  "release_liquidity_inner rq now b =
     and_then (ensure_new_operation b (rl_operation_id rq)) (\<lambda>_.
     let k = key (rl_legal_entity_id rq); rk = key (rl_reservation_id rq) in
     and_then (ok_or (bt_get (bb_participants b) k) UnknownParticipant) (\<lambda>p.
     and_then (check_sequence (bp_sequence p) (rl_expected_participant_sequence rq)) (\<lambda>_.
     and_then (ok_or (bt_get (bb_reservations b) rk) UnknownReservation) (\<lambda>r.
     and_then (ensure (\<not> (ir_legal_entity_id r \<noteq> rl_legal_entity_id rq \<or> ir_status r \<noteq> ReservationActive))
       InvalidReservation) (\<lambda>_.
     and_then (bump (bp_sequence p)) (\<lambda>n.
     and_then (refresh_status_by_key (put_participant k (p\<lparr>bp_sequence := n\<rparr>)
       (put_reservation rk (r\<lparr>ir_status := Released\<rparr>) b)) k now) (\<lambda>b.
     let b = applied (rl_operation_id rq) b in
     and_then (available_headroom b (rl_legal_entity_id rq) now) (\<lambda>headroom. Ok (b, headroom)))))))))"

definition return_collateral_inner :: "return_collateral \<Rightarrow> u64 \<Rightarrow> boj_book \<Rightarrow> (boj_book \<times> u64, boj_error) result" where
  "return_collateral_inner rq now b =
     and_then (ensure_new_operation b (rc_operation_id rq)) (\<lambda>_.
     let lk = key (rc_lot_id rq) in
     and_then (ok_or (bt_get (bb_collateral_lots b) lk) UnknownCollateral) (\<lambda>lot.
     and_then (check_sequence (jl_sequence lot) (rc_expected_lot_sequence rq)) (\<lambda>_.
     and_then (ensure (jl_pledged lot) InvalidCollateral) (\<lambda>_.
     let k = key (jl_owner lot) in
     and_then (refresh_status_by_key b k now) (\<lambda>b.
     and_then (ok_or (bt_get (bb_participants b) k) UnknownParticipant) (\<lambda>p.
     and_then (check_sequence (bp_sequence p) (rc_expected_participant_sequence rq)) (\<lambda>_.
     and_then (ensure (\<not> (bp_status p \<noteq> Active \<or> bp_business_day_closed p \<or> now \<ge> bp_repayment_deadline p))
       ParticipantUnavailable) (\<lambda>_.
     and_then (collateral_value_yen lot) (\<lambda>v.
     and_then (collateral_value b (jl_owner lot)) (\<lambda>collateral.
     and_then (ok_or (checked_sub collateral v) InvalidStoredState) (\<lambda>collateral_after.
     and_then (required_of b (jl_owner lot) now (bp_other_secured_exposure p) (bp_intraday_overdraft p)) (\<lambda>required.
     and_then (ensure (\<not> collateral_after < required) InsufficientCollateral) (\<lambda>_.
     and_then (bump (jl_sequence lot)) (\<lambda>ln.
     and_then (bump (bp_sequence p)) (\<lambda>n.
     Ok (applied (rc_operation_id rq) (put_participant k (p\<lparr>bp_sequence := n\<rparr>)
       (put_lot lk (lot\<lparr>jl_pledged := False, jl_sequence := ln\<rparr>) b)), collateral_after - required))))))))))))))))"

definition apply_funds_receipt_inner ::
  "funds_receipt \<Rightarrow> u64 \<Rightarrow> boj_book \<Rightarrow> (boj_book \<times> funds_receipt_outcome, boj_error) result" where
  "apply_funds_receipt_inner rq now b =
     and_then (ensure_new_operation b (fr_operation_id rq)) (\<lambda>_.
     and_then (ensure (\<not> (has_zero [fr_receipt_id rq, fr_legal_entity_id rq] \<or> fr_amount rq = 0)) InvalidFundsReceipt) (\<lambda>_.
     and_then (ensure (key (fr_receipt_id rq) \<notin> bb_applied_funds_receipts b) DuplicateFundsReceipt) (\<lambda>_.
     let k = key (fr_legal_entity_id rq) in
     and_then (ok_or (bt_get (bb_participants b) k) UnknownParticipant) (\<lambda>p.
     and_then (check_sequence (bp_sequence p) (fr_expected_participant_sequence rq)) (\<lambda>_.
     let repayment = min (bp_intraday_overdraft p) (fr_amount rq);
         overdraft = bp_intraday_overdraft p - repayment in
     and_then (ok_or (checked_add (bp_current_account_balance p) (fr_amount rq - repayment)) ArithmeticOverflow) (\<lambda>balance.
     and_then (bump (bp_sequence p)) (\<lambda>n.
     and_then (refresh_status_by_key (put_participant k (p\<lparr>bp_intraday_overdraft := overdraft,
       bp_current_account_balance := balance, bp_sequence := n\<rparr>) b) k now) (\<lambda>b.
     Ok (applied (fr_operation_id rq)
         (received (fr_receipt_id rq) b),
       \<lparr>fo_overdraft_repayment = repayment, fo_current_account_balance_after = balance,
        fo_intraday_overdraft_after = overdraft\<rparr>)))))))))"

definition update_exposure_inner :: "update_exposure \<Rightarrow> u64 \<Rightarrow> boj_book \<Rightarrow> (boj_book \<times> u64, boj_error) result" where
  "update_exposure_inner rq now b =
     and_then (ensure_new_operation b (ux_operation_id rq)) (\<lambda>_.
     and_then (ensure (ux_legal_entity_id rq \<noteq> 0) InvalidParticipant) (\<lambda>_.
     let k = key (ux_legal_entity_id rq) in
     and_then (ok_or (bt_get (bb_participants b) k) UnknownParticipant) (\<lambda>p.
     and_then (check_sequence (bp_sequence p) (ux_expected_participant_sequence rq)) (\<lambda>_.
     and_then (required_of b (ux_legal_entity_id rq) now (ux_new_exposure rq) (bp_intraday_overdraft p)) (\<lambda>required_after.
     and_then (if ux_new_exposure rq > bp_other_secured_exposure p
       then and_then (collateral_value b (ux_legal_entity_id rq)) (\<lambda>collateral.
         ensure (\<not> collateral < required_after) InsufficientCollateral)
       else Ok ()) (\<lambda>_.
     and_then (bump (bp_sequence p)) (\<lambda>n.
     and_then (refresh_status_by_key (put_participant k (p\<lparr>bp_other_secured_exposure := ux_new_exposure rq,
       bp_sequence := n\<rparr>) b) k now) (\<lambda>b.
     let b = applied (ux_operation_id rq) b in
     and_then (available_headroom b (ux_legal_entity_id rq) now) (\<lambda>headroom. Ok (b, headroom))))))))))"

text \<open>The loop that releases the live reservations of one entity.\<close>

definition release_all :: "id32 \<Rightarrow> boj_book \<Rightarrow> boj_book" where
  "release_all entity b = b\<lparr>bb_reservations := bt_map (\<lambda>_ r.
     if ir_legal_entity_id r = entity \<and> ir_status r = ReservationActive then r\<lparr>ir_status := Released\<rparr> else r)
     (bb_reservations b)\<rparr>"

definition open_business_day_inner ::
  "open_business_day \<Rightarrow> u64 \<Rightarrow> boj_book \<Rightarrow> (boj_book \<times> participant_status, boj_error) result" where
  "open_business_day_inner rq now b =
     and_then (ensure_new_operation b (od_operation_id rq)) (\<lambda>_.
     let k = key (od_legal_entity_id rq) in
     and_then (ok_or (bt_get (bb_participants b) k) UnknownParticipant) (\<lambda>p.
     and_then (check_sequence (bp_sequence p) (od_expected_participant_sequence rq)) (\<lambda>_.
     and_then (ensure (\<not> (bp_status p = Suspended \<or> bp_intraday_overdraft p \<noteq> 0 \<or> \<not> bp_business_day_closed p \<or>
       od_business_day rq \<le> bp_business_day p \<or> now < bp_repayment_deadline p \<or> od_repayment_deadline rq \<le> now))
       InvalidBusinessDay) (\<lambda>_.
     let b = release_all (od_legal_entity_id rq) b in
     and_then (bump (bp_sequence p)) (\<lambda>n.
     and_then (refresh_status_by_key (put_participant k (p\<lparr>bp_business_day := od_business_day rq,
       bp_repayment_deadline := od_repayment_deadline rq, bp_business_day_closed := False, bp_status := Active,
       bp_sequence := n\<rparr>) b) k now) (\<lambda>b.
     and_then (ok_or (bt_get (bb_participants b) k) BojPanic) (\<lambda>q.
     Ok (applied (od_operation_id rq) b, bp_status q))))))))"

definition end_business_day_inner ::
  "end_business_day \<Rightarrow> u64 \<Rightarrow> boj_book \<Rightarrow> (boj_book \<times> participant_status, boj_error) result" where
  "end_business_day_inner rq now b =
     and_then (ensure_new_operation b (ed_operation_id rq)) (\<lambda>_.
     let k = key (ed_legal_entity_id rq) in
     and_then (ok_or (bt_get (bb_participants b) k) UnknownParticipant) (\<lambda>p.
     and_then (check_sequence (bp_sequence p) (ed_expected_participant_sequence rq)) (\<lambda>_.
     and_then (ensure (\<not> now < bp_repayment_deadline p) TooEarlyForEndOfDay) (\<lambda>_.
     and_then (ensure (\<not> bp_business_day_closed p) BusinessDayAlreadyClosed) (\<lambda>_.
     let b = release_all (ed_legal_entity_id rq) b;
         status = if bp_intraday_overdraft p = 0 then Active else Overdue in
     and_then (bump (bp_sequence p)) (\<lambda>n.
     Ok (applied (ed_operation_id rq) (put_participant k (p\<lparr>bp_status := status, bp_business_day_closed := True,
       bp_sequence := n\<rparr>) b), status)))))))"

subsection \<open>Simultaneous collateral DvP\<close>

text \<open>
  The body in three parts, in the order of the code: who takes part, whether both sides are
  covered afterwards, and the writes.
\<close>

definition dvp_parties ::
  "collateral_dvp \<Rightarrow> u64 \<Rightarrow> boj_book \<Rightarrow> (boj_participant \<times> boj_participant \<times> jgb_lot, boj_error) result" where
  "dvp_parties rq now b =
     and_then (ok_or (bt_get (bb_participants b) (key (cd_buyer rq))) UnknownParticipant) (\<lambda>buyer.
     and_then (ok_or (bt_get (bb_participants b) (key (cd_seller rq))) UnknownParticipant) (\<lambda>seller.
     and_then (ok_or (bt_get (bb_collateral_lots b) (key (cd_lot_id rq))) UnknownCollateral) (\<lambda>lot.
     and_then (check_sequence (bp_sequence buyer) (cd_expected_buyer_sequence rq)) (\<lambda>_.
     and_then (check_sequence (bp_sequence seller) (cd_expected_seller_sequence rq)) (\<lambda>_.
     and_then (check_sequence (jl_sequence lot) (cd_expected_lot_sequence rq)) (\<lambda>_.
     and_then (ensure (\<not> (jl_owner lot \<noteq> cd_seller rq \<or> bp_business_day buyer \<noteq> bp_business_day seller \<or>
       now \<ge> bp_repayment_deadline buyer \<or> now \<ge> bp_repayment_deadline seller \<or>
       bp_business_day_closed buyer \<or> bp_business_day_closed seller \<or>
       bp_status buyer \<in> {Suspended, Overdue} \<or> bp_status seller \<in> {Suspended, Overdue})) ParticipantUnavailable) (\<lambda>_.
     Ok (buyer, seller, lot))))))))"

definition reserved_by_this :: "collateral_dvp \<Rightarrow> u64 \<Rightarrow> u64 \<Rightarrow> boj_book \<Rightarrow> (u64, boj_error) result" where
  "reserved_by_this rq now draw b =
     (if cd_overdraft_reservation_id rq \<noteq> 0 then
        and_then (ok_or (bt_get (bb_reservations b) (key (cd_overdraft_reservation_id rq))) UnknownReservation) (\<lambda>r.
        and_then (ensure (\<not> (ir_legal_entity_id r \<noteq> cd_buyer rq \<or>
          ir_instruction_commitment r \<noteq> cd_instruction_commitment rq \<or> \<not> is_live r now \<or> draw > ir_amount r))
          InvalidReservation) (\<lambda>_.
        Ok (ir_amount r)))
      else Ok 0)"

definition buyer_covered ::
  "collateral_dvp \<Rightarrow> u64 \<Rightarrow> boj_participant \<Rightarrow> u64 \<Rightarrow> u64 \<Rightarrow> u64 \<Rightarrow> boj_book \<Rightarrow> (unit, boj_error) result" where
  "buyer_covered rq now buyer draw lot_value reserved b =
     and_then (collateral_value b (cd_buyer rq)) (\<lambda>collateral.
     and_then (ok_or (checked_add collateral (if cd_buyer_pledges_on_receipt rq then lot_value else 0))
       ArithmeticOverflow) (\<lambda>collateral_after.
     and_then (live_reserved b (cd_buyer rq) now) (\<lambda>live.
     and_then (ok_or (checked_sub live reserved) InvalidStoredState) (\<lambda>other_live.
     and_then (ok_or (Option.bind (Option.bind (checked_add (bp_other_secured_exposure buyer) (bp_intraday_overdraft buyer))
         (\<lambda>v. checked_add v draw)) (\<lambda>v. checked_add v other_live)) ArithmeticOverflow) (\<lambda>required_after.
     and_then (ensure (\<not> (draw \<noteq> 0 \<and> bp_status buyer \<noteq> Active)) ParticipantUnavailable) (\<lambda>_.
     ensure (\<not> collateral_after < required_after) InsufficientCollateral))))))"

definition seller_covered ::
  "collateral_dvp \<Rightarrow> u64 \<Rightarrow> boj_participant \<Rightarrow> u64 \<Rightarrow> jgb_lot \<Rightarrow> u64 \<Rightarrow> boj_book \<Rightarrow> (unit, boj_error) result" where
  "seller_covered rq now seller repayment lot lot_value b =
     and_then (collateral_value b (cd_seller rq)) (\<lambda>collateral.
     and_then (ok_or (checked_sub collateral (if jl_pledged lot then lot_value else 0)) InvalidStoredState) (\<lambda>collateral_after.
     and_then (required_of b (cd_seller rq) now (bp_other_secured_exposure seller)
       (bp_intraday_overdraft seller - repayment)) (\<lambda>required_after.
     ensure (\<not> collateral_after < required_after) InsufficientCollateral)))"

definition consume_reservation :: "id32 \<Rightarrow> u64 \<Rightarrow> boj_book \<Rightarrow> (boj_book, boj_error) result" where
  "consume_reservation rid draw b =
     (if rid \<noteq> 0 then
        and_then (ok_or (bt_get (bb_reservations b) (key rid)) BojPanic) (\<lambda>r.
        Ok (put_reservation (key rid) (r\<lparr>ir_status := Consumed, ir_consumed := draw\<rparr>) b))
      else Ok b)"

definition dvp_write ::
  "collateral_dvp \<Rightarrow> boj_participant \<Rightarrow> boj_participant \<Rightarrow> jgb_lot \<Rightarrow> u64 \<Rightarrow> u64 \<Rightarrow> u64 \<Rightarrow> u64 \<Rightarrow> boj_book
    \<Rightarrow> (boj_book, boj_error) result" where
  "dvp_write rq buyer seller lot draw repayment buyer_cash seller_cash b =
     and_then (ok_or (checked_add (bp_intraday_overdraft buyer) draw) ArithmeticOverflow) (\<lambda>overdraft.
     and_then (bump (bp_sequence buyer)) (\<lambda>bn.
     and_then (bump (bp_sequence seller)) (\<lambda>sn.
     and_then (bump (jl_sequence lot)) (\<lambda>ln.
     consume_reservation (cd_overdraft_reservation_id rq) draw
       (put_lot (key (cd_lot_id rq)) (lot\<lparr>jl_owner := cd_buyer rq, jl_pledged := cd_buyer_pledges_on_receipt rq, jl_sequence := ln\<rparr>)
       (put_participant (key (cd_seller rq)) (seller\<lparr>bp_current_account_balance := seller_cash,
          bp_intraday_overdraft := bp_intraday_overdraft seller - repayment, bp_sequence := sn\<rparr>)
       (put_participant (key (cd_buyer rq)) (buyer\<lparr>bp_current_account_balance := buyer_cash,
          bp_intraday_overdraft := overdraft, bp_sequence := bn\<rparr>) b)))))))"

definition collateral_dvp_inner :: "collateral_dvp \<Rightarrow> u64 \<Rightarrow> boj_book \<Rightarrow> (boj_book \<times> dvp_outcome, boj_error) result" where
  "collateral_dvp_inner rq now b =
     and_then (ensure_new_operation b (cd_operation_id rq)) (\<lambda>_.
     and_then (ensure (\<not> (has_zero [cd_settlement_id rq, cd_instruction_commitment rq, cd_buyer rq, cd_seller rq, cd_lot_id rq] \<or>
       cd_payment rq = 0 \<or> cd_buyer rq = cd_seller rq \<or> key (cd_settlement_id rq) \<in> bb_completed_settlements b))
       InvalidSettlement) (\<lambda>_.
     and_then (refresh_status_by_key b (key (cd_buyer rq)) now) (\<lambda>b.
     and_then (refresh_status_by_key b (key (cd_seller rq)) now) (\<lambda>b.
     and_then (dvp_parties rq now b) (\<lambda>(buyer, seller, lot).
     let draw = saturating_sub (cd_payment rq) (bp_current_account_balance buyer);
         repayment = min (bp_intraday_overdraft seller) (cd_payment rq) in
     and_then (collateral_value_yen lot) (\<lambda>lot_value.
     and_then (reserved_by_this rq now draw b) (\<lambda>reserved.
     and_then (buyer_covered rq now buyer draw lot_value reserved b) (\<lambda>_.
     and_then (seller_covered rq now seller repayment lot lot_value b) (\<lambda>_.
     and_then (ok_or (Option.bind (checked_add (bp_current_account_balance buyer) draw)
       (\<lambda>v. checked_sub v (cd_payment rq))) ArithmeticOverflow) (\<lambda>buyer_cash.
     and_then (ok_or (checked_add (bp_current_account_balance seller) (cd_payment rq - repayment)) ArithmeticOverflow) (\<lambda>seller_cash.
     and_then (dvp_write rq buyer seller lot draw repayment buyer_cash seller_cash b) (\<lambda>b.
     and_then (refresh_status_by_key b (key (cd_buyer rq)) now) (\<lambda>b.
     and_then (refresh_status_by_key b (key (cd_seller rq)) now) (\<lambda>b.
     Ok (applied (cd_operation_id rq)
         (completed (cd_settlement_id rq) b),
       \<lparr>do_overdraft_draw = draw, do_seller_overdraft_repayment = repayment,
        do_buyer_cash_after = buyer_cash, do_seller_cash_after = seller_cash\<rparr>)))))))))))))))"

section \<open>The public operations\<close>

datatype boj_op =
  RegisterParticipant register_participant
  | PledgeCollateral pledge_collateral
  | RevalueCollateral revalue_collateral
  | ReserveIntradayLiquidity reserve_liquidity
  | ReleaseIntradayLiquidity release_liquidity
  | ReturnCollateral return_collateral
  | ApplyFundsReceipt funds_receipt
  | UpdateOtherSecuredExposure update_exposure
  | OpenBusinessDay open_business_day
  | SimultaneousCollateralDvp collateral_dvp
  | EndBusinessDay end_business_day

definition book_only :: "(boj_book \<times> 'a, boj_error) result \<Rightarrow> (boj_book, boj_error) result" where
  "book_only r = and_then r (\<lambda>(b, _). Ok b)"

fun boj_inner :: "boj_op \<Rightarrow> u64 \<Rightarrow> boj_book \<Rightarrow> (boj_book, boj_error) result" where
  "boj_inner (RegisterParticipant rq) now b = book_only (register_participant_inner rq now b)"
| "boj_inner (PledgeCollateral rq) now b = book_only (pledge_collateral_inner rq now b)"
| "boj_inner (RevalueCollateral rq) now b = book_only (revalue_collateral_inner rq now b)"
| "boj_inner (ReserveIntradayLiquidity rq) now b = book_only (reserve_liquidity_inner rq now b)"
| "boj_inner (ReleaseIntradayLiquidity rq) now b = book_only (release_liquidity_inner rq now b)"
| "boj_inner (ReturnCollateral rq) now b = book_only (return_collateral_inner rq now b)"
| "boj_inner (ApplyFundsReceipt rq) now b = book_only (apply_funds_receipt_inner rq now b)"
| "boj_inner (UpdateOtherSecuredExposure rq) now b = book_only (update_exposure_inner rq now b)"
| "boj_inner (OpenBusinessDay rq) now b = book_only (open_business_day_inner rq now b)"
| "boj_inner (SimultaneousCollateralDvp rq) now b = book_only (collateral_dvp_inner rq now b)"
| "boj_inner (EndBusinessDay rq) now b = book_only (end_business_day_inner rq now b)"

definition boj_apply :: "boj_op \<Rightarrow> u64 \<Rightarrow> boj_book \<Rightarrow> (boj_book, boj_error) result" where
  "boj_apply op now b = book_only (atomic (\<lambda>b. and_then (boj_inner op now b) (\<lambda>b'. Ok (b', ()))) b)"

definition boj_step :: "boj_book \<Rightarrow> boj_op \<times> u64 \<Rightarrow> boj_book option" where
  "boj_step b = (\<lambda>(op, now). result_ok (boj_apply op now b))"

section \<open>What the writes change\<close>

lemma put_participant_sel [simp]:
  "bb_participants (put_participant k p b) = bt_insert k p (bb_participants b)"
  "bb_collateral_lots (put_participant k p b) = bb_collateral_lots b"
  "bb_reservations (put_participant k p b) = bb_reservations b"
  "bb_completed_settlements (put_participant k p b) = bb_completed_settlements b"
  "bb_applied_funds_receipts (put_participant k p b) = bb_applied_funds_receipts b"
  "bb_applied_operations (put_participant k p b) = bb_applied_operations b"
  by (simp_all add: put_participant_def)

lemma put_lot_sel [simp]:
  "bb_participants (put_lot k l b) = bb_participants b"
  "bb_collateral_lots (put_lot k l b) = bt_insert k l (bb_collateral_lots b)"
  "bb_reservations (put_lot k l b) = bb_reservations b"
  "bb_completed_settlements (put_lot k l b) = bb_completed_settlements b"
  "bb_applied_funds_receipts (put_lot k l b) = bb_applied_funds_receipts b"
  "bb_applied_operations (put_lot k l b) = bb_applied_operations b"
  by (simp_all add: put_lot_def)

lemma put_reservation_sel [simp]:
  "bb_participants (put_reservation k r b) = bb_participants b"
  "bb_collateral_lots (put_reservation k r b) = bb_collateral_lots b"
  "bb_reservations (put_reservation k r b) = bt_insert k r (bb_reservations b)"
  "bb_completed_settlements (put_reservation k r b) = bb_completed_settlements b"
  "bb_applied_funds_receipts (put_reservation k r b) = bb_applied_funds_receipts b"
  "bb_applied_operations (put_reservation k r b) = bb_applied_operations b"
  by (simp_all add: put_reservation_def)

lemma applied_sel [simp]:
  "bb_participants (applied op b) = bb_participants b"
  "bb_collateral_lots (applied op b) = bb_collateral_lots b"
  "bb_reservations (applied op b) = bb_reservations b"
  "bb_completed_settlements (applied op b) = bb_completed_settlements b"
  "bb_applied_funds_receipts (applied op b) = bb_applied_funds_receipts b"
  "bb_applied_operations (applied op b) = insert (key op) (bb_applied_operations b)"
  by (simp_all add: applied_def)

lemma received_sel [simp]:
  "bb_participants (received i b) = bb_participants b"
  "bb_collateral_lots (received i b) = bb_collateral_lots b"
  "bb_reservations (received i b) = bb_reservations b"
  "bb_completed_settlements (received i b) = bb_completed_settlements b"
  "bb_applied_funds_receipts (received i b) = insert (key i) (bb_applied_funds_receipts b)"
  "bb_applied_operations (received i b) = bb_applied_operations b"
  by (simp_all add: received_def)

lemma completed_sel [simp]:
  "bb_participants (completed i b) = bb_participants b"
  "bb_collateral_lots (completed i b) = bb_collateral_lots b"
  "bb_reservations (completed i b) = bb_reservations b"
  "bb_completed_settlements (completed i b) = insert (key i) (bb_completed_settlements b)"
  "bb_applied_funds_receipts (completed i b) = bb_applied_funds_receipts b"
  "bb_applied_operations (completed i b) = bb_applied_operations b"
  by (simp_all add: completed_def)

lemma release_all_sel [simp]:
  "bb_participants (release_all e b) = bb_participants b"
  "bb_collateral_lots (release_all e b) = bb_collateral_lots b"
  "bt_get (bb_reservations (release_all e b)) k = map_option (\<lambda>r.
     if ir_legal_entity_id r = e \<and> ir_status r = ReservationActive then r\<lparr>ir_status := Released\<rparr> else r)
     (bt_get (bb_reservations b) k)"
  "bb_completed_settlements (release_all e b) = bb_completed_settlements b"
  "bb_applied_funds_receipts (release_all e b) = bb_applied_funds_receipts b"
  "bb_applied_operations (release_all e b) = bb_applied_operations b"
  by (simp_all add: release_all_def)

end
