(* ===== verification/CentralBankSafety.thy ===== *)
theory CentralBankSafety
  imports CentralBank
begin

text \<open>
  Properties of the common collateral pool: every operation keeps the stored state valid, so
  the validation at its end never refuses; the balances less the overdrafts are what was
  paid in; and operations, receipts and settlements are applied once, by the \<open>once_only\<close>
  interface. An elimination rule per operation says what an accepted request did.
\<close>

section \<open>Conformance of a book\<close>

definition participant_ok :: "boj_participant \<Rightarrow> bool" where
  "participant_ok p \<longleftrightarrow> bp_legal_entity_id p \<noteq> 0 \<and> bp_funds_account_id p \<noteq> 0 \<and> bp_jgb_account_id p \<noteq> 0 \<and>
     bp_business_day p \<noteq> 0 \<and> bp_repayment_deadline p \<noteq> 0 \<and> (bp_status p = Overdue \<longrightarrow> bp_business_day_closed p) \<and>
     (bp_current_account_balance p = 0 \<or> bp_intraday_overdraft p = 0)"

definition lot_ok :: "boj_book \<Rightarrow> jgb_lot \<Rightarrow> bool" where
  "lot_ok b l \<longleftrightarrow> jl_lot_id l \<noteq> 0 \<and> jl_asset_id l \<noteq> 0 \<and> jl_owner l \<noteq> 0 \<and>
     bt_contains (bb_participants b) (key (jl_owner l)) \<and> is_ok (collateral_value_yen l)"

definition reservation_ok :: "boj_book \<Rightarrow> intraday_reservation \<Rightarrow> bool" where
  "reservation_ok b r \<longleftrightarrow> ir_reservation_id r \<noteq> 0 \<and> ir_legal_entity_id r \<noteq> 0 \<and> ir_instruction_commitment r \<noteq> 0 \<and>
     ir_amount r \<noteq> 0 \<and> ir_expires_at r \<noteq> 0 \<and> bt_contains (bb_participants b) (key (ir_legal_entity_id r)) \<and>
     (ir_status r \<noteq> Consumed \<longrightarrow> ir_consumed r = 0) \<and> ir_consumed r \<le> ir_amount r"

definition stored_key :: "str \<Rightarrow> bool" where
  "stored_key v \<longleftrightarrow> length (as_bytes v) = 64 \<and> hex_decode v \<noteq> None"

abbreviation valid :: "boj_book \<Rightarrow> bool" where
  "valid b \<equiv> boj_validate b = Ok ()"

lemma stored_key [simp]: "stored_key (key i)"
  by (simp add: stored_key_def)

lemma valid_iff:
  "valid b \<longleftrightarrow>
    (\<forall>k p. bt_get (bb_participants b) k = Some p \<longrightarrow> k = key (bp_legal_entity_id p) \<and> participant_ok p) \<and>
    (\<forall>k l. bt_get (bb_collateral_lots b) k = Some l \<longrightarrow> k = key (jl_lot_id l) \<and> lot_ok b l) \<and>
    (\<forall>k r. bt_get (bb_reservations b) k = Some r \<longrightarrow> k = key (ir_reservation_id r) \<and> reservation_ok b r) \<and>
    (\<forall>v \<in> bb_completed_settlements b \<union> bb_applied_funds_receipts b \<union> bb_applied_operations b. stored_key v)"
proof -
  have p: "validate_participant x = Ok () \<longleftrightarrow> fst x = key (bp_legal_entity_id (snd x)) \<and> participant_ok (snd x)" for x
    by (cases x) (auto simp: validate_participant_def participant_ok_def has_zero_def)
  have l: "validate_lot b x = Ok () \<longleftrightarrow> fst x = key (jl_lot_id (snd x)) \<and> lot_ok b (snd x)" for x
    by (cases x) (auto simp: validate_lot_def lot_ok_def has_zero_def is_ok_iff)
  have r: "validate_reservation b x = Ok () \<longleftrightarrow> fst x = key (ir_reservation_id (snd x)) \<and> reservation_ok b (snd x)" for x
    by (cases x) (auto simp: validate_reservation_def reservation_ok_def has_zero_def)
  show ?thesis
    by (simp add: boj_validate_def p l r split_paired_Ball_Sigma stored_key_def Ball_def entries_get)
qed

lemma valid_participant:
  "valid b \<Longrightarrow> bt_get (bb_participants b) k = Some p \<Longrightarrow> k = key (bp_legal_entity_id p) \<and> participant_ok p"
  by (simp add: valid_iff)

lemma valid_lot:
  "valid b \<Longrightarrow> bt_get (bb_collateral_lots b) k = Some l \<Longrightarrow> k = key (jl_lot_id l) \<and> lot_ok b l"
  by (simp add: valid_iff)

lemma valid_reservation:
  "valid b \<Longrightarrow> bt_get (bb_reservations b) k = Some r \<Longrightarrow> k = key (ir_reservation_id r) \<and> reservation_ok b r"
  by (simp add: valid_iff)

named_theorems keeps_valid

lemma valid_put_participant [keeps_valid]:
  "valid b \<Longrightarrow> k = key (bp_legal_entity_id p) \<Longrightarrow> participant_ok p \<Longrightarrow> valid (put_participant k p b)"
  by (auto simp: valid_iff lot_ok_def reservation_ok_def)

lemma valid_put_lot [keeps_valid]:
  "valid b \<Longrightarrow> k = key (jl_lot_id l) \<Longrightarrow> lot_ok b l \<Longrightarrow> valid (put_lot k l b)"
  by (auto simp: valid_iff lot_ok_def reservation_ok_def)

lemma valid_put_reservation [keeps_valid]:
  "valid b \<Longrightarrow> k = key (ir_reservation_id r) \<Longrightarrow> reservation_ok b r \<Longrightarrow> valid (put_reservation k r b)"
  by (auto simp: valid_iff lot_ok_def reservation_ok_def)

lemma valid_applied [keeps_valid]: "valid b \<Longrightarrow> valid (applied op b)"
  by (auto simp: valid_iff lot_ok_def reservation_ok_def)

lemma valid_receipt [keeps_valid]:
  "valid b \<Longrightarrow> valid (received i b)"
  by (auto simp: valid_iff lot_ok_def reservation_ok_def)

lemma valid_settlement [keeps_valid]:
  "valid b \<Longrightarrow> valid (completed i b)"
  by (auto simp: valid_iff lot_ok_def reservation_ok_def)

lemma valid_release_all [keeps_valid]: "valid b \<Longrightarrow> valid (release_all entity b)"
  by (auto simp: valid_iff lot_ok_def reservation_ok_def)

lemma refreshD:
  assumes "refresh_status_by_key b k now = Ok b'"
  obtains p s where "bt_get (bb_participants b) k = Some p"
    "b' = put_participant k (p\<lparr>bp_status := s\<rparr>) b" "s = Suspended \<or> s = Overdue \<Longrightarrow> s = bp_status p"
proof -
  obtain p collateral required where p: "bt_get (bb_participants b) k = Some p"
    and b': "b' = (if bp_status p \<noteq> Suspended \<and> bp_status p \<noteq> Overdue
      then put_participant k (p\<lparr>bp_status := if collateral < (required :: u64) then CollateralShortfall else Active\<rparr>) b else b)"
    using assms unfolding refresh_status_by_key_def by auto
  show thesis
  proof (cases "bp_status p \<noteq> Suspended \<and> bp_status p \<noteq> Overdue")
    case True
    then show thesis using that [OF p, of "if collateral < required then CollateralShortfall else Active"] b' by (simp split: if_splits)
  next
    case False
    then show thesis using that [OF p, of "bp_status p"] b' bt_insert_same [OF p] by (auto simp: put_participant_def)
  qed
qed

lemma valid_refresh: "valid b \<Longrightarrow> refresh_status_by_key b k now = Ok b' \<Longrightarrow> valid b'"
  by (erule refreshD) (auto intro!: valid_put_participant dest: valid_participant simp: participant_ok_def)

section \<open>What an accepted operation did\<close>

lemmas inner_defs = ensure_new_operation_def has_zero_def Let_def

lemma later_nonzero: "\<not> d \<le> (now :: u64) \<Longrightarrow> d \<noteq> 0"
  by auto

lemma registerD:
  assumes "register_participant_inner rq now b = Ok (b', u)"
  obtains p where "p = rp_participant rq" "b' = applied (rp_operation_id rq) (put_participant (key (bp_legal_entity_id p)) p b)"
    "key (rp_operation_id rq) \<notin> bb_applied_operations b" "bt_get (bb_participants b) (key (bp_legal_entity_id p)) = None"
    "participant_ok p" "bp_intraday_overdraft p = 0" "bp_status p = Active"
  using assms by (auto simp: register_participant_inner_def inner_defs participant_ok_def dest: later_nonzero)

lemma pledgeD:
  assumes "pledge_collateral_inner rq now b = Ok (b', v)"
  obtains lot p n b1 where "lot = pl_lot rq" "bt_get (bb_participants b) (key (jl_owner lot)) = Some p"
    "refresh_status_by_key (put_lot (key (jl_lot_id lot)) (lot\<lparr>jl_sequence := 1\<rparr>)
       (put_participant (key (jl_owner lot)) (p\<lparr>bp_sequence := n\<rparr>) b)) (key (jl_owner lot)) now = Ok b1"
    "b' = applied (pl_operation_id rq) b1" "key (pl_operation_id rq) \<notin> bb_applied_operations b"
    "0 \<notin> {jl_lot_id lot, jl_asset_id lot, jl_owner lot}"
    "bt_get (bb_collateral_lots b) (key (jl_lot_id lot)) = None" "collateral_value_yen lot = Ok v"
  using assms by (auto simp: pledge_collateral_inner_def inner_defs)

lemma revalueD:
  assumes "revalue_collateral_inner rq now b = Ok (b', v)"
  obtains lot lot' p n b1 where "bt_get (bb_collateral_lots b) (key (rv_lot_id rq)) = Some lot"
    "jl_lot_id lot' = jl_lot_id lot" "jl_asset_id lot' = jl_asset_id lot" "jl_owner lot' = jl_owner lot"
    "is_ok (collateral_value_yen lot')" "bt_get (bb_participants b) (key (jl_owner lot)) = Some p"
    "refresh_status_by_key (put_participant (key (jl_owner lot)) (p\<lparr>bp_sequence := n\<rparr>)
       (put_lot (key (rv_lot_id rq)) lot' b)) (key (jl_owner lot)) now = Ok b1"
    "b' = applied (rv_operation_id rq) b1" "key (rv_operation_id rq) \<notin> bb_applied_operations b"
proof -
  obtain lot ln w p n b1 where "bt_get (bb_collateral_lots b) (key (rv_lot_id rq)) = Some lot"
    "bt_get (bb_participants b) (key (jl_owner lot)) = Some p"
    "collateral_value_yen (lot\<lparr>jl_market_price := rv_market_price rq, jl_index_ratio := rv_index_ratio rq,
       jl_valuation_rate_bps := rv_valuation_rate_bps rq, jl_valuation_epoch := rv_valuation_epoch rq, jl_sequence := ln\<rparr>) = Ok w"
    "refresh_status_by_key (put_participant (key (jl_owner lot)) (p\<lparr>bp_sequence := n\<rparr>)
       (put_lot (key (rv_lot_id rq)) (lot\<lparr>jl_market_price := rv_market_price rq, jl_index_ratio := rv_index_ratio rq,
       jl_valuation_rate_bps := rv_valuation_rate_bps rq, jl_valuation_epoch := rv_valuation_epoch rq, jl_sequence := ln\<rparr>) b))
       (key (jl_owner lot)) now = Ok b1"
    "b' = applied (rv_operation_id rq) b1" "key (rv_operation_id rq) \<notin> bb_applied_operations b"
    using assms by (auto simp: revalue_collateral_inner_def inner_defs)
  then show thesis by (intro that) (simp_all add: is_ok_iff)
qed

lemma reserveD:
  assumes "reserve_liquidity_inner rq now b = Ok (b', v)"
  obtains b1 p n headroom where "refresh_status_by_key b (key (rs_legal_entity_id rq)) now = Ok b1"
    "bt_get (bb_participants b1) (key (rs_legal_entity_id rq)) = Some p"
    "available_headroom b1 (rs_legal_entity_id rq) now = Ok headroom" "rs_amount rq \<le> headroom"
    "b' = applied (rs_operation_id rq) (put_participant (key (rs_legal_entity_id rq)) (p\<lparr>bp_sequence := n\<rparr>)
       (put_reservation (key (rs_reservation_id rq)) \<lparr>ir_reservation_id = rs_reservation_id rq,
         ir_legal_entity_id = rs_legal_entity_id rq, ir_instruction_commitment = rs_instruction_commitment rq,
         ir_amount = rs_amount rq, ir_expires_at = rs_expires_at rq, ir_status = ReservationActive, ir_consumed = 0\<rparr> b1))"
    "key (rs_operation_id rq) \<notin> bb_applied_operations b" "now < rs_expires_at rq" "rs_amount rq \<noteq> 0"
    "0 \<notin> {rs_reservation_id rq, rs_legal_entity_id rq, rs_instruction_commitment rq}"
    "bt_get (bb_reservations b) (key (rs_reservation_id rq)) = None"
  using assms by (auto simp: reserve_liquidity_inner_def inner_defs not_less not_le)

lemma releaseD:
  assumes "release_liquidity_inner rq now b = Ok (b', v)"
  obtains p n r b1 where "bt_get (bb_participants b) (key (rl_legal_entity_id rq)) = Some p"
    "bt_get (bb_reservations b) (key (rl_reservation_id rq)) = Some r" "ir_status r = ReservationActive"
    "refresh_status_by_key (put_participant (key (rl_legal_entity_id rq)) (p\<lparr>bp_sequence := n\<rparr>)
       (put_reservation (key (rl_reservation_id rq)) (r\<lparr>ir_status := Released\<rparr>) b)) (key (rl_legal_entity_id rq)) now = Ok b1"
    "b' = applied (rl_operation_id rq) b1" "key (rl_operation_id rq) \<notin> bb_applied_operations b"
  using assms by (auto simp: release_liquidity_inner_def inner_defs)

lemma returnD:
  assumes "return_collateral_inner rq now b = Ok (b', v)"
  obtains lot b1 p n ln w collateral left required where "bt_get (bb_collateral_lots b) (key (rc_lot_id rq)) = Some lot" "jl_pledged lot"
    "refresh_status_by_key b (key (jl_owner lot)) now = Ok b1" "bt_get (bb_participants b1) (key (jl_owner lot)) = Some p"
    "collateral_value_yen lot = Ok w" "collateral_value b1 (jl_owner lot) = Ok collateral" "checked_sub collateral w = Some left"
    "required_of b1 (jl_owner lot) now (bp_other_secured_exposure p) (bp_intraday_overdraft p) = Ok required" "required \<le> left"
    "b' = applied (rc_operation_id rq) (put_participant (key (jl_owner lot)) (p\<lparr>bp_sequence := n\<rparr>)
       (put_lot (key (rc_lot_id rq)) (lot\<lparr>jl_pledged := False, jl_sequence := ln\<rparr>) b1))"
    "key (rc_operation_id rq) \<notin> bb_applied_operations b"
  using assms by (auto simp: return_collateral_inner_def inner_defs not_less)

lemma receiptD:
  assumes "apply_funds_receipt_inner rq now b = Ok (b', v)"
  obtains p n r balance b1 where "bt_get (bb_participants b) (key (fr_legal_entity_id rq)) = Some p"
    "r = min (bp_intraday_overdraft p) (fr_amount rq)"
    "checked_add (bp_current_account_balance p) (fr_amount rq - r) = Some balance"
    "refresh_status_by_key (put_participant (key (fr_legal_entity_id rq)) (p\<lparr>bp_intraday_overdraft := bp_intraday_overdraft p - r,
       bp_current_account_balance := balance, bp_sequence := n\<rparr>) b) (key (fr_legal_entity_id rq)) now = Ok b1"
    "b' = applied (fr_operation_id rq) (received (fr_receipt_id rq) b1)" "key (fr_operation_id rq) \<notin> bb_applied_operations b"
    "key (fr_receipt_id rq) \<notin> bb_applied_funds_receipts b"
  using assms by (auto simp: apply_funds_receipt_inner_def inner_defs)

lemma exposureD:
  assumes "update_exposure_inner rq now b = Ok (b', v)"
  obtains p n required b1 where "bt_get (bb_participants b) (key (ux_legal_entity_id rq)) = Some p"
    "required_of b (ux_legal_entity_id rq) now (ux_new_exposure rq) (bp_intraday_overdraft p) = Ok required"
    "bp_other_secured_exposure p < ux_new_exposure rq \<Longrightarrow> \<exists>c. collateral_value b (ux_legal_entity_id rq) = Ok c \<and> required \<le> c"
    "refresh_status_by_key (put_participant (key (ux_legal_entity_id rq)) (p\<lparr>bp_other_secured_exposure := ux_new_exposure rq,
       bp_sequence := n\<rparr>) b) (key (ux_legal_entity_id rq)) now = Ok b1"
    "b' = applied (ux_operation_id rq) b1" "key (ux_operation_id rq) \<notin> bb_applied_operations b"
  using assms by (auto simp: update_exposure_inner_def inner_defs not_less split: if_splits)

lemma openD:
  assumes "open_business_day_inner rq now b = Ok (b', v)"
  obtains p n b1 where "bt_get (bb_participants b) (key (od_legal_entity_id rq)) = Some p" "now < od_repayment_deadline rq"
    "bp_business_day p < od_business_day rq"
    "refresh_status_by_key (put_participant (key (od_legal_entity_id rq)) (p\<lparr>bp_business_day := od_business_day rq,
       bp_repayment_deadline := od_repayment_deadline rq, bp_business_day_closed := False, bp_status := Active,
       bp_sequence := n\<rparr>) (release_all (od_legal_entity_id rq) b)) (key (od_legal_entity_id rq)) now = Ok b1"
    "b' = applied (od_operation_id rq) b1" "key (od_operation_id rq) \<notin> bb_applied_operations b"
  using assms by (auto simp: open_business_day_inner_def inner_defs not_le)

lemma endD:
  assumes "end_business_day_inner rq now b = Ok (b', v)"
  obtains p n status where "bt_get (bb_participants b) (key (ed_legal_entity_id rq)) = Some p"
    "status = (if bp_intraday_overdraft p = 0 then Active else Overdue)"
    "b' = applied (ed_operation_id rq) (put_participant (key (ed_legal_entity_id rq)) (p\<lparr>bp_status := status,
       bp_business_day_closed := True, bp_sequence := n\<rparr>) (release_all (ed_legal_entity_id rq) b))"
    "key (ed_operation_id rq) \<notin> bb_applied_operations b"
  using assms by (auto simp: end_business_day_inner_def inner_defs)

lemma dvpD:
  assumes "collateral_dvp_inner rq now b = Ok (b', v)"
  obtains b1 b2 b3 b4 b5 buyer seller lot draw repayment lot_value reserved buyer_cash seller_cash where
    "key (cd_operation_id rq) \<notin> bb_applied_operations b" "key (cd_settlement_id rq) \<notin> bb_completed_settlements b"
    "cd_buyer rq \<noteq> cd_seller rq" "cd_payment rq \<noteq> 0" "cd_buyer rq \<noteq> 0"
    "refresh_status_by_key b (key (cd_buyer rq)) now = Ok b1" "refresh_status_by_key b1 (key (cd_seller rq)) now = Ok b2"
    "dvp_parties rq now b2 = Ok (buyer, seller, lot)"
    "draw = saturating_sub (cd_payment rq) (bp_current_account_balance buyer)"
    "repayment = min (bp_intraday_overdraft seller) (cd_payment rq)"
    "collateral_value_yen lot = Ok lot_value" "reserved_by_this rq now draw b2 = Ok reserved"
    "buyer_covered rq now buyer draw lot_value reserved b2 = Ok ()"
    "seller_covered rq now seller repayment lot lot_value b2 = Ok ()"
    "unat (bp_current_account_balance buyer) + unat draw = unat (cd_payment rq) + unat buyer_cash"
    "unat seller_cash = unat (bp_current_account_balance seller) + unat (cd_payment rq - repayment)"
    "dvp_write rq buyer seller lot draw repayment buyer_cash seller_cash b2 = Ok b3"
    "refresh_status_by_key b3 (key (cd_buyer rq)) now = Ok b4" "refresh_status_by_key b4 (key (cd_seller rq)) now = Ok b5"
    "b' = applied (cd_operation_id rq) (completed (cd_settlement_id rq) b5)"
proof -
  from assms obtain b1 b2 parties where d: "ensure_new_operation b (cd_operation_id rq) = Ok ()"
      "\<not> (has_zero [cd_settlement_id rq, cd_instruction_commitment rq, cd_buyer rq, cd_seller rq, cd_lot_id rq] \<or>
       cd_payment rq = 0 \<or> cd_buyer rq = cd_seller rq \<or> key (cd_settlement_id rq) \<in> bb_completed_settlements b)"
      "refresh_status_by_key b (key (cd_buyer rq)) now = Ok b1" "refresh_status_by_key b1 (key (cd_seller rq)) now = Ok b2"
      "dvp_parties rq now b2 = Ok parties"
    unfolding collateral_dvp_inner_def by (simp del: ensure_simps) metis
  obtain buyer seller lot where p: "parties = (buyer, seller, lot)" by (cases parties)
  let ?draw = "saturating_sub (cd_payment rq) (bp_current_account_balance buyer)"
    and ?repayment = "min (bp_intraday_overdraft seller) (cd_payment rq)"
  from assms d obtain lot_value reserved buyer_cash seller_cash b3 b4 b5 where w:
      "collateral_value_yen lot = Ok lot_value" "reserved_by_this rq now ?draw b2 = Ok reserved"
      "buyer_covered rq now buyer ?draw lot_value reserved b2 = Ok ()"
      "seller_covered rq now seller ?repayment lot lot_value b2 = Ok ()"
      "Option.bind (checked_add (bp_current_account_balance buyer) ?draw) (\<lambda>v. checked_sub v (cd_payment rq)) = Some buyer_cash"
      "checked_add (bp_current_account_balance seller) (cd_payment rq - ?repayment) = Some seller_cash"
      "dvp_write rq buyer seller lot ?draw ?repayment buyer_cash seller_cash b2 = Ok b3"
      "refresh_status_by_key b3 (key (cd_buyer rq)) now = Ok b4" "refresh_status_by_key b4 (key (cd_seller rq)) now = Ok b5"
      "b' = applied (cd_operation_id rq) (completed (cd_settlement_id rq) b5)"
    unfolding p collateral_dvp_inner_def by (auto simp: Let_def)
  have cash: "unat (bp_current_account_balance buyer) + unat ?draw = unat (cd_payment rq) + unat buyer_cash"
    "unat seller_cash = unat (bp_current_account_balance seller) + unat (cd_payment rq - ?repayment)"
    using w(5,6) by (auto simp: bind_eq_Some_conv checked_add_Some checked_sub_Some)
  show thesis
    by (rule that [OF _ _ _ _ _ d(3,4) d(5) [unfolded p] refl refl w(1-4) cash w(7-10)])
      (use d in \<open>auto simp: inner_defs\<close>)
qed

lemma dvp_partiesD:
  assumes "dvp_parties rq now b = Ok (buyer, seller, lot)"
  shows "bt_get (bb_participants b) (key (cd_buyer rq)) = Some buyer" "bt_get (bb_participants b) (key (cd_seller rq)) = Some seller"
    "bt_get (bb_collateral_lots b) (key (cd_lot_id rq)) = Some lot" "jl_owner lot = cd_seller rq"
  using assms by (auto simp: dvp_parties_def)

abbreviation dvp_paid ::
  "collateral_dvp \<Rightarrow> boj_participant \<times> u64 \<times> u64 \<times> u64 \<Rightarrow> boj_participant \<times> u64 \<times> u64 \<times> u64 \<Rightarrow> boj_book \<Rightarrow> boj_book" where
  "dvp_paid rq bs ss b \<equiv> (case (bs, ss) of ((buyer, bc, bo, bn), (seller, sc, so, sn)) \<Rightarrow>
     put_participant (key (cd_seller rq)) (seller\<lparr>bp_current_account_balance := sc, bp_intraday_overdraft := so, bp_sequence := sn\<rparr>)
     (put_participant (key (cd_buyer rq)) (buyer\<lparr>bp_current_account_balance := bc, bp_intraday_overdraft := bo, bp_sequence := bn\<rparr>) b))"

abbreviation dvp_moved ::
  "collateral_dvp \<Rightarrow> boj_participant \<times> u64 \<times> u64 \<times> u64 \<Rightarrow> boj_participant \<times> u64 \<times> u64 \<times> u64 \<Rightarrow> jgb_lot \<times> u64
    \<Rightarrow> boj_book \<Rightarrow> boj_book" where
  "dvp_moved rq bs ss ls b \<equiv> put_lot (key (cd_lot_id rq)) ((fst ls)\<lparr>jl_owner := cd_buyer rq,
     jl_pledged := cd_buyer_pledges_on_receipt rq, jl_sequence := snd ls\<rparr>) (dvp_paid rq bs ss b)"

lemma dvp_writeD:
  assumes "dvp_write rq buyer seller lot draw repayment buyer_cash seller_cash b = Ok b'"
  obtains overdraft bn sn ln where "unat overdraft = unat (bp_intraday_overdraft buyer) + unat draw"
    "consume_reservation (cd_overdraft_reservation_id rq) draw
       (dvp_moved rq (buyer, buyer_cash, overdraft, bn) (seller, seller_cash, bp_intraday_overdraft seller - repayment, sn) (lot, ln) b) = Ok b'"
  using assms by (auto simp: dvp_write_def checked_simps)

section \<open>Every operation keeps a book valid\<close>

lemma value_of_update [simp]:
  "collateral_value_yen (l\<lparr>jl_sequence := n\<rparr>) = collateral_value_yen l"
  "collateral_value_yen (l\<lparr>jl_owner := e\<rparr>) = collateral_value_yen l"
  "collateral_value_yen (l\<lparr>jl_pledged := q\<rparr>) = collateral_value_yen l"
  by (simp_all add: collateral_value_yen_def)

lemma refresh_dom: "refresh_status_by_key b k now = Ok b' \<Longrightarrow> bt_contains (bb_participants b') = bt_contains (bb_participants b)"
  by (erule refreshD) (auto simp: fun_eq_iff)

lemma refresh_sel:
  assumes "refresh_status_by_key b k now = Ok b'"
  shows "bb_collateral_lots b' = bb_collateral_lots b" "bb_reservations b' = bb_reservations b"
    "bb_completed_settlements b' = bb_completed_settlements b" "bb_applied_funds_receipts b' = bb_applied_funds_receipts b"
    "bb_applied_operations b' = bb_applied_operations b"
  using assms by (auto elim!: refreshD)

lemma zero_overdraft_or: "\<lbrakk>unat d = unat p - unat c; c = 0 \<or> od = 0; unat c + unat d = unat p + unat c'; unat od' = unat od + unat d\<rbrakk>
  \<Longrightarrow> c' = 0 \<or> od' = (0 :: u64)" for c d p c' od :: u64
  by (auto simp: word_unat_eq_iff)

lemma repaid_or: "\<lbrakk>r = min od p; c = 0 \<or> od = 0; unat c' = unat c + unat (p - r)\<rbrakk> \<Longrightarrow> c' = 0 \<or> od - r = (0 :: u64)" for c c' r p od :: u64
  by (cases "od \<le> p") (auto simp: min_def, simp add: word_unat_eq_iff)

lemma register_valid: "valid b \<Longrightarrow> register_participant_inner rq now b = Ok (b', u) \<Longrightarrow> valid b'"
  by (erule registerD) (auto intro!: keeps_valid)

lemma pledge_valid: "valid b \<Longrightarrow> pledge_collateral_inner rq now b = Ok (b', v) \<Longrightarrow> valid b'"
  by (erule pledgeD, simp only:, intro valid_applied, erule valid_refresh [rotated])
    (auto intro!: keeps_valid dest: valid_participant simp: participant_ok_def lot_ok_def)

lemma revalue_valid: "valid b \<Longrightarrow> revalue_collateral_inner rq now b = Ok (b', v) \<Longrightarrow> valid b'"
  by (erule revalueD, simp only:, intro valid_applied, erule valid_refresh [rotated])
    (auto intro!: keeps_valid dest: valid_participant valid_lot simp: participant_ok_def lot_ok_def)

lemma reserve_valid: "valid b \<Longrightarrow> reserve_liquidity_inner rq now b = Ok (b', v) \<Longrightarrow> valid b'"
  by (erule reserveD, drule (1) valid_refresh)
    (auto intro!: keeps_valid dest: valid_participant simp: participant_ok_def reservation_ok_def)

lemma release_valid: "valid b \<Longrightarrow> release_liquidity_inner rq now b = Ok (b', v) \<Longrightarrow> valid b'"
  by (erule releaseD, simp only:, intro valid_applied, erule valid_refresh [rotated])
    (auto intro!: keeps_valid dest: valid_participant valid_reservation simp: participant_ok_def reservation_ok_def)

lemma return_valid: "valid b \<Longrightarrow> return_collateral_inner rq now b = Ok (b', v) \<Longrightarrow> valid b'"
  by (erule returnD, frule (1) valid_lot, drule (1) valid_refresh)
    (auto intro!: keeps_valid dest: valid_participant simp: participant_ok_def lot_ok_def refresh_dom)

lemma receipt_valid:
  assumes b: "valid b" and "apply_funds_receipt_inner rq now b = Ok (b', v)"
  shows "valid b'"
  using assms(2)
proof (rule receiptD)
  fix p n r balance b1
  assume p: "bt_get (bb_participants b) (key (fr_legal_entity_id rq)) = Some p"
    and r: "r = min (bp_intraday_overdraft p) (fr_amount rq)"
    and bal: "checked_add (bp_current_account_balance p) (fr_amount rq - r) = Some balance"
    and refresh: "refresh_status_by_key (put_participant (key (fr_legal_entity_id rq)) (p\<lparr>bp_intraday_overdraft := bp_intraday_overdraft p - r,
       bp_current_account_balance := balance, bp_sequence := n\<rparr>) b) (key (fr_legal_entity_id rq)) now = Ok b1"
    and b': "b' = applied (fr_operation_id rq) (received (fr_receipt_id rq) b1)"
  have "balance = 0 \<or> bp_intraday_overdraft p - r = 0"
    using valid_participant [OF b p] bal by (intro repaid_or [OF r]) (auto simp: participant_ok_def checked_simps)
  with valid_participant [OF b p] have "valid (put_participant (key (fr_legal_entity_id rq))
    (p\<lparr>bp_intraday_overdraft := bp_intraday_overdraft p - r, bp_current_account_balance := balance, bp_sequence := n\<rparr>) b)"
    by (intro valid_put_participant b) (auto simp: participant_ok_def)
  from valid_refresh [OF this refresh] show "valid b'" unfolding b' by (intro keeps_valid)
qed

lemma exposure_valid: "valid b \<Longrightarrow> update_exposure_inner rq now b = Ok (b', v) \<Longrightarrow> valid b'"
  by (erule exposureD, simp only:, intro valid_applied, erule valid_refresh [rotated])
    (auto intro!: keeps_valid dest: valid_participant simp: participant_ok_def)

lemma open_valid: "valid b \<Longrightarrow> open_business_day_inner rq now b = Ok (b', v) \<Longrightarrow> valid b'"
  by (erule openD, frule (1) valid_participant, simp only:, intro valid_applied, erule valid_refresh [rotated])
    (auto intro!: keeps_valid simp: participant_ok_def)

lemma end_valid: "valid b \<Longrightarrow> end_business_day_inner rq now b = Ok (b', v) \<Longrightarrow> valid b'"
  by (erule endD) (auto intro!: keeps_valid dest: valid_participant simp: participant_ok_def)

lemma consume_valid:
  assumes "valid b" "consume_reservation i draw b = Ok b'" "\<And>r. i \<noteq> 0 \<Longrightarrow> bt_get (bb_reservations b) (key i) = Some r \<Longrightarrow> draw \<le> ir_amount r"
  shows "valid b'"
  using assms
  by (auto simp: consume_reservation_def reservation_ok_def intro!: valid_put_reservation dest: valid_reservation split: if_splits)

lemma dvp_valid:
  assumes b: "valid b" and "collateral_dvp_inner rq now b = Ok (b', v)"
  shows "valid b'"
  using assms(2)
proof (rule dvpD)
  fix b1 b2 b3 b4 b5 buyer seller lot draw repayment reserved buyer_cash seller_cash
  assume apart: "cd_buyer rq \<noteq> cd_seller rq" "cd_buyer rq \<noteq> 0"
    and refresh: "refresh_status_by_key b (key (cd_buyer rq)) now = Ok b1" "refresh_status_by_key b1 (key (cd_seller rq)) now = Ok b2"
    and parties: "dvp_parties rq now b2 = Ok (buyer, seller, lot)"
    and draw: "draw = saturating_sub (cd_payment rq) (bp_current_account_balance buyer)"
    and repayment: "repayment = min (bp_intraday_overdraft seller) (cd_payment rq)"
    and reserved: "reserved_by_this rq now draw b2 = Ok reserved"
    and cash: "unat (bp_current_account_balance buyer) + unat draw = unat (cd_payment rq) + unat buyer_cash"
      "unat seller_cash = unat (bp_current_account_balance seller) + unat (cd_payment rq - repayment)"
    and w: "dvp_write rq buyer seller lot draw repayment buyer_cash seller_cash b2 = Ok b3"
    and refresh': "refresh_status_by_key b3 (key (cd_buyer rq)) now = Ok b4" "refresh_status_by_key b4 (key (cd_seller rq)) now = Ok b5"
    and b': "b' = applied (cd_operation_id rq) (completed (cd_settlement_id rq) b5)"
  have b2: "valid b2" by (rule valid_refresh [OF valid_refresh [OF b refresh(1)] refresh(2)])
  note d = dvp_partiesD [OF parties]
  from w obtain overdraft bn sn ln where od: "unat overdraft = unat (bp_intraday_overdraft buyer) + unat draw"
    and c: "consume_reservation (cd_overdraft_reservation_id rq) draw
       (dvp_moved rq (buyer, buyer_cash, overdraft, bn) (seller, seller_cash, bp_intraday_overdraft seller - repayment, sn) (lot, ln) b2) = Ok b3"
    by (rule dvp_writeD)
  have ok: "participant_ok buyer" "participant_ok seller" using valid_participant [OF b2 d(1)] valid_participant [OF b2 d(2)] by simp_all
  then have one: "bp_current_account_balance buyer = 0 \<or> bp_intraday_overdraft buyer = 0"
      "bp_current_account_balance seller = 0 \<or> bp_intraday_overdraft seller = 0"
    by (simp_all add: participant_ok_def)
  have "unat draw = unat (cd_payment rq) - unat (bp_current_account_balance buyer)" unfolding draw by (rule unat_saturating_sub)
  from zero_overdraft_or [OF this one(1) cash(1) od] have "buyer_cash = 0 \<or> overdraft = 0" .
  moreover from repaid_or [OF repayment one(2) cash(2)] have "seller_cash = 0 \<or> bp_intraday_overdraft seller - repayment = 0" .
  moreover note ok
  moreover note valid_participant [OF b2 d(1), THEN conjunct1] valid_participant [OF b2 d(2), THEN conjunct1]
  ultimately have p: "valid (dvp_paid rq (buyer, buyer_cash, overdraft, bn)
      (seller, seller_cash, bp_intraday_overdraft seller - repayment, sn) b2)"
    unfolding prod.case by (intro valid_put_participant b2) (auto simp: participant_ok_def)
  have "valid b3"
  proof (rule consume_valid [OF valid_put_lot [OF p] c])
    show "\<And>r. cd_overdraft_reservation_id rq \<noteq> 0 \<Longrightarrow> bt_get (bb_reservations (dvp_moved rq (buyer, buyer_cash, overdraft, bn)
        (seller, seller_cash, bp_intraday_overdraft seller - repayment, sn) (lot, ln) b2))
        (key (cd_overdraft_reservation_id rq)) = Some r \<Longrightarrow> draw \<le> ir_amount r"
      using reserved by (auto simp: reserved_by_this_def not_less)
  qed (use valid_lot [OF b2 d(3)] apart in \<open>simp_all add: lot_ok_def\<close>)
  from valid_refresh [OF valid_refresh [OF this refresh'(1)] refresh'(2)] show "valid b'" unfolding b' by (intro keeps_valid)
qed

lemma boj_inner_valid:
  assumes "valid b" "boj_inner op now b = Ok b'"
  shows "valid b'"
  using assms
  by (cases op) (auto simp: book_only_def dest: register_valid pledge_valid revalue_valid reserve_valid release_valid
      return_valid receipt_valid exposure_valid open_valid end_valid dvp_valid)

section \<open>Sums over a book\<close>

lemma bt_sum_update:
  fixes f :: "'v \<Rightarrow> 'a::ab_group_add"
  shows "bt_get m k = Some w \<Longrightarrow> bt_sum f (bt_insert k v m) = bt_sum f m + f v - f w"
  using bt_sum_insert_old [of m k w f v] by (simp add: algebra_simps)

definition net_funds :: "boj_book \<Rightarrow> int" where
  "net_funds b = bt_sum (\<lambda>p. int (unat (bp_current_account_balance p)) - int (unat (bp_intraday_overdraft p))) (bb_participants b)"

definition lot_value :: "jgb_lot \<Rightarrow> nat" where
  "lot_value l = (case collateral_value_yen l of Ok v \<Rightarrow> unat v | Err _ \<Rightarrow> 0)"

definition collateral_of :: "boj_book \<Rightarrow> id32 \<Rightarrow> nat" where
  "collateral_of b e = bt_sum (\<lambda>l. if jl_owner l = e \<and> jl_pledged l then lot_value l else 0) (bb_collateral_lots b)"

definition reserved_of :: "boj_book \<Rightarrow> id32 \<Rightarrow> u64 \<Rightarrow> nat" where
  "reserved_of b e now = bt_sum (\<lambda>r. if ir_legal_entity_id r = e \<and> is_live r now then unat (ir_amount r) else 0) (bb_reservations b)"

definition covered :: "boj_book \<Rightarrow> id32 \<Rightarrow> u64 \<Rightarrow> bool" where
  "covered b e now \<longleftrightarrow> (case bt_get (bb_participants b) (key e) of None \<Rightarrow> True
     | Some p \<Rightarrow> unat (bp_other_secured_exposure p) + unat (bp_intraday_overdraft p) + reserved_of b e now \<le> collateral_of b e)"

lemma same_sums [simp]:
  "net_funds (put_lot k l b) = net_funds b" "net_funds (put_reservation k r b) = net_funds b"
  "net_funds (applied i b) = net_funds b" "net_funds (received i b) = net_funds b" "net_funds (completed i b) = net_funds b"
  "net_funds (release_all e' b) = net_funds b"
  "collateral_of (put_participant k p b) e = collateral_of b e" "collateral_of (put_reservation k r b) e = collateral_of b e"
  "collateral_of (applied i b) e = collateral_of b e" "collateral_of (received i b) e = collateral_of b e"
  "collateral_of (completed i b) e = collateral_of b e" "collateral_of (release_all e' b) e = collateral_of b e"
  "reserved_of (put_participant k p b) e now = reserved_of b e now" "reserved_of (put_lot k l b) e now = reserved_of b e now"
  "reserved_of (applied i b) e now = reserved_of b e now" "reserved_of (received i b) e now = reserved_of b e now"
  "reserved_of (completed i b) e now = reserved_of b e now"
  by (simp_all add: net_funds_def collateral_of_def reserved_of_def)

lemma same_covered [simp]:
  "covered (applied i b) e now = covered b e now" "covered (received i b) e now = covered b e now"
  "covered (completed i b) e now = covered b e now"
  by (simp_all add: covered_def split: option.splits)

lemma covered_put_participant [simp]:
  "covered (put_participant (key i) p b) e now \<longleftrightarrow>
    (if e = i then unat (bp_other_secured_exposure p) + unat (bp_intraday_overdraft p) + reserved_of b e now \<le> collateral_of b e
     else covered b e now)"
  by (simp add: covered_def split: option.splits)

lemma net_funds_put:
  "bt_get (bb_participants b) k = Some q \<Longrightarrow> net_funds (put_participant k p b) = net_funds b
    + (int (unat (bp_current_account_balance p)) - int (unat (bp_intraday_overdraft p)))
    - (int (unat (bp_current_account_balance q)) - int (unat (bp_intraday_overdraft q)))"
  by (simp add: net_funds_def bt_sum_update)

lemma net_funds_new:
  "bt_get (bb_participants b) k = None \<Longrightarrow> net_funds (put_participant k p b) = net_funds b
    + (int (unat (bp_current_account_balance p)) - int (unat (bp_intraday_overdraft p)))"
  by (simp add: net_funds_def bt_sum_insert_new)

lemma refresh_funds: "refresh_status_by_key b k now = Ok b' \<Longrightarrow> net_funds b' = net_funds b"
  by (erule refreshD) (simp add: net_funds_put)

lemma refresh_sums:
  assumes "refresh_status_by_key b k now = Ok b'"
  shows "collateral_of b' e = collateral_of b e" "reserved_of b' e t = reserved_of b e t" "covered b' e t = covered b e t"
  using assms by (auto elim!: refreshD simp: covered_def split: option.splits if_splits)

lemma refresh_get:
  assumes "refresh_status_by_key b k now = Ok b'" "bt_get (bb_participants b') k' = Some p'"
  obtains p where "bt_get (bb_participants b) k' = Some p" "bp_current_account_balance p' = bp_current_account_balance p"
    "bp_intraday_overdraft p' = bp_intraday_overdraft p" "bp_other_secured_exposure p' = bp_other_secured_exposure p"
  using assms by (auto elim!: refreshD split: if_splits)

section \<open>Funds are conserved\<close>

fun paid_in :: "boj_op \<Rightarrow> int" where
  "paid_in (RegisterParticipant rq) = int (unat (bp_current_account_balance (rp_participant rq)))"
| "paid_in (ApplyFundsReceipt rq) = int (unat (fr_amount rq))"
| "paid_in _ = 0"

lemma receipt_funds:
  assumes "apply_funds_receipt_inner rq now b = Ok (b', v)"
  shows "net_funds b' = net_funds b + int (unat (fr_amount rq))"
  using assms
proof (rule receiptD)
  fix p n r balance b1
  assume p: "bt_get (bb_participants b) (key (fr_legal_entity_id rq)) = Some p"
    and r: "r = min (bp_intraday_overdraft p) (fr_amount rq)"
    and bal: "checked_add (bp_current_account_balance p) (fr_amount rq - r) = Some balance"
    and refresh: "refresh_status_by_key (put_participant (key (fr_legal_entity_id rq)) (p\<lparr>bp_intraday_overdraft := bp_intraday_overdraft p - r,
       bp_current_account_balance := balance, bp_sequence := n\<rparr>) b) (key (fr_legal_entity_id rq)) now = Ok b1"
    and b': "b' = applied (fr_operation_id rq) (received (fr_receipt_id rq) b1)"
  have le: "r \<le> fr_amount rq" "r \<le> bp_intraday_overdraft p" unfolding r by simp_all
  have "net_funds b' = net_funds b + int (unat (bp_current_account_balance p) + (unat (fr_amount rq) - unat r))
      - int (unat (bp_intraday_overdraft p) - unat r)
      - (int (unat (bp_current_account_balance p)) - int (unat (bp_intraday_overdraft p)))"
    using bal le by (simp add: b' refresh_funds [OF refresh] net_funds_put [OF p] checked_add_Some unat_sub_le)
  with le show ?thesis by (simp add: word_le_nat_alt of_nat_diff)
qed

lemma consume_funds: "consume_reservation i draw b = Ok b' \<Longrightarrow> net_funds b' = net_funds b"
  by (auto simp: consume_reservation_def split: if_splits)

lemma dvp_funds:
  assumes "collateral_dvp_inner rq now b = Ok (b', v)"
  shows "net_funds b' = net_funds b"
  using assms
proof (rule dvpD)
  fix b1 b2 b3 b4 b5 buyer seller lot draw repayment buyer_cash seller_cash
  assume apart: "cd_buyer rq \<noteq> cd_seller rq"
    and refresh: "refresh_status_by_key b (key (cd_buyer rq)) now = Ok b1" "refresh_status_by_key b1 (key (cd_seller rq)) now = Ok b2"
    and parties: "dvp_parties rq now b2 = Ok (buyer, seller, lot)"
    and repayment: "repayment = min (bp_intraday_overdraft seller) (cd_payment rq)"
    and cash: "unat (bp_current_account_balance buyer) + unat draw = unat (cd_payment rq) + unat buyer_cash"
      "unat seller_cash = unat (bp_current_account_balance seller) + unat (cd_payment rq - repayment)"
    and w: "dvp_write rq buyer seller lot draw repayment buyer_cash seller_cash b2 = Ok b3"
    and refresh': "refresh_status_by_key b3 (key (cd_buyer rq)) now = Ok b4" "refresh_status_by_key b4 (key (cd_seller rq)) now = Ok b5"
    and b': "b' = applied (cd_operation_id rq) (completed (cd_settlement_id rq) b5)"
  note d = dvp_partiesD [OF parties]
  have le: "repayment \<le> cd_payment rq" "repayment \<le> bp_intraday_overdraft seller" unfolding repayment by simp_all
  from w have "net_funds b3 = net_funds b2"
  proof (rule dvp_writeD)
    fix overdraft bn sn ln
    assume od: "unat overdraft = unat (bp_intraday_overdraft buyer) + unat draw"
      and c: "consume_reservation (cd_overdraft_reservation_id rq) draw (dvp_moved rq (buyer, buyer_cash, overdraft, bn)
        (seller, seller_cash, bp_intraday_overdraft seller - repayment, sn) (lot, ln) b2) = Ok b3"
    have s: "bt_get (bb_participants (put_participant (key (cd_buyer rq)) x b2)) (key (cd_seller rq)) = Some seller" for x
      using d(2) apart by simp
    have "net_funds b3 = net_funds b2 + (int (unat buyer_cash) - int (unat overdraft))
        - (int (unat (bp_current_account_balance buyer)) - int (unat (bp_intraday_overdraft buyer)))
        + (int (unat seller_cash) - int (unat (bp_intraday_overdraft seller - repayment)))
        - (int (unat (bp_current_account_balance seller)) - int (unat (bp_intraday_overdraft seller)))"
      by (simp add: consume_funds [OF c] net_funds_put [OF s] net_funds_put [OF d(1)])
    moreover have "unat (bp_intraday_overdraft seller) = unat (bp_intraday_overdraft seller - repayment) + unat repayment"
      "unat (cd_payment rq) = unat (cd_payment rq - repayment) + unat repayment"
      using le by (simp_all add: unat_sub_le word_le_nat_alt)
    ultimately show "net_funds b3 = net_funds b2" using od cash by linarith
  qed
  then show ?thesis by (simp add: b' refresh_funds [OF refresh'(1)] refresh_funds [OF refresh'(2)]
      refresh_funds [OF refresh(1)] refresh_funds [OF refresh(2)])
qed

lemmas innerE = registerD pledgeD revalueD reserveD releaseD returnD exposureD openD endD

lemma boj_inner_funds:
  assumes "boj_inner op now b = Ok b'"
  shows "net_funds b' = net_funds b + paid_in op"
  using assms
  by (cases op) (auto simp: book_only_def refresh_funds net_funds_put net_funds_new receipt_funds dvp_funds elim!: innerE)

section \<open>Nothing is applied twice\<close>

fun operation_of :: "boj_op \<times> u64 \<Rightarrow> id32" where
  "operation_of (RegisterParticipant rq, _) = rp_operation_id rq"
| "operation_of (PledgeCollateral rq, _) = pl_operation_id rq"
| "operation_of (RevalueCollateral rq, _) = rv_operation_id rq"
| "operation_of (ReserveIntradayLiquidity rq, _) = rs_operation_id rq"
| "operation_of (ReleaseIntradayLiquidity rq, _) = rl_operation_id rq"
| "operation_of (ReturnCollateral rq, _) = rc_operation_id rq"
| "operation_of (ApplyFundsReceipt rq, _) = fr_operation_id rq"
| "operation_of (UpdateOtherSecuredExposure rq, _) = ux_operation_id rq"
| "operation_of (OpenBusinessDay rq, _) = od_operation_id rq"
| "operation_of (SimultaneousCollateralDvp rq, _) = cd_operation_id rq"
| "operation_of (EndBusinessDay rq, _) = ed_operation_id rq"

fun receipt_of :: "boj_op \<times> u64 \<Rightarrow> id32 option" where
  "receipt_of (ApplyFundsReceipt rq, _) = Some (fr_receipt_id rq)"
| "receipt_of _ = None"

fun settlement_of :: "boj_op \<times> u64 \<Rightarrow> id32 option" where
  "settlement_of (SimultaneousCollateralDvp rq, _) = Some (cd_settlement_id rq)"
| "settlement_of _ = None"

lemma consume_sel:
  assumes "consume_reservation i draw b = Ok b'"
  shows "bb_applied_operations b' = bb_applied_operations b" "bb_applied_funds_receipts b' = bb_applied_funds_receipts b"
    "bb_completed_settlements b' = bb_completed_settlements b"
  using assms by (auto simp: consume_reservation_def split: if_splits)

lemma dvp_marks:
  assumes "collateral_dvp_inner rq now b = Ok (b', v)"
  shows "key (cd_operation_id rq) \<notin> bb_applied_operations b" "key (cd_settlement_id rq) \<notin> bb_completed_settlements b"
    "bb_applied_operations b' = insert (key (cd_operation_id rq)) (bb_applied_operations b)"
    "bb_applied_funds_receipts b' = bb_applied_funds_receipts b"
    "bb_completed_settlements b' = insert (key (cd_settlement_id rq)) (bb_completed_settlements b)"
  using assms by (auto elim!: dvpD dvp_writeD simp: refresh_sel consume_sel)

lemma boj_marks:
  assumes "boj_inner op now b = Ok b'"
  shows "key (operation_of (op, now)) \<notin> bb_applied_operations b"
    "bb_applied_operations b' = insert (key (operation_of (op, now))) (bb_applied_operations b)"
    "\<And>i. receipt_of (op, now) = Some i \<Longrightarrow> key i \<notin> bb_applied_funds_receipts b"
    "bb_applied_funds_receipts b' = key ` set_option (receipt_of (op, now)) \<union> bb_applied_funds_receipts b"
    "\<And>i. settlement_of (op, now) = Some i \<Longrightarrow> key i \<notin> bb_completed_settlements b"
    "bb_completed_settlements b' = key ` set_option (settlement_of (op, now)) \<union> bb_completed_settlements b"
  using assms
  by (cases op; auto simp: book_only_def refresh_sel dvp_marks elim!: innerE receiptD)+

section \<open>Histories\<close>

definition unsuspended :: "boj_book \<Rightarrow> bool" where
  "unsuspended b \<longleftrightarrow> (\<forall>k p. bt_get (bb_participants b) k = Some p \<longrightarrow> bp_status p \<noteq> Suspended)"

lemma unsuspended_same [simp]:
  "unsuspended (put_lot k l b) = unsuspended b" "unsuspended (put_reservation k r b) = unsuspended b"
  "unsuspended (applied i b) = unsuspended b" "unsuspended (received i b) = unsuspended b"
  "unsuspended (completed i b) = unsuspended b" "unsuspended (release_all e b) = unsuspended b"
  by (simp_all add: unsuspended_def)

lemma unsuspended_put [simp]: "unsuspended b \<Longrightarrow> bp_status p \<noteq> Suspended \<Longrightarrow> unsuspended (put_participant k p b)"
  by (simp add: unsuspended_def)

lemma unsuspended_get: "unsuspended b \<Longrightarrow> bt_get (bb_participants b) k = Some p \<Longrightarrow> bp_status p \<noteq> Suspended"
  by (auto simp: unsuspended_def)

lemma unsuspended_refresh: "refresh_status_by_key b k now = Ok b' \<Longrightarrow> unsuspended b \<Longrightarrow> unsuspended b'"
proof (erule refreshD)
  fix p s
  assume b: "unsuspended b" and p: "bt_get (bb_participants b) k = Some p" and b': "b' = put_participant k (p\<lparr>bp_status := s\<rparr>) b"
    and s: "s = Suspended \<or> s = Overdue \<Longrightarrow> s = bp_status p"
  show "unsuspended b'" unfolding b' using unsuspended_get [OF b p] s by (intro unsuspended_put b) auto
qed

lemma unsuspended_dvp: "collateral_dvp_inner rq now b = Ok (b', v) \<Longrightarrow> unsuspended b \<Longrightarrow> unsuspended b'"
proof (erule dvpD)
  fix b1 b2 b3 b4 b5 buyer seller lot draw repayment buyer_cash seller_cash
  assume b: "unsuspended b" and r: "refresh_status_by_key b (key (cd_buyer rq)) now = Ok b1"
      "refresh_status_by_key b1 (key (cd_seller rq)) now = Ok b2"
    and parties: "dvp_parties rq now b2 = Ok (buyer, seller, lot)"
    and w: "dvp_write rq buyer seller lot draw repayment buyer_cash seller_cash b2 = Ok b3"
    and r': "refresh_status_by_key b3 (key (cd_buyer rq)) now = Ok b4" "refresh_status_by_key b4 (key (cd_seller rq)) now = Ok b5"
    and b': "b' = applied (cd_operation_id rq) (completed (cd_settlement_id rq) b5)"
  note d = dvp_partiesD [OF parties]
  from b have b2: "unsuspended b2" using r unsuspended_refresh by blast
  have "bp_status buyer \<noteq> Suspended" "bp_status seller \<noteq> Suspended" using unsuspended_get [OF b2] d(1,2) by blast+
  with w b2 have "unsuspended b3"
    by (auto elim!: dvp_writeD simp: consume_reservation_def split: if_splits)
  with r' show "unsuspended b'" unfolding b' by (simp add: unsuspended_refresh)
qed

lemma unsuspended_inner:
  assumes "boj_inner op now b = Ok b'" "unsuspended b"
  shows "unsuspended b'"
proof (cases op)
  case (SimultaneousCollateralDvp rq)
  with assms show ?thesis by (auto simp: book_only_def dest: unsuspended_dvp)
next
  case (ReserveIntradayLiquidity rq)
  with assms obtain v where "reserve_liquidity_inner rq now b = Ok (b', v)" by (auto simp: book_only_def)
  then show ?thesis by - (erule reserveD, drule unsuspended_refresh [OF _ assms(2)], simp add: unsuspended_get)
next
  case (ReturnCollateral rq)
  with assms obtain v where "return_collateral_inner rq now b = Ok (b', v)" by (auto simp: book_only_def)
  then show ?thesis by - (erule returnD, drule unsuspended_refresh [OF _ assms(2)], simp add: unsuspended_get)
qed (use assms in \<open>auto simp: book_only_def unsuspended_refresh unsuspended_get elim!: innerE receiptD\<close>)

lemma boj_apply_inner: "valid b \<Longrightarrow> boj_apply op now b = boj_inner op now b"
  using boj_inner_valid [of b op now]
  by (cases "boj_inner op now b") (auto simp: boj_apply_def atomic_def book_only_def)

lemma boj_default_valid: "valid boj_default"
  by (simp add: valid_iff boj_default_def)

lemma run_valid: "valid b \<Longrightarrow> run boj_step b ops = Some b' \<Longrightarrow> valid b'"
  by (rule run_invariant [of valid])
    (auto simp: boj_step_def boj_apply_inner intro: boj_inner_valid)

lemma run_inner: "valid b \<Longrightarrow> run boj_step b ops = run (\<lambda>b (op, now). result_ok (boj_inner op now b)) b ops"
proof (induction ops arbitrary: b)
  case (Cons a ops)
  then show ?case by (cases a) (auto simp: boj_step_def boj_apply_inner dest: boj_inner_valid split: option.splits)
qed simp

interpretation operation_once: once_only boj_step "\<lambda>_. True" "\<lambda>a. Some (operation_of a)" "\<lambda>b. {i. key i \<in> bb_applied_operations b}"
  by unfold_locales (auto simp: boj_step_def boj_apply_def atomic_def book_only_def boj_marks(2) dest: boj_marks(1))

interpretation receipt_once: once_only boj_step "\<lambda>_. True" receipt_of "\<lambda>b. {i. key i \<in> bb_applied_funds_receipts b}"
  by unfold_locales (auto simp: boj_step_def boj_apply_def atomic_def book_only_def boj_marks(4) dest: boj_marks(3))

interpretation settlement_once: once_only boj_step "\<lambda>_. True" settlement_of "\<lambda>b. {i. key i \<in> bb_completed_settlements b}"
  by unfold_locales (auto simp: boj_step_def boj_apply_def atomic_def book_only_def boj_marks(6) dest: boj_marks(5))

lemma run_funds: "valid b \<Longrightarrow> run boj_step b ops = Some b' \<Longrightarrow> net_funds b' = net_funds b + (\<Sum>(op, now) \<leftarrow> ops. paid_in op)"
proof (induction ops arbitrary: b)
  case (Cons a ops)
  then show ?case
    by (cases a) (auto simp: boj_step_def boj_apply_inner boj_inner_funds dest: boj_inner_valid split: option.splits)
qed simp

text \<open>
  C39: the stored state conforms to its own validation. After any history of operations from
  the empty book, every participant, lot and reservation is stored under the key of its
  identifier, refers to a registered owner, values without overflow and never holds a
  balance beside an overdraft; the validation that ends every operation therefore never
  refuses (an operation is its own body), and no participant is ever suspended.
\<close>

theorem boj_conforms:
  assumes "run boj_step boj_default ops = Some b"
  shows "boj_validate b = Ok () \<and> boj_apply op now b = boj_inner op now b \<and>
    (\<forall>k p. bt_get (bb_participants b) k = Some p \<longrightarrow> bp_status p \<noteq> Suspended)"
proof -
  have v: "valid b" by (rule run_valid [OF boj_default_valid assms])
  have "valid b \<and> unsuspended b"
  proof (rule run_invariant [OF _ _ assms, of "\<lambda>b. valid b \<and> unsuspended b"])
    fix s a s'
    assume "valid s \<and> unsuspended s" "boj_step s a = Some s'"
    then show "valid s' \<and> unsuspended s'"
      by (cases a) (auto simp: boj_step_def boj_apply_inner intro: boj_inner_valid unsuspended_inner)
  qed (simp add: boj_default_valid, simp add: unsuspended_def boj_default_def)
  with boj_apply_inner [OF v] show ?thesis by (auto simp: unsuspended_def)
qed

text \<open>
  C12: central bank money is conserved and nothing is booked twice. After any history the
  balances less the overdrafts add up to the balances brought in at registration plus the
  receipts applied: pledges, reservations, revaluations, business days and DvP settlements
  move money but make none. No operation, no external receipt and no settlement
  identifier is applied a second time.
\<close>

theorem boj_funds_conserved:
  assumes "run boj_step boj_default ops = Some b"
  shows "net_funds b = (\<Sum>(op, now) \<leftarrow> ops. paid_in op) \<and> distinct (map operation_of ops) \<and>
    distinct (List.map_filter receipt_of ops) \<and> distinct (List.map_filter settlement_of ops)"
proof -
  have "net_funds boj_default = 0" by (simp add: net_funds_def boj_default_def)
  moreover have "List.map_filter (\<lambda>a. Some (operation_of a)) ops = map operation_of ops"
    by (induction ops) (simp_all add: List.map_filter_simps)
  ultimately show ?thesis
    using run_funds [OF boj_default_valid assms] operation_once.run_tokens_distinct [OF _ assms]
      receipt_once.run_tokens_distinct [OF _ assms] settlement_once.run_tokens_distinct [OF _ assms] by simp
qed

section \<open>A day's history\<close>

lemma bt_values_empty [simp]: "bt_values bt_empty = []"
  by (simp add: bt_values_def bt_empty.rep_eq)

lemma bt_values_single [simp]: "bt_values (bt_insert k v bt_empty) = [v]"
  by (simp add: bt_values_def bt_insert.rep_eq bt_empty.rep_eq)

definition demo_participant :: "id32 \<Rightarrow> u64 \<Rightarrow> boj_participant" where
  "demo_participant i cash = \<lparr>bp_legal_entity_id = i, bp_funds_account_id = i, bp_jgb_account_id = i,
     bp_current_account_balance = cash, bp_other_secured_exposure = 0, bp_intraday_overdraft = 0, bp_business_day = 1,
     bp_repayment_deadline = 100, bp_business_day_closed = False, bp_sequence = 0, bp_status = Active\<rparr>"

definition demo_lot :: jgb_lot where
  "demo_lot = \<lparr>jl_lot_id = 7, jl_asset_id = 8, jl_owner = 2, jl_face_value = 1000, jl_market_price = 100000000,
     jl_index_ratio = 1000000, jl_valuation_rate_bps = 9700, jl_valuation_epoch = 1, jl_pledged = True, jl_sequence = 0\<rparr>"

definition demo_day :: "(boj_op \<times> u64) list" where
  "demo_day = [
     (RegisterParticipant \<lparr>rp_operation_id = 11, rp_participant = demo_participant 1 100\<rparr>, 2),
     (RegisterParticipant \<lparr>rp_operation_id = 12, rp_participant = demo_participant 2 0\<rparr>, 2),
     (PledgeCollateral \<lparr>pl_operation_id = 13, pl_expected_participant_sequence = 0, pl_lot = demo_lot\<rparr>, 2),
     (SimultaneousCollateralDvp \<lparr>cd_operation_id = 14, cd_settlement_id = 21, cd_instruction_commitment = 22, cd_buyer = 1,
        cd_seller = 2, cd_lot_id = 7, cd_payment = 150, cd_buyer_pledges_on_receipt = True, cd_overdraft_reservation_id = 0,
        cd_expected_buyer_sequence = 0, cd_expected_seller_sequence = 1, cd_expected_lot_sequence = 1\<rparr>, 3),
     (ApplyFundsReceipt \<lparr>fr_operation_id = 15, fr_receipt_id = 23, fr_legal_entity_id = 1,
        fr_expected_participant_sequence = 1, fr_amount = 60\<rparr>, 4)]"

lemma demo_value: "collateral_value_yen demo_lot = Ok 970"
  by (simp add: collateral_value_yen_def demo_lot_def checked_mul_def)

lemmas demo_eval = book_only_def ensure_new_operation_def has_zero_def check_sequence_def bump_def
  checked_add_def checked_sub_def saturating_sub_def collateral_value_def live_reserved_def required_of_def
  refresh_status_by_key_def demo_participant_def demo_value list_ex_iff bt_values_iff Let_def
  register_participant_inner_def pledge_collateral_inner_def collateral_dvp_inner_def apply_funds_receipt_inner_def
  dvp_parties_def reserved_by_this_def buyer_covered_def seller_covered_def dvp_write_def consume_reservation_def

lemma demo_day_runs:
  "\<exists>b. run boj_step boj_default demo_day = Some b \<and>
    map_option (\<lambda>p. (bp_current_account_balance p, bp_intraday_overdraft p)) (bt_get (bb_participants b) (key 1)) = Some (10, 0) \<and>
    map_option (\<lambda>p. (bp_current_account_balance p, bp_intraday_overdraft p)) (bt_get (bb_participants b) (key 2)) = Some (150, 0) \<and>
    map_option jl_owner (bt_get (bb_collateral_lots b) (key 7)) = Some 1"
proof -
  have lot: "jl_owner demo_lot = 2" "jl_lot_id demo_lot = 7" "jl_asset_id demo_lot = 8" "jl_pledged demo_lot" "jl_sequence demo_lot = 0"
    by (simp_all add: demo_lot_def)
  show ?thesis
    unfolding run_inner [OF boj_default_valid] by (simp add: demo_day_def boj_default_def lot demo_eval)
qed

theorem boj_conforms_witness:
  "\<exists>b. run boj_step boj_default demo_day = Some b \<and> boj_validate b = Ok ()"
  using demo_day_runs boj_conforms [of demo_day] by blast

theorem boj_funds_conserved_witness:
  "\<exists>b. run boj_step boj_default demo_day = Some b \<and> net_funds b = 160"
proof -
  obtain b where b: "run boj_step boj_default demo_day = Some b" using demo_day_runs by blast
  from boj_funds_conserved [OF b] have "net_funds b = 160" by (simp add: demo_day_def demo_participant_def)
  with b show ?thesis by blast
qed

end
