(* ===== verification/CentralBankCover.thy ===== *)
theory CentralBankCover
  imports CentralBankSafety
begin

text \<open>
  Central bank credit is collateralised. \<open>covered\<close> says that the pledged value of a
  participant is at least the other secured exposures, the overdraft and the live
  reservations. The lemmas read the checked \<open>u64\<close> sums of the code as sums over the book and
  follow them through every operation.
\<close>

section \<open>The checked sums\<close>

lemma try_fold_collateral:
  "try_fold (\<lambda>acc lot. and_then (collateral_value_yen lot) (\<lambda>v. ok_or (checked_add acc v) ArithmeticOverflow)) a ls = Ok c
    \<Longrightarrow> unat c = unat a + sum_list (map lot_value ls)"
proof (induction ls arbitrary: a)
  case (Cons l ls)
  then show ?case by (auto simp: lot_value_def checked_add_Some)
qed simp

lemma try_fold_reserved:
  "try_fold (\<lambda>acc r. ok_or (checked_add acc (ir_amount r)) ArithmeticOverflow) a rs = Ok c
    \<Longrightarrow> unat c = unat a + sum_list (map (\<lambda>r. unat (ir_amount r)) rs)"
proof (induction rs arbitrary: a)
  case (Cons r rs)
  then show ?case by (auto simp: checked_add_Some)
qed simp

lemma collateral_value_Ok: "collateral_value b e = Ok c \<Longrightarrow> unat c = collateral_of b e"
  unfolding collateral_value_def collateral_of_def bt_sum_def
  by (drule try_fold_collateral) (simp add: sum_list_map_filter')

lemma live_reserved_Ok: "live_reserved b e now = Ok c \<Longrightarrow> unat c = reserved_of b e now"
  unfolding live_reserved_def reserved_of_def bt_sum_def
  by (drule try_fold_reserved) (simp add: sum_list_map_filter')

lemma required_Ok: "required_of b e now x d = Ok r \<Longrightarrow> unat r = unat x + unat d + reserved_of b e now"
  by (auto simp: required_of_def bind_eq_Some_conv checked_add_Some dest: live_reserved_Ok)

lemma headroom_Ok:
  assumes "available_headroom b e now = Ok h" "bt_get (bb_participants b) (key e) = Some p"
  shows "unat h = collateral_of b e - (unat (bp_other_secured_exposure p) + unat (bp_intraday_overdraft p) + reserved_of b e now)"
  using assms by (auto simp: available_headroom_def unat_saturating_sub dest!: collateral_value_Ok required_Ok)

section \<open>How the sums change\<close>

abbreviation pledge_share :: "jgb_lot \<Rightarrow> id32 \<Rightarrow> nat" where
  "pledge_share l e \<equiv> (if jl_owner l = e \<and> jl_pledged l then lot_value l else 0)"

abbreviation live_share :: "intraday_reservation \<Rightarrow> id32 \<Rightarrow> u64 \<Rightarrow> nat" where
  "live_share r e now \<equiv> (if ir_legal_entity_id r = e \<and> is_live r now then unat (ir_amount r) else 0)"

lemma collateral_put:
  "bt_get (bb_collateral_lots b) k = Some l \<Longrightarrow> pledge_share l e + collateral_of (put_lot k l' b) e = pledge_share l' e + collateral_of b e"
  unfolding collateral_of_def put_lot_sel by (rule bt_sum_insert_old)

lemma collateral_new:
  "bt_get (bb_collateral_lots b) k = None \<Longrightarrow> collateral_of (put_lot k l' b) e = pledge_share l' e + collateral_of b e"
  unfolding collateral_of_def put_lot_sel by (rule bt_sum_insert_new)

lemma reserved_put:
  "bt_get (bb_reservations b) k = Some r \<Longrightarrow> live_share r e now + reserved_of (put_reservation k r' b) e now = live_share r' e now + reserved_of b e now"
  unfolding reserved_of_def put_reservation_sel by (rule bt_sum_insert_old)

lemma reserved_new:
  "bt_get (bb_reservations b) k = None \<Longrightarrow> reserved_of (put_reservation k r' b) e now = live_share r' e now + reserved_of b e now"
  unfolding reserved_of_def put_reservation_sel by (rule bt_sum_insert_new)

lemma bt_sum_map: "bt_sum f (bt_map (\<lambda>_. g) m) = bt_sum (\<lambda>v. f (g v)) m"
  by (simp add: bt_sum_def bt_values_def bt_map.rep_eq comp_def)

lemma bt_sum_le: "(\<And>v. f v \<le> g v) \<Longrightarrow> bt_sum f m \<le> (bt_sum g m :: nat)"
  by (simp add: bt_sum_def sum_list_mono)

lemma reserved_release_le: "reserved_of (release_all e' b) e now \<le> reserved_of b e now"
  unfolding reserved_of_def release_all_def by (auto simp: bt_sum_map is_live_def intro!: bt_sum_le)

lemma reserved_later: "now \<le> now' \<Longrightarrow> reserved_of b e now' \<le> reserved_of b e now"
  unfolding reserved_of_def by (auto simp: is_live_def intro!: bt_sum_le)

lemma covered_later: "covered b e now \<Longrightarrow> now \<le> now' \<Longrightarrow> covered b e now'"
  using reserved_later [of now now' b e] by (auto simp: covered_def split: option.splits)

lemma coveredD: "covered b e now \<Longrightarrow> bt_get (bb_participants b) (key e) = Some p \<Longrightarrow>
    unat (bp_other_secured_exposure p) + unat (bp_intraday_overdraft p) + reserved_of b e now \<le> collateral_of b e"
  by (simp add: covered_def)

text \<open>Coverage only depends on what is owed, reserved and pledged.\<close>

lemma covered_mono:
  assumes "covered b e now" "collateral_of b e \<le> collateral_of b' e" "reserved_of b' e now \<le> reserved_of b e now"
    "\<And>p'. bt_get (bb_participants b') (key e) = Some p' \<Longrightarrow> \<exists>p. bt_get (bb_participants b) (key e) = Some p \<and>
      unat (bp_other_secured_exposure p') + unat (bp_intraday_overdraft p')
        \<le> unat (bp_other_secured_exposure p) + unat (bp_intraday_overdraft p)"
  shows "covered b' e now"
proof (cases "bt_get (bb_participants b') (key e)")
  case (Some p')
  with assms(4) obtain p where p: "bt_get (bb_participants b) (key e) = Some p" "unat (bp_other_secured_exposure p') + unat (bp_intraday_overdraft p')
        \<le> unat (bp_other_secured_exposure p) + unat (bp_intraday_overdraft p)" by blast
  from coveredD [OF assms(1) p(1)] p(2) assms(2,3) show ?thesis by (simp add: covered_def Some)
qed (simp add: covered_def)

section \<open>Operations that extend credit\<close>

lemma reserve_covered:
  assumes "reserve_liquidity_inner rq now b = Ok (b', v)"
  shows "covered b' (rs_legal_entity_id rq) now" "e \<noteq> rs_legal_entity_id rq \<Longrightarrow> covered b e now \<Longrightarrow> covered b' e now"
  using assms
proof (atomize (full), elim reserveD)
  fix b1 p n headroom
  assume r: "refresh_status_by_key b (key (rs_legal_entity_id rq)) now = Ok b1"
    and p: "bt_get (bb_participants b1) (key (rs_legal_entity_id rq)) = Some p"
    and h: "available_headroom b1 (rs_legal_entity_id rq) now = Ok headroom" "rs_amount rq \<le> headroom" "rs_amount rq \<noteq> 0"
    and b': "b' = applied (rs_operation_id rq) (put_participant (key (rs_legal_entity_id rq)) (p\<lparr>bp_sequence := n\<rparr>)
       (put_reservation (key (rs_reservation_id rq)) \<lparr>ir_reservation_id = rs_reservation_id rq,
         ir_legal_entity_id = rs_legal_entity_id rq, ir_instruction_commitment = rs_instruction_commitment rq,
         ir_amount = rs_amount rq, ir_expires_at = rs_expires_at rq, ir_status = ReservationActive, ir_consumed = 0\<rparr> b1))"
    and new: "bt_get (bb_reservations b) (key (rs_reservation_id rq)) = None"
  have new': "bt_get (bb_reservations b1) (key (rs_reservation_id rq)) = None" using new refresh_sel [OF r] by simp
  have "0 < unat (rs_amount rq)" "unat (rs_amount rq) \<le> unat headroom" using h(2,3) by (simp_all add: word_le_nat_alt unat_gt_0)
  with headroom_Ok [OF h(1) p] have "covered b' (rs_legal_entity_id rq) now"
    unfolding b' by (auto simp: reserved_new [OF new'])
  moreover have "covered b' e now" if "e \<noteq> rs_legal_entity_id rq" "covered b e now"
    using that refresh_sums(3) [OF r, of e now] unfolding b'
    by (simp add: covered_def reserved_new [OF new'] split: option.splits)
  ultimately show "covered b' (rs_legal_entity_id rq) now \<and> (e \<noteq> rs_legal_entity_id rq \<longrightarrow> covered b e now \<longrightarrow> covered b' e now)"
    by blast
qed

lemma return_covered:
  assumes "return_collateral_inner rq now b = Ok (b', v)" "bt_get (bb_collateral_lots b) (key (rc_lot_id rq)) = Some lot"
  shows "covered b' (jl_owner lot) now" "e \<noteq> jl_owner lot \<Longrightarrow> covered b e now \<Longrightarrow> covered b' e now"
  using assms(1)
proof (atomize (full), elim returnD)
  fix lot' b1 p n ln w collateral left required
  assume "bt_get (bb_collateral_lots b) (key (rc_lot_id rq)) = Some lot'"
  then have [simp]: "lot' = lot" using assms(2) by simp
  assume "jl_pledged lot'"
    and r: "refresh_status_by_key b (key (jl_owner lot')) now = Ok b1" and p: "bt_get (bb_participants b1) (key (jl_owner lot')) = Some p"
    and v: "collateral_value_yen lot' = Ok w" "collateral_value b1 (jl_owner lot') = Ok collateral" "checked_sub collateral w = Some left"
    and req: "required_of b1 (jl_owner lot') now (bp_other_secured_exposure p) (bp_intraday_overdraft p) = Ok required" "required \<le> left"
    and b': "b' = applied (rc_operation_id rq) (put_participant (key (jl_owner lot')) (p\<lparr>bp_sequence := n\<rparr>)
       (put_lot (key (rc_lot_id rq)) (lot'\<lparr>jl_pledged := False, jl_sequence := ln\<rparr>) b1))"
  have l: "bt_get (bb_collateral_lots b1) (key (rc_lot_id rq)) = Some lot" using assms(2) refresh_sel [OF r] by simp
  have lv: "lot_value lot = unat w" using v(1) by (simp add: lot_value_def)
  have out: "(if jl_owner lot = x then lot_value lot else 0) + collateral_of (put_lot (key (rc_lot_id rq)) (lot\<lparr>jl_pledged := False, jl_sequence := ln\<rparr>) b1) x
      = collateral_of b1 x" for x
    using collateral_put [OF l, of x "lot\<lparr>jl_pledged := False, jl_sequence := ln\<rparr>"] \<open>jl_pledged lot'\<close> by simp
  have "covered b' (jl_owner lot) now"
    using out [of "jl_owner lot"] v(2,3) req unfolding b'
    by (simp add: lv checked_sub_Some word_le_nat_alt collateral_value_Ok required_Ok)
  moreover have "covered b' e now" if "e \<noteq> jl_owner lot" "covered b e now"
    using that refresh_sums(3) [OF r, of e now] out [of e] unfolding b' by (simp add: covered_def split: option.splits)
  ultimately show "covered b' (jl_owner lot) now \<and> (e \<noteq> jl_owner lot \<longrightarrow> covered b e now \<longrightarrow> covered b' e now)" by blast
qed

lemma exposure_covered:
  assumes "update_exposure_inner rq now b = Ok (b', v)"
  shows "bt_get (bb_participants b) (key (ux_legal_entity_id rq)) = Some p \<Longrightarrow> bp_other_secured_exposure p < ux_new_exposure rq
      \<Longrightarrow> covered b' (ux_legal_entity_id rq) now"
    "covered b e now \<Longrightarrow> covered b' e now"
  using assms
proof (atomize (full), elim exposureD)
  fix q n required b1
  assume q: "bt_get (bb_participants b) (key (ux_legal_entity_id rq)) = Some q"
    and req: "required_of b (ux_legal_entity_id rq) now (ux_new_exposure rq) (bp_intraday_overdraft q) = Ok required"
    and up: "bp_other_secured_exposure q < ux_new_exposure rq \<Longrightarrow> \<exists>c. collateral_value b (ux_legal_entity_id rq) = Ok c \<and> required \<le> c"
    and r: "refresh_status_by_key (put_participant (key (ux_legal_entity_id rq)) (q\<lparr>bp_other_secured_exposure := ux_new_exposure rq,
       bp_sequence := n\<rparr>) b) (key (ux_legal_entity_id rq)) now = Ok b1"
    and b': "b' = applied (ux_operation_id rq) b1"
  have eq: "covered b' x now = covered (put_participant (key (ux_legal_entity_id rq)) (q\<lparr>bp_other_secured_exposure := ux_new_exposure rq,
       bp_sequence := n\<rparr>) b) x now" for x
    by (simp add: b' refresh_sums(3) [OF r])
  have more: "covered b' (ux_legal_entity_id rq) now" if more: "bp_other_secured_exposure q < ux_new_exposure rq"
    using up [OF more] required_Ok [OF req] by (auto simp: eq word_le_nat_alt dest: collateral_value_Ok)
  moreover have "covered b' e now" if "covered b e now"
  proof (cases "e = ux_legal_entity_id rq \<and> \<not> bp_other_secured_exposure q < ux_new_exposure rq")
    case True
    then have "unat (ux_new_exposure rq) \<le> unat (bp_other_secured_exposure q)" by (simp add: not_less word_le_nat_alt)
    with coveredD [OF that, of q] q True show ?thesis by (simp add: eq)
  qed (use that more eq in auto)
  ultimately show "(bt_get (bb_participants b) (key (ux_legal_entity_id rq)) = Some p \<longrightarrow> bp_other_secured_exposure p < ux_new_exposure rq
      \<longrightarrow> covered b' (ux_legal_entity_id rq) now) \<and> (covered b e now \<longrightarrow> covered b' e now)"
    using q by simp
qed

lemma consume_reserved:
  assumes "consume_reservation i draw b = Ok b'" "i \<noteq> 0 \<Longrightarrow> \<exists>r. bt_get (bb_reservations b) (key i) = Some r \<and> ir_legal_entity_id r = buyer \<and>
    is_live r now \<and> ir_amount r = reserved" "i = 0 \<Longrightarrow> reserved = 0"
  shows "reserved_of b buyer now = unat reserved + reserved_of b' buyer now" "e \<noteq> buyer \<Longrightarrow> reserved_of b' e now = reserved_of b e now"
    "collateral_of b' e = collateral_of b e" "bb_participants b' = bb_participants b"
proof -
  show "collateral_of b' e = collateral_of b e" "bb_participants b' = bb_participants b"
    using assms(1) by (auto simp: consume_reservation_def split: if_splits)
  have "reserved_of b x now = (if x = buyer then unat reserved else 0) + reserved_of b' x now" for x
  proof (cases "i = 0")
    case True
    then show ?thesis using assms(1,3) by (simp add: consume_reservation_def)
  next
    case False
    with assms(2) obtain r where r: "bt_get (bb_reservations b) (key i) = Some r" "ir_legal_entity_id r = buyer" "is_live r now"
      "ir_amount r = reserved" by blast
    from False r(1) assms(1) have "b' = put_reservation (key i) (r\<lparr>ir_status := Consumed, ir_consumed := draw\<rparr>) b"
      by (simp add: consume_reservation_def)
    with reserved_put [OF r(1), of x now "r\<lparr>ir_status := Consumed, ir_consumed := draw\<rparr>"] r(2-4) show ?thesis
      by (auto simp: is_live_def)
  qed
  from this [of buyer] this [of e] show "reserved_of b buyer now = unat reserved + reserved_of b' buyer now"
    "e \<noteq> buyer \<Longrightarrow> reserved_of b' e now = reserved_of b e now" by simp_all
qed

lemma buyer_coveredD:
  assumes "buyer_covered rq now buyer draw lv reserved b = Ok ()"
  shows "unat (bp_other_secured_exposure buyer) + unat (bp_intraday_overdraft buyer) + unat draw + reserved_of b (cd_buyer rq) now
    \<le> collateral_of b (cd_buyer rq) + (if cd_buyer_pledges_on_receipt rq then unat lv else 0) + unat reserved"
proof -
  obtain c ca live rest req where "collateral_value b (cd_buyer rq) = Ok c"
      "checked_add c (if cd_buyer_pledges_on_receipt rq then lv else 0) = Some ca" "live_reserved b (cd_buyer rq) now = Ok live"
      "checked_sub live reserved = Some rest" "Option.bind (Option.bind (checked_add (bp_other_secured_exposure buyer) (bp_intraday_overdraft buyer))
         (\<lambda>v. checked_add v draw)) (\<lambda>v. checked_add v rest) = Some req" "req \<le> ca"
    using assms by (auto simp: buyer_covered_def not_less)
  then show ?thesis
    by (auto simp: bind_eq_Some_conv checked_add_Some checked_sub_Some word_le_nat_alt
        dest!: collateral_value_Ok live_reserved_Ok split: if_splits)
qed

lemma seller_coveredD:
  assumes "seller_covered rq now seller repayment lot lv b = Ok ()"
  shows "unat (bp_other_secured_exposure seller) + unat (bp_intraday_overdraft seller - repayment) + reserved_of b (cd_seller rq) now
      + (if jl_pledged lot then unat lv else 0) \<le> collateral_of b (cd_seller rq)"
  using assms
  by (auto simp: seller_covered_def checked_sub_Some not_less word_le_nat_alt
      dest!: collateral_value_Ok required_Ok split: if_splits)

lemma dvp_write_covered:
  assumes w: "dvp_write rq buyer seller lot draw repayment buyer_cash seller_cash b = Ok b'"
    and parties: "dvp_parties rq now b = Ok (buyer, seller, lot)" and apart: "cd_buyer rq \<noteq> cd_seller rq"
    and v: "collateral_value_yen lot = Ok lv" and res: "reserved_by_this rq now draw b = Ok reserved"
    and bc: "buyer_covered rq now buyer draw lv reserved b = Ok ()"
    and sc: "seller_covered rq now seller repayment lot lv b = Ok ()"
  shows "covered b' (cd_buyer rq) now \<and> covered b' (cd_seller rq) now \<and>
    (\<forall>e. e \<noteq> cd_buyer rq \<longrightarrow> e \<noteq> cd_seller rq \<longrightarrow> covered b' e now = covered b e now)"
  using w
proof (rule dvp_writeD)
  fix overdraft bn sn ln
  let ?m = "dvp_moved rq (buyer, buyer_cash, overdraft, bn) (seller, seller_cash, bp_intraday_overdraft seller - repayment, sn) (lot, ln) b"
  assume od: "unat overdraft = unat (bp_intraday_overdraft buyer) + unat draw"
    and c: "consume_reservation (cd_overdraft_reservation_id rq) draw ?m = Ok b'"
  note d = dvp_partiesD [OF parties]
  have lv: "lot_value lot = unat lv" "lot_value (lot\<lparr>jl_owner := cd_buyer rq, jl_pledged := cd_buyer_pledges_on_receipt rq, jl_sequence := ln\<rparr>) = unat lv"
    using v by (simp_all add: lot_value_def)
  have "(if cd_seller rq = x \<and> jl_pledged lot then unat lv else 0) + collateral_of ?m x
      = (if cd_buyer rq = x \<and> cd_buyer_pledges_on_receipt rq then unat lv else 0) + collateral_of b x" for x
    using collateral_put [of "dvp_paid rq (buyer, buyer_cash, overdraft, bn) (seller, seller_cash, bp_intraday_overdraft seller - repayment, sn) b"
        "key (cd_lot_id rq)" lot x "lot\<lparr>jl_owner := cd_buyer rq, jl_pledged := cd_buyer_pledges_on_receipt rq, jl_sequence := ln\<rparr>"] d(3,4)
    unfolding lv by simp
  note col = this
  have use: "cd_overdraft_reservation_id rq \<noteq> 0 \<Longrightarrow> \<exists>r. bt_get (bb_reservations ?m) (key (cd_overdraft_reservation_id rq)) = Some r \<and>
      ir_legal_entity_id r = cd_buyer rq \<and> is_live r now \<and> ir_amount r = reserved"
    "cd_overdraft_reservation_id rq = 0 \<Longrightarrow> reserved = 0"
    using res by (auto simp: reserved_by_this_def)
  note k = consume_reserved [OF c use(1) use(2)]
  have res_m: "reserved_of ?m x now = reserved_of b x now" for x by simp
  have "covered b' (cd_buyer rq) now"
    using buyer_coveredD [OF bc] col [of "cd_buyer rq"] apart k(1) od
    by (simp add: covered_def k(3,4) res_m split: if_splits)
  moreover have "covered b' (cd_seller rq) now"
    using seller_coveredD [OF sc] col [of "cd_seller rq"] apart k(2) [of "cd_seller rq"]
    by (auto simp: covered_def k(3,4) split: if_splits)
  moreover have "covered b' e now = covered b e now" if "e \<noteq> cd_buyer rq" "e \<noteq> cd_seller rq" for e
    using col [of e] that k(2) [of e] by (auto simp: covered_def k(3,4) split: option.splits)
  ultimately show ?thesis by blast
qed

lemma dvp_covered:
  assumes "collateral_dvp_inner rq now b = Ok (b', v)"
  shows "covered b' (cd_buyer rq) now \<and> covered b' (cd_seller rq) now \<and>
    (\<forall>e. e \<noteq> cd_buyer rq \<longrightarrow> e \<noteq> cd_seller rq \<longrightarrow> covered b' e now = covered b e now)"
  using assms
  by (rule dvpD) (simp add: refresh_sums(3) dvp_write_covered)

section \<open>Every other operation\<close>

lemma reserved_unregistered:
  assumes "valid b" "bt_get (bb_participants b) (key e) = None"
  shows "reserved_of b e now = 0"
proof -
  have "reserved_of b e now = bt_sum (\<lambda>_. 0) (bb_reservations b)"
    unfolding reserved_of_def using assms by (intro bt_sum_mono_values) (auto dest!: valid_reservation simp: reservation_ok_def)
  then show ?thesis by (simp add: bt_sum_def)
qed

lemma register_covered:
  assumes "valid b" "register_participant_inner rq now b = Ok (b', u)" "bp_other_secured_exposure (rp_participant rq) = 0" "covered b e now"
  shows "covered b' e now"
  using assms(2)
proof (rule registerD)
  fix p
  assume p: "p = rp_participant rq" "bp_intraday_overdraft p = 0" "bt_get (bb_participants b) (key (bp_legal_entity_id p)) = None"
    and b': "b' = applied (rp_operation_id rq) (put_participant (key (bp_legal_entity_id p)) p b)"
  show ?thesis
    using assms(3,4) p reserved_unregistered [OF assms(1) p(3), of now] by (simp add: b')
qed

lemma pledge_covered:
  assumes "pledge_collateral_inner rq now b = Ok (b', v)" "covered b e now"
  shows "covered b' e now"
  using assms(1)
  by (rule pledgeD) (auto simp: refresh_sums(3) collateral_new intro!: covered_mono [OF assms(2)] split: if_splits)

lemma release_covered:
  assumes "release_liquidity_inner rq now b = Ok (b', v)" "covered b e now"
  shows "covered b' e now"
  using assms(1)
proof (rule releaseD)
  fix p n r b1
  assume p: "bt_get (bb_participants b) (key (rl_legal_entity_id rq)) = Some p"
    and r: "bt_get (bb_reservations b) (key (rl_reservation_id rq)) = Some r"
    and f: "refresh_status_by_key (put_participant (key (rl_legal_entity_id rq)) (p\<lparr>bp_sequence := n\<rparr>)
       (put_reservation (key (rl_reservation_id rq)) (r\<lparr>ir_status := Released\<rparr>) b)) (key (rl_legal_entity_id rq)) now = Ok b1"
    and b': "b' = applied (rl_operation_id rq) b1"
  have "reserved_of (put_reservation (key (rl_reservation_id rq)) (r\<lparr>ir_status := Released\<rparr>) b) e now \<le> reserved_of b e now"
    using reserved_put [OF r, of e now "r\<lparr>ir_status := Released\<rparr>"] by (auto simp: is_live_def split: if_splits)
  then have "covered (put_participant (key (rl_legal_entity_id rq)) (p\<lparr>bp_sequence := n\<rparr>)
       (put_reservation (key (rl_reservation_id rq)) (r\<lparr>ir_status := Released\<rparr>) b)) e now"
    using p by (intro covered_mono [OF assms(2)]) (auto split: if_splits)
  then show ?thesis by (simp add: b' refresh_sums(3) [OF f])
qed

lemma receipt_covered:
  assumes "apply_funds_receipt_inner rq now b = Ok (b', v)" "covered b e now"
  shows "covered b' e now"
  using assms(1)
proof (rule receiptD)
  fix p n r balance b1
  assume p: "bt_get (bb_participants b) (key (fr_legal_entity_id rq)) = Some p" and r: "r = min (bp_intraday_overdraft p) (fr_amount rq)"
    and f: "refresh_status_by_key (put_participant (key (fr_legal_entity_id rq)) (p\<lparr>bp_intraday_overdraft := bp_intraday_overdraft p - r,
       bp_current_account_balance := balance, bp_sequence := n\<rparr>) b) (key (fr_legal_entity_id rq)) now = Ok b1"
    and b': "b' = applied (fr_operation_id rq) (received (fr_receipt_id rq) b1)"
  have "r \<le> bp_intraday_overdraft p" unfolding r by simp
  then have "unat (bp_intraday_overdraft p - r) \<le> unat (bp_intraday_overdraft p)" by (simp add: unat_sub_le)
  then have "covered (put_participant (key (fr_legal_entity_id rq)) (p\<lparr>bp_intraday_overdraft := bp_intraday_overdraft p - r,
       bp_current_account_balance := balance, bp_sequence := n\<rparr>) b) e now"
    using p by (intro covered_mono [OF assms(2)]) (auto split: if_splits)
  then show ?thesis by (simp add: b' refresh_sums(3) [OF f])
qed

lemma covered_day:
  assumes "covered b e now" "bt_get (bb_participants b) (key i) = Some p"
    "bp_other_secured_exposure p' = bp_other_secured_exposure p" "bp_intraday_overdraft p' = bp_intraday_overdraft p"
  shows "covered (put_participant (key i) p' (release_all j b)) e now"
  using assms(2-4) reserved_release_le [of j b e now]
  by (intro covered_mono [OF assms(1)]) (auto split: if_splits)

lemma open_covered: "open_business_day_inner rq now b = Ok (b', v) \<Longrightarrow> covered b e now \<Longrightarrow> covered b' e now"
  by (erule openD) (simp only: refresh_sums(3) same_covered, rule covered_day; simp)

lemma end_covered: "end_business_day_inner rq now b = Ok (b', v) \<Longrightarrow> covered b e now \<Longrightarrow> covered b' e now"
  by (erule endD) (simp only: same_covered, rule covered_day; simp)

section \<open>Coverage over histories\<close>

fun extends_credit :: "boj_op \<Rightarrow> boj_book \<Rightarrow> id32 set" where
  "extends_credit (ReserveIntradayLiquidity rq) b = {rs_legal_entity_id rq}"
| "extends_credit (ReturnCollateral rq) b = jl_owner ` set_option (bt_get (bb_collateral_lots b) (key (rc_lot_id rq)))"
| "extends_credit (UpdateOtherSecuredExposure rq) b = (case bt_get (bb_participants b) (key (ux_legal_entity_id rq)) of None \<Rightarrow> {}
     | Some p \<Rightarrow> if bp_other_secured_exposure p < ux_new_exposure rq then {ux_legal_entity_id rq} else {})"
| "extends_credit (SimultaneousCollateralDvp rq) b = {cd_buyer rq, cd_seller rq}"
| "extends_credit _ b = {}"

fun keeps_cover :: "boj_op \<Rightarrow> bool" where
  "keeps_cover (RegisterParticipant rq) = (bp_other_secured_exposure (rp_participant rq) = 0)"
| "keeps_cover (RevalueCollateral rq) = False"
| "keeps_cover _ = True"

lemma extends_covered:
  assumes "boj_inner op now b = Ok b'" "e \<in> extends_credit op b"
  shows "covered b' e now"
  using assms
  by (cases op) (auto simp: book_only_def dvp_covered dest: reserve_covered(1) return_covered(1) exposure_covered(1)
      split: option.splits if_splits)

lemma inner_covered:
  assumes "valid b" "boj_inner op now b = Ok b'" "keeps_cover op" "covered b e now"
  shows "covered b' e now"
proof (cases "e \<in> extends_credit op b")
  case True
  then show ?thesis by (rule extends_covered [OF assms(2)])
next
  case False
  show ?thesis
  proof (cases op)
    case (RegisterParticipant rq)
    with assms show ?thesis by (auto simp: book_only_def dest: register_covered)
  next
    case (ReturnCollateral rq)
    then obtain v where i: "return_collateral_inner rq now b = Ok (b', v)" using assms(2) by (auto simp: book_only_def)
    then obtain lot where "bt_get (bb_collateral_lots b) (key (rc_lot_id rq)) = Some lot" by (rule returnD)
    with return_covered(2) [OF i this] False assms(4) ReturnCollateral show ?thesis by simp
  qed (use assms False in \<open>auto simp: book_only_def dvp_covered intro: reserve_covered(2) exposure_covered(2) pledge_covered
        release_covered receipt_covered open_covered end_covered\<close>)
qed

lemma boj_step_inner: "valid b \<Longrightarrow> boj_step b (op, now) = Some b' \<longleftrightarrow> boj_inner op now b = Ok b'"
  by (simp add: boj_step_def boj_apply_inner)

lemma run_covered:
  "\<lbrakk>valid b; \<forall>e. covered b e t; run boj_step b ops = Some b'; sorted (t # map snd ops @ [now]); list_all (keeps_cover \<circ> fst) ops\<rbrakk>
    \<Longrightarrow> covered b' e now"
proof (induction ops arbitrary: b t)
  case Nil
  then show ?case by (auto intro: covered_later)
next
  case (Cons a ops)
  obtain op s where a: "a = (op, s)" by (cases a)
  from Cons.prems obtain b1 where b1: "boj_inner op s b = Ok b1" "run boj_step b1 ops = Some b'"
    by (auto simp: a boj_step_inner split: option.splits)
  have ts: "t \<le> s" "sorted (s # map snd ops @ [now])" using Cons.prems(4) by (auto simp: a)
  have "covered b1 x s" for x
    using Cons.prems(2,5) ts(1) by (intro inner_covered [OF Cons.prems(1) b1(1)]) (auto simp: a intro: covered_later)
  with Cons.IH [OF boj_inner_valid [OF Cons.prems(1) b1(1)] _ b1(2) ts(2)] Cons.prems(5) show ?case by (simp add: a)
qed

text \<open>
  C38: no central bank credit without collateral. Whatever happened before, an accepted
  reservation, return of collateral, increase of other exposures or DvP leaves the
  participants it extends credit to (for a DvP, both sides) with pledged collateral worth at
  least their exposures, overdraft and live reservations. And over a whole history in time
  order, in which no lot is revalued and nobody registers with exposures, every participant
  is covered at the end, and at every later time.
\<close>

theorem boj_credit_covered:
  assumes "run boj_step boj_default ops = Some b"
  shows "(\<forall>op now b' e. boj_apply op now b = Ok b' \<and> e \<in> extends_credit op b \<longrightarrow> covered b' e now) \<and>
    (\<forall>now e. sorted (map snd ops @ [now]) \<and> list_all (keeps_cover \<circ> fst) ops \<longrightarrow> covered b e now)"
proof (intro conjI allI impI; elim conjE)
  fix op now b' e
  assume "boj_apply op now b = Ok b'" "e \<in> extends_credit op b"
  then show "covered b' e now"
    using boj_apply_inner [OF run_valid [OF boj_default_valid assms]] by (simp add: extends_covered)
next
  fix now e
  assume "sorted (map snd ops @ [now])" "list_all (keeps_cover \<circ> fst) ops"
  then show "covered b e now"
    using assms by (intro run_covered [OF boj_default_valid, of 0 ops b now e]) (auto simp: covered_def boj_default_def)
qed

theorem boj_credit_covered_witness:
  "\<exists>b. run boj_step boj_default demo_day = Some b \<and> covered b 1 5 \<and> covered b 2 5"
proof -
  obtain b where b: "run boj_step boj_default demo_day = Some b" using demo_day_runs by blast
  have "sorted (map snd demo_day @ [5])" "list_all (keeps_cover \<circ> fst) demo_day"
    by (simp_all add: demo_day_def demo_participant_def)
  with boj_credit_covered [OF b] b show ?thesis by blast
qed

end
