(* ===== verification/Quorum.thy ===== *)
theory Quorum
  imports BTree Hex Crypto
begin

text \<open>
  \<open>facility.rs\<close>, \<open>QuorumAuthorizer\<close>, and the signer of \<open>governance.rs\<close>: the k-of-n approval
  that every transition of the durable facility needs. A committee is a map of named
  nodes to enrolled key records, a threshold, an epoch and a domain; an approval is a list
  of node signatures over one statement in one state. The key records, the signature
  suites, the deployment policy, JSON serialisation and SHA-256 belong to other crates and
  are the fields of \<open>gov_crypto\<close>.

  Shown: an accepted approval was signed by at least the threshold of distinct enrolled
  nodes with currently valid, pairwise different keys; the signed bytes determine the
  committee, the node, the state and the statement; an approval collected from enough
  honest signers is accepted.
\<close>

section \<open>The external operations\<close>

text \<open>A \<open>serde_json::Value\<close>, built by \<open>json!\<close>.\<close>

datatype json = JString str | JNumber nat | JArray "json list" | JObject "(str \<times> json) list"

datatype suite_id = Ed25519 | MlDsa65 | Ed25519MlDsa65

record suite =
  suite_id :: suite_id
  suite_version :: nat

datatype pqc_mode = PqcOff | PqcOn

record deployment_crypto_policy =
  dp_version :: nat
  dp_deployment_id :: str
  dp_mode :: pqc_mode

text \<open>\<open>zkfmi_crypto::key::KeyRecord\<close>; the last two fields are opaque to this program.\<close>

record key_record =
  kr_participant_id :: str
  kr_key_id :: str
  kr_key_version :: nat
  kr_suite :: suite
  kr_purpose :: key_purpose
  kr_public_key :: bytes
  kr_not_before :: u64
  kr_not_after :: u64
  kr_revoked_at :: "u64 option"
  kr_rotation_proof :: "bytes option"
  kr_dekyx_binding :: "bytes option"

text \<open>
  \<open>sha2::Sha256\<close>, \<open>serde_json::to_vec\<close> of a \<open>Value\<close> (which cannot fail), the serialisation of key
  records and policies, \<open>KeyRecord::validate\<close> and \<open>valid_at\<close>, \<open>ParticipantId::new\<close> and \<open>KeyId::new\<close>,
  \<open>VerifyingKey::from_bytes\<close>, \<open>Suite::new\<close>, the methods of \<open>DeploymentCryptoPolicy\<close>,
  \<open>HybridVerifier::verify\<close> and the methods of a \<open>dyn Signer\<close>.
\<close>

record 'signer gov_crypto =
  gc_sha256 :: "bytes \<Rightarrow> id32"
  gc_to_vec :: "json \<Rightarrow> bytes"
  gc_key_json :: "key_record \<Rightarrow> json"
  gc_policy_json :: "deployment_crypto_policy \<Rightarrow> json"
  gc_key_validate :: "key_record \<Rightarrow> bool"
  gc_key_valid_at :: "key_record \<Rightarrow> u64 \<Rightarrow> bool"
  gc_participant_id :: "str \<Rightarrow> bool"
  gc_key_id :: "str \<Rightarrow> bool"
  gc_ed25519_key :: "bytes \<Rightarrow> bool"
  gc_suite_new :: "suite_id \<Rightarrow> suite"
  gc_policy_validate :: "deployment_crypto_policy \<Rightarrow> bool"
  gc_signing_suite :: "deployment_crypto_policy \<Rightarrow> suite"
  gc_policy_verify :: "deployment_crypto_policy \<Rightarrow> key_purpose \<Rightarrow> bytes \<Rightarrow> bytes \<Rightarrow> signature \<Rightarrow> bool"
  gc_policy_sign :: "deployment_crypto_policy \<Rightarrow> 'signer \<Rightarrow> key_purpose \<Rightarrow> bytes \<Rightarrow> signature option"
  gc_hybrid_verify :: "key_purpose \<Rightarrow> bytes \<Rightarrow> bytes \<Rightarrow> signature \<Rightarrow> bool"
  gc_signer_suite :: "'signer \<Rightarrow> suite"
  gc_signer_public_key :: "'signer \<Rightarrow> bytes"
  gc_sign :: "'signer \<Rightarrow> key_purpose \<Rightarrow> bytes \<Rightarrow> signature option"

text \<open>\<open>canonical\<close> and \<open>digest\<close>.\<close>

definition canonical :: "'g gov_crypto \<Rightarrow> json \<Rightarrow> bytes" where
  "canonical G v = gc_to_vec G v"

definition body_digest :: "'g gov_crypto \<Rightarrow> bytes \<Rightarrow> json \<Rightarrow> id32" where
  "body_digest G domain v = gc_sha256 G (domain @ canonical G v)"

section \<open>Governance signers\<close>

datatype governance_error = KeyRecordInvalid | SignerMetadataMismatch | IdentityInvalid | SignFailed

record 'signer governance_signer =
  gs_signer :: 'signer
  gs_record :: key_record

definition governance_signer_new ::
  "'g gov_crypto \<Rightarrow> 'g \<Rightarrow> key_record \<Rightarrow> ('g governance_signer, governance_error) result" where
  "governance_signer_new G signer rec =
     and_then (ensure (gc_key_validate G rec) KeyRecordInvalid) (\<lambda>_.
     and_then (ensure (kr_purpose rec = Governance \<and> kr_suite rec = gc_signer_suite G signer \<and>
       kr_public_key rec = gc_signer_public_key G signer) SignerMetadataMismatch) (\<lambda>_.
     Ok \<lparr>gs_signer = signer, gs_record = rec\<rparr>))"

definition with_initial_signer_metadata ::
  "'g gov_crypto \<Rightarrow> str \<Rightarrow> 'g \<Rightarrow> u64 \<Rightarrow> u64 \<Rightarrow> ('g governance_signer, governance_error) result" where
  "with_initial_signer_metadata G node signer not_before not_after =
     (let public_key = gc_signer_public_key G signer;
          key_id = lit ''governance:'' @ key (gc_sha256 G public_key) in
     and_then (ensure (gc_participant_id G node) IdentityInvalid) (\<lambda>_.
     and_then (ensure (gc_key_id G key_id) IdentityInvalid) (\<lambda>_.
     governance_signer_new G signer
       \<lparr>kr_participant_id = node, kr_key_id = key_id, kr_key_version = 1,
        kr_suite = gc_signer_suite G signer, kr_purpose = Governance, kr_public_key = public_key,
        kr_not_before = not_before, kr_not_after = not_after, kr_revoked_at = None,
        kr_rotation_proof = None, kr_dekyx_binding = None\<rparr>)))"

definition verifying_key :: "'g governance_signer \<Rightarrow> key_record" where
  "verifying_key s = gs_record s"

definition governance_sign :: "'g gov_crypto \<Rightarrow> 'g governance_signer \<Rightarrow> bytes \<Rightarrow> (signature, governance_error) result" where
  "governance_sign G s message = ok_or (gc_sign G (gs_signer s) Governance message) SignFailed"

definition sign_for_deployment ::
  "'g gov_crypto \<Rightarrow> 'g governance_signer \<Rightarrow> deployment_crypto_policy \<Rightarrow> bytes \<Rightarrow> (signature, governance_error) result" where
  "sign_for_deployment G s policy message =
     ok_or (gc_policy_sign G policy (gs_signer s) Governance message) SignFailed"

section \<open>The quorum\<close>

record node_approval =
  na_node_id :: str
  na_signature :: signature

record quorum_approval =
  qa_statement :: id32
  qa_signer_epoch :: u64
  qa_suite :: suite
  qa_committee_digest :: id32
  qa_domain :: str
  qa_before_root :: id32
  qa_approvals :: "node_approval list"

record quorum_authorizer =
  qz_nodes :: "(str, key_record) btree_map"
  qz_threshold :: nat
  qz_epoch :: u64
  qz_domain :: str
  qz_committee_digest :: id32
  qz_policy :: "deployment_crypto_policy option"
  qz_execution_time :: "u64 option"

datatype quorum_error =
    SignerConfiguration
  | NodeIdentityOrDomain
  | KeyInvalid
  | KeyMetadata
  | KeySlicePanic
  | DistinctKeyComponents
  | DistinctHybridKeys
  | DistinctEd25519Keys
  | PolicyInvalid
  | SignersNotConfigured
  | SignerKeyMismatch
  | SigningFailed

definition read_only :: quorum_authorizer where
  "read_only = \<lparr>qz_nodes = bt_empty, qz_threshold = 2 ^ 64 - 1, qz_epoch = 0, qz_domain = lit ''read-only'',
     qz_committee_digest = 0, qz_policy = None, qz_execution_time = None\<rparr>"

definition expected_suite :: "'g gov_crypto \<Rightarrow> deployment_crypto_policy option \<Rightarrow> suite" where
  "expected_suite G policy =
     (case policy of None \<Rightarrow> gc_suite_new G Ed25519MlDsa65 | Some p \<Rightarrow> gc_signing_suite G p)"

text \<open>The characters a node name may use: ASCII letters and digits and \<open>._:/+-\<close>.\<close>

definition allowed :: "nat \<Rightarrow> bool" where
  "allowed c \<longleftrightarrow> 48 \<le> c \<and> c \<le> 57 \<or> 65 \<le> c \<and> c \<le> 90 \<or> 97 \<le> c \<and> c \<le> 122 \<or> c \<in> set (lit ''._:/+-'')"

definition node_name_ok :: "str \<Rightarrow> bool" where
  "node_name_ok node \<longleftrightarrow> node \<noteq> [] \<and> length (as_bytes node) \<le> 128 \<and> list_all allowed node"

definition domain_ok :: "str \<Rightarrow> bool" where
  "domain_ok d \<longleftrightarrow> list_all (\<lambda>c. c < 128) d \<and> d \<noteq> [] \<and> length (as_bytes d) \<le> 128"

text \<open>One turn of the loop over the nodes; the state is the key ids and key components seen.\<close>

definition enrol_node ::
  "'g gov_crypto \<Rightarrow> deployment_crypto_policy option \<Rightarrow> str set \<times> bytes set \<times> bytes set \<Rightarrow> str \<times> key_record
    \<Rightarrow> (str set \<times> bytes set \<times> bytes set, quorum_error) result" where
  "enrol_node G policy seen node_key =
     (let (key_ids, classical, pq) = seen; (node, k) = node_key;
          expected = expected_suite G policy;
          ed = take 32 (kr_public_key k); rest = drop 32 (kr_public_key k);
          valid_distinct_ed = (ed \<noteq> replicate 32 0 \<and> gc_ed25519_key G ed \<and> ed \<notin> classical);
          valid_distinct_pq = (\<not> list_all (\<lambda>b. b = 0) rest \<and> rest \<notin> pq) in
     and_then (ensure (gc_key_validate G k) KeyInvalid) (\<lambda>_.
     and_then (ensure (kr_suite k = expected \<and> kr_purpose k = Governance \<and> kr_participant_id k = node \<and>
       kr_key_id k \<notin> key_ids) KeyMetadata) (\<lambda>_.
     and_then (ensure (32 \<le> length (kr_public_key k)) KeySlicePanic) (\<lambda>_.
     if suite_id expected = Ed25519MlDsa65 then
       (if \<not> valid_distinct_ed \<or> \<not> valid_distinct_pq
        then Err (if policy = None then DistinctKeyComponents else DistinctHybridKeys)
        else Ok (insert (kr_key_id k) key_ids, insert ed classical, insert rest pq))
     else if \<not> valid_distinct_ed then Err DistinctEd25519Keys
     else Ok (insert (kr_key_id k) key_ids, insert ed classical, pq)))))"

definition committee_body ::
  "'g gov_crypto \<Rightarrow> (str, key_record) btree_map \<Rightarrow> nat \<Rightarrow> u64 \<Rightarrow> str \<Rightarrow> deployment_crypto_policy option \<Rightarrow> json" where
  "committee_body G nodes threshold epoch domain policy =
     JObject ([(lit ''nodes'', JObject (map (\<lambda>(n, k). (n, gc_key_json G k)) (entries nodes))),
       (lit ''threshold'', JNumber threshold), (lit ''epoch'', JNumber (unat epoch)),
       (lit ''domain'', JString domain)] @
       (case policy of None \<Rightarrow> [] | Some p \<Rightarrow> [(lit ''deployment_crypto_policy'', gc_policy_json G p)]))"

definition new_inner ::
  "'g gov_crypto \<Rightarrow> (str, key_record) btree_map \<Rightarrow> nat \<Rightarrow> u64 \<Rightarrow> str \<Rightarrow> deployment_crypto_policy option
    \<Rightarrow> (quorum_authorizer, quorum_error) result" where
  "new_inner G nodes threshold epoch domain policy =
     and_then (ensure (\<not> (bt_len nodes = 0 \<or> 64 < bt_len nodes \<or>
       \<not> (1 \<le> threshold \<and> threshold \<le> bt_len nodes) \<or> epoch = 0)) SignerConfiguration) (\<lambda>_.
     and_then (ensure (list_all node_name_ok (bt_keys nodes) \<and> domain_ok domain) NodeIdentityOrDomain) (\<lambda>_.
     and_then (try_fold (enrol_node G policy) ({}, {}, {}) (entries nodes)) (\<lambda>_.
     Ok \<lparr>qz_nodes = nodes, qz_threshold = threshold, qz_epoch = epoch, qz_domain = domain,
       qz_committee_digest = body_digest G
         (case policy of None \<Rightarrow> ascii ''QOMM:DEFMI:GOVERNANCE-COMMITTEE:v2''
          | Some _ \<Rightarrow> ascii ''QOMM:DEFMI:GOVERNANCE-COMMITTEE:v3'')
         (committee_body G nodes threshold epoch domain policy),
       qz_policy = policy, qz_execution_time = None\<rparr>)))"

definition quorum_new ::
  "'g gov_crypto \<Rightarrow> (str, key_record) btree_map \<Rightarrow> nat \<Rightarrow> u64 \<Rightarrow> str \<Rightarrow> (quorum_authorizer, quorum_error) result" where
  "quorum_new G nodes threshold epoch domain = new_inner G nodes threshold epoch domain None"

definition new_for_deployment ::
  "'g gov_crypto \<Rightarrow> (str, key_record) btree_map \<Rightarrow> nat \<Rightarrow> u64 \<Rightarrow> str \<Rightarrow> deployment_crypto_policy
    \<Rightarrow> (quorum_authorizer, quorum_error) result" where
  "new_for_deployment G nodes threshold epoch domain policy =
     and_then (ensure (gc_policy_validate G policy) PolicyInvalid) (\<lambda>_.
     new_inner G nodes threshold epoch domain (Some policy))"

definition quorum_at :: "quorum_authorizer \<Rightarrow> u64 \<Rightarrow> quorum_authorizer" where
  "quorum_at A now = A\<lparr>qz_execution_time := Some now\<rparr>"

definition signing_body :: "quorum_authorizer \<Rightarrow> id32 \<Rightarrow> id32 \<Rightarrow> str \<Rightarrow> bytes" where
  "signing_body A statement before_root node =
     ascii ''QOMM:DEFMI:FACILITY:v3'' @ be64 (qz_epoch A) @ id_bytes (qz_committee_digest A) @
     prefixed 2 (as_bytes (qz_domain A)) @ prefixed 2 (as_bytes node) @
     id_bytes before_root @ id_bytes statement"

text \<open>The signature check of one node, under the policy when there is one.\<close>

definition signature_verifies ::
  "'g gov_crypto \<Rightarrow> deployment_crypto_policy option \<Rightarrow> bytes \<Rightarrow> bytes \<Rightarrow> signature \<Rightarrow> bool" where
  "signature_verifies G policy public_key body sig =
     (case policy of Some p \<Rightarrow> gc_policy_verify G p Governance public_key body sig
      | None \<Rightarrow> gc_hybrid_verify G Governance public_key body sig)"

fun approvals_verify ::
  "'g gov_crypto \<Rightarrow> quorum_authorizer \<Rightarrow> u64 \<Rightarrow> id32 \<Rightarrow> id32 \<Rightarrow> str set \<Rightarrow> node_approval list \<Rightarrow> bool" where
  "approvals_verify G A now statement before_root seen [] \<longleftrightarrow> True"
| "approvals_verify G A now statement before_root seen (ap # rest) \<longleftrightarrow>
     na_node_id ap \<notin> seen \<and>
     (case bt_get (qz_nodes A) (na_node_id ap) of None \<Rightarrow> False
      | Some k \<Rightarrow> gc_key_valid_at G k now \<and>
          signature_verifies G (qz_policy A) (kr_public_key k)
            (signing_body A statement before_root (na_node_id ap)) (na_signature ap)) \<and>
     approvals_verify G A now statement before_root (insert (na_node_id ap) seen) rest"

definition quorum_verify ::
  "'g gov_crypto \<Rightarrow> quorum_authorizer \<Rightarrow> id32 \<Rightarrow> id32 \<Rightarrow> quorum_approval \<Rightarrow> bool" where
  "quorum_verify G A expected before_root approval =
     (case qz_execution_time A of None \<Rightarrow> False
      | Some now \<Rightarrow>
          if qa_statement approval \<noteq> expected \<or> qa_before_root approval \<noteq> before_root \<or>
             qa_domain approval \<noteq> qz_domain A \<or> qa_signer_epoch approval \<noteq> qz_epoch A \<or>
             qa_suite approval \<noteq> expected_suite G (qz_policy A) \<or>
             qa_committee_digest approval \<noteq> qz_committee_digest A \<or>
             bt_len (qz_nodes A) < length (qa_approvals approval) \<or>
             length (qa_approvals approval) < qz_threshold A
          then False
          else approvals_verify G A now expected before_root {} (qa_approvals approval))"

text \<open>\<open>verify_now\<close>; the wall clock is absent when it reads a time before the epoch.\<close>

definition quorum_verify_now ::
  "'g gov_crypto \<Rightarrow> u64 option \<Rightarrow> quorum_authorizer \<Rightarrow> id32 \<Rightarrow> id32 \<Rightarrow> quorum_approval \<Rightarrow> bool" where
  "quorum_verify_now G wall A expected before_root approval =
     (case wall of None \<Rightarrow> False | Some secs \<Rightarrow> quorum_verify G (quorum_at A secs) expected before_root approval)"

definition sign_approval ::
  "'g gov_crypto \<Rightarrow> deployment_crypto_policy option \<Rightarrow> 'g governance_signer \<Rightarrow> bytes
    \<Rightarrow> (signature, governance_error) result" where
  "sign_approval G policy s body =
     (case policy of Some p \<Rightarrow> sign_for_deployment G s p body | None \<Rightarrow> governance_sign G s body)"

definition approve_node ::
  "'g gov_crypto \<Rightarrow> quorum_authorizer \<Rightarrow> id32 \<Rightarrow> id32 \<Rightarrow> node_approval list \<Rightarrow> str \<times> 'g governance_signer
    \<Rightarrow> (node_approval list, quorum_error) result" where
  "approve_node G A statement before_root approvals node_signer =
     (let (node, s) = node_signer; body = signing_body A statement before_root node in
     and_then (ensure (bt_get (qz_nodes A) node = Some (verifying_key s)) SignerKeyMismatch) (\<lambda>_.
     and_then (map_err (\<lambda>_. SigningFailed) (sign_approval G (qz_policy A) s body)) (\<lambda>sig.
     Ok (approvals @ [\<lparr>na_node_id = node, na_signature = sig\<rparr>]))))"

definition approve ::
  "'g gov_crypto \<Rightarrow> quorum_authorizer \<Rightarrow> id32 \<Rightarrow> id32 \<Rightarrow> (str, 'g governance_signer) btree_map
    \<Rightarrow> (quorum_approval, quorum_error) result" where
  "approve G A statement before_root signers =
     and_then (ensure (\<not> (bt_len signers = 0 \<or>
       list_ex (\<lambda>node. bt_get (qz_nodes A) node = None) (bt_keys signers))) SignersNotConfigured) (\<lambda>_.
     and_then (try_fold (approve_node G A statement before_root) [] (entries signers)) (\<lambda>approvals.
     Ok \<lparr>qa_statement = statement, qa_signer_epoch = qz_epoch A, qa_suite = expected_suite G (qz_policy A),
       qa_committee_digest = qz_committee_digest A, qa_domain = qz_domain A,
       qa_before_root = before_root, qa_approvals = approvals\<rparr>))"

section \<open>Committees\<close>

abbreviation ed_component :: "key_record \<Rightarrow> bytes" where
  "ed_component k \<equiv> take 32 (kr_public_key k)"

lemma enrol_node_Ok:
  assumes "enrol_node G policy (ids, cl, pq) (n, k) = Ok seen"
  obtains ids' pq' where "seen = (ids', insert (ed_component k) cl, pq')" "ed_component k \<notin> cl"
    "kr_participant_id k = n" "kr_purpose k = Governance" "kr_suite k = expected_suite G policy"
  using assms by (auto simp: enrol_node_def Let_def split: if_splits)

lemma enrolled_distinct:
  assumes "try_fold (enrol_node G policy) (ids, cl, pq) es = Ok seen"
  shows "distinct (map (ed_component \<circ> snd) es) \<and> (ed_component \<circ> snd) ` set es \<inter> cl = {}"
  using assms
proof (induction es arbitrary: ids cl pq)
  case (Cons e es)
  obtain n k where e: "e = (n, k)" by (cases e)
  with Cons.prems obtain seen' where step: "enrol_node G policy (ids, cl, pq) (n, k) = Ok seen'"
    and rest: "try_fold (enrol_node G policy) seen' es = Ok seen" by auto
  from step obtain ids' pq' where seen: "seen' = (ids', insert (ed_component k) cl, pq')"
    and new: "ed_component k \<notin> cl" by (rule enrol_node_Ok)
  from Cons.IH [OF rest [unfolded seen]] new show ?case unfolding e by auto
qed simp

lemma new_innerD:
  assumes "new_inner G nodes k epoch domain policy = Ok A"
  shows "qz_nodes A = nodes" "qz_threshold A = k" "qz_epoch A = epoch" "qz_domain A = domain"
    "qz_policy A = policy" "1 \<le> k" "k \<le> bt_len nodes" "bt_contains nodes n \<Longrightarrow> node_name_ok n"
    "domain_ok domain" "distinct (map (ed_component \<circ> snd) (entries nodes))"
  using assms
  by (auto simp: new_inner_def list_all_iff bt_keys_iff dest!: enrolled_distinct)

lemma committee_keys_differ:
  assumes "new_inner G nodes t epoch domain policy = Ok A" "bt_get nodes m = Some k" "bt_get nodes n = Some l"
    "ed_component k = ed_component l"
  shows "m = n"
proof -
  from assms(2,3) have "(m, k) \<in> set (entries nodes)" "(n, l) \<in> set (entries nodes)"
    by (simp_all add: entries_get)
  moreover have "inj_on (ed_component \<circ> snd) (set (entries nodes))"
    using new_innerD(10) [OF assms(1)] by (simp add: distinct_map)
  ultimately have "(m, k) = (n, l)" using assms(4) by (intro inj_onD [of "ed_component \<circ> snd"]) simp_all
  then show ?thesis by simp
qed

section \<open>Signing bodies\<close>

lemma as_bytes_ascii_inject:
  "\<forall>c \<in> set s. c < 128 \<Longrightarrow> \<forall>c \<in> set t. c < 128 \<Longrightarrow> as_bytes s = as_bytes t \<Longrightarrow> s = t"
proof (induction s arbitrary: t)
  case Nil
  then show ?case by (cases t) (auto simp: as_bytes_def utf8_char_def)
next
  case (Cons c s)
  then obtain d t' where t: "t = d # t'"
    by (cases t) (auto simp: as_bytes_def utf8_char_def)
  from Cons.prems have cd: "c < 128" "d < 128" unfolding t by simp_all
  with Cons.prems(3) have "of_nat c = (of_nat d :: u8)" and rest: "as_bytes s = as_bytes t'"
    unfolding t by (simp_all add: as_bytes_def utf8_char_def)
  then have "unat (of_nat c :: u8) = unat (of_nat d :: u8)" by simp
  with cd have "c = d" by (simp add: unat_of_nat)
  with Cons.IH [OF _ _ rest] Cons.prems show ?case unfolding t by simp
qed

lemma allowed_ascii: "allowed c \<Longrightarrow> c < 128"
  by (auto simp: allowed_def lit_def)

lemma node_name_as_bytes:
  "node_name_ok m \<Longrightarrow> node_name_ok n \<Longrightarrow> as_bytes m = as_bytes n \<Longrightarrow> m = n"
  by (rule as_bytes_ascii_inject) (auto simp: node_name_ok_def list_all_iff dest: allowed_ascii)

lemma signing_body_inject:
  assumes "signing_body A st root m = signing_body B st' root' n" "node_name_ok m" "node_name_ok n"
    "domain_ok (qz_domain A)" "domain_ok (qz_domain B)"
  shows "qz_epoch A = qz_epoch B \<and> qz_committee_digest A = qz_committee_digest B \<and> qz_domain A = qz_domain B \<and>
    m = n \<and> root = root' \<and> st = st'"
proof -
  let ?tail = "\<lambda>x root st. prefixed 2 (as_bytes x) @ id_bytes root @ id_bytes st"
  have len: "length (as_bytes (qz_domain A)) < 256 ^ 2" "length (as_bytes (qz_domain B)) < 256 ^ 2"
    "length (as_bytes m) < 256 ^ 2" "length (as_bytes n) < 256 ^ 2"
    using assms(2-5) by (auto simp: domain_ok_def node_name_ok_def)
  from assms(1) have head: "qz_epoch A = qz_epoch B" "qz_committee_digest A = qz_committee_digest B"
    and rest: "prefixed 2 (as_bytes (qz_domain A)) @ ?tail m root st =
      prefixed 2 (as_bytes (qz_domain B)) @ ?tail n root' st'"
    unfolding signing_body_def by simp_all
  from prefixed_inject [OF rest len(1,2)]
  have dom: "as_bytes (qz_domain A) = as_bytes (qz_domain B)" and rest: "?tail m root st = ?tail n root' st'"
    by blast+
  from prefixed_inject [OF rest len(3,4)]
  have "as_bytes m = as_bytes n" "root = root' \<and> st = st'" by auto
  moreover have "qz_domain A = qz_domain B"
    using assms(4,5) by (intro as_bytes_ascii_inject [OF _ _ dom]) (simp_all add: domain_ok_def list_all_iff)
  ultimately show ?thesis using head assms(2,3) node_name_as_bytes by blast
qed

section \<open>Accepted approvals\<close>

lemma approvals_verify_iff:
  "approvals_verify G A now st root seen aps \<longleftrightarrow>
     distinct (map na_node_id aps) \<and> na_node_id ` set aps \<inter> seen = {} \<and>
     (\<forall>ap \<in> set aps. \<exists>k. bt_get (qz_nodes A) (na_node_id ap) = Some k \<and> gc_key_valid_at G k now \<and>
        signature_verifies G (qz_policy A) (kr_public_key k) (signing_body A st root (na_node_id ap)) (na_signature ap))"
  by (induction aps arbitrary: seen) (auto split: option.splits)

lemma signing_body_at [simp]: "signing_body (quorum_at A now) = signing_body A"
  by (intro ext) (simp add: signing_body_def quorum_at_def)

lemma quorum_at_simps [simp]:
  "qz_nodes (quorum_at A now) = qz_nodes A" "qz_threshold (quorum_at A now) = qz_threshold A"
  "qz_epoch (quorum_at A now) = qz_epoch A" "qz_domain (quorum_at A now) = qz_domain A"
  "qz_committee_digest (quorum_at A now) = qz_committee_digest A"
  "qz_policy (quorum_at A now) = qz_policy A" "qz_execution_time (quorum_at A now) = Some now"
  by (simp_all add: quorum_at_def)

lemma quorum_verifyD:
  assumes "quorum_verify G (quorum_at A now) st root ap"
  shows "qa_statement ap = st" "qa_before_root ap = root" "qz_threshold A \<le> length (qa_approvals ap)"
    "approvals_verify G (quorum_at A now) now st root {} (qa_approvals ap)"
  using assms by (auto simp: quorum_verify_def split: if_splits)

text \<open>
  The nodes that stand behind a statement in a state: enrolled, with a key that is valid
  now, and whose key produced a signature over the body that names them. \<open>produced\<close> is the
  set of messages each public key has signed.
\<close>

definition backing ::
  "'g gov_crypto \<Rightarrow> quorum_authorizer \<Rightarrow> u64 \<Rightarrow> (bytes \<times> bytes) set \<Rightarrow> id32 \<Rightarrow> id32 \<Rightarrow> str set" where
  "backing G A now produced st root = {n. \<exists>k. bt_get (qz_nodes A) n = Some k \<and> gc_key_valid_at G k now \<and>
     (kr_public_key k, signing_body A st root n) \<in> produced}"

lemma finite_backing: "finite (backing G A now produced st root)"
  by (rule finite_subset [of _ "set (bt_keys (qz_nodes A))"]) (auto simp: backing_def bt_keys_iff)

lemma approvals_back:
  assumes "\<And>pk body sig. signature_verifies G (qz_policy A) pk body sig \<Longrightarrow> (pk, body) \<in> produced"
    and "quorum_verify G (quorum_at A now) st root ap"
  shows "qz_threshold A \<le> card (backing G A now produced st root)"
proof -
  let ?names = "map na_node_id (qa_approvals ap)"
  note v = quorum_verifyD [OF assms(2)]
  then have "distinct ?names" by (simp add: approvals_verify_iff)
  moreover have "set ?names \<subseteq> backing G A now produced st root"
    using v(4) assms(1) by (fastforce simp: approvals_verify_iff backing_def)
  ultimately have "length ?names \<le> card (backing G A now produced st root)"
    by (metis card_mono distinct_card finite_backing)
  with v(3) show ?thesis by simp
qed

text \<open>
  C9: whatever approval the authorizer accepts, at least the threshold of distinct enrolled
  nodes signed exactly this statement in exactly this state with a currently valid key, and
  no two of them share a key; and what they signed cannot be counted for another statement,
  state or node of the committee. The hypothesis on the signature schemes is that a
  signature that verifies was produced by the holder of the key.
\<close>

theorem quorum_sound:
  assumes "new_inner G nodes k epoch domain policy = Ok A"
    and "\<And>pk body sig. signature_verifies G policy pk body sig \<Longrightarrow> (pk, body) \<in> produced"
    and "quorum_verify G (quorum_at A now) st root ap"
  shows "1 \<le> k \<and> k \<le> card (backing G A now produced st root) \<and>
    inj_on (\<lambda>n. map_option ed_component (bt_get nodes n)) (backing G A now produced st root) \<and>
    (\<forall>st' root' m n. bt_contains nodes m \<and> bt_contains nodes n \<and>
       signing_body A st root m = signing_body A st' root' n \<longrightarrow> m = n \<and> root = root' \<and> st = st')"
proof (intro conjI)
  note c = new_innerD [OF assms(1)]
  show "1 \<le> k" by (rule c)
  show "k \<le> card (backing G A now produced st root)"
    using approvals_back [of G A produced now st root ap] assms(2,3) by (simp add: c(2,5))
  show "inj_on (\<lambda>n. map_option ed_component (bt_get nodes n)) (backing G A now produced st root)"
    by (rule inj_onI) (auto simp: backing_def c(1) intro: committee_keys_differ [OF assms(1)])
  show "\<forall>st' root' m n. bt_contains nodes m \<and> bt_contains nodes n \<and>
      signing_body A st root m = signing_body A st' root' n \<longrightarrow> m = n \<and> root = root' \<and> st = st'"
    using signing_body_inject [of A st root _ A] c(4,8,9) by blast
qed

section \<open>Honest approvals\<close>

text \<open>What the signers of a quorum need: enrolled, valid now, and able to sign.\<close>

definition ready ::
  "'g gov_crypto \<Rightarrow> quorum_authorizer \<Rightarrow> u64 \<Rightarrow> str \<Rightarrow> 'g governance_signer \<Rightarrow> bool" where
  "ready G A now n s \<longleftrightarrow> bt_get (qz_nodes A) n = Some (verifying_key s) \<and> gc_key_valid_at G (verifying_key s) now"

definition signs_verifiably :: "'g gov_crypto \<Rightarrow> deployment_crypto_policy option \<Rightarrow> 'g governance_signer \<Rightarrow> bool" where
  "signs_verifiably G policy s \<longleftrightarrow> (\<forall>body. \<exists>sig. sign_approval G policy s body = Ok sig \<and>
     signature_verifies G policy (kr_public_key (verifying_key s)) body sig)"

lemma approve_nodes:
  assumes "\<And>n s. (n, s) \<in> set es \<Longrightarrow> ready G A now n s \<and> signs_verifiably G (qz_policy A) s"
  shows "\<exists>aps. try_fold (approve_node G A st root) acc es = Ok (acc @ aps) \<and> map na_node_id aps = map fst es \<and>
    (\<forall>ap \<in> set aps. \<exists>k. bt_get (qz_nodes A) (na_node_id ap) = Some k \<and> gc_key_valid_at G k now \<and>
      signature_verifies G (qz_policy A) (kr_public_key k) (signing_body A st root (na_node_id ap)) (na_signature ap))"
  using assms
proof (induction es arbitrary: acc)
  case (Cons e es)
  obtain n s where e: "e = (n, s)" by (cases e)
  from Cons.prems [of n s] obtain sig where r: "ready G A now n s"
    and sig: "sign_approval G (qz_policy A) s (signing_body A st root n) = Ok sig"
    "signature_verifies G (qz_policy A) (kr_public_key (verifying_key s)) (signing_body A st root n) sig"
    unfolding e signs_verifiably_def by fastforce
  let ?ap = "\<lparr>na_node_id = n, na_signature = sig\<rparr>"
  have step: "approve_node G A st root acc e = Ok (acc @ [?ap])"
    using r sig by (simp add: e approve_node_def ready_def)
  from Cons.IH [of "acc @ [?ap]"] Cons.prems obtain aps where
    "try_fold (approve_node G A st root) (acc @ [?ap]) es = Ok ((acc @ [?ap]) @ aps)"
    "map na_node_id aps = map fst es"
    "\<forall>ap \<in> set aps. \<exists>k. bt_get (qz_nodes A) (na_node_id ap) = Some k \<and> gc_key_valid_at G k now \<and>
      signature_verifies G (qz_policy A) (kr_public_key k) (signing_body A st root (na_node_id ap)) (na_signature ap)"
    by fastforce
  with step r sig show ?case by (intro exI [of _ "?ap # aps"]) (simp add: e ready_def)
qed simp

lemma bt_len_mono:
  assumes "\<And>x. bt_contains m x \<Longrightarrow> bt_contains m' x"
  shows "bt_len m \<le> bt_len m'"
proof -
  have "set (bt_keys m) \<subseteq> set (bt_keys m')" using assms by (auto simp: bt_keys_iff)
  then have "card (set (bt_keys m)) \<le> card (set (bt_keys m'))" by (rule card_mono [OF finite_set])
  then show ?thesis unfolding distinct_card [OF bt_keys_distinct] by (simp add: bt_keys_def bt_len_def)
qed

text \<open>
  C40: an approval collected from signers that are enrolled with currently valid keys, at
  least the threshold of them, is issued and accepted. The hypothesis on the signature
  schemes is that signing succeeds and the result verifies.
\<close>

theorem approve_verifies:
  assumes "new_inner G nodes k epoch domain policy = Ok A"
    and "k \<le> bt_len signers"
    and "\<And>n s. bt_get signers n = Some s \<Longrightarrow> ready G A now n s \<and> signs_verifiably G policy s"
  shows "\<exists>ap. approve G A st root signers = Ok ap \<and> quorum_verify G (quorum_at A now) st root ap"
proof -
  note c = new_innerD [OF assms(1)]
  have enrolled: "bt_contains (qz_nodes A) n" if "bt_contains signers n" for n
    using that assms(3) by (auto simp: ready_def)
  from approve_nodes [of "entries signers" G A now st root "[]"] assms(3) obtain aps where
    fold: "try_fold (approve_node G A st root) [] (entries signers) = Ok aps"
    and names: "map na_node_id aps = bt_keys signers"
    and sigs: "\<forall>ap \<in> set aps. \<exists>k. bt_get (qz_nodes A) (na_node_id ap) = Some k \<and> gc_key_valid_at G k now \<and>
      signature_verifies G (qz_policy A) (kr_public_key k) (signing_body A st root (na_node_id ap)) (na_signature ap)"
    by (auto simp: entries_get c(5) bt_keys_def)
  from names have len: "length aps = bt_len signers"
    by (metis bt_keys_def bt_len_def length_map)
  have "bt_len signers \<noteq> 0" using assms(2) c(6) by simp
  moreover have "\<not> list_ex (\<lambda>node. bt_get (qz_nodes A) node = None) (bt_keys signers)"
    using enrolled by (auto simp: list_ex_iff bt_keys_iff)
  moreover have "bt_len signers \<le> bt_len (qz_nodes A)" by (rule bt_len_mono) (rule enrolled)
  moreover have "approvals_verify G (quorum_at A now) now st root {} aps"
    using sigs by (simp add: approvals_verify_iff names)
  ultimately show ?thesis
    using fold len assms(2) c(2) by (simp add: approve_def quorum_verify_def)
qed

lemma read_only_never: "\<not> quorum_verify G (quorum_at read_only now) st root ap"
proof
  assume v: "quorum_verify G (quorum_at read_only now) st root ap"
  then have "qa_approvals ap \<noteq> []" using quorum_verifyD(3) [OF v] by (auto simp: read_only_def)
  with quorum_verifyD(4) [OF v] show False by (cases "qa_approvals ap") (simp_all add: read_only_def)
qed

section \<open>A concrete committee\<close>

text \<open>
  Two nodes and a threshold of two, with a transparent signature scheme: the signature of a
  message is the public key followed by the message. A signer is its public key.
\<close>

definition demo_gov :: "bytes gov_crypto" where
  "demo_gov =
     \<lparr>gc_sha256 = (\<lambda>bs. of_nat (length bs)), gc_to_vec = (\<lambda>_. []), gc_key_json = (\<lambda>_. JNumber 0),
      gc_policy_json = (\<lambda>_. JNumber 0), gc_key_validate = (\<lambda>k. length (kr_public_key k) = 33),
      gc_key_valid_at = (\<lambda>k now. kr_not_before k \<le> now \<and> now < kr_not_after k),
      gc_participant_id = (\<lambda>_. True), gc_key_id = (\<lambda>_. True), gc_ed25519_key = (\<lambda>_. True),
      gc_suite_new = (\<lambda>i. \<lparr>suite_id = i, suite_version = 1\<rparr>), gc_policy_validate = (\<lambda>_. True),
      gc_signing_suite = (\<lambda>_. \<lparr>suite_id = Ed25519MlDsa65, suite_version = 1\<rparr>),
      gc_policy_verify = (\<lambda>_ _ pk body sig. length pk = 33 \<and> sig = pk @ body),
      gc_policy_sign = (\<lambda>_ pk _ body. Some (pk @ body)),
      gc_hybrid_verify = (\<lambda>_ pk body sig. length pk = 33 \<and> sig = pk @ body),
      gc_signer_suite = (\<lambda>_. \<lparr>suite_id = Ed25519MlDsa65, suite_version = 1\<rparr>),
      gc_signer_public_key = (\<lambda>pk. pk), gc_sign = (\<lambda>pk _ body. Some (pk @ body))\<rparr>"

definition demo_signer :: "string \<Rightarrow> u8 \<Rightarrow> bytes governance_signer" where
  "demo_signer node b = \<lparr>gs_signer = replicate 33 b, gs_record =
     \<lparr>kr_participant_id = lit node, kr_key_id = lit node, kr_key_version = 1,
      kr_suite = \<lparr>suite_id = Ed25519MlDsa65, suite_version = 1\<rparr>, kr_purpose = Governance,
      kr_public_key = replicate 33 b, kr_not_before = 10, kr_not_after = 200, kr_revoked_at = None,
      kr_rotation_proof = None, kr_dekyx_binding = None\<rparr>\<rparr>"

definition demo_nodes :: "(str, key_record) btree_map" where
  "demo_nodes = bt_insert (lit ''a'') (verifying_key (demo_signer ''a'' 1))
     (bt_insert (lit ''b'') (verifying_key (demo_signer ''b'' 2)) bt_empty)"

definition demo_signers :: "(str, bytes governance_signer) btree_map" where
  "demo_signers = bt_insert (lit ''a'') (demo_signer ''a'' 1)
     (bt_insert (lit ''b'') (demo_signer ''b'' 2) bt_empty)"

definition demo_committee :: quorum_authorizer where
  "demo_committee = \<lparr>qz_nodes = demo_nodes, qz_threshold = 2, qz_epoch = 1, qz_domain = lit ''chain-a'',
     qz_committee_digest = body_digest demo_gov (ascii ''QOMM:DEFMI:GOVERNANCE-COMMITTEE:v2'')
       (committee_body demo_gov demo_nodes 2 1 (lit ''chain-a'') None),
     qz_policy = None, qz_execution_time = None\<rparr>"

lemma demo_entries:
  "entries demo_nodes = [([97], verifying_key (demo_signer ''a'' 1)), ([98], verifying_key (demo_signer ''b'' 2))]"
  "entries demo_signers = [([97], demo_signer ''a'' 1), ([98], demo_signer ''b'' 2)]"
  by (simp_all add: demo_nodes_def demo_signers_def bt_insert.rep_eq bt_empty.rep_eq lit_def)

lemma demo_nodes_simps:
  "bt_len demo_nodes = 2" "bt_keys demo_nodes = [[97], [98]]"
  "bt_get demo_nodes [97] = Some (verifying_key (demo_signer ''a'' 1))"
  "bt_get demo_nodes [98] = Some (verifying_key (demo_signer ''b'' 2))"
  by (simp_all add: bt_len_def bt_keys_def demo_entries) (simp_all add: demo_nodes_def lit_def)

lemma demo_enrol:
  "try_fold (enrol_node demo_gov None) ({}, {}, {}) (entries demo_nodes) =
     Ok ({[98], [97]}, {replicate 32 2, replicate 32 1}, {[2], [1]})"
  by (simp add: demo_entries enrol_node_def Let_def expected_suite_def demo_gov_def demo_signer_def
      verifying_key_def lit_def list_all_iff)

lemma demo_committee_new: "new_inner demo_gov demo_nodes 2 1 (lit ''chain-a'') None = Ok demo_committee"
  by (simp add: new_inner_def demo_enrol demo_committee_def demo_nodes_simps)
    (simp add: node_name_ok_def domain_ok_def allowed_def lit_def as_bytes_def utf8_char_def)

lemma demo_ready:
  "bt_get demo_signers n = Some s \<Longrightarrow>
    ready demo_gov demo_committee 100 n s \<and> signs_verifiably demo_gov None s"
  by (auto simp: demo_signers_def ready_def demo_committee_def demo_nodes_def signs_verifiably_def sign_approval_def
      governance_sign_def signature_verifies_def demo_gov_def demo_signer_def verifying_key_def lit_def split: if_splits)

theorem approve_verifies_witness:
  "\<exists>ap. approve demo_gov demo_committee 7 9 demo_signers = Ok ap \<and>
     quorum_verify demo_gov (quorum_at demo_committee 100) 7 9 ap"
  by (rule approve_verifies [OF demo_committee_new]) (use demo_ready in \<open>auto simp: bt_len_def demo_entries\<close>)

definition demo_approval :: quorum_approval where
  "demo_approval = \<lparr>qa_statement = 7, qa_signer_epoch = 1,
     qa_suite = \<lparr>suite_id = Ed25519MlDsa65, suite_version = 1\<rparr>,
     qa_committee_digest = qz_committee_digest demo_committee, qa_domain = lit ''chain-a'', qa_before_root = 9,
     qa_approvals = [
       \<lparr>na_node_id = lit ''b'', na_signature = replicate 33 2 @ signing_body demo_committee 7 9 (lit ''b'')\<rparr>,
       \<lparr>na_node_id = lit ''a'', na_signature = replicate 33 1 @ signing_body demo_committee 7 9 (lit ''a'')\<rparr>]\<rparr>"

lemma demo_approval_verifies: "quorum_verify demo_gov (quorum_at demo_committee 100) 7 9 demo_approval"
proof -
  have "qz_nodes demo_committee = demo_nodes" "qz_policy demo_committee = None" by (simp_all add: demo_committee_def)
  then have "approvals_verify demo_gov (quorum_at demo_committee 100) 100 7 9 {} (qa_approvals demo_approval)"
    by (simp add: demo_approval_def demo_nodes_simps signature_verifies_def demo_gov_def demo_signer_def
        verifying_key_def lit_def)
  moreover have "qa_suite demo_approval = expected_suite demo_gov (qz_policy demo_committee)"
    by (simp add: demo_approval_def demo_committee_def expected_suite_def demo_gov_def)
  ultimately show ?thesis
    by (simp add: quorum_verify_def) (simp add: demo_approval_def demo_committee_def demo_nodes_simps)
qed

theorem quorum_sound_witness:
  "2 \<le> card (backing demo_gov demo_committee 100 ({pk. length pk = 33} \<times> UNIV) 7 9)"
  using quorum_sound [OF demo_committee_new _ demo_approval_verifies, of "{pk. length pk = 33} \<times> UNIV"]
  by (simp add: signature_verifies_def demo_gov_def)

end
