(* ===== verification/FacilityDb.thy ===== *)
theory FacilityDb
  imports Quorum "HOL-Library.Product_Lexorder"
begin

text \<open>
  \<open>facility.rs\<close>: the durable database of the settlement facility. A table is an ordered map
  from its primary key to a record of its other columns (\<open>receipts\<close>, which is read in insertion
  order, is a list of rows), with the columns of the schema that \<open>DefmiFacility::open\<close> installs.
  \<open>calculate_root\<close> is the digest of the committed tables that an approval is bound to.

  SQLite keeps integers in 64 signed bits and turns a larger literal into a real, which
  reads back as a decimal fraction that \<open>parse::<u64>\<close> refuses; \<open>column\<close> is the reading of an
  integer column, and \<open>sql_key\<close> the value such a column is compared by. Reading a row back
  parses the hexadecimal the query returns; the model keeps the bytes themselves.
  Errors are the strings the code returns.

  A public operation is a function from the database to the new database or the error: the
  transaction commits when it succeeds and rolls back otherwise. The wall clock that
  \<open>require_quorum\<close> reads is an argument, absent when it is before the epoch.
\<close>

type_synonym 'a db_result = "('a, string) result"

text \<open>\<open>map(f).collect::<Result<Vec<_>, _>>()\<close>.\<close>

fun try_map :: "('a \<Rightarrow> ('b, 'e) result) \<Rightarrow> 'a list \<Rightarrow> ('b list, 'e) result" where
  "try_map f [] = Ok []"
| "try_map f (x # xs) = and_then (f x) (\<lambda>y. and_then (try_map f xs) (\<lambda>ys. Ok (y # ys)))"

section \<open>Text forms\<close>

datatype asset_kind = Cash | Security | Fund | Commodity | Carbon | OtherAsset

fun asset_kind_str :: "asset_kind \<Rightarrow> str" where
  "asset_kind_str Cash = lit ''cash''"
| "asset_kind_str Security = lit ''security''"
| "asset_kind_str Fund = lit ''fund''"
| "asset_kind_str Commodity = lit ''commodity''"
| "asset_kind_str Carbon = lit ''carbon''"
| "asset_kind_str OtherAsset = lit ''other''"

definition asset_kind_parse :: "str \<Rightarrow> asset_kind db_result" where
  "asset_kind_parse s =
     (if s = lit ''cash'' then Ok Cash
      else if s = lit ''security'' then Ok Security
      else if s = lit ''fund'' then Ok Fund
      else if s = lit ''commodity'' then Ok Commodity
      else if s = lit ''carbon'' then Ok Carbon
      else if s = lit ''other'' then Ok OtherAsset
      else Err ''stored asset kind is invalid'')"

datatype guarantor_kind = CentralBank | CentralCounterparty | Bank | CreditProvider | SelfGuaranteed

fun guarantor_kind_str :: "guarantor_kind \<Rightarrow> str" where
  "guarantor_kind_str CentralBank = lit ''central_bank''"
| "guarantor_kind_str CentralCounterparty = lit ''ccp''"
| "guarantor_kind_str Bank = lit ''bank''"
| "guarantor_kind_str CreditProvider = lit ''credit_provider''"
| "guarantor_kind_str SelfGuaranteed = lit ''self''"

definition guarantor_kind_parse :: "str \<Rightarrow> guarantor_kind db_result" where
  "guarantor_kind_parse s =
     (if s = lit ''central_bank'' then Ok CentralBank
      else if s = lit ''ccp'' then Ok CentralCounterparty
      else if s = lit ''bank'' then Ok Bank
      else if s = lit ''credit_provider'' then Ok CreditProvider
      else if s = lit ''self'' then Ok SelfGuaranteed
      else Err ''stored guarantor kind is invalid'')"

datatype facility_status = FacilityActive | FacilityFrozen | FacilityClosed | FacilityDefaulted

fun facility_status_str :: "facility_status \<Rightarrow> str" where
  "facility_status_str FacilityActive = lit ''active''"
| "facility_status_str FacilityFrozen = lit ''frozen''"
| "facility_status_str FacilityClosed = lit ''closed''"
| "facility_status_str FacilityDefaulted = lit ''defaulted''"

definition facility_status_parse :: "str \<Rightarrow> facility_status db_result" where
  "facility_status_parse s =
     (if s = lit ''active'' then Ok FacilityActive
      else if s = lit ''frozen'' then Ok FacilityFrozen
      else if s = lit ''closed'' then Ok FacilityClosed
      else if s = lit ''defaulted'' then Ok FacilityDefaulted
      else Err ''stored credit facility status is invalid'')"

definition nonzero :: "id32 \<Rightarrow> string \<Rightarrow> str db_result" where
  "nonzero i name = (if i = 0 then Err (name @ '' cannot be the all-zero identifier'') else Ok (key i))"

text \<open>\<open>parse_hex32\<close>.\<close>

definition parse_hex32 :: "str \<Rightarrow> string \<Rightarrow> id32 db_result" where
  "parse_hex32 s name = (case hex_decode s of
      Some raw \<Rightarrow> if length raw = 32 then Ok (of_nat (be_nat raw)) else Err (name @ '' must be 32 bytes'')
    | None \<Rightarrow> Err (name @ '' must be 32 bytes''))"

text \<open>\<open>i64::MAX\<close>, which is also \<open>MAX_UNIX_TIME\<close>.\<close>

definition max_unix_time :: u64 where
  "max_unix_time = 2 ^ 63 - 1"

section \<open>Tables\<close>

record asset_row =
  as_code :: str
  as_kind :: str
  as_decimals :: u8
  as_terms_digest :: id32
  as_active :: bool
  as_statement :: id32

record account_row =
  ac_asset_id :: id32
  ac_commitment :: id32
  ac_sequence :: u64
  ac_opening_statement :: id32

record guarantor_row =
  gr_kind :: str
  gr_name :: str
  gr_public_key :: id32
  gr_pq_public_key :: bytes
  gr_risk_policy_digest :: id32
  gr_active :: bool
  gr_statement :: id32

record credit_facility_row =
  cf_guarantor_id :: id32
  cf_beneficiary :: id32
  cf_rail_asset_id :: id32
  cf_cap :: id32
  cf_available :: id32
  cf_held :: id32
  cf_outstanding :: id32
  cf_overlimit :: id32
  cf_collateral :: id32
  cf_risk_policy_digest :: id32
  cf_valid_from :: u64
  cf_valid_until :: u64
  cf_status :: str
  cf_sequence :: u64
  cf_grant_statement :: id32

record credit_hold_row =
  ch_facility_id :: id32
  ch_query :: id32
  ch_amount :: id32
  ch_expires_at :: u64
  ch_status :: str
  ch_settlement_digest :: id32
  ch_created_sequence :: u64
  ch_updated_sequence :: u64

record credit_operation_row =
  co_facility_id :: id32
  co_kind :: str
  co_statement :: id32

record binding_row =
  rb_role :: str
  rb_entity :: id32
  rb_asset_id :: id32
  rb_direction :: u64
  rb_authorization_digest :: id32
  rb_mandate_digest :: id32
  rb_typed_reserve_digest :: id32
  rb_reserve_nullifier :: id32
  rb_asset_link_proof_digest :: id32
  rb_limit_price :: id32
  rb_rfq_nullifier :: id32
  rb_policy_version :: u64
  rb_admission_ticket_id :: id32
  rb_admission_slot :: u64
  rb_admission_receipt_digest :: id32
  rb_admission_epoch :: u64
  rb_admission_sequence :: u64
  rb_admission_batch_id :: id32
  rb_receipt_digest :: id32

record escrow_row =
  re_source_handle :: id32
  re_escrow_handle :: id32
  re_asset_id :: id32
  re_amount :: id32
  re_source_before :: id32
  re_source_after :: id32
  re_source_before_sequence :: u64
  re_proof_digest :: id32
  re_status :: str
  re_settlement_digest :: id32

record nullifier_row =
  nf_deadline :: u64
  nf_statement :: id32

record committee_row =
  cm_epoch :: u64
  cm_operation_id :: id32
  cm_node_keys :: "id32 list"
  cm_valid_from :: u64
  cm_valid_until :: u64
  cm_statement :: id32

record batch_row =
  ba_operation_id :: id32
  ba_venue_id :: id32
  ba_epoch :: u64
  ba_slot :: u64
  ba_batch_digest :: id32
  ba_order_digest :: id32
  ba_population :: u64
  ba_consumed :: u64
  ba_expires_at :: u64
  ba_statement :: id32

record entry_row =
  en_admission_digest :: id32
  en_consumed_by :: id32

record admission_operation_row =
  ao_batch_id :: id32
  ao_sequence :: u64
  ao_statement :: id32

record verifier_row =
  sv_venue_id :: id32
  sv_defmi_id :: id32
  sv_epoch :: u64
  sv_quote_registry_digest :: id32
  sv_quote_eligibility_bits :: u16
  sv_quote_span_bits :: u16
  sv_amount_bits :: u16
  sv_price_bits :: u16
  sv_max_horizon :: u64
  sv_frost_public_package :: bytes
  sv_pq_committee :: bytes
  sv_valid_from :: u64
  sv_valid_until :: u64
  sv_statement :: id32

record receipt_row =
  rr_operation_id :: id32
  rr_nullifier :: id32
  rr_statement :: id32
  rr_receipt_json :: bytes
  rr_receipt_digest :: id32

record product_batch_row =
  pb_statement :: id32
  pb_before_root :: id32
  pb_after_root :: id32
  pb_item_count :: nat
  pb_first_sequence :: u64
  pb_last_sequence :: u64
  pb_first_receipt_digest :: id32
  pb_last_receipt_digest :: id32

text \<open>\<open>metadata\<close> has the two keys that \<open>open\<close> inserts.\<close>

record facility_db =
  db_assets :: "(id32, asset_row) btree_map"
  db_accounts :: "(id32, account_row) btree_map"
  db_nullifiers :: "(id32, nullifier_row) btree_map"
  db_operations :: "(id32, id32) btree_map"
  db_receipts :: "receipt_row list"
  db_guarantors :: "(id32, guarantor_row) btree_map"
  db_credit_facilities :: "(id32, credit_facility_row) btree_map"
  db_scopes :: "(id32 \<times> id32 \<times> id32, id32) btree_map"
  db_credit_holds :: "(id32, credit_hold_row) btree_map"
  db_credit_operations :: "(id32, credit_operation_row) btree_map"
  db_bindings :: "(id32, binding_row) btree_map"
  db_escrows :: "(id32, escrow_row) btree_map"
  db_rfq_nullifiers :: "(id32, id32) btree_map"
  db_committees :: "(id32 \<times> nat, committee_row) btree_map"
  db_batches :: "(id32, batch_row) btree_map"
  db_entries :: "(id32 \<times> u64, entry_row) btree_map"
  db_admission_operations :: "(id32, admission_operation_row) btree_map"
  db_verifiers :: "(id32, verifier_row) btree_map"
  db_product_batches :: "(id32, product_batch_row) btree_map"
  db_state_root :: id32
  db_last_receipt :: id32

definition empty_db :: facility_db where
  "empty_db = \<lparr>db_assets = bt_empty, db_accounts = bt_empty, db_nullifiers = bt_empty, db_operations = bt_empty,
     db_receipts = [], db_guarantors = bt_empty, db_credit_facilities = bt_empty, db_scopes = bt_empty,
     db_credit_holds = bt_empty, db_credit_operations = bt_empty, db_bindings = bt_empty, db_escrows = bt_empty,
     db_rfq_nullifiers = bt_empty, db_committees = bt_empty, db_batches = bt_empty, db_entries = bt_empty,
     db_admission_operations = bt_empty, db_verifiers = bt_empty,
     db_product_batches = bt_empty, db_state_root = 0, db_last_receipt = 0\<rparr>"

section \<open>Other crates\<close>

text \<open>The fields of \<open>ReceiptWire\<close>, the JSON form of a receipt.\<close>

record receipt_wire =
  rw_operation_id :: str
  rw_nullifier :: str
  rw_statement :: str
  rw_before_root :: str
  rw_after_root :: str
  rw_previous_receipt :: str
  rw_committed_at_ns :: u64
  rw_elapsed_ns :: u64
  rw_request_bytes :: u64
  rw_response_bytes :: u64
  rw_database_bytes_before :: u64
  rw_database_bytes_after :: u64
  rw_signature :: str

text \<open>The fields the facility reads of \<open>zkpi_committee::order\<close>'s certified lane; the rest is opaque.\<close>

record certified_lane =
  cl_sequence :: u64
  cl_slot :: u64
  cl_cluster_digest :: id32
  cl_order_digest :: id32
  cl_rest :: bytes

record ordered_admission =
  oa_venue_id :: id32
  oa_epoch :: u64
  oa_slot :: u64
  oa_batch_digest :: id32
  oa_order_digest :: id32
  oa_sequence :: u64
  oa_ticket_id :: id32
  oa_rfq_nullifier :: id32
  oa_taker_entity :: id32
  oa_taker_mandate_digest :: id32
  oa_expires_at :: u64
  oa_rest :: bytes

text \<open>
  What the facility calls outside this repository, besides \<open>gov_crypto\<close>: JSON of a receipt in
  both directions, signing with the facility's receipt key, the admission committee's key
  check, lane verification and digests, Ed25519 and ML-DSA-65 verification, the digest of a
  stored quorum policy, and the real that SQLite stores for an integer past \<open>i64::MAX\<close>.
\<close>

record 'g facility_ext =
  fx_gov :: "'g gov_crypto"
  fx_wire_to_vec :: "receipt_wire \<Rightarrow> bytes"
  fx_wire_from_slice :: "bytes \<Rightarrow> receipt_wire option"
  fx_receipt_sign :: "bytes \<Rightarrow> signature option"
  fx_committee_nodes :: nat
  fx_admission_key :: "id32 \<Rightarrow> bool"
  fx_verify_lane :: "bytes list \<Rightarrow> id32 list \<Rightarrow> certified_lane db_result"
  fx_lane_digest :: "certified_lane \<Rightarrow> id32 \<Rightarrow> u64 \<Rightarrow> id32 option"
  fx_certified_digest :: "ordered_admission \<Rightarrow> id32 db_result"
  fx_ed25519_weak :: "bytes \<Rightarrow> bool"
  fx_ed25519_verify_strict :: "bytes \<Rightarrow> bytes \<Rightarrow> signature \<Rightarrow> bool"
  fx_ml_dsa_65_verify :: "key_purpose \<Rightarrow> bytes \<Rightarrow> bytes \<Rightarrow> signature \<Rightarrow> bool"
  fx_suite_json :: "suite \<Rightarrow> json"
  fx_policy_digest :: "bytes \<Rightarrow> id32 option"
  fx_sql_real :: "u64 \<Rightarrow> nat"

text \<open>The facility besides its database: its committee and the public half of its receipt key.\<close>

record facility_config =
  fc_authorizer :: quorum_authorizer
  fc_receipt_public_key :: bytes

section \<open>Integer columns\<close>

definition column :: "u64 \<Rightarrow> u64 db_result" where
  "column v = (if v \<le> max_unix_time then Ok v else Err ''invalid digit found in string'')"

definition sql_key :: "'g facility_ext \<Rightarrow> u64 \<Rightarrow> nat" where
  "sql_key F v = (if v \<le> max_unix_time then unat v else 2 ^ 63 + fx_sql_real F v)"

section \<open>The state root\<close>

text \<open>\<open>hash.update\<close> calls in order; each may fail while its column is parsed.\<close>

definition hash_parts :: "bytes db_result list \<Rightarrow> bytes db_result" where
  "hash_parts ps = try_fold (\<lambda>acc p. and_then p (\<lambda>b. Ok (acc @ b))) [] ps"

definition id_part :: "id32 \<Rightarrow> bytes db_result" where
  "id_part i = Ok (id_bytes i)"

definition u64_part :: "u64 \<Rightarrow> bytes db_result" where
  "u64_part v = and_then (column v) (\<lambda>x. Ok (be64 x))"

definition text_part :: "str \<Rightarrow> bytes db_result" where
  "text_part s = Ok (prefixed 2 (as_bytes s))"

definition asset_part :: "'g facility_ext \<Rightarrow> id32 \<times> asset_row \<Rightarrow> bytes db_result" where
  "asset_part F r = Ok (canonical (fx_gov F) (JArray
     [JString (key (fst r)), JString (as_code (snd r)), JString (as_kind (snd r)),
      JNumber (unat (as_decimals (snd r))), JString (key (as_terms_digest (snd r))),
      JNumber (of_bool (as_active (snd r)))]))"

definition account_part :: "id32 \<times> account_row \<Rightarrow> bytes db_result" where
  "account_part r = hash_parts [id_part (fst r), id_part (ac_asset_id (snd r)),
     id_part (ac_commitment (snd r)), u64_part (ac_sequence (snd r))]"

definition guarantor_part :: "'g facility_ext \<Rightarrow> id32 \<times> guarantor_row \<Rightarrow> bytes db_result" where
  "guarantor_part F r = Ok (canonical (fx_gov F) (JArray
     [JString (key (fst r)), JString (gr_kind (snd r)), JString (gr_name (snd r)),
      JString (key (gr_public_key (snd r))), JString (key (gr_risk_policy_digest (snd r))),
      JString (hex_encode (gr_pq_public_key (snd r))), JNumber (of_bool (gr_active (snd r)))]))"

definition credit_facility_part :: "id32 \<times> credit_facility_row \<Rightarrow> bytes db_result" where
  "credit_facility_part r = (let f = snd r in hash_parts
     [id_part (fst r), id_part (cf_guarantor_id f), id_part (cf_beneficiary f), id_part (cf_rail_asset_id f),
      id_part (cf_cap f), id_part (cf_available f), id_part (cf_held f), id_part (cf_outstanding f),
      id_part (cf_overlimit f), id_part (cf_collateral f), id_part (cf_risk_policy_digest f),
      u64_part (cf_valid_from f), u64_part (cf_valid_until f), text_part (cf_status f), u64_part (cf_sequence f)])"

definition credit_hold_part :: "id32 \<times> credit_hold_row \<Rightarrow> bytes db_result" where
  "credit_hold_part r = (let h = snd r in hash_parts
     [id_part (fst r), id_part (ch_facility_id h), id_part (ch_query h), id_part (ch_amount h),
      u64_part (ch_expires_at h), text_part (ch_status h), id_part (ch_settlement_digest h),
      u64_part (ch_created_sequence h), u64_part (ch_updated_sequence h)])"

definition binding_part :: "id32 \<times> binding_row \<Rightarrow> bytes db_result" where
  "binding_part r = (let b = snd r in hash_parts
     [id_part (fst r), text_part (rb_role b), id_part (rb_entity b), id_part (rb_asset_id b),
      u64_part (rb_direction b), id_part (rb_authorization_digest b), id_part (rb_mandate_digest b),
      id_part (rb_typed_reserve_digest b), id_part (rb_reserve_nullifier b),
      id_part (rb_asset_link_proof_digest b), id_part (rb_limit_price b), id_part (rb_rfq_nullifier b),
      u64_part (rb_policy_version b), id_part (rb_admission_ticket_id b), u64_part (rb_admission_slot b),
      id_part (rb_admission_receipt_digest b), u64_part (rb_admission_epoch b),
      u64_part (rb_admission_sequence b), id_part (rb_admission_batch_id b), id_part (rb_receipt_digest b)])"

definition escrow_part :: "id32 \<times> escrow_row \<Rightarrow> bytes db_result" where
  "escrow_part r = (let e = snd r in hash_parts
     [id_part (fst r), id_part (re_source_handle e), id_part (re_escrow_handle e), id_part (re_asset_id e),
      id_part (re_amount e), id_part (re_source_before e), id_part (re_source_after e),
      u64_part (re_source_before_sequence e), id_part (re_proof_digest e), text_part (re_status e),
      id_part (re_settlement_digest e)])"

definition nullifier_part :: "id32 \<times> nullifier_row \<Rightarrow> bytes db_result" where
  "nullifier_part r = hash_parts [id_part (fst r), u64_part (nf_deadline (snd r)), id_part (nf_statement (snd r))]"

definition pair_part :: "id32 \<times> id32 \<Rightarrow> bytes db_result" where
  "pair_part r = hash_parts [id_part (fst r), id_part (snd r)]"

definition committee_part :: "(id32 \<times> nat) \<times> committee_row \<Rightarrow> bytes db_result" where
  "committee_part r = (let c = snd r in hash_parts
     [id_part (fst (fst r)), u64_part (cm_epoch c), Ok (concat (map id_bytes (cm_node_keys c))),
      u64_part (cm_valid_from c), u64_part (cm_valid_until c), id_part (cm_statement c)])"

definition batch_part :: "id32 \<times> batch_row \<Rightarrow> bytes db_result" where
  "batch_part r = (let b = snd r in hash_parts
     [id_part (fst r), id_part (ba_venue_id b), id_part (ba_batch_digest b), id_part (ba_order_digest b),
      u64_part (ba_epoch b), u64_part (ba_slot b), u64_part (ba_population b), u64_part (ba_consumed b),
      u64_part (ba_expires_at b), id_part (ba_statement b)])"

definition entry_part :: "(id32 \<times> u64) \<times> entry_row \<Rightarrow> bytes db_result" where
  "entry_part r = hash_parts [id_part (fst (fst r)), u64_part (snd (fst r)),
     id_part (en_admission_digest (snd r)), id_part (en_consumed_by (snd r))]"

definition verifier_part :: "'g facility_ext \<Rightarrow> id32 \<times> verifier_row \<Rightarrow> bytes db_result" where
  "verifier_part F r = (let v = snd r in hash_parts
     [id_part (sv_venue_id v), id_part (sv_defmi_id v), u64_part (sv_epoch v),
      id_part (sv_quote_registry_digest v), Ok (be16 (sv_quote_eligibility_bits v)),
      Ok (be16 (sv_quote_span_bits v)), Ok (be16 (sv_amount_bits v)), Ok (be16 (sv_price_bits v)),
      u64_part (sv_max_horizon v), Ok (prefixed 8 (sv_frost_public_package v)),
      and_then (ok_or (fx_policy_digest F (sv_pq_committee v)) ''stored PQ committee is invalid'') id_part,
      u64_part (sv_valid_from v), u64_part (sv_valid_until v), id_part (sv_statement v)])"

definition calculate_root :: "'g facility_ext \<Rightarrow> facility_db \<Rightarrow> id32 db_result" where
  "calculate_root F db =
     and_then (hash_parts (
       map (asset_part F) (entries (db_assets db)) @
       map account_part (entries (db_accounts db)) @
       map (guarantor_part F) (entries (db_guarantors db)) @
       map credit_facility_part (entries (db_credit_facilities db)) @
       map credit_hold_part (entries (db_credit_holds db)) @
       map binding_part (entries (db_bindings db)) @
       map escrow_part (entries (db_escrows db)) @
       map nullifier_part (entries (db_nullifiers db)) @
       map pair_part (entries (db_rfq_nullifiers db)) @
       map committee_part (entries (db_committees db)) @
       map batch_part (entries (db_batches db)) @
       map entry_part (entries (db_entries db)) @
       map (verifier_part F) (entries (db_verifiers db)) @
       map pair_part (entries (db_operations db)))) (\<lambda>tables.
     Ok (gc_sha256 (fx_gov F) (ascii ''QOMM:DEFMI:STATE:v3'' @ tables)))"

section \<open>Authorization and the operation registry\<close>

definition require_quorum ::
  "'g facility_ext \<Rightarrow> facility_config \<Rightarrow> u64 option \<Rightarrow> id32 \<Rightarrow> id32 \<Rightarrow> quorum_approval \<Rightarrow> unit db_result" where
  "require_quorum F C wall statement before_root approval =
     and_then (ok_or wall ''governance clock is before Unix epoch'') (\<lambda>now.
     ensure (quorum_verify (fx_gov F) (quorum_at (fc_authorizer C) now) statement before_root approval)
       ''the transition lacks the configured k-of-n approval'')"

text \<open>The root and the approval bound to it, the two lines every mutation starts with.\<close>

definition authorize ::
  "'g facility_ext \<Rightarrow> facility_config \<Rightarrow> u64 option \<Rightarrow> facility_db \<Rightarrow> id32 \<Rightarrow> quorum_approval \<Rightarrow> id32 db_result" where
  "authorize F C wall db statement approval =
     and_then (calculate_root F db) (\<lambda>before_root.
     and_then (require_quorum F C wall statement before_root approval) (\<lambda>_. Ok before_root))"

definition register_operation :: "facility_db \<Rightarrow> id32 \<Rightarrow> id32 \<Rightarrow> facility_db db_result" where
  "register_operation db operation_id statement =
     (case bt_get (db_operations db) operation_id of
        Some s \<Rightarrow> if s = statement then Ok db else Err ''operation identifier was reused''
      | None \<Rightarrow>
          if statement \<in> set (bt_values (db_operations db)) then Err ''UNIQUE constraint failed: operations.statement''
          else Ok (db\<lparr>db_operations := bt_insert operation_id statement (db_operations db)\<rparr>))"

text \<open>
  The trigger on each table of operations: \<open>INSERT OR IGNORE\<close> does nothing when the
  identifier or the statement is registered already, then a different statement under the
  identifier aborts.
\<close>

definition operation_trigger :: "facility_db \<Rightarrow> id32 \<Rightarrow> id32 \<Rightarrow> facility_db db_result" where
  "operation_trigger db operation_id statement =
     (case bt_get (db_operations db) operation_id of
        Some s \<Rightarrow> if s = statement then Ok db else Err ''operation identifier was reused''
      | None \<Rightarrow>
          if statement \<in> set (bt_values (db_operations db)) then Ok db
          else Ok (db\<lparr>db_operations := bt_insert operation_id statement (db_operations db)\<rparr>))"

section \<open>Lemmas\<close>

lemma lit_inject [simp]: "lit s = lit t \<longleftrightarrow> s = t"
proof
  assume "lit s = lit t"
  then have "map (of_char :: char \<Rightarrow> nat) s = map of_char t" by (simp add: lit_def)
  moreover have "inj (of_char :: char \<Rightarrow> nat)" by (rule injI) (metis char_of_char)
  ultimately show "s = t" by (simp add: inj_map_eq_map)
qed simp

lemma asset_kind_parse_str [simp]: "asset_kind_parse (asset_kind_str k) = Ok k"
  by (cases k) (simp_all add: asset_kind_parse_def)

lemma guarantor_kind_parse_str [simp]: "guarantor_kind_parse (guarantor_kind_str k) = Ok k"
  by (cases k) (simp_all add: guarantor_kind_parse_def)

lemma facility_status_parse_str [simp]: "facility_status_parse (facility_status_str k) = Ok k"
  by (cases k) (simp_all add: facility_status_parse_def)

lemma nonzero_Ok [simp]: "nonzero i name = Ok s \<longleftrightarrow> i \<noteq> 0 \<and> s = key i"
  by (auto simp: nonzero_def)

lemma parse_hex32_key [simp]: "parse_hex32 (key i) name = Ok i"
proof -
  have "be_nat (id_bytes i) = unat i"
    unfolding id_bytes_def be_nat_nat_be using unat_bound [of i] by simp
  then show ?thesis by (simp add: parse_hex32_def)
qed

lemma authorize_Ok:
  "authorize F C wall db st ap = Ok root \<longleftrightarrow> calculate_root F db = Ok root \<and>
     (\<exists>now. wall = Some now \<and> quorum_verify (fx_gov F) (quorum_at (fc_authorizer C) now) st root ap)"
  by (auto simp: authorize_def require_quorum_def)

section \<open>Frames\<close>

text \<open>
  The tables of the three subsystems. An operation of one leaves the parts of the other two
  as they are.
\<close>

definition settlement_part where
  "settlement_part db = (db_assets db, db_accounts db, db_nullifiers db, db_receipts db, db_last_receipt db)"

definition credit_part where
  "credit_part db = (db_guarantors db, db_credit_facilities db, db_scopes db, db_credit_holds db, db_credit_operations db)"

definition admission_part where
  "admission_part db = (db_committees db, db_batches db, db_entries db, db_admission_operations db)"

lemma settlement_part_frame [simp]:
  "settlement_part (db\<lparr>db_operations := x1\<rparr>) = settlement_part db"
  "settlement_part (db\<lparr>db_state_root := x2\<rparr>) = settlement_part db"
  "settlement_part (db\<lparr>db_guarantors := x3\<rparr>) = settlement_part db"
  "settlement_part (db\<lparr>db_credit_facilities := x4\<rparr>) = settlement_part db"
  "settlement_part (db\<lparr>db_scopes := x5\<rparr>) = settlement_part db"
  "settlement_part (db\<lparr>db_credit_holds := x6\<rparr>) = settlement_part db"
  "settlement_part (db\<lparr>db_credit_operations := x7\<rparr>) = settlement_part db"
  "settlement_part (db\<lparr>db_committees := x8\<rparr>) = settlement_part db"
  "settlement_part (db\<lparr>db_batches := x9\<rparr>) = settlement_part db"
  "settlement_part (db\<lparr>db_entries := x10\<rparr>) = settlement_part db"
  "settlement_part (db\<lparr>db_admission_operations := x11\<rparr>) = settlement_part db"
  "settlement_part (db\<lparr>db_bindings := x12\<rparr>) = settlement_part db"
  "settlement_part (db\<lparr>db_escrows := x13\<rparr>) = settlement_part db"
  "settlement_part (db\<lparr>db_rfq_nullifiers := x14\<rparr>) = settlement_part db"
  "settlement_part (db\<lparr>db_verifiers := x15\<rparr>) = settlement_part db"
  "settlement_part (db\<lparr>db_product_batches := x16\<rparr>) = settlement_part db"
  by (simp_all add: settlement_part_def)

lemma credit_part_frame [simp]:
  "credit_part (db\<lparr>db_operations := x1\<rparr>) = credit_part db"
  "credit_part (db\<lparr>db_state_root := x2\<rparr>) = credit_part db"
  "credit_part (db\<lparr>db_last_receipt := x3\<rparr>) = credit_part db"
  "credit_part (db\<lparr>db_assets := x4\<rparr>) = credit_part db"
  "credit_part (db\<lparr>db_accounts := x5\<rparr>) = credit_part db"
  "credit_part (db\<lparr>db_nullifiers := x6\<rparr>) = credit_part db"
  "credit_part (db\<lparr>db_receipts := x7\<rparr>) = credit_part db"
  "credit_part (db\<lparr>db_committees := x8\<rparr>) = credit_part db"
  "credit_part (db\<lparr>db_batches := x9\<rparr>) = credit_part db"
  "credit_part (db\<lparr>db_entries := x10\<rparr>) = credit_part db"
  "credit_part (db\<lparr>db_admission_operations := x11\<rparr>) = credit_part db"
  "credit_part (db\<lparr>db_bindings := x12\<rparr>) = credit_part db"
  "credit_part (db\<lparr>db_escrows := x13\<rparr>) = credit_part db"
  "credit_part (db\<lparr>db_rfq_nullifiers := x14\<rparr>) = credit_part db"
  "credit_part (db\<lparr>db_verifiers := x15\<rparr>) = credit_part db"
  "credit_part (db\<lparr>db_product_batches := x16\<rparr>) = credit_part db"
  by (simp_all add: credit_part_def)

lemma admission_part_frame [simp]:
  "admission_part (db\<lparr>db_operations := x1\<rparr>) = admission_part db"
  "admission_part (db\<lparr>db_state_root := x2\<rparr>) = admission_part db"
  "admission_part (db\<lparr>db_last_receipt := x3\<rparr>) = admission_part db"
  "admission_part (db\<lparr>db_assets := x4\<rparr>) = admission_part db"
  "admission_part (db\<lparr>db_accounts := x5\<rparr>) = admission_part db"
  "admission_part (db\<lparr>db_nullifiers := x6\<rparr>) = admission_part db"
  "admission_part (db\<lparr>db_receipts := x7\<rparr>) = admission_part db"
  "admission_part (db\<lparr>db_guarantors := x8\<rparr>) = admission_part db"
  "admission_part (db\<lparr>db_credit_facilities := x9\<rparr>) = admission_part db"
  "admission_part (db\<lparr>db_scopes := x10\<rparr>) = admission_part db"
  "admission_part (db\<lparr>db_credit_holds := x11\<rparr>) = admission_part db"
  "admission_part (db\<lparr>db_credit_operations := x12\<rparr>) = admission_part db"
  "admission_part (db\<lparr>db_bindings := x13\<rparr>) = admission_part db"
  "admission_part (db\<lparr>db_escrows := x14\<rparr>) = admission_part db"
  "admission_part (db\<lparr>db_rfq_nullifiers := x15\<rparr>) = admission_part db"
  "admission_part (db\<lparr>db_verifiers := x16\<rparr>) = admission_part db"
  "admission_part (db\<lparr>db_product_batches := x17\<rparr>) = admission_part db"
  by (simp_all add: admission_part_def)

text \<open>The registry is the only table a trigger writes.\<close>

lemma operation_triggerE:
  assumes "operation_trigger db i st = Ok db'"
  obtains ops where "db' = db\<lparr>db_operations := ops\<rparr>"
proof -
  have "\<exists>ops. db' = db\<lparr>db_operations := ops\<rparr>"
    using assms by (auto simp: operation_trigger_def split: option.splits if_splits intro: exI [of _ "db_operations db"])
  then show thesis using that by blast
qed

lemma column_Ok [simp]: "column v = Ok w \<longleftrightarrow> v \<le> max_unix_time \<and> w = v"
  by (auto simp: column_def)

end
