(* ===== verification/Admission.thy ===== *)
theory Admission
  imports FacilityDb
begin

text \<open>
  \<open>facility.rs\<close>: the fixed-population admission order. Governance pins the admission
  committee of a venue and epoch; a batch registers the certified digests of its lanes under
  consecutive sequence numbers that continue the venue's order; each lane is then consumed
  by exactly one operation, strictly in sequence, either by a signed advance (a cover lane) or by
  the reservation of the request it admits.

  Shown here: every operation keeps the order: the lanes of a batch are one interval, the
  consumed ones are exactly its first, and the batches of a venue and epoch tile an initial
  segment of the numbers without overlap; a consumed lane keeps its consumer.
\<close>

section \<open>Plans\<close>

record admission_committee_plan =
  ap_operation_id :: id32
  ap_venue_id :: id32
  ap_epoch :: u64
  ap_node_keys :: "id32 list"
  ap_valid_from :: u64
  ap_valid_until :: u64

definition committee_plan_body :: "'g facility_ext \<Rightarrow> admission_committee_plan \<Rightarrow> json db_result" where
  "committee_plan_body F p =
     and_then (ensure (\<not> (ap_epoch p = 0 \<or> ap_valid_from p = 0 \<or> ap_valid_until p < ap_valid_from p \<or>
         max_unix_time < ap_valid_until p \<or> length (ap_node_keys p) \<noteq> fx_committee_nodes F \<or>
         0 \<in> {ap_operation_id p, ap_venue_id p} \<or> 0 \<in> set (ap_node_keys p) \<or>
         \<not> distinct (ap_node_keys p) \<or> list_ex (\<lambda>k. \<not> fx_admission_key F k) (ap_node_keys p)))
       ''admission committee is incomplete, duplicated, or invalid'') (\<lambda>_.
     Ok (JObject [(lit ''operation_id'', JString (key (ap_operation_id p))),
       (lit ''venue_id'', JString (key (ap_venue_id p))), (lit ''epoch'', JNumber (unat (ap_epoch p))),
       (lit ''node_keys'', JArray (map (JString \<circ> key) (ap_node_keys p))),
       (lit ''valid_from'', JNumber (unat (ap_valid_from p))),
       (lit ''valid_until'', JNumber (unat (ap_valid_until p)))]))"

definition committee_plan_statement :: "'g facility_ext \<Rightarrow> admission_committee_plan \<Rightarrow> id32 db_result" where
  "committee_plan_statement F p = and_then (committee_plan_body F p) (\<lambda>body.
     Ok (body_digest (fx_gov F) (ascii ''QOMM:DEFMI:ADMISSION-COMMITTEE:v2'') body))"

definition verifying_keys :: "'g facility_ext \<Rightarrow> admission_committee_plan \<Rightarrow> id32 list db_result" where
  "verifying_keys F p = try_map (\<lambda>k. and_then (ensure (fx_admission_key F k)
     ''admission committee key is not canonical'') (\<lambda>_. Ok k)) (ap_node_keys p)"

record admission_batch_plan =
  bp_operation_id :: id32
  bp_batch_id :: id32
  bp_venue_id :: id32
  bp_epoch :: u64
  bp_slot :: u64
  bp_batch_digest :: id32
  bp_order_digest :: id32
  bp_first_sequence :: u64
  bp_admission_digests :: "id32 list"
  bp_expires_at :: u64

definition batch_plan_body :: "admission_batch_plan \<Rightarrow> json db_result" where
  "batch_plan_body p =
     and_then (ensure (\<not> (bp_epoch p = 0 \<or> bp_first_sequence p = 0 \<or> bp_admission_digests p = [] \<or>
         checked_add (bp_first_sequence p) (of_nat (length (bp_admission_digests p)) - 1) = None \<or>
         bp_expires_at p = 0 \<or> max_unix_time < bp_expires_at p \<or> 4096 < length (bp_admission_digests p) \<or>
         0 \<in> set (bp_admission_digests p) \<or> \<not> distinct (bp_admission_digests p) \<or>
         0 \<in> {bp_operation_id p, bp_batch_id p, bp_venue_id p, bp_batch_digest p, bp_order_digest p}))
       ''admission batch is incomplete, duplicated, or outside its fixed-population bound'') (\<lambda>_.
     Ok (JObject ([(lit ''operation_id'', JString (key (bp_operation_id p))),
       (lit ''batch_id'', JString (key (bp_batch_id p))), (lit ''venue_id'', JString (key (bp_venue_id p))),
       (lit ''epoch'', JNumber (unat (bp_epoch p))), (lit ''slot'', JNumber (unat (bp_slot p))),
       (lit ''batch_digest'', JString (key (bp_batch_digest p))),
       (lit ''order_digest'', JString (key (bp_order_digest p))),
       (lit ''admission_digests'', JArray (map (JString \<circ> key) (bp_admission_digests p))),
       (lit ''expires_at'', JNumber (unat (bp_expires_at p)))] @
       (if bp_first_sequence p \<noteq> 1
        then [(lit ''first_sequence'', JNumber (unat (bp_first_sequence p)))] else []))))"

definition batch_plan_statement :: "'g facility_ext \<Rightarrow> admission_batch_plan \<Rightarrow> id32 db_result" where
  "batch_plan_statement F p = and_then (batch_plan_body p) (\<lambda>body.
     Ok (body_digest (fx_gov F) (ascii ''QOMM:DEFMI:ADMISSION-BATCH:v1'') body))"

record admission_batch_snapshot =
  bs_batch_id :: id32
  bs_venue_id :: id32
  bs_epoch :: u64
  bs_slot :: u64
  bs_batch_digest :: id32
  bs_first_sequence :: u64
  bs_population :: u64
  bs_consumed :: u64
  bs_expires_at :: u64

record admission_slot_advance =
  av_operation_id :: id32
  av_batch_id :: id32
  av_sequence :: u64
  av_admission_digest :: id32

definition advance_body :: "admission_slot_advance \<Rightarrow> json db_result" where
  "advance_body a =
     and_then (ensure (\<not> (av_sequence a = 0 \<or> 0 \<in> {av_operation_id a, av_batch_id a, av_admission_digest a}))
       ''admission advance is incomplete'') (\<lambda>_.
     Ok (JObject [(lit ''operation_id'', JString (key (av_operation_id a))),
       (lit ''batch_id'', JString (key (av_batch_id a))), (lit ''sequence'', JNumber (unat (av_sequence a))),
       (lit ''admission_digest'', JString (key (av_admission_digest a)))]))"

definition advance_statement :: "'g facility_ext \<Rightarrow> admission_slot_advance \<Rightarrow> id32 db_result" where
  "advance_statement F a = and_then (advance_body a) (\<lambda>body.
     Ok (body_digest (fx_gov F) (ascii ''QOMM:DEFMI:ADMISSION-ADVANCE:v1'') body))"

section \<open>Reading the tables\<close>

definition load_admission_committee ::
  "'g facility_ext \<Rightarrow> facility_db \<Rightarrow> id32 \<Rightarrow> u64 \<Rightarrow> admission_committee_plan option db_result" where
  "load_admission_committee F db venue_id epoch =
     (case bt_get (db_committees db) (venue_id, sql_key F epoch) of None \<Rightarrow> Ok None
      | Some row \<Rightarrow>
          and_then (ensure (length (cm_node_keys row) = fx_committee_nodes F)
            ''stored admission committee key set has the wrong size'') (\<lambda>_.
          and_then (column (cm_valid_from row)) (\<lambda>valid_from.
          and_then (column (cm_valid_until row)) (\<lambda>valid_until.
          Ok (Some \<lparr>ap_operation_id = cm_operation_id row, ap_venue_id = venue_id, ap_epoch = epoch,
            ap_node_keys = cm_node_keys row, ap_valid_from = valid_from, ap_valid_until = valid_until\<rparr>)))))"

text \<open>The sequence numbers of a batch, and \<open>MIN\<close> and \<open>MAX\<close> over a column, where no row reads as 0.\<close>

definition sequences :: "facility_db \<Rightarrow> id32 \<Rightarrow> u64 list" where
  "sequences db batch_id = map (snd \<circ> fst) (filter (\<lambda>e. fst (fst e) = batch_id) (entries (db_entries db)))"

definition min_sequence :: "u64 list \<Rightarrow> u64" where
  "min_sequence xs = (if xs = [] then 0 else Min (set xs))"

definition max_sequence :: "u64 list \<Rightarrow> u64" where
  "max_sequence xs = Max (insert 0 (set xs))"

definition load_admission_batch :: "facility_db \<Rightarrow> id32 \<Rightarrow> admission_batch_snapshot option db_result" where
  "load_admission_batch db batch_id =
     (case bt_get (db_batches db) batch_id of None \<Rightarrow> Ok None
      | Some row \<Rightarrow>
          and_then (column (ba_epoch row)) (\<lambda>epoch.
          and_then (column (ba_slot row)) (\<lambda>slot.
          and_then (column (min_sequence (sequences db batch_id))) (\<lambda>first_sequence.
          and_then (column (ba_population row)) (\<lambda>population.
          and_then (column (ba_consumed row)) (\<lambda>consumed.
          and_then (column (ba_expires_at row)) (\<lambda>expires_at.
          Ok (Some \<lparr>bs_batch_id = batch_id, bs_venue_id = ba_venue_id row, bs_epoch = epoch, bs_slot = slot,
            bs_batch_digest = ba_batch_digest row, bs_first_sequence = first_sequence,
            bs_population = population, bs_consumed = consumed, bs_expires_at = expires_at\<rparr>))))))))"

text \<open>The sequence numbers of all batches of a venue and epoch: the join of the two tables.\<close>

definition venue_sequences :: "'g facility_ext \<Rightarrow> facility_db \<Rightarrow> id32 \<Rightarrow> u64 \<Rightarrow> u64 list" where
  "venue_sequences F db venue_id epoch = concat (map (\<lambda>(b, row).
     if ba_venue_id row = venue_id \<and> sql_key F (ba_epoch row) = sql_key F epoch then sequences db b else [])
     (entries (db_batches db)))"

section \<open>Committees and batches\<close>

definition register_admission_committee ::
  "'g facility_ext \<Rightarrow> facility_config \<Rightarrow> u64 option \<Rightarrow> u64 \<Rightarrow> admission_committee_plan \<Rightarrow> quorum_approval
    \<Rightarrow> facility_db \<Rightarrow> facility_db db_result" where
  "register_admission_committee F C wall now plan approval db =
     and_then (committee_plan_body F plan) (\<lambda>_.
     and_then (ensure (\<not> (now < ap_valid_from plan \<or> ap_valid_until plan < now))
       ''admission committee is not currently valid'') (\<lambda>_.
     and_then (committee_plan_statement F plan) (\<lambda>statement.
     and_then (load_admission_committee F db (ap_venue_id plan) (ap_epoch plan)) (\<lambda>existing.
     case existing of
       Some e \<Rightarrow> if e = plan then Ok db else Err ''admission committee venue and epoch were reused''
     | None \<Rightarrow>
         and_then (authorize F C wall db statement approval) (\<lambda>_.
         and_then (ensure (32 * length (ap_node_keys plan) = 224 \<and>
             ap_operation_id plan \<notin> cm_operation_id ` set (bt_values (db_committees db)) \<and>
             statement \<notin> cm_statement ` set (bt_values (db_committees db)))
           ''constraint failed: admission_committees'') (\<lambda>_.
         operation_trigger (db\<lparr>db_committees := bt_insert (ap_venue_id plan, sql_key F (ap_epoch plan))
           \<lparr>cm_epoch = ap_epoch plan, cm_operation_id = ap_operation_id plan, cm_node_keys = ap_node_keys plan,
            cm_valid_from = ap_valid_from plan, cm_valid_until = ap_valid_until plan,
            cm_statement = statement\<rparr> (db_committees db)\<rparr>) (ap_operation_id plan) statement))))))"

text \<open>The certified lanes, in sequence order, against the plan.\<close>

definition lanes_match :: "'g facility_ext \<Rightarrow> admission_batch_plan \<Rightarrow> certified_lane list \<Rightarrow> bool" where
  "lanes_match F plan certified \<longleftrightarrow> length certified = length (bp_admission_digests plan) \<and>
     list_all (\<lambda>(index, lane). cl_sequence lane = bp_first_sequence plan + of_nat index \<and>
         cl_slot lane = bp_slot plan \<and> cl_cluster_digest lane = bp_batch_digest plan \<and>
         cl_order_digest lane = bp_order_digest plan \<and>
         fx_lane_digest F lane (bp_venue_id plan) (bp_epoch plan) = Some (bp_admission_digests plan ! index))
       (enumerate 0 certified)"

definition certify_lanes ::
  "'g facility_ext \<Rightarrow> u64 \<Rightarrow> admission_batch_plan \<Rightarrow> bytes list list \<Rightarrow> facility_db \<Rightarrow> unit db_result" where
  "certify_lanes F now plan admission_lanes db =
     and_then (load_admission_committee F db (bp_venue_id plan) (bp_epoch plan)) (\<lambda>loaded.
     and_then (ok_or loaded ''admission batch has no governance-pinned resident committee'') (\<lambda>committee.
     and_then (ensure (\<not> (now < ap_valid_from committee \<or> ap_valid_until committee < now))
       ''admission committee is not currently valid'') (\<lambda>_.
     and_then (verifying_keys F committee) (\<lambda>keys.
     and_then (try_map (\<lambda>lane. fx_verify_lane F lane keys) admission_lanes) (\<lambda>certified.
     ensure (lanes_match F plan (sort_key cl_sequence certified))
       ''admission batch differs from its seven-node certified population'')))))"

definition insert_entry :: "id32 \<Rightarrow> facility_db \<Rightarrow> u64 \<times> id32 \<Rightarrow> facility_db db_result" where
  "insert_entry batch_id db entry = (let (sequence, admission) = entry in
     and_then (ensure (bt_get (db_entries db) (batch_id, sequence) = None \<and>
         \<not> list_ex (\<lambda>((b, s), e). b = batch_id \<and> en_admission_digest e = admission) (entries (db_entries db)))
       ''UNIQUE constraint failed: admission_batch_entries'') (\<lambda>_.
     Ok (db\<lparr>db_entries := bt_insert (batch_id, sequence)
       \<lparr>en_admission_digest = admission, en_consumed_by = 0\<rparr> (db_entries db)\<rparr>)))"

definition insert_batch :: "'g facility_ext \<Rightarrow> admission_batch_plan \<Rightarrow> id32 \<Rightarrow> facility_db \<Rightarrow> facility_db db_result" where
  "insert_batch F plan statement db =
     and_then (ensure (bp_operation_id plan \<notin> ba_operation_id ` set (bt_values (db_batches db)) \<and>
         statement \<notin> ba_statement ` set (bt_values (db_batches db)) \<and>
         (bp_venue_id plan, sql_key F (bp_epoch plan), sql_key F (bp_slot plan), bp_batch_digest plan) \<notin>
           (\<lambda>r. (ba_venue_id r, sql_key F (ba_epoch r), sql_key F (ba_slot r), ba_batch_digest r)) `
             set (bt_values (db_batches db)))
       ''UNIQUE constraint failed: admission_batches'') (\<lambda>_.
     operation_trigger (db\<lparr>db_batches := bt_insert (bp_batch_id plan)
       \<lparr>ba_operation_id = bp_operation_id plan, ba_venue_id = bp_venue_id plan, ba_epoch = bp_epoch plan,
        ba_slot = bp_slot plan, ba_batch_digest = bp_batch_digest plan, ba_order_digest = bp_order_digest plan,
        ba_population = of_nat (length (bp_admission_digests plan)), ba_consumed = 0,
        ba_expires_at = bp_expires_at plan, ba_statement = statement\<rparr> (db_batches db)\<rparr>)
       (bp_operation_id plan) statement)"

definition planned_entries :: "admission_batch_plan \<Rightarrow> (u64 \<times> id32) list" where
  "planned_entries plan =
     map (\<lambda>(index, admission). (bp_first_sequence plan + of_nat index, admission)) (enumerate 0 (bp_admission_digests plan))"

definition register_admission_batch ::
  "'g facility_ext \<Rightarrow> facility_config \<Rightarrow> u64 option \<Rightarrow> u64 \<Rightarrow> admission_batch_plan \<Rightarrow> bytes list list \<Rightarrow> quorum_approval
    \<Rightarrow> facility_db \<Rightarrow> (facility_db \<times> admission_batch_snapshot) db_result" where
  "register_admission_batch F C wall now plan admission_lanes approval db =
     and_then (batch_plan_body plan) (\<lambda>_.
     and_then (ensure (now \<le> bp_expires_at plan) ''admission batch has expired'') (\<lambda>_.
     and_then (batch_plan_statement F plan) (\<lambda>statement.
     and_then (certify_lanes F now plan admission_lanes db) (\<lambda>_.
     and_then (load_admission_batch db (bp_batch_id plan)) (\<lambda>loaded.
     case loaded of
       Some existing \<Rightarrow>
         (case bt_get (db_batches db) (bp_batch_id plan) of
            None \<Rightarrow> Err ''idempotent admission batch disappeared during lookup''
          | Some row \<Rightarrow>
              if ba_operation_id row \<noteq> bp_operation_id plan \<or> ba_statement row \<noteq> statement
              then Err ''admission batch id was reused with different contents''
              else Ok (db, existing))
     | None \<Rightarrow>
         and_then (column (max_sequence (venue_sequences F db (bp_venue_id plan) (bp_epoch plan)))) (\<lambda>prior.
         and_then (ok_or (checked_add prior 1) ''admission sequence overflowed'') (\<lambda>next_sequence.
         and_then (ensure (bp_first_sequence plan = next_sequence) ''admission batch is not the next venue sequence'') (\<lambda>_.
         and_then (authorize F C wall db statement approval) (\<lambda>_.
         and_then (insert_batch F plan statement db) (\<lambda>db.
         and_then (try_fold (insert_entry (bp_batch_id plan)) db (planned_entries plan)) (\<lambda>db.
         and_then (load_admission_batch db (bp_batch_id plan)) (\<lambda>stored.
         and_then (ok_or stored ''registered admission batch was not persisted'') (\<lambda>snapshot.
         Ok (db, snapshot))))))))))))))"

section \<open>Consuming lanes\<close>

text \<open>The two updates: mark the lane, and count it.\<close>

definition consume_lane :: "id32 \<Rightarrow> u64 \<Rightarrow> id32 \<Rightarrow> u64 \<Rightarrow> facility_db \<Rightarrow> facility_db" where
  "consume_lane batch_id sequence operation_id count db = db\<lparr>
     db_entries := (case bt_get (db_entries db) (batch_id, sequence) of None \<Rightarrow> db_entries db
       | Some e \<Rightarrow> if en_consumed_by e = 0
           then bt_insert (batch_id, sequence) (e\<lparr>en_consumed_by := operation_id\<rparr>) (db_entries db) else db_entries db),
     db_batches := (case bt_get (db_batches db) batch_id of None \<Rightarrow> db_batches db
       | Some r \<Rightarrow> bt_insert batch_id (r\<lparr>ba_consumed := count\<rparr>) (db_batches db))\<rparr>"

definition next_lane :: "u64 \<Rightarrow> u64 \<Rightarrow> u64 \<Rightarrow> (u64 \<times> u64) db_result" where
  "next_lane first_sequence consumed population =
     and_then (ok_or (checked_add first_sequence consumed) ''admission sequence overflowed'') (\<lambda>expected.
     and_then (ok_or (checked_add first_sequence (population - 1)) ''admission sequence overflowed'') (\<lambda>last.
     Ok (expected, last)))"

definition advance_admission_slot ::
  "'g facility_ext \<Rightarrow> facility_config \<Rightarrow> u64 option \<Rightarrow> u64 \<Rightarrow> admission_slot_advance \<Rightarrow> quorum_approval
    \<Rightarrow> facility_db \<Rightarrow> (facility_db \<times> admission_batch_snapshot) db_result" where
  "advance_admission_slot F C wall now advance approval db =
     and_then (advance_statement F advance) (\<lambda>statement.
     case bt_get (db_admission_operations db) (av_operation_id advance) of
       Some row \<Rightarrow>
         if ao_statement row \<noteq> statement then Err ''admission advance operation id was reused''
         else and_then (load_admission_batch db (av_batch_id advance)) (\<lambda>loaded.
           and_then (ok_or loaded ''idempotent admission advance lost its batch'') (\<lambda>batch. Ok (db, batch)))
     | None \<Rightarrow>
         and_then (load_admission_batch db (av_batch_id advance)) (\<lambda>loaded.
         and_then (ok_or loaded ''admission advance names an unknown batch'') (\<lambda>batch.
         and_then (ensure (now \<le> bs_expires_at batch) ''admission batch has expired'') (\<lambda>_.
         and_then (next_lane (bs_first_sequence batch) (bs_consumed batch) (bs_population batch)) (\<lambda>(expected, last).
         and_then (ensure (\<not> (av_sequence advance \<noteq> expected \<or> last < av_sequence advance))
           ''admission lane is not the next fixed-population sequence'') (\<lambda>_.
         and_then (ok_or (bt_get (db_entries db) (av_batch_id advance, av_sequence advance))
           ''admission plan omits its next sequence'') (\<lambda>entry.
         and_then (ensure (\<not> (en_admission_digest entry \<noteq> av_admission_digest advance \<or> en_consumed_by entry \<noteq> 0))
           ''admission advance does not match the unconsumed planned lane'') (\<lambda>_.
         and_then (authorize F C wall db statement approval) (\<lambda>_.
         and_then (ensure (statement \<notin> ao_statement ` set (bt_values (db_admission_operations db)))
           ''UNIQUE constraint failed: admission_operations.statement'') (\<lambda>_.
         and_then (operation_trigger ((consume_lane (av_batch_id advance) (av_sequence advance) (av_operation_id advance)
             (bs_consumed batch + 1) db)\<lparr>db_admission_operations := bt_insert (av_operation_id advance)
               \<lparr>ao_batch_id = av_batch_id advance, ao_sequence = av_sequence advance, ao_statement = statement\<rparr>
               (db_admission_operations db)\<rparr>) (av_operation_id advance) statement) (\<lambda>db.
         and_then (load_admission_batch db (av_batch_id advance)) (\<lambda>stored.
         and_then (ok_or stored ''advanced admission batch disappeared'') (\<lambda>snapshot.
         Ok (db, snapshot))))))))))))))"

text \<open>
  The step of a Taker reservation that consumes its lane; the reservation's own body has
  checked that the operation identifier is not zero. At most one batch has the venue,
  epoch, slot and digest, by the schema's unique constraint.
\<close>

definition consume_ordered_admission ::
  "'g facility_ext \<Rightarrow> ordered_admission \<Rightarrow> id32 \<Rightarrow> u64 \<Rightarrow> facility_db \<Rightarrow> (facility_db \<times> id32) db_result" where
  "consume_ordered_admission F admission operation_id now db =
     and_then (ok_or (find (\<lambda>(b, r). ba_venue_id r = oa_venue_id admission \<and>
           sql_key F (ba_epoch r) = sql_key F (oa_epoch admission) \<and>
           sql_key F (ba_slot r) = sql_key F (oa_slot admission) \<and>
           ba_batch_digest r = oa_batch_digest admission) (entries (db_batches db)))
       ''Taker reserve has no registered fixed-population admission batch'') (\<lambda>(batch_id, row).
     and_then (column (min_sequence (sequences db batch_id))) (\<lambda>first_sequence.
     and_then (column (ba_population row)) (\<lambda>population.
     and_then (column (ba_consumed row)) (\<lambda>consumed.
     and_then (column (ba_expires_at row)) (\<lambda>expires_at.
     and_then (next_lane first_sequence consumed population) (\<lambda>(expected, last).
     and_then (ensure (\<not> (expires_at < now \<or> oa_sequence admission \<noteq> expected \<or> last < oa_sequence admission \<or>
         oa_order_digest admission \<noteq> ba_order_digest row))
       ''Taker RFQ is expired or not next in the fixed-population order'') (\<lambda>_.
     and_then (fx_certified_digest F admission) (\<lambda>admission_digest.
     and_then (ok_or (bt_get (db_entries db) (batch_id, oa_sequence admission))
       ''registered admission batch omits the Taker sequence'') (\<lambda>entry.
     and_then (ensure (\<not> (en_admission_digest entry \<noteq> admission_digest \<or> en_consumed_by entry \<noteq> 0))
       ''Taker RFQ does not match the next unconsumed admission lane'') (\<lambda>_.
     Ok (consume_lane batch_id (oa_sequence admission) operation_id (consumed + 1) db, batch_id)))))))))))"

section \<open>The order\<close>

lemma sequences_iff [simp]: "s \<in> set (sequences db b) \<longleftrightarrow> bt_contains (db_entries db) (b, s)"
  by (force simp: sequences_def entries_get image_iff)

lemma venue_sequences_iff:
  "s \<in> set (venue_sequences F db v e) \<longleftrightarrow> (\<exists>b r. bt_get (db_batches db) b = Some r \<and> ba_venue_id r = v \<and>
     sql_key F (ba_epoch r) = sql_key F e \<and> bt_contains (db_entries db) (b, s))"
  by (fastforce simp: venue_sequences_def entries_get split: if_splits)

text \<open>The numbers of the lanes of a batch, and of all batches of a venue and epoch.\<close>

definition lanes :: "facility_db \<Rightarrow> id32 \<Rightarrow> nat set" where
  "lanes db b = unat ` set (sequences db b)"

definition venue_lanes :: "'g facility_ext \<Rightarrow> facility_db \<Rightarrow> id32 \<Rightarrow> u64 \<Rightarrow> nat set" where
  "venue_lanes F db v e = unat ` set (venue_sequences F db v e)"

definition batch_ok :: "facility_db \<Rightarrow> id32 \<Rightarrow> batch_row \<Rightarrow> bool" where
  "batch_ok db b r \<longleftrightarrow> (\<exists>first. 1 \<le> first \<and> 1 \<le> unat (ba_population r) \<and>
     lanes db b = {first ..< first + unat (ba_population r)} \<and> unat (ba_consumed r) \<le> unat (ba_population r) \<and>
     (\<forall>s e. bt_get (db_entries db) (b, s) = Some e \<longrightarrow>
        (en_consumed_by e \<noteq> 0 \<longleftrightarrow> unat s < first + unat (ba_consumed r))))"

definition same_venue :: "'g facility_ext \<Rightarrow> batch_row \<Rightarrow> batch_row \<Rightarrow> bool" where
  "same_venue F r r' \<longleftrightarrow> ba_venue_id r = ba_venue_id r' \<and> sql_key F (ba_epoch r) = sql_key F (ba_epoch r')"

definition disjoint_lanes :: "'g facility_ext \<Rightarrow> facility_db \<Rightarrow> bool" where
  "disjoint_lanes F db \<longleftrightarrow> (\<forall>b r b' r' n. bt_get (db_batches db) b = Some r \<longrightarrow> bt_get (db_batches db) b' = Some r' \<longrightarrow>
     same_venue F r r' \<longrightarrow> n \<in> lanes db b \<longrightarrow> n \<in> lanes db b' \<longrightarrow> b = b')"

definition admission_ok :: "'g facility_ext \<Rightarrow> facility_db \<Rightarrow> bool" where
  "admission_ok F db \<longleftrightarrow>
     (\<forall>b r. bt_get (db_batches db) b = Some r \<longrightarrow> batch_ok db b r) \<and>
     (\<forall>b s. bt_contains (db_entries db) (b, s) \<longrightarrow> bt_contains (db_batches db) b) \<and>
     (\<forall>v e. \<exists>n. venue_lanes F db v e = {1..n}) \<and>
     disjoint_lanes F db"

text \<open>The order depends only on the admission tables.\<close>

lemma admission_ok_cong: "admission_part db' = admission_part db \<Longrightarrow> admission_ok F db' = admission_ok F db"
  by (simp add: admission_part_def admission_ok_def batch_ok_def disjoint_lanes_def lanes_def venue_lanes_def sequences_def
      venue_sequences_def)

section \<open>Consuming keeps the order\<close>

lemma consume_lane_simps:
  assumes "bt_get (db_entries db) (b, s) = Some e" "en_consumed_by e = 0" "bt_get (db_batches db) b = Some r"
  shows "db_entries (consume_lane b s i n db) = bt_insert (b, s) (e\<lparr>en_consumed_by := i\<rparr>) (db_entries db)"
    "db_batches (consume_lane b s i n db) = bt_insert b (r\<lparr>ba_consumed := n\<rparr>) (db_batches db)"
  using assms by (simp_all add: consume_lane_def)

lemma consumed_elsewhere:
  assumes "bt_get m b = Some r"
  shows "(\<exists>b' r'. (if b' = b then Some (r\<lparr>ba_consumed := n\<rparr>) else bt_get m b') = Some r' \<and>
      Q b' (ba_venue_id r') (ba_epoch r')) \<longleftrightarrow> (\<exists>b' r'. bt_get m b' = Some r' \<and> Q b' (ba_venue_id r') (ba_epoch r'))"
    (is "?L \<longleftrightarrow> ?R")
proof
  assume ?L
  then obtain b' r' where "(if b' = b then Some (r\<lparr>ba_consumed := n\<rparr>) else bt_get m b') = Some r'"
    "Q b' (ba_venue_id r') (ba_epoch r')" by blast
  with assms show ?R by (intro exI [of _ b'] exI [of _ "the (bt_get m b')"]) (auto split: if_splits)
next
  assume ?R
  then obtain b' r' where "bt_get m b' = Some r'" "Q b' (ba_venue_id r') (ba_epoch r')" by blast
  with assms show ?L by (cases "b' = b") (auto intro!: exI [of _ b'])
qed

lemma consume_lane_domain:
  assumes "bt_get (db_entries db) (b, s) = Some e" "en_consumed_by e = 0" "bt_get (db_batches db) b = Some r"
  shows "lanes (consume_lane b s i n db) b' = lanes db b'"
    "venue_lanes F (consume_lane b s i n db) v ep = venue_lanes F db v ep"
proof -
  have "set (sequences (consume_lane b s i n db) b') = set (sequences db b')" for b'
    using assms(1) by (auto simp: consume_lane_simps [OF assms] split: if_splits)
  then show "lanes (consume_lane b s i n db) b' = lanes db b'" by (simp add: lanes_def)
  have entry: "bt_contains (db_entries (consume_lane b s i n db)) k \<longleftrightarrow> bt_contains (db_entries db) k" for k
    using assms(1) by (simp add: consume_lane_simps [OF assms])
  have "(\<exists>b' r'. bt_get (db_batches (consume_lane b s i n db)) b' = Some r' \<and> Q b' (ba_venue_id r') (ba_epoch r')) \<longleftrightarrow>
      (\<exists>b' r'. bt_get (db_batches db) b' = Some r' \<and> Q b' (ba_venue_id r') (ba_epoch r'))" for Q
    unfolding consume_lane_simps [OF assms] bt_get_insert by (rule consumed_elsewhere) (rule assms)
  from this [of "\<lambda>b' v' e'. v' = v \<and> sql_key F e' = sql_key F ep \<and> bt_contains (db_entries db) (b', x)" for x]
  have "set (venue_sequences F (consume_lane b s i n db) v ep) = set (venue_sequences F db v ep)"
    by (intro set_eqI) (simp only: venue_sequences_iff entry)
  then show "venue_lanes F (consume_lane b s i n db) v ep = venue_lanes F db v ep" by (simp add: venue_lanes_def)
qed

lemma min_sequence_lanes:
  assumes "lanes db b = {first ..< first + n}" "1 \<le> n"
  shows "unat (min_sequence (sequences db b)) = first"
proof -
  let ?S = "set (sequences db b)"
  have img: "unat ` ?S = {first ..< first + n}" using assms(1) by (simp add: lanes_def)
  with assms(2) have ne: "?S \<noteq> {}" by auto
  then have "Min ?S \<in> ?S" by (intro Min_in) simp_all
  with img have "first \<le> unat (Min ?S)" by auto
  moreover from img assms(2) obtain s where s: "s \<in> ?S" "unat s = first"
    by (metis (no_types, lifting) atLeastLessThan_iff imageE le_refl less_add_same_cancel1 less_eq_Suc_le One_nat_def)
  then have "Min ?S \<le> s" by simp
  then have "unat (Min ?S) \<le> first" using s(2) by (simp add: word_le_nat_alt)
  moreover have "sequences db b \<noteq> []" using ne by auto
  ultimately show ?thesis by (simp add: min_sequence_def)
qed

text \<open>A lane the code accepts as next is the first that is not consumed.\<close>

lemma next_lane_Ok:
  "next_lane first consumed population = Ok (expected, last') \<longleftrightarrow>
     unat expected = unat first + unat consumed \<and> unat last' = unat first + unat (population - 1)"
  by (simp add: next_lane_def checked_simps)

lemma consume_keeps:
  assumes ok: "admission_ok F db" and r: "bt_get (db_batches db) b = Some r"
    and e: "bt_get (db_entries db) (b, s) = Some e" "en_consumed_by e = 0"
    and nxt: "next_lane (min_sequence (sequences db b)) (ba_consumed r) (ba_population r) = Ok (s, last')"
      "s \<le> last'"
    and i: "i \<noteq> 0"
  shows "admission_ok F (consume_lane b s i (ba_consumed r + 1) db)"
proof -
  let ?db = "consume_lane b s i (ba_consumed r + 1) db"
  note simps = consume_lane_simps [OF e r] and dom = consume_lane_domain [OF e r]
  from ok r obtain first where f: "1 \<le> first" "1 \<le> unat (ba_population r)"
      "lanes db b = {first ..< first + unat (ba_population r)}" "unat (ba_consumed r) \<le> unat (ba_population r)"
      "\<forall>s e. bt_get (db_entries db) (b, s) = Some e \<longrightarrow> (en_consumed_by e \<noteq> 0 \<longleftrightarrow> unat s < first + unat (ba_consumed r))"
    unfolding admission_ok_def batch_ok_def by blast
  have first: "unat (min_sequence (sequences db b)) = first" by (rule min_sequence_lanes [OF f(3,2)])
  from f(2) have "ba_population r \<ge> 1" by (simp add: word_le_nat_alt)
  then have "unat (ba_population r - 1) = unat (ba_population r) - 1" by (simp add: unat_sub)
  with nxt first have s: "unat s = first + unat (ba_consumed r)"
    and small: "unat (ba_consumed r) < unat (ba_population r)"
    using f(2) by (auto simp: next_lane_Ok word_le_nat_alt)
  then have "unat (ba_consumed r) + unat (1 :: u64) < 2 ^ LENGTH(64)"
    using unat_bound [of "ba_population r"] by simp
  then have inc: "unat (ba_consumed r + 1) = Suc (unat (ba_consumed r))"
    using unat_add_less [of "ba_consumed r" 1] by simp
  have "batch_ok ?db b (r\<lparr>ba_consumed := ba_consumed r + 1\<rparr>)"
    unfolding batch_ok_def dom simps
    using f s small inc i by (intro exI [of _ first]) (auto simp: word_unat_eq_iff)
  moreover have "batch_ok ?db b' r'" if "batch_ok db b' r'" "b' \<noteq> b" for b' r'
    using that unfolding batch_ok_def dom simps by simp
  moreover have "disjoint_lanes F ?db"
    using ok r unfolding admission_ok_def disjoint_lanes_def dom simps
    by (simp add: same_venue_def) (metis option.inject)
  ultimately show ?thesis
    using ok r e(1) unfolding admission_ok_def dom simps by (auto split: if_splits)
qed

section \<open>Registering keeps the order\<close>

definition entries_added :: "id32 \<Rightarrow> u64 set \<Rightarrow> facility_db \<Rightarrow> facility_db \<Rightarrow> bool" where
  "entries_added b S db db' \<longleftrightarrow> db' = db\<lparr>db_entries := db_entries db'\<rparr> \<and>
     (\<forall>b' s. bt_contains (db_entries db') (b', s) \<longleftrightarrow> bt_contains (db_entries db) (b', s) \<or> b' = b \<and> s \<in> S) \<and>
     (\<forall>k e. bt_get (db_entries db) k = Some e \<longrightarrow> bt_get (db_entries db') k = Some e) \<and>
     (\<forall>k e. bt_get (db_entries db) k = None \<longrightarrow> bt_get (db_entries db') k = Some e \<longrightarrow> en_consumed_by e = 0)"

lemma entries_added_step:
  assumes "insert_entry b db (s, a) = Ok db1" "entries_added b S db1 db'"
  shows "entries_added b (insert s S) db db'"
proof -
  from assms(1) have db1: "db1 = db\<lparr>db_entries := bt_insert (b, s)
      \<lparr>en_admission_digest = a, en_consumed_by = 0\<rparr> (db_entries db)\<rparr>"
    and new: "bt_get (db_entries db) (b, s) = None"
    by (auto simp: insert_entry_def)
  have "en_consumed_by e = 0" if "bt_get (db_entries db) k = None" "bt_get (db_entries db') k = Some e" for k e
  proof (cases "k = (b, s)")
    case True
    then have "bt_get (db_entries db1) k = Some \<lparr>en_admission_digest = a, en_consumed_by = 0\<rparr>" by (simp add: db1)
    with assms(2) that(2) show ?thesis unfolding entries_added_def by force
  next
    case False
    with that(1) have "bt_get (db_entries db1) k = None" by (simp add: db1)
    with assms(2) that(2) show ?thesis unfolding entries_added_def by blast
  qed
  moreover have "bt_get (db_entries db') k = Some e" if "bt_get (db_entries db) k = Some e" for k e
  proof -
    have "bt_get (db_entries db1) k = Some e" using that new by (auto simp: db1)
    with assms(2) show ?thesis unfolding entries_added_def by blast
  qed
  moreover have "bt_contains (db_entries db') (b', s') \<longleftrightarrow>
      bt_contains (db_entries db) (b', s') \<or> b' = b \<and> s' \<in> insert s S" for b' s'
  proof -
    have "bt_contains (db_entries db1) (b', s') \<longleftrightarrow> bt_contains (db_entries db) (b', s') \<or> b' = b \<and> s' = s"
      by (auto simp: db1)
    moreover have "bt_contains (db_entries db') (b', s') \<longleftrightarrow> bt_contains (db_entries db1) (b', s') \<or> b' = b \<and> s' \<in> S"
      using assms(2) unfolding entries_added_def by blast
    ultimately show ?thesis by blast
  qed
  moreover have "db' = db\<lparr>db_entries := db_entries db'\<rparr>"
    using assms(2) by (simp add: entries_added_def db1)
  ultimately show ?thesis
    unfolding entries_added_def by (intro conjI allI impI)
qed

lemma insert_entries:
  "try_fold (insert_entry b) db es = Ok db' \<Longrightarrow> entries_added b (fst ` set es) db db'"
proof (induction es arbitrary: db)
  case (Cons x es)
  then obtain db1 where "insert_entry b db (fst x, snd x) = Ok db1" "entries_added b (fst ` set es) db1 db'"
    by auto
  from entries_added_step [OF this] show ?case by simp
qed (simp add: entries_added_def)

lemma planned_numbers:
  assumes "batch_plan_body p = Ok body"
  shows "unat ` fst ` set (planned_entries p) =
      {unat (bp_first_sequence p) ..< unat (bp_first_sequence p) + length (bp_admission_digests p)}"
    and "unat (of_nat (length (bp_admission_digests p)) :: u64) = length (bp_admission_digests p)"
    and "1 \<le> unat (bp_first_sequence p)" "1 \<le> length (bp_admission_digests p)"
proof -
  let ?n = "length (bp_admission_digests p)" and ?f = "bp_first_sequence p"
  from assms have body: "?f \<noteq> 0" "bp_admission_digests p \<noteq> []" "?n \<le> 4096"
    "checked_add ?f (of_nat ?n - 1) \<noteq> None"
    by (auto simp: batch_plan_body_def)
  from body(3) show len: "unat (of_nat ?n :: u64) = ?n" by (simp add: unat_of_nat)
  from body(2) show pos: "1 \<le> ?n" by (simp add: Suc_leI)
  from body(1) show "1 \<le> unat ?f" by (simp add: Suc_le_eq unat_gt_0)
  have "(1 :: u64) \<le> of_nat ?n" using len pos by (simp add: word_le_nat_alt)
  then have "unat (of_nat ?n - 1 :: u64) = ?n - 1" by (simp add: unat_sub len)
  with body(4) have fits: "unat ?f + (?n - 1) < 2 ^ 64" by (auto simp: checked_simps)
  have num: "unat (?f + of_nat i) = unat ?f + i" if "i < ?n" for i
  proof -
    have "unat (of_nat i :: u64) = i" using that body(3) by (simp add: unat_of_nat)
    with that fits show ?thesis using unat_add_less [of ?f "of_nat i"] by simp
  qed
  have "fst ` set (planned_entries p) = (\<lambda>i. ?f + of_nat i) ` {..< ?n}"
    by (force simp: planned_entries_def in_set_enumerate_eq image_iff)
  then have "unat ` fst ` set (planned_entries p) = (\<lambda>i. unat ?f + i) ` {..< ?n}"
    by (simp add: image_image num)
  also have "\<dots> = {unat ?f ..< unat ?f + ?n}"
    using image_add_atLeastLessThan [of "unat ?f" 0 ?n] by (simp add: lessThan_atLeast0 add.commute)
  finally show "unat ` fst ` set (planned_entries p) = {unat ?f ..< unat ?f + ?n}" .
qed

lemma max_sequence_segment:
  assumes "unat ` set xs = {1..n}"
  shows "unat (max_sequence xs) = n"
proof -
  have "\<forall>x \<in> set xs. unat x \<le> n" using assms by auto
  then have le: "unat (max_sequence xs) \<le> n"
    unfolding max_sequence_def by (metis Max_in List.finite_set finite.insertI insert_iff insert_not_empty le0 unsigned_0)
  show ?thesis
  proof (cases "n = 0")
    case False
    then have "n \<in> unat ` set xs" using assms by simp
    then obtain x where "x \<in> set xs" "unat x = n" by auto
    then have "x \<le> max_sequence xs" by (simp add: max_sequence_def)
    with \<open>unat x = n\<close> le show ?thesis by (simp add: word_le_nat_alt)
  qed (use le in simp)
qed

text \<open>What a registration adds: one row, and its planned entries.\<close>

definition batch_registered ::
  "'g facility_ext \<Rightarrow> admission_batch_plan \<Rightarrow> batch_row \<Rightarrow> facility_db \<Rightarrow> facility_db \<Rightarrow> bool" where
  "batch_registered F plan row db db' \<longleftrightarrow>
     (\<exists>body. batch_plan_body plan = Ok body) \<and> bt_get (db_batches db) (bp_batch_id plan) = None \<and>
     db_batches db' = bt_insert (bp_batch_id plan) row (db_batches db) \<and>
     ba_venue_id row = bp_venue_id plan \<and> ba_epoch row = bp_epoch plan \<and>
     ba_population row = of_nat (length (bp_admission_digests plan)) \<and> ba_consumed row = 0 \<and>
     (\<forall>b s. bt_contains (db_entries db') (b, s) \<longleftrightarrow>
        bt_contains (db_entries db) (b, s) \<or> b = bp_batch_id plan \<and> s \<in> fst ` set (planned_entries plan)) \<and>
     (\<forall>k e. bt_get (db_entries db) k = Some e \<longrightarrow> bt_get (db_entries db') k = Some e) \<and>
     (\<forall>k e. bt_get (db_entries db) k = None \<longrightarrow> bt_get (db_entries db') k = Some e \<longrightarrow> en_consumed_by e = 0) \<and>
     checked_add (max_sequence (venue_sequences F db (bp_venue_id plan) (bp_epoch plan))) 1 =
       Some (bp_first_sequence plan)"

abbreviation plan_lanes :: "admission_batch_plan \<Rightarrow> nat set" where
  "plan_lanes p \<equiv> {unat (bp_first_sequence p) ..< unat (bp_first_sequence p) + length (bp_admission_digests p)}"

lemma batch_registeredD:
  assumes "batch_registered F plan row db db'"
  shows "bt_get (db_batches db) (bp_batch_id plan) = None"
    "bt_get (db_batches db') b = (if b = bp_batch_id plan then Some row else bt_get (db_batches db) b)"
    "ba_venue_id row = bp_venue_id plan" "ba_epoch row = bp_epoch plan"
    "ba_population row = of_nat (length (bp_admission_digests plan))" "ba_consumed row = 0"
    "bt_contains (db_entries db') (b, s) \<longleftrightarrow>
       bt_contains (db_entries db) (b, s) \<or> b = bp_batch_id plan \<and> s \<in> fst ` set (planned_entries plan)"
    "bt_get (db_entries db) k = Some e \<Longrightarrow> bt_get (db_entries db') k = Some e"
    "bt_get (db_entries db) k = None \<Longrightarrow> bt_get (db_entries db') k = Some e \<Longrightarrow> en_consumed_by e = 0"
    "\<exists>body. batch_plan_body plan = Ok body"
    "checked_add (max_sequence (venue_sequences F db (bp_venue_id plan) (bp_epoch plan))) 1 =
       Some (bp_first_sequence plan)"
  using assms unfolding batch_registered_def
           apply simp_all
   apply (cases k, simp)+
  done

lemma registered_lanes:
  assumes "batch_registered F plan row db db'" "admission_ok F db"
  shows "lanes db' b = (if b = bp_batch_id plan then plan_lanes plan else lanes db b)"
    and "bt_get (db_entries db) (bp_batch_id plan, s) = None"
proof -
  note r = batch_registeredD [OF assms(1)]
  show none: "bt_get (db_entries db) (bp_batch_id plan, s) = None" for s
    using assms(2) r(1) unfolding admission_ok_def by (meson option.exhaust_sel)
  have "set (sequences db' b) = (if b = bp_batch_id plan then fst ` set (planned_entries plan) else set (sequences db b))"
    by (rule set_eqI) (cases "b = bp_batch_id plan"; simp only: sequences_iff r(7) if_True if_False none; simp)
  moreover have "unat ` fst ` set (planned_entries plan) = plan_lanes plan"
    using r(10) planned_numbers(1) by blast
  ultimately show "lanes db' b = (if b = bp_batch_id plan then plan_lanes plan else lanes db b)"
    by (simp add: lanes_def)
qed

lemma exists_inserted:
  assumes "bt_get m k = None"
  shows "(\<exists>b r. (if b = k then Some row else bt_get m b) = Some r \<and> P (ba_venue_id r) (ba_epoch r) \<and>
      n \<in> (if b = k then L else f b)) \<longleftrightarrow>
    (\<exists>b r. bt_get m b = Some r \<and> P (ba_venue_id r) (ba_epoch r) \<and> n \<in> f b) \<or>
      P (ba_venue_id row) (ba_epoch row) \<and> n \<in> L" (is "?A \<longleftrightarrow> ?B \<or> ?C")
proof
  assume ?A
  then obtain b r where "(if b = k then Some row else bt_get m b) = Some r" "P (ba_venue_id r) (ba_epoch r)"
    "n \<in> (if b = k then L else f b)" by blast
  then show "?B \<or> ?C" by (cases "b = k") auto
next
  assume "?B \<or> ?C"
  then show ?A
  proof
    assume ?B
    then obtain b r where b: "bt_get m b = Some r" "P (ba_venue_id r) (ba_epoch r) \<and> n \<in> f b" by blast
    then have "b \<noteq> k" using assms by auto
    with b show ?A by (intro exI [of _ b] exI [of _ r]) simp
  next
    assume ?C
    then show ?A by (intro exI [of _ k] exI [of _ row]) simp
  qed
qed

lemma registered_venue_lanes:
  assumes "batch_registered F plan row db db'" "admission_ok F db"
  shows "venue_lanes F db' v e = venue_lanes F db v e \<union>
    (if v = bp_venue_id plan \<and> sql_key F e = sql_key F (bp_epoch plan) then plan_lanes plan else {})"
proof -
  note r = batch_registeredD [OF assms(1)]
  have lanes_iff: "n \<in> venue_lanes F d v e \<longleftrightarrow> (\<exists>b r. bt_get (db_batches d) b = Some r \<and> ba_venue_id r = v \<and>
      sql_key F (ba_epoch r) = sql_key F e \<and> n \<in> lanes d b)" for n d
    unfolding venue_lanes_def lanes_def image_iff Bex_def venue_sequences_iff sequences_iff by blast
  have iff: "n \<in> venue_lanes F db' v e \<longleftrightarrow> n \<in> venue_lanes F db v e \<or>
      v = bp_venue_id plan \<and> sql_key F e = sql_key F (bp_epoch plan) \<and> n \<in> plan_lanes plan" for n
    unfolding lanes_iff registered_lanes(1) [OF assms] r(2)
    using exists_inserted [OF r(1), of row "\<lambda>v' e'. v' = v \<and> sql_key F e' = sql_key F e" n "plan_lanes plan" "lanes db"]
    by (simp only: r(3,4) conj_assoc) metis
  show ?thesis
    by (rule set_eqI) (unfold iff Un_iff, auto)
qed

lemma registered_follows:
  assumes "batch_registered F plan row db db'" "venue_lanes F db (bp_venue_id plan) (bp_epoch plan) = {1..n}"
  shows "unat (bp_first_sequence plan) = Suc n"
  using batch_registeredD(11) [OF assms(1)] max_sequence_segment [OF assms(2) [unfolded venue_lanes_def]]
  by (simp add: checked_simps)

lemma registered_tiled:
  assumes "batch_registered F plan row db db'" "admission_ok F db"
  shows "\<exists>n. venue_lanes F db' v e = {1..n}"
proof -
  let ?here = "v = bp_venue_id plan \<and> sql_key F e = sql_key F (bp_epoch plan)"
  obtain n where n: "venue_lanes F db v e = {1..n}" using assms(2) unfolding admission_ok_def by blast
  have "venue_lanes F db v e = venue_lanes F db (bp_venue_id plan) (bp_epoch plan)" if ?here
    using that by (simp add: venue_lanes_def venue_sequences_def)
  then have first: "unat (bp_first_sequence plan) = Suc n" if ?here
    using that registered_follows [OF assms(1), of n] n by simp
  show ?thesis
  proof (cases ?here)
    case True
    then have "venue_lanes F db' v e = {1..n} \<union> plan_lanes plan"
      unfolding registered_venue_lanes [OF assms] n by (simp only: if_True simp_thms)
    also have "\<dots> = {1..n + length (bp_admission_digests plan)}"
      unfolding first [OF True] by auto
    finally show ?thesis by blast
  next
    case False
    then have "venue_lanes F db' v e = {1..n}"
      unfolding registered_venue_lanes [OF assms] n by (simp only: if_False Un_empty_right)
    then show ?thesis by blast
  qed
qed

lemma registered_apart:
  assumes "batch_registered F plan row db db'" "admission_ok F db"
    "bt_get (db_batches db) b = Some r" "same_venue F r row" "n \<in> lanes db b"
  shows "n \<notin> plan_lanes plan"
proof -
  obtain m where m: "venue_lanes F db (bp_venue_id plan) (bp_epoch plan) = {1..m}"
    using assms(2) unfolding admission_ok_def by blast
  have "set (sequences db b) \<subseteq> set (venue_sequences F db (bp_venue_id plan) (bp_epoch plan))"
    using assms(3,4) batch_registeredD(3,4) [OF assms(1)]
    unfolding venue_sequences_iff same_venue_def subset_iff sequences_iff by metis
  then have "n \<in> {1..m}" using assms(5) unfolding m [symmetric] lanes_def venue_lanes_def by blast
  with registered_follows [OF assms(1) m] show ?thesis by simp
qed

lemma registered_batch_ok:
  assumes "batch_registered F plan row db db'" "admission_ok F db" "bt_get (db_batches db') b = Some r"
  shows "batch_ok db' b r"
proof (cases "b = bp_batch_id plan")
  case True
  note d = batch_registeredD [OF assms(1)] and l = registered_lanes [OF assms(1,2)]
  from d(10) obtain body where body: "batch_plan_body plan = Ok body" by blast
  have r: "r = row" using assms(3) True by (simp add: d(2))
  have "unat s \<in> plan_lanes plan \<and> en_consumed_by e = 0" if e: "bt_get (db_entries db') (b, s) = Some e" for s e
  proof -
    have "unat s \<in> lanes db' b" using e by (simp add: lanes_def)
    with True d(9) [OF l(2)] e show ?thesis by (auto simp: l(1))
  qed
  then show ?thesis
    unfolding batch_ok_def r d(5,6) l(1) using True planned_numbers(2-4) [OF body]
    by (intro exI [of _ "unat (bp_first_sequence plan)"]) (auto simp: not_less)
next
  case False
  note d = batch_registeredD [OF assms(1)] and l = registered_lanes [OF assms(1,2)]
  have same: "bt_get (db_entries db') (b, s) = bt_get (db_entries db) (b, s)" for s
    using d(8) [of "(b, s)"] d(7) [of b s] False by (cases "bt_get (db_entries db) (b, s)") auto
  have "batch_ok db b r" using assms(2,3) False unfolding admission_ok_def by (simp add: d(2))
  then show ?thesis using False unfolding batch_ok_def same l(1) by simp
qed

lemma registered_order:
  assumes "batch_registered F plan row db db'" "admission_ok F db"
  shows "admission_ok F db'"
proof -
  note d = batch_registeredD [OF assms(1)] and l = registered_lanes(1) [OF assms]
  have "b = b'" if a: "bt_get (db_batches db') b = Some r" "bt_get (db_batches db') b' = Some r'" "same_venue F r r'"
      "n \<in> lanes db' b" "n \<in> lanes db' b'" for b r b' r' n
  proof -
    have sym: "same_venue F r' r" using a(3) by (simp add: same_venue_def)
    show ?thesis
    proof (cases "b = bp_batch_id plan \<or> b' = bp_batch_id plan")
      case True
      then show ?thesis
        using a sym registered_apart [OF assms, of b r n] registered_apart [OF assms, of b' r' n]
        by (auto simp: d(2) l split: if_splits)
    next
      case False
      with a have "bt_get (db_batches db) b = Some r" "bt_get (db_batches db) b' = Some r'"
        "n \<in> lanes db b" "n \<in> lanes db b'" by (simp_all add: d(2) l)
      with a(3) assms(2) show ?thesis unfolding admission_ok_def disjoint_lanes_def by blast
    qed
  qed
  then have "disjoint_lanes F db'" unfolding disjoint_lanes_def by blast
  moreover have "bt_contains (db_batches db') b" if "bt_contains (db_entries db') (b, s)" for b s
  proof (cases "b = bp_batch_id plan")
    case False
    with that d(7) [of b s] have "bt_contains (db_entries db) (b, s)" by simp
    with assms(2) have "bt_contains (db_batches db) b" unfolding admission_ok_def by blast
    with False show ?thesis by (simp add: d(2))
  qed (simp add: d(2))
  ultimately show ?thesis
    using registered_batch_ok [OF assms] registered_tiled [OF assms] unfolding admission_ok_def by blast
qed

section \<open>Every operation keeps the order\<close>

lemma load_admission_batchD:
  assumes "load_admission_batch db b = Ok (Some bs)"
  obtains r where "bt_get (db_batches db) b = Some r" "bs_first_sequence bs = min_sequence (sequences db b)"
    "bs_population bs = ba_population r" "bs_consumed bs = ba_consumed r" "bs_expires_at bs = ba_expires_at r"
  using assms by (auto simp: load_admission_batch_def split: option.splits)

lemma load_admission_batch_None: "load_admission_batch db b = Ok None \<longleftrightarrow> bt_get (db_batches db) b = None"
  by (auto simp: load_admission_batch_def split: option.splits)

lemma register_admission_committee_frame:
  assumes "register_admission_committee F C wall now plan ap db = Ok db'"
  shows "settlement_part db' = settlement_part db" "credit_part db' = credit_part db"
    "db_batches db' = db_batches db" "db_entries db' = db_entries db"
  using assms
  by (auto simp: register_admission_committee_def split: option.splits if_splits elim!: operation_triggerE)

lemma register_admission_committee_keeps:
  assumes "register_admission_committee F C wall now plan ap db = Ok db'"
  shows "admission_ok F db' \<longleftrightarrow> admission_ok F db"
proof -
  note f = register_admission_committee_frame(3,4) [OF assms]
  show ?thesis
    unfolding admission_ok_def batch_ok_def disjoint_lanes_def lanes_def venue_lanes_def sequences_def
      venue_sequences_def f by (rule refl)
qed

lemma insert_batchE:
  assumes "insert_batch F plan st db = Ok db'"
  obtains row ops where "db' = db\<lparr>db_batches := bt_insert (bp_batch_id plan) row (db_batches db), db_operations := ops\<rparr>"
    "ba_venue_id row = bp_venue_id plan" "ba_epoch row = bp_epoch plan"
    "ba_population row = of_nat (length (bp_admission_digests plan))" "ba_consumed row = 0"
proof -
  let ?row = "\<lparr>ba_operation_id = bp_operation_id plan, ba_venue_id = bp_venue_id plan, ba_epoch = bp_epoch plan,
        ba_slot = bp_slot plan, ba_batch_digest = bp_batch_digest plan, ba_order_digest = bp_order_digest plan,
        ba_population = of_nat (length (bp_admission_digests plan)), ba_consumed = 0,
        ba_expires_at = bp_expires_at plan, ba_statement = st\<rparr>"
  from assms have "operation_trigger (db\<lparr>db_batches := bt_insert (bp_batch_id plan) ?row (db_batches db)\<rparr>)
      (bp_operation_id plan) st = Ok db'" by (simp add: insert_batch_def)
  then show thesis by (rule operation_triggerE) (rule that [of _ ?row], simp_all)
qed

lemma register_admission_batchE:
  assumes "register_admission_batch F C wall now plan ls ap db = Ok (db', bs)"
  obtains (idempotent) "db' = db"
  | (fresh) st db1 root where "authorize F C wall db st ap = Ok root" "batch_plan_statement F plan = Ok st"
    "insert_batch F plan st db = Ok db1"
    "entries_added (bp_batch_id plan) (fst ` set (planned_entries plan)) db1 db'"
    "bt_get (db_batches db) (bp_batch_id plan) = None" "\<exists>body. batch_plan_body plan = Ok body"
    "checked_add (max_sequence (venue_sequences F db (bp_venue_id plan) (bp_epoch plan))) 1 =
       Some (bp_first_sequence plan)"
proof -
  from assms obtain loaded where l: "load_admission_batch db (bp_batch_id plan) = Ok loaded"
    by (auto simp: register_admission_batch_def)
  show thesis
  proof (cases loaded)
    case None
    with l have "bt_get (db_batches db) (bp_batch_id plan) = None" by (simp add: load_admission_batch_None)
    moreover from assms l None obtain body st root db1 where "batch_plan_body plan = Ok body"
      "batch_plan_statement F plan = Ok st" "authorize F C wall db st ap = Ok root"
      "checked_add (max_sequence (venue_sequences F db (bp_venue_id plan) (bp_epoch plan))) 1 =
         Some (bp_first_sequence plan)"
      "insert_batch F plan st db = Ok db1"
      "try_fold (insert_entry (bp_batch_id plan)) db1 (planned_entries plan) = Ok db'"
      by (auto simp: register_admission_batch_def)
    ultimately show ?thesis by (blast intro: fresh insert_entries)
  next
    case (Some b)
    with assms l show ?thesis
      by (intro idempotent) (auto simp: register_admission_batch_def split: option.splits if_splits)
  qed
qed

lemma register_admission_batch_keeps:
  assumes "register_admission_batch F C wall now plan ls ap db = Ok (db', bs)"
  shows "settlement_part db' = settlement_part db \<and> credit_part db' = credit_part db \<and>
    (admission_ok F db \<longrightarrow> admission_ok F db')"
  using assms
proof (cases rule: register_admission_batchE)
  case (fresh st db1 root)
  obtain row ops where db1: "db1 = db\<lparr>db_batches := bt_insert (bp_batch_id plan) row (db_batches db), db_operations := ops\<rparr>"
    and row: "ba_venue_id row = bp_venue_id plan" "ba_epoch row = bp_epoch plan"
    "ba_population row = of_nat (length (bp_admission_digests plan))" "ba_consumed row = 0"
    using fresh(3) by (rule insert_batchE)
  have db': "db' = db1\<lparr>db_entries := db_entries db'\<rparr>" using fresh(4) by (simp add: entries_added_def)
  then have "db_batches db' = db_batches db1" by (metis facility_db.select_convs(15) facility_db.surjective facility_db.update_convs(16))
  then have "batch_registered F plan row db db'"
    using fresh(4-7) row unfolding batch_registered_def entries_added_def db1 by simp
  then have "admission_ok F db \<longrightarrow> admission_ok F db'" using registered_order by blast
  moreover have "settlement_part db' = settlement_part db" "credit_part db' = credit_part db"
    by (subst db', simp add: db1)+
  ultimately show ?thesis by simp
qed simp

lemma advance_admission_slotE:
  assumes "advance_admission_slot F C wall now a ap db = Ok (db', bs)"
  obtains (idempotent) "db' = db"
  | (fresh) r e st root last' ops where "authorize F C wall db st ap = Ok root" "advance_statement F a = Ok st"
    "bt_get (db_batches db) (av_batch_id a) = Some r"
    "bt_get (db_entries db) (av_batch_id a, av_sequence a) = Some e" "en_consumed_by e = 0"
    "en_admission_digest e = av_admission_digest a" "now \<le> ba_expires_at r" "av_operation_id a \<noteq> 0"
    "next_lane (min_sequence (sequences db (av_batch_id a))) (ba_consumed r) (ba_population r) = Ok (av_sequence a, last')"
    "av_sequence a \<le> last'"
    "db' = (consume_lane (av_batch_id a) (av_sequence a) (av_operation_id a) (ba_consumed r + 1) db)
       \<lparr>db_admission_operations := bt_insert (av_operation_id a)
          \<lparr>ao_batch_id = av_batch_id a, ao_sequence = av_sequence a, ao_statement = st\<rparr>
          (db_admission_operations db), db_operations := ops\<rparr>"
proof -
  from assms obtain st where st: "advance_statement F a = Ok st" by (auto simp: advance_admission_slot_def)
  then have nz: "av_operation_id a \<noteq> 0" by (auto simp: advance_statement_def advance_body_def)
  show thesis
  proof (cases "bt_get (db_admission_operations db) (av_operation_id a)")
    case (Some row)
    with assms st show ?thesis by (intro idempotent) (auto simp: advance_admission_slot_def split: if_splits)
  next
    case None
    with assms st obtain b where load: "load_admission_batch db (av_batch_id a) = Ok (Some b)"
      by (auto simp: advance_admission_slot_def)
    then obtain r where r: "bt_get (db_batches db) (av_batch_id a) = Some r"
      "bs_first_sequence b = min_sequence (sequences db (av_batch_id a))"
      "bs_population b = ba_population r" "bs_consumed b = ba_consumed r" "bs_expires_at b = ba_expires_at r"
      by (rule load_admission_batchD)
    from assms obtain root e last' where "authorize F C wall db st ap = Ok root"
      "bt_get (db_entries db) (av_batch_id a, av_sequence a) = Some e" "en_consumed_by e = 0"
      "en_admission_digest e = av_admission_digest a" "now \<le> ba_expires_at r"
      "next_lane (min_sequence (sequences db (av_batch_id a))) (ba_consumed r) (ba_population r) = Ok (av_sequence a, last')"
      "av_sequence a \<le> last'"
      and "operation_trigger ((consume_lane (av_batch_id a) (av_sequence a) (av_operation_id a) (ba_consumed r + 1) db)
       \<lparr>db_admission_operations := bt_insert (av_operation_id a)
          \<lparr>ao_batch_id = av_batch_id a, ao_sequence = av_sequence a, ao_statement = st\<rparr>
          (db_admission_operations db)\<rparr>) (av_operation_id a) st = Ok db'"
      by (clarsimp simp: advance_admission_slot_def st None load r not_less)
    with st r(1) nz show ?thesis by (elim operation_triggerE) (rule fresh)
  qed
qed

lemma consume_lane_frame [simp]:
  "settlement_part (consume_lane b s i n db) = settlement_part db"
  "credit_part (consume_lane b s i n db) = credit_part db"
  by (simp_all add: consume_lane_def)

lemma advance_admission_slot_keeps:
  assumes "advance_admission_slot F C wall now a ap db = Ok (db', bs)"
  shows "settlement_part db' = settlement_part db \<and> credit_part db' = credit_part db \<and>
    (admission_ok F db \<longrightarrow> admission_ok F db')"
  using assms
proof (cases rule: advance_admission_slotE)
  case (fresh r e st root last' ops)
  let ?db = "consume_lane (av_batch_id a) (av_sequence a) (av_operation_id a) (ba_consumed r + 1) db"
  have "admission_ok F ?db = admission_ok F db'"
    unfolding admission_ok_def batch_ok_def disjoint_lanes_def lanes_def venue_lanes_def sequences_def
      venue_sequences_def fresh(11) by simp
  with consume_keeps [OF _ fresh(3,4,5,9,10,8), of F] show ?thesis by (simp add: fresh(11))
qed simp

lemma consume_ordered_admissionE:
  assumes "consume_ordered_admission F adm i now db = Ok (db', b)"
  obtains r e last' where "bt_get (db_batches db) b = Some r" "bt_get (db_entries db) (b, oa_sequence adm) = Some e"
    "en_consumed_by e = 0" "ba_venue_id r = oa_venue_id adm" "fx_certified_digest F adm = Ok (en_admission_digest e)"
    "next_lane (min_sequence (sequences db b)) (ba_consumed r) (ba_population r) = Ok (oa_sequence adm, last')"
    "oa_sequence adm \<le> last'" "db' = consume_lane b (oa_sequence adm) i (ba_consumed r + 1) db"
proof -
  from assms obtain r e last' where found: "find (\<lambda>(b, r). ba_venue_id r = oa_venue_id adm \<and>
           sql_key F (ba_epoch r) = sql_key F (oa_epoch adm) \<and> sql_key F (ba_slot r) = sql_key F (oa_slot adm) \<and>
           ba_batch_digest r = oa_batch_digest adm) (entries (db_batches db)) = Some (b, r)"
    and "bt_get (db_entries db) (b, oa_sequence adm) = Some e" "en_consumed_by e = 0"
    "fx_certified_digest F adm = Ok (en_admission_digest e)"
    "next_lane (min_sequence (sequences db b)) (ba_consumed r) (ba_population r) = Ok (oa_sequence adm, last')"
    "oa_sequence adm \<le> last'" "db' = consume_lane b (oa_sequence adm) i (ba_consumed r + 1) db"
    by (auto simp: consume_ordered_admission_def not_less)
  moreover from found have "(b, r) \<in> set (entries (db_batches db))" "ba_venue_id r = oa_venue_id adm"
    by (auto simp: find_Some_iff) (metis nth_mem)
  ultimately show thesis using that by (simp add: entries_get)
qed

lemma consume_ordered_admission_keeps:
  assumes "consume_ordered_admission F adm i now db = Ok (db', b)" "i \<noteq> 0"
  shows "settlement_part db' = settlement_part db \<and> credit_part db' = credit_part db \<and>
    (admission_ok F db \<longrightarrow> admission_ok F db')"
  using assms(1)
proof (cases rule: consume_ordered_admissionE)
  case (1 r e last')
  with consume_keeps [OF _ 1(1,2,3,6,7) assms(2), of F] show ?thesis by simp
qed

section \<open>A consumed lane keeps its consumer\<close>

definition consumers_kept :: "facility_db \<Rightarrow> facility_db \<Rightarrow> bool" where
  "consumers_kept db db' \<longleftrightarrow> (\<forall>k e. bt_get (db_entries db) k = Some e \<longrightarrow> en_consumed_by e \<noteq> 0 \<longrightarrow>
     bt_get (db_entries db') k = Some e)"

lemma consumers_kept_refl: "db_entries db' = db_entries db \<Longrightarrow> consumers_kept db db'"
  by (simp add: consumers_kept_def)

lemma consumers_kept_trans: "consumers_kept db1 db2 \<Longrightarrow> consumers_kept db2 db3 \<Longrightarrow> consumers_kept db1 db3"
  unfolding consumers_kept_def by blast

lemma consume_lane_consumers: "consumers_kept db (consume_lane b s i n db)"
  by (auto simp: consumers_kept_def consume_lane_def split: option.splits)

lemma register_admission_batch_consumers:
  assumes "register_admission_batch F C wall now plan ls ap db = Ok (db', bs)"
  shows "consumers_kept db db'"
  using assms
proof (cases rule: register_admission_batchE)
  case (fresh st db1 root)
  have "db_entries db1 = db_entries db" using fresh(3) by (auto elim!: insert_batchE)
  with fresh(4) show ?thesis unfolding entries_added_def consumers_kept_def by metis
qed (simp add: consumers_kept_refl)

lemma advance_admission_slot_consumers:
  assumes "advance_admission_slot F C wall now a ap db = Ok (db', bs)"
  shows "consumers_kept db db'"
  using assms
proof (cases rule: advance_admission_slotE)
  case (fresh r e st root last' ops)
  with consume_lane_consumers show ?thesis by (simp add: consumers_kept_def)
qed (simp add: consumers_kept_refl)

lemma consume_ordered_admission_consumers:
  "consume_ordered_admission F adm i now db = Ok (db', b) \<Longrightarrow> consumers_kept db db'"
  by (auto elim!: consume_ordered_admissionE simp: consume_lane_consumers)

end
