(* ===== verification/FacilitySettle.thy ===== *)
theory FacilitySettle
  imports FacilityDb
begin

text \<open>
  \<open>facility.rs\<close>: assets, accounts and the settlement of orders. An order names the exact
  commitment and sequence number each account has before and the commitment it has after;
  \<open>settle\<close> checks the approval against the state root, spends the order's nullifier, moves every
  account or none, and appends a signed receipt that names the previous one.

  Shown here: what an accepted order changed, and that the chain of receipts stays
  verifiable from the first to the recorded last one.
\<close>

section \<open>Definitions of assets and accounts\<close>

record asset_definition =
  ad_asset_id :: id32
  ad_code :: str
  ad_kind :: asset_kind
  ad_decimals :: u8
  ad_terms_digest :: id32

definition asset_body :: "asset_definition \<Rightarrow> json db_result" where
  "asset_body a =
     and_then (ensure (\<not> (ad_code a = [] \<or> 30 < ad_decimals a)) ''asset code or decimal precision is invalid'') (\<lambda>_.
     and_then (nonzero (ad_asset_id a) ''asset_id'') (\<lambda>asset_id.
     and_then (nonzero (ad_terms_digest a) ''terms_digest'') (\<lambda>terms_digest.
     Ok (JObject [(lit ''asset_id'', JString asset_id), (lit ''code'', JString (ad_code a)),
       (lit ''kind'', JString (asset_kind_str (ad_kind a))), (lit ''decimals'', JNumber (unat (ad_decimals a))),
       (lit ''terms_digest'', JString terms_digest)]))))"

definition asset_statement :: "'g facility_ext \<Rightarrow> asset_definition \<Rightarrow> id32 db_result" where
  "asset_statement F a = and_then (asset_body a) (\<lambda>body. Ok (body_digest (fx_gov F) (ascii ''QOMM:DEFMI:ASSET:v1'') body))"

record account_opening =
  op_handle :: id32
  op_asset_id :: id32
  op_commitment :: id32
  op_issuance_nonce :: id32

definition account_body :: "account_opening \<Rightarrow> json db_result" where
  "account_body a =
     and_then (nonzero (op_handle a) ''handle'') (\<lambda>handle.
     and_then (nonzero (op_asset_id a) ''asset_id'') (\<lambda>asset_id.
     and_then (nonzero (op_commitment a) ''commitment'') (\<lambda>commitment.
     and_then (nonzero (op_issuance_nonce a) ''issuance_nonce'') (\<lambda>issuance_nonce.
     Ok (JObject [(lit ''handle'', JString handle), (lit ''asset_id'', JString asset_id),
       (lit ''commitment'', JString commitment), (lit ''issuance_nonce'', JString issuance_nonce)])))))"

definition account_statement :: "'g facility_ext \<Rightarrow> account_opening \<Rightarrow> id32 db_result" where
  "account_statement F a = and_then (account_body a) (\<lambda>body. Ok (body_digest (fx_gov F) (ascii ''QOMM:DEFMI:ACCOUNT:v1'') body))"

text \<open>\<open>SELECT active FROM assets WHERE asset_id=...\<close> compared with 1.\<close>

definition asset_active :: "facility_db \<Rightarrow> id32 \<Rightarrow> bool" where
  "asset_active db i = (case bt_get (db_assets db) i of None \<Rightarrow> False | Some r \<Rightarrow> as_active r)"

text \<open>
  A statement that is not a fresh one, or a code with a NUL character, which cannot be
  passed to SQLite, fails the insertion.
\<close>

definition register_asset ::
  "'g facility_ext \<Rightarrow> facility_config \<Rightarrow> u64 option \<Rightarrow> asset_definition \<Rightarrow> quorum_approval \<Rightarrow> facility_db
    \<Rightarrow> facility_db db_result" where
  "register_asset F C wall asset approval db =
     and_then (asset_statement F asset) (\<lambda>statement.
     case bt_get (db_assets db) (ad_asset_id asset) of
       Some row \<Rightarrow> if as_statement row = statement then Ok db
         else Err ''asset identifier was reused for another definition''
     | None \<Rightarrow>
         and_then (authorize F C wall db statement approval) (\<lambda>_.
         and_then (ensure (0 \<notin> set (ad_code asset) \<and> statement \<notin> as_statement ` set (bt_values (db_assets db)))
           ''asset or authorization is already registered'') (\<lambda>_.
         Ok (db\<lparr>db_assets := bt_insert (ad_asset_id asset)
           \<lparr>as_code = ad_code asset, as_kind = asset_kind_str (ad_kind asset), as_decimals = ad_decimals asset,
            as_terms_digest = ad_terms_digest asset, as_active = True, as_statement = statement\<rparr> (db_assets db)\<rparr>))))"

definition open_account ::
  "'g facility_ext \<Rightarrow> facility_config \<Rightarrow> u64 option \<Rightarrow> account_opening \<Rightarrow> quorum_approval \<Rightarrow> facility_db
    \<Rightarrow> facility_db db_result" where
  "open_account F C wall opening approval db =
     and_then (account_statement F opening) (\<lambda>statement.
     case bt_get (db_accounts db) (op_handle opening) of
       Some row \<Rightarrow> if ac_opening_statement row = statement then Ok db
         else Err ''account handle was reused for another opening''
     | None \<Rightarrow>
         and_then (authorize F C wall db statement approval) (\<lambda>_.
         and_then (ensure (asset_active db (op_asset_id opening)) ''account asset is unknown or inactive'') (\<lambda>_.
         and_then (ensure (statement \<notin> ac_opening_statement ` set (bt_values (db_accounts db)))
           ''account or issuance authorization already exists'') (\<lambda>_.
         Ok (db\<lparr>db_accounts := bt_insert (op_handle opening)
           \<lparr>ac_asset_id = op_asset_id opening, ac_commitment = op_commitment opening, ac_sequence = 0,
            ac_opening_statement = statement\<rparr> (db_accounts db)\<rparr>)))))"

section \<open>Orders and receipts\<close>

record state_leg =
  sl_handle :: id32
  sl_asset_id :: id32
  sl_before :: id32
  sl_after :: id32
  sl_before_sequence :: u64

definition leg_body :: "state_leg \<Rightarrow> json db_result" where
  "leg_body l =
     and_then (nonzero (sl_handle l) ''handle'') (\<lambda>handle.
     and_then (nonzero (sl_asset_id l) ''asset_id'') (\<lambda>asset_id.
     and_then (nonzero (sl_before l) ''before_commitment'') (\<lambda>before.
     and_then (nonzero (sl_after l) ''after_commitment'') (\<lambda>after.
     Ok (JObject [(lit ''handle'', JString handle), (lit ''asset_id'', JString asset_id),
       (lit ''before_commitment'', JString before), (lit ''after_commitment'', JString after),
       (lit ''before_sequence'', JNumber (unat (sl_before_sequence l)))])))))"

record settlement_order =
  so_operation_id :: id32
  so_nullifier :: id32
  so_deadline :: u64
  so_payment_instruction_digest :: id32
  so_proof_digest :: id32
  so_market_statement_digest :: id32
  so_legs :: "state_leg list"

definition order_body :: "settlement_order \<Rightarrow> json db_result" where
  "order_body o' =
     and_then (ensure (\<not> (so_deadline o' = 0 \<or> max_unix_time < so_deadline o' \<or> so_legs o' = []))
       ''settlement needs a positive deadline and at least one leg'') (\<lambda>_.
     and_then (ensure (distinct (map sl_handle (so_legs o'))) ''a settlement cannot update one handle twice'') (\<lambda>_.
     and_then (nonzero (so_operation_id o') ''operation_id'') (\<lambda>operation_id.
     and_then (nonzero (so_nullifier o') ''nullifier'') (\<lambda>nullifier.
     and_then (nonzero (so_payment_instruction_digest o') ''payment_instruction_digest'') (\<lambda>instruction.
     and_then (nonzero (so_proof_digest o') ''proof_digest'') (\<lambda>proof.
     and_then (nonzero (so_market_statement_digest o') ''market_statement_digest'') (\<lambda>market.
     and_then (try_map leg_body (so_legs o')) (\<lambda>legs.
     Ok (JObject [(lit ''operation_id'', JString operation_id), (lit ''nullifier'', JString nullifier),
       (lit ''deadline'', JNumber (unat (so_deadline o'))),
       (lit ''payment_instruction_digest'', JString instruction), (lit ''proof_digest'', JString proof),
       (lit ''market_statement_digest'', JString market), (lit ''legs'', JArray legs)])))))))))"

definition order_statement :: "'g facility_ext \<Rightarrow> settlement_order \<Rightarrow> id32 db_result" where
  "order_statement F o' = and_then (order_body o') (\<lambda>body.
     Ok (body_digest (fx_gov F) (ascii ''QOMM:DEFMI:SETTLEMENT:v1'') body))"

record settlement_receipt =
  sr_operation_id :: id32
  sr_nullifier :: id32
  sr_statement :: id32
  sr_before_root :: id32
  sr_after_root :: id32
  sr_previous_receipt :: id32
  sr_committed_at_ns :: u64
  sr_elapsed_ns :: u64
  sr_request_bytes :: u64
  sr_response_bytes :: u64
  sr_database_bytes_before :: u64
  sr_database_bytes_after :: u64
  sr_signature :: signature

definition receipt_unsigned :: "'g facility_ext \<Rightarrow> settlement_receipt \<Rightarrow> bytes" where
  "receipt_unsigned F r = ascii ''QOMM:DEFMI:RECEIPT:v2'' @ canonical (fx_gov F) (JObject
     [(lit ''operation_id'', JString (key (sr_operation_id r))), (lit ''nullifier'', JString (key (sr_nullifier r))),
      (lit ''statement'', JString (key (sr_statement r))), (lit ''before_root'', JString (key (sr_before_root r))),
      (lit ''after_root'', JString (key (sr_after_root r))),
      (lit ''previous_receipt'', JString (key (sr_previous_receipt r))),
      (lit ''committed_at_ns'', JNumber (unat (sr_committed_at_ns r))),
      (lit ''elapsed_ns'', JNumber (unat (sr_elapsed_ns r))),
      (lit ''request_bytes'', JNumber (unat (sr_request_bytes r))),
      (lit ''response_bytes'', JNumber (unat (sr_response_bytes r))),
      (lit ''database_bytes_before'', JNumber (unat (sr_database_bytes_before r))),
      (lit ''database_bytes_after'', JNumber (unat (sr_database_bytes_after r)))])"

definition receipt_digest :: "'g facility_ext \<Rightarrow> settlement_receipt \<Rightarrow> id32" where
  "receipt_digest F r = gc_sha256 (fx_gov F) (receipt_unsigned F r @ sr_signature r)"

definition receipt_verify :: "'g facility_ext \<Rightarrow> bytes \<Rightarrow> settlement_receipt \<Rightarrow> bool" where
  "receipt_verify F pk r = gc_hybrid_verify (fx_gov F) AuditCheckpoint pk (receipt_unsigned F r) (sr_signature r)"

definition wire_from_receipt :: "settlement_receipt \<Rightarrow> receipt_wire" where
  "wire_from_receipt r =
     \<lparr>rw_operation_id = key (sr_operation_id r), rw_nullifier = key (sr_nullifier r),
      rw_statement = key (sr_statement r), rw_before_root = key (sr_before_root r),
      rw_after_root = key (sr_after_root r), rw_previous_receipt = key (sr_previous_receipt r),
      rw_committed_at_ns = sr_committed_at_ns r, rw_elapsed_ns = sr_elapsed_ns r,
      rw_request_bytes = sr_request_bytes r, rw_response_bytes = sr_response_bytes r,
      rw_database_bytes_before = sr_database_bytes_before r, rw_database_bytes_after = sr_database_bytes_after r,
      rw_signature = hex_encode (sr_signature r)\<rparr>"

definition wire_into_receipt :: "receipt_wire \<Rightarrow> settlement_receipt db_result" where
  "wire_into_receipt w =
     and_then (ok_or (hex_decode (rw_signature w)) ''receipt signature is malformed'') (\<lambda>signature.
     and_then (ensure (length signature = 3373)
       ''legacy or malformed receipt signature: explicit archived checkpoint migration required'') (\<lambda>_.
     and_then (parse_hex32 (rw_operation_id w) ''operation_id'') (\<lambda>operation_id.
     and_then (parse_hex32 (rw_nullifier w) ''nullifier'') (\<lambda>nullifier.
     and_then (parse_hex32 (rw_statement w) ''statement'') (\<lambda>statement.
     and_then (parse_hex32 (rw_before_root w) ''before_root'') (\<lambda>before_root.
     and_then (parse_hex32 (rw_after_root w) ''after_root'') (\<lambda>after_root.
     and_then (parse_hex32 (rw_previous_receipt w) ''previous_receipt'') (\<lambda>previous_receipt.
     Ok \<lparr>sr_operation_id = operation_id, sr_nullifier = nullifier, sr_statement = statement,
       sr_before_root = before_root, sr_after_root = after_root, sr_previous_receipt = previous_receipt,
       sr_committed_at_ns = rw_committed_at_ns w, sr_elapsed_ns = rw_elapsed_ns w,
       sr_request_bytes = rw_request_bytes w, sr_response_bytes = rw_response_bytes w,
       sr_database_bytes_before = rw_database_bytes_before w, sr_database_bytes_after = rw_database_bytes_after w,
       sr_signature = signature\<rparr>))))))))"

definition receipt_json :: "'g facility_ext \<Rightarrow> settlement_receipt \<Rightarrow> bytes" where
  "receipt_json F r = fx_wire_to_vec F (wire_from_receipt r)"

definition receipt_from_json :: "'g facility_ext \<Rightarrow> bytes \<Rightarrow> settlement_receipt db_result" where
  "receipt_from_json F raw = and_then (ok_or (fx_wire_from_slice F raw) ''receipt JSON is invalid'') wire_into_receipt"

section \<open>Settlement\<close>

text \<open>What \<open>settle\<close> reads from its host: the clocks and the size of the database file.\<close>

record settle_env =
  ev_wall :: "u64 option"
  ev_committed_at_ns :: u64
  ev_elapsed_ns :: u64
  ev_bytes_before :: u64
  ev_bytes_after :: u64

definition check_leg :: "facility_db \<Rightarrow> state_leg \<Rightarrow> unit db_result" where
  "check_leg db l =
     and_then (ok_or (bt_get (db_accounts db) (sl_handle l)) ''settlement names an unknown account'') (\<lambda>row.
     and_then (ensure (ac_asset_id row = sl_asset_id l) ''settlement leg is on the wrong asset rail'') (\<lambda>_.
     and_then (if ac_commitment row \<noteq> sl_before l then Err ''settlement was proved against stale account state''
       else and_then (column (ac_sequence row)) (\<lambda>sequence.
         ensure (sequence = sl_before_sequence l) ''settlement was proved against stale account state'')) (\<lambda>_.
     ensure (asset_active db (sl_asset_id l)) ''settlement uses an inactive asset'')))"

definition update_account :: "state_leg \<Rightarrow> (id32, account_row) btree_map \<Rightarrow> (id32, account_row) btree_map" where
  "update_account l accounts = (case bt_get accounts (sl_handle l) of None \<Rightarrow> accounts
     | Some row \<Rightarrow> bt_insert (sl_handle l)
         (row\<lparr>ac_commitment := sl_after l, ac_sequence := ac_sequence row + 1\<rparr>) accounts)"

definition insert_receipt :: "receipt_row \<Rightarrow> facility_db \<Rightarrow> facility_db db_result" where
  "insert_receipt row db =
     and_then (ensure (rr_operation_id row \<notin> rr_operation_id ` set (db_receipts db) \<and>
         rr_nullifier row \<notin> rr_nullifier ` set (db_receipts db) \<and>
         rr_statement row \<notin> rr_statement ` set (db_receipts db) \<and>
         rr_receipt_digest row \<notin> rr_receipt_digest ` set (db_receipts db)) ''UNIQUE constraint failed: receipts'') (\<lambda>_.
     operation_trigger (db\<lparr>db_receipts := db_receipts db @ [row]\<rparr>) (rr_operation_id row) (rr_statement row))"

definition spend_nullifier :: "id32 \<Rightarrow> u64 \<Rightarrow> id32 \<Rightarrow> facility_db \<Rightarrow> facility_db db_result" where
  "spend_nullifier nullifier deadline statement db =
     and_then (ensure (statement \<notin> nf_statement ` set (bt_values (db_nullifiers db)))
       ''UNIQUE constraint failed: nullifiers.statement'') (\<lambda>_.
     Ok (db\<lparr>db_nullifiers := bt_insert nullifier \<lparr>nf_deadline = deadline, nf_statement = statement\<rparr> (db_nullifiers db)\<rparr>))"

definition draft_receipt ::
  "'g facility_ext \<Rightarrow> settle_env \<Rightarrow> id32 \<Rightarrow> id32 \<Rightarrow> id32 \<Rightarrow> id32 \<Rightarrow> id32 \<Rightarrow> id32 \<Rightarrow> u64 \<Rightarrow> settlement_receipt" where
  "draft_receipt F ev operation_id nullifier statement before_root after_root previous request_bytes =
     (let receipt = \<lparr>sr_operation_id = operation_id, sr_nullifier = nullifier, sr_statement = statement,
        sr_before_root = before_root, sr_after_root = after_root, sr_previous_receipt = previous,
        sr_committed_at_ns = ev_committed_at_ns ev, sr_elapsed_ns = ev_elapsed_ns ev,
        sr_request_bytes = request_bytes, sr_response_bytes = 0,
        sr_database_bytes_before = ev_bytes_before ev, sr_database_bytes_after = ev_bytes_after ev,
        sr_signature = replicate 3373 0\<rparr> in
      receipt\<lparr>sr_response_bytes := of_nat (length (receipt_json F receipt))\<rparr>)"

text \<open>The tail of every settlement: sign the receipt and append it.\<close>

definition append_receipt ::
  "'g facility_ext \<Rightarrow> settle_env \<Rightarrow> id32 \<Rightarrow> id32 \<Rightarrow> id32 \<Rightarrow> id32 \<Rightarrow> u64 \<Rightarrow> facility_db
    \<Rightarrow> (facility_db \<times> settlement_receipt) db_result" where
  "append_receipt F ev operation_id nullifier statement before_root request_bytes db =
     and_then (calculate_root F db) (\<lambda>after_root.
     let receipt = draft_receipt F ev operation_id nullifier statement before_root after_root (db_last_receipt db)
       request_bytes in
     and_then (ok_or (fx_receipt_sign F (receipt_unsigned F receipt)) ''receipt signing failed'') (\<lambda>signature.
     let receipt = receipt\<lparr>sr_signature := signature\<rparr> in
     and_then (insert_receipt \<lparr>rr_operation_id = operation_id, rr_nullifier = nullifier,
         rr_statement = statement, rr_receipt_json = receipt_json F receipt,
         rr_receipt_digest = receipt_digest F receipt\<rparr> db) (\<lambda>db.
     Ok (db\<lparr>db_state_root := after_root, db_last_receipt := receipt_digest F receipt\<rparr>, receipt))))"

definition commit_receipt ::
  "'g facility_ext \<Rightarrow> settle_env \<Rightarrow> settlement_order \<Rightarrow> id32 \<Rightarrow> id32 \<Rightarrow> u64 \<Rightarrow> facility_db
    \<Rightarrow> (facility_db \<times> settlement_receipt) db_result" where
  "commit_receipt F ev o' statement before_root request_bytes db =
     and_then (register_operation db (so_operation_id o') statement) (\<lambda>db.
     append_receipt F ev (so_operation_id o') (so_nullifier o') statement before_root request_bytes db)"

definition settle ::
  "'g facility_ext \<Rightarrow> facility_config \<Rightarrow> settle_env \<Rightarrow> u64 \<Rightarrow> settlement_order \<Rightarrow> quorum_approval \<Rightarrow> facility_db
    \<Rightarrow> (facility_db \<times> settlement_receipt) db_result" where
  "settle F C ev now o' approval db =
     and_then (order_body o') (\<lambda>request.
     and_then (order_statement F o') (\<lambda>statement.
     case find (\<lambda>r. rr_operation_id r = so_operation_id o') (db_receipts db) of
       Some row \<Rightarrow>
         if rr_statement row \<noteq> statement then Err ''operation identifier was reused for another settlement''
         else and_then (receipt_from_json F (rr_receipt_json row)) (\<lambda>receipt. Ok (db, receipt))
     | None \<Rightarrow>
         and_then (authorize F C (ev_wall ev) db statement approval) (\<lambda>before_root.
         and_then (ensure (now \<le> so_deadline o') ''payment instruction has expired'') (\<lambda>_.
         and_then (ensure (bt_get (db_nullifiers db) (so_nullifier o') = None)
           ''payment nullifier was already settled'') (\<lambda>_.
         and_then (try_for_each (check_leg db) (so_legs o')) (\<lambda>_.
         and_then (spend_nullifier (so_nullifier o') (so_deadline o') statement db) (\<lambda>db.
         commit_receipt F ev o' statement before_root (of_nat (length (canonical (fx_gov F) request)))
           (db\<lparr>db_accounts := fold update_account (so_legs o') (db_accounts db)\<rparr>))))))))"

section \<open>Reads\<close>

definition account_state :: "facility_db \<Rightarrow> id32 \<Rightarrow> (id32 \<times> id32 \<times> u64) option db_result" where
  "account_state db handle = (case bt_get (db_accounts db) handle of None \<Rightarrow> Ok None
     | Some row \<Rightarrow> and_then (column (ac_sequence row)) (\<lambda>sequence. Ok (Some (ac_asset_id row, ac_commitment row, sequence))))"

definition asset_count :: "facility_db \<Rightarrow> nat" where
  "asset_count db = bt_len (db_assets db)"

definition stored_asset_kind :: "facility_db \<Rightarrow> id32 \<Rightarrow> asset_kind db_result" where
  "stored_asset_kind db i =
     and_then (ok_or (bt_get (db_assets db) i) ''reservation uses an unknown asset'') (\<lambda>row.
     and_then (ensure (as_active row) ''reservation uses an inactive asset'') (\<lambda>_. asset_kind_parse (as_kind row)))"

definition state_root :: "'g facility_ext \<Rightarrow> facility_db \<Rightarrow> id32 db_result" where
  "state_root F db = calculate_root F db"

text \<open>The loop of \<open>verify_receipt_chain\<close>: the digest reached, or \<open>None\<close> for an early \<open>Ok(false)\<close>.\<close>

fun follow_receipts :: "'g facility_ext \<Rightarrow> bytes \<Rightarrow> id32 \<Rightarrow> receipt_row list \<Rightarrow> id32 option db_result" where
  "follow_receipts F pk previous [] = Ok (Some previous)"
| "follow_receipts F pk previous (row # rows) =
     and_then (receipt_from_json F (rr_receipt_json row)) (\<lambda>receipt.
     if sr_previous_receipt receipt \<noteq> previous \<or> \<not> receipt_verify F pk receipt \<or>
        receipt_digest F receipt \<noteq> rr_receipt_digest row
     then Ok None else follow_receipts F pk (rr_receipt_digest row) rows)"

definition verify_receipt_chain :: "'g facility_ext \<Rightarrow> facility_config \<Rightarrow> facility_db \<Rightarrow> bool db_result" where
  "verify_receipt_chain F C db =
     and_then (follow_receipts F (fc_receipt_public_key C) 0 (db_receipts db)) (\<lambda>reached.
     Ok (reached = Some (db_last_receipt db)))"

section \<open>What a settlement does\<close>

lemma receipt_unsigned_sign [simp]: "receipt_unsigned F (r\<lparr>sr_signature := s\<rparr>) = receipt_unsigned F r"
  by (simp add: receipt_unsigned_def)

lemma draft_receipt_simps [simp]:
  "sr_operation_id (draft_receipt F ev i nf st root after prev n) = i"
  "sr_nullifier (draft_receipt F ev i nf st root after prev n) = nf"
  "sr_statement (draft_receipt F ev i nf st root after prev n) = st"
  "sr_before_root (draft_receipt F ev i nf st root after prev n) = root"
  "sr_after_root (draft_receipt F ev i nf st root after prev n) = after"
  "sr_previous_receipt (draft_receipt F ev i nf st root after prev n) = prev"
  by (simp_all add: draft_receipt_def Let_def)

lemma find_operation_None: "find (\<lambda>r. rr_operation_id r = i) rows = None \<longleftrightarrow> i \<notin> rr_operation_id ` set rows"
  by (auto simp: find_None_iff)

text \<open>The row a receipt is stored as, and the database after a settlement.\<close>

definition receipt_row_of :: "'g facility_ext \<Rightarrow> settlement_receipt \<Rightarrow> receipt_row" where
  "receipt_row_of F r = \<lparr>rr_operation_id = sr_operation_id r, rr_nullifier = sr_nullifier r,
     rr_statement = sr_statement r, rr_receipt_json = receipt_json F r, rr_receipt_digest = receipt_digest F r\<rparr>"

definition settled_db ::
  "'g facility_ext \<Rightarrow> settlement_order \<Rightarrow> settlement_receipt \<Rightarrow> (id32, id32) btree_map \<Rightarrow> facility_db \<Rightarrow> facility_db" where
  "settled_db F o' r ops db = db\<lparr>
     db_nullifiers := bt_insert (so_nullifier o') \<lparr>nf_deadline = so_deadline o', nf_statement = sr_statement r\<rparr>
       (db_nullifiers db),
     db_accounts := fold update_account (so_legs o') (db_accounts db),
     db_receipts := db_receipts db @ [receipt_row_of F r], db_operations := ops,
     db_state_root := sr_after_root r, db_last_receipt := receipt_digest F r\<rparr>"

lemma settled_db_simps [simp]:
  "db_assets (settled_db F o' r ops db) = db_assets db"
  "db_accounts (settled_db F o' r ops db) = fold update_account (so_legs o') (db_accounts db)"
  "db_nullifiers (settled_db F o' r ops db) =
     bt_insert (so_nullifier o') \<lparr>nf_deadline = so_deadline o', nf_statement = sr_statement r\<rparr> (db_nullifiers db)"
  "db_operations (settled_db F o' r ops db) = ops"
  "db_receipts (settled_db F o' r ops db) = db_receipts db @ [receipt_row_of F r]"
  "db_last_receipt (settled_db F o' r ops db) = receipt_digest F r"
  "db_guarantors (settled_db F o' r ops db) = db_guarantors db"
  "db_credit_facilities (settled_db F o' r ops db) = db_credit_facilities db"
  "db_scopes (settled_db F o' r ops db) = db_scopes db"
  "db_credit_holds (settled_db F o' r ops db) = db_credit_holds db"
  "db_credit_operations (settled_db F o' r ops db) = db_credit_operations db"
  "db_committees (settled_db F o' r ops db) = db_committees db"
  "db_batches (settled_db F o' r ops db) = db_batches db"
  "db_entries (settled_db F o' r ops db) = db_entries db"
  "db_admission_operations (settled_db F o' r ops db) = db_admission_operations db"
  by (simp_all add: settled_db_def)

text \<open>What an appended receipt is.\<close>

definition receipt_for ::
  "'g facility_ext \<Rightarrow> id32 \<Rightarrow> id32 \<Rightarrow> id32 \<Rightarrow> id32 \<Rightarrow> facility_db \<Rightarrow> settlement_receipt \<Rightarrow> bool" where
  "receipt_for F i nf st root db r \<longleftrightarrow> sr_operation_id r = i \<and> sr_nullifier r = nf \<and> sr_statement r = st \<and>
     sr_before_root r = root \<and> sr_previous_receipt r = db_last_receipt db \<and>
     fx_receipt_sign F (receipt_unsigned F r) = Some (sr_signature r) \<and>
     i \<notin> rr_operation_id ` set (db_receipts db) \<and> nf \<notin> rr_nullifier ` set (db_receipts db)"

lemma append_receiptE:
  assumes "append_receipt F ev i nf st root n db = Ok (db', r)"
  obtains ops where "receipt_for F i nf st root db r"
    "db' = db\<lparr>db_receipts := db_receipts db @ [receipt_row_of F r], db_operations := ops,
       db_state_root := sr_after_root r, db_last_receipt := receipt_digest F r\<rparr>"
    "bt_get (db_operations db) i = Some st \<longrightarrow> ops = db_operations db"
proof -
  from assms obtain after sig db2
    where sig: "fx_receipt_sign F (receipt_unsigned F (draft_receipt F ev i nf st root after (db_last_receipt db) n)) = Some sig"
    and r: "r = (draft_receipt F ev i nf st root after (db_last_receipt db) n)\<lparr>sr_signature := sig\<rparr>"
    and ins: "insert_receipt (receipt_row_of F r) db = Ok db2"
    and db': "db' = db2\<lparr>db_state_root := after, db_last_receipt := receipt_digest F r\<rparr>"
    by (auto simp: append_receipt_def Let_def receipt_row_of_def)
  from ins have fresh: "i \<notin> rr_operation_id ` set (db_receipts db)" "nf \<notin> rr_nullifier ` set (db_receipts db)"
    and trig: "operation_trigger (db\<lparr>db_receipts := db_receipts db @ [receipt_row_of F r]\<rparr>) i st = Ok db2"
    unfolding r by (auto simp: insert_receipt_def receipt_row_of_def)
  from trig obtain ops where db2: "db2 = db\<lparr>db_receipts := db_receipts db @ [receipt_row_of F r], db_operations := ops\<rparr>"
    by (rule operation_triggerE)
  have "bt_get (db_operations db) i = Some st \<longrightarrow> ops = db_operations db"
    using trig arg_cong [OF db2, of db_operations] by (auto simp: operation_trigger_def)
  with fresh show thesis using that sig by (simp add: r receipt_for_def db' db2)
qed

lemma register_operationE:
  assumes "register_operation db i st = Ok db'"
  obtains ops where "db' = db\<lparr>db_operations := ops\<rparr>" "bt_get ops i = Some st"
    "\<forall>j s. bt_get (db_operations db) j = Some s \<longrightarrow> bt_get ops j = Some s"
proof
  show "db' = db\<lparr>db_operations := db_operations db'\<rparr>" "bt_get (db_operations db') i = Some st"
    "\<forall>j s. bt_get (db_operations db) j = Some s \<longrightarrow> bt_get (db_operations db') j = Some s"
    using assms by (auto simp: register_operation_def split: option.splits if_splits)
qed

lemma commit_receiptD:
  assumes "commit_receipt F ev o' st root n db = Ok (db', r)"
  obtains ops where "receipt_for F (so_operation_id o') (so_nullifier o') st root db r"
    "db' = db\<lparr>db_receipts := db_receipts db @ [receipt_row_of F r], db_operations := ops,
       db_state_root := sr_after_root r, db_last_receipt := receipt_digest F r\<rparr>"
    "bt_get ops (so_operation_id o') = Some st"
    "\<forall>i s. bt_get (db_operations db) i = Some s \<longrightarrow> bt_get ops i = Some s"
proof -
  from assms obtain db1 where reg: "register_operation db (so_operation_id o') st = Ok db1"
    and app: "append_receipt F ev (so_operation_id o') (so_nullifier o') st root n db1 = Ok (db', r)"
    by (auto simp: commit_receipt_def)
  from reg obtain ops where ops: "db1 = db\<lparr>db_operations := ops\<rparr>" "bt_get ops (so_operation_id o') = Some st"
    "\<forall>i s. bt_get (db_operations db) i = Some s \<longrightarrow> bt_get ops i = Some s"
    by (rule register_operationE)
  from app obtain ops' where r: "receipt_for F (so_operation_id o') (so_nullifier o') st root db1 r"
    and db': "db' = db1\<lparr>db_receipts := db_receipts db1 @ [receipt_row_of F r], db_operations := ops',
       db_state_root := sr_after_root r, db_last_receipt := receipt_digest F r\<rparr>" and "ops' = db_operations db1"
    by (rule append_receiptE) (use ops in simp)
  then show thesis using ops that by (simp add: receipt_for_def)
qed

lemma settleE:
  assumes "settle F C ev now o' ap db = Ok (db', r)"
  obtains (replay) row where "find (\<lambda>r. rr_operation_id r = so_operation_id o') (db_receipts db) = Some row"
      "order_statement F o' = Ok (rr_statement row)" "receipt_from_json F (rr_receipt_json row) = Ok r" "db' = db"
  | (fresh) st root ops where "so_operation_id o' \<notin> rr_operation_id ` set (db_receipts db)"
      "order_statement F o' = Ok st" "authorize F C (ev_wall ev) db st ap = Ok root" "now \<le> so_deadline o'"
      "bt_get (db_nullifiers db) (so_nullifier o') = None" "\<forall>l \<in> set (so_legs o'). check_leg db l = Ok ()"
      "distinct (map sl_handle (so_legs o'))"
      "receipt_for F (so_operation_id o') (so_nullifier o') st root db r"
      "\<forall>i s. bt_get (db_operations db) i = Some s \<longrightarrow> bt_get ops i = Some s"
      "bt_get ops (so_operation_id o') = Some st" "db' = settled_db F o' r ops db"
proof -
  from assms obtain request st where body: "order_body o' = Ok request" "order_statement F o' = Ok st"
    by (auto simp: settle_def)
  then have dist: "distinct (map sl_handle (so_legs o'))" by (simp add: order_body_def)
  show thesis
  proof (cases "find (\<lambda>r. rr_operation_id r = so_operation_id o') (db_receipts db)")
    case (Some row)
    with assms body show ?thesis by (intro replay [OF Some]) (auto simp: settle_def split: if_splits)
  next
    case None
    with assms body obtain root db1 where facts: "authorize F C (ev_wall ev) db st ap = Ok root"
        "now \<le> so_deadline o'" "bt_get (db_nullifiers db) (so_nullifier o') = None"
        "\<forall>l \<in> set (so_legs o'). check_leg db l = Ok ()"
      and spend: "spend_nullifier (so_nullifier o') (so_deadline o') st db = Ok db1"
      and commit: "commit_receipt F ev o' st root (of_nat (length (canonical (fx_gov F) request)))
        (db1\<lparr>db_accounts := fold update_account (so_legs o') (db_accounts db1)\<rparr>) = Ok (db', r)"
      by (auto simp: settle_def)
    from spend have db1: "db1 = db\<lparr>db_nullifiers := bt_insert (so_nullifier o')
        \<lparr>nf_deadline = so_deadline o', nf_statement = st\<rparr> (db_nullifiers db)\<rparr>"
      by (simp add: spend_nullifier_def)
    from commit show ?thesis
      by (rule commit_receiptD, intro fresh)
        (use None body facts dist in \<open>simp_all add: db1 settled_db_def find_operation_None receipt_for_def\<close>)
  qed
qed

section \<open>Accounts\<close>

lemma fold_update_account:
  "distinct (map sl_handle ls) \<Longrightarrow> bt_get (fold update_account ls m) h =
     (case (find (\<lambda>l. sl_handle l = h) ls, bt_get m h) of
        (Some l, Some row) \<Rightarrow> Some (row\<lparr>ac_commitment := sl_after l, ac_sequence := ac_sequence row + 1\<rparr>)
      | _ \<Rightarrow> bt_get m h)"
proof (induction ls arbitrary: m)
  case (Cons l ls)
  then have "find (\<lambda>l'. sl_handle l' = sl_handle l) ls = None" by (auto simp: find_None_iff image_iff)
  with Cons show ?case
    by (auto simp: update_account_def split: option.splits)
qed (auto split: option.splits)

lemma check_leg_Ok:
  assumes "check_leg db l = Ok u"
  obtains row where "bt_get (db_accounts db) (sl_handle l) = Some row" "ac_asset_id row = sl_asset_id l"
    "ac_commitment row = sl_before l" "ac_sequence row = sl_before_sequence l" "ac_sequence row \<le> max_unix_time"
    "asset_active db (sl_asset_id l)"
  using assms by (auto simp: check_leg_def column_def split: if_splits)

text \<open>The account a leg describes before, and after.\<close>

definition leg_applied :: "state_leg \<Rightarrow> account_row option \<Rightarrow> account_row option \<Rightarrow> bool" where
  "leg_applied l before after \<longleftrightarrow> (\<exists>row. before = Some row \<and> ac_asset_id row = sl_asset_id l \<and>
     ac_commitment row = sl_before l \<and> ac_sequence row = sl_before_sequence l \<and>
     after = Some (row\<lparr>ac_commitment := sl_after l, ac_sequence := ac_sequence row + 1\<rparr>) \<and>
     unat (ac_sequence row + 1) = Suc (unat (ac_sequence row)))"

lemma unat_next: "v \<le> max_unix_time \<Longrightarrow> unat (v + 1) = Suc (unat v)"
proof -
  assume "v \<le> max_unix_time"
  moreover have "unat max_unix_time = 2 ^ 63 - 1"
    by (simp add: max_unix_time_def)
  ultimately have "unat v + unat (1 :: u64) < 2 ^ 64" by (simp add: word_le_nat_alt)
  then show ?thesis using unat_add_less [of v 1] by simp
qed

lemma legs_applied:
  assumes "distinct (map sl_handle (so_legs o'))" "\<forall>l \<in> set (so_legs o'). check_leg db l = Ok ()"
  shows "l \<in> set (so_legs o') \<Longrightarrow> leg_applied l (bt_get (db_accounts db) (sl_handle l))
      (bt_get (fold update_account (so_legs o') (db_accounts db)) (sl_handle l))"
    and "h \<notin> sl_handle ` set (so_legs o') \<Longrightarrow>
      bt_get (fold update_account (so_legs o') (db_accounts db)) h = bt_get (db_accounts db) h"
proof -
  assume l: "l \<in> set (so_legs o')"
  then obtain k where k: "find (\<lambda>x. sl_handle x = sl_handle l) (so_legs o') = Some k"
    by (metis (mono_tags, lifting) find_None_iff option.exhaust)
  then have "k \<in> set (so_legs o')" "sl_handle k = sl_handle l"
    by (auto simp: find_Some_iff)
  with assms(1) l have "k = l" by (auto simp: distinct_map dest: inj_onD)
  moreover from assms(2) l have "check_leg db l = Ok ()" by simp
  then obtain row where "bt_get (db_accounts db) (sl_handle l) = Some row" "ac_asset_id row = sl_asset_id l"
    "ac_commitment row = sl_before l" "ac_sequence row = sl_before_sequence l" "ac_sequence row \<le> max_unix_time"
    by (rule check_leg_Ok)
  ultimately show "leg_applied l (bt_get (db_accounts db) (sl_handle l))
      (bt_get (fold update_account (so_legs o') (db_accounts db)) (sl_handle l))"
    using k by (simp add: fold_update_account [OF assms(1)] leg_applied_def unat_next)
next
  assume "h \<notin> sl_handle ` set (so_legs o')"
  then have "find (\<lambda>x. sl_handle x = h) (so_legs o') = None" by (auto simp: find_None_iff)
  then show "bt_get (fold update_account (so_legs o') (db_accounts db)) h = bt_get (db_accounts db) h"
    by (simp add: fold_update_account [OF assms(1)])
qed

section \<open>The receipt chain\<close>

text \<open>
  What the facility relies on: a receipt read back from its JSON is the receipt, and a
  signature made with the receipt key has the length of a hybrid signature and verifies.
\<close>

definition receipt_laws :: "'g facility_ext \<Rightarrow> facility_config \<Rightarrow> bool" where
  "receipt_laws F C \<longleftrightarrow> (\<forall>w. fx_wire_from_slice F (fx_wire_to_vec F w) = Some w) \<and>
     (\<forall>m s. fx_receipt_sign F m = Some s \<longrightarrow>
        length s = 3373 \<and> gc_hybrid_verify (fx_gov F) AuditCheckpoint (fc_receipt_public_key C) m s)"

lemma receipt_json_roundtrip:
  assumes "receipt_laws F C" "length (sr_signature r) = 3373"
  shows "receipt_from_json F (receipt_json F r) = Ok r"
  using assms by (simp add: receipt_laws_def receipt_from_json_def receipt_json_def wire_from_receipt_def wire_into_receipt_def)

definition chain_ok :: "'g facility_ext \<Rightarrow> facility_config \<Rightarrow> facility_db \<Rightarrow> bool" where
  "chain_ok F C db \<longleftrightarrow>
     follow_receipts F (fc_receipt_public_key C) 0 (db_receipts db) = Ok (Some (db_last_receipt db))"

lemma follow_receipts_append:
  "follow_receipts F pk d (rows @ rows') = and_then (follow_receipts F pk d rows) (\<lambda>reached.
     case reached of None \<Rightarrow> Ok None | Some d' \<Rightarrow> follow_receipts F pk d' rows')"
proof (induction rows arbitrary: d)
  case (Cons row rows)
  then show ?case by (cases "receipt_from_json F (rr_receipt_json row)") simp_all
qed simp

lemma chain_ok_append:
  assumes "receipt_laws F C" "chain_ok F C db" "receipt_for F i nf st root db r"
    "db_receipts db' = db_receipts db @ [receipt_row_of F r]" "db_last_receipt db' = receipt_digest F r"
  shows "chain_ok F C db'"
proof -
  have sig: "fx_receipt_sign F (receipt_unsigned F r) = Some (sr_signature r)" "sr_previous_receipt r = db_last_receipt db"
    using assms(3) by (simp_all add: receipt_for_def)
  have len: "length (sr_signature r) = 3373" and ver: "receipt_verify F (fc_receipt_public_key C) r"
    using assms(1) sig(1) unfolding receipt_laws_def receipt_verify_def by blast+
  have "follow_receipts F (fc_receipt_public_key C) (db_last_receipt db) [receipt_row_of F r] =
      Ok (Some (receipt_digest F r))"
    using receipt_json_roundtrip [OF assms(1) len] ver sig(2) by (simp add: receipt_row_of_def)
  with assms(2,4,5) show ?thesis
    by (simp add: chain_ok_def follow_receipts_append)
qed

lemma chain_ok_settle:
  assumes "receipt_laws F C" "chain_ok F C db" "settle F C ev now o' ap db = Ok (db', r)"
  shows "chain_ok F C db'"
  using assms(3)
proof (cases rule: settleE)
  case (fresh st root ops)
  from chain_ok_append [OF assms(1,2) fresh(8)] show ?thesis by (simp add: fresh(11))
qed (use assms(2) in simp)

lemma verify_receipt_chain_ok: "chain_ok F C db \<Longrightarrow> verify_receipt_chain F C db = Ok True"
  by (simp add: chain_ok_def verify_receipt_chain_def)

end
