(* ===== verification/CreditLine.thy ===== *)
theory CreditLine
  imports FacilitySettle
begin

text \<open>
  \<open>facility.rs\<close>: the guarantee facilities. A guarantor's signed grant opens a line whose cap,
  availability, held and outstanding amounts are commitments; a hold reserves part of the
  availability for one request, and is later released back or consumed into settled debt;
  a signed amendment replaces the cap, and a signed control changes the status. Every change names
  the exact commitments and sequence number it starts from, and carries range proofs for the hidden values
  it produces.

  Group points and range proofs under the credit-facility Pedersen key belong to other
  crates and are the fields of \<open>credit_ext\<close>. Shown here: each operation preserves that
  the limit is the sum of what is available, held and outstanding, that the held amount
  of a line is the sum of its live holds, and that only frozen or defaulted lines are over
  their limit.
\<close>

section \<open>Points and range proofs\<close>

text \<open>
  \<open>CompressedRistretto::decompress\<close>, \<open>verify_multiple\<close> and \<open>prove_multiple\<close> of a range proof under the
  key \<open>qomm:defmi:credit-facility:v1\<close>, and whether \<open>RangeProof::from_bytes\<close> accepts.
\<close>

record ('p, 's) credit_ext =
  ce_decompress :: "id32 \<Rightarrow> 'p option"
  ce_range_verify :: "transcript \<Rightarrow> bytes \<Rightarrow> id32 list \<Rightarrow> nat \<Rightarrow> bool"
  ce_range_prove :: "transcript \<Rightarrow> u64 list \<Rightarrow> 's list \<Rightarrow> nat \<Rightarrow> (bytes \<times> id32 list) option"
  ce_range_bytes :: "bytes \<Rightarrow> bool"

definition point :: "('p, 's) credit_ext \<Rightarrow> id32 \<Rightarrow> string \<Rightarrow> 'p db_result" where
  "point E encoded name = ok_or (ce_decompress E encoded) (name @ '' is not a canonical Ristretto commitment'')"

definition context_transcript :: "bytes \<Rightarrow> id32 \<Rightarrow> transcript" where
  "context_transcript label ctx = append_message (ascii ''context'') (id_bytes ctx) (transcript_new label)"

text \<open>A \<open>json!\<close> object, its fields evaluated in order.\<close>

definition jobject :: "(string \<times> json db_result) list \<Rightarrow> json db_result" where
  "jobject fs = and_then (try_map (\<lambda>(name, field). and_then field (\<lambda>v. Ok (lit name, v))) fs) (\<lambda>ps. Ok (JObject ps))"

definition jnz :: "string \<Rightarrow> id32 \<Rightarrow> string \<times> json db_result" where
  "jnz name i = (name, and_then (nonzero i name) (\<lambda>s. Ok (JString s)))"

definition jid :: "string \<Rightarrow> id32 \<Rightarrow> string \<times> json db_result" where
  "jid name i = (name, Ok (JString (key i)))"

definition jnum :: "string \<Rightarrow> u64 \<Rightarrow> string \<times> json db_result" where
  "jnum name n = (name, Ok (JNumber (unat n)))"

definition jstr :: "string \<Rightarrow> str \<Rightarrow> string \<times> json db_result" where
  "jstr name s = (name, Ok (JString s))"

section \<open>Guarantors\<close>

record guarantor_definition =
  gd_guarantor_id :: id32
  gd_kind :: guarantor_kind
  gd_name :: str
  gd_public_key :: id32
  gd_pq_public_key :: bytes
  gd_risk_policy_digest :: id32

definition guarantor_body :: "'g facility_ext \<Rightarrow> guarantor_definition \<Rightarrow> json db_result" where
  "guarantor_body F g =
     and_then (ensure (\<not> (gd_name g = [] \<or> 128 < length (as_bytes (gd_name g)) \<or> gd_public_key g = 0))
       ''guarantor name or public key is invalid'') (\<lambda>_.
     and_then (ensure (gc_ed25519_key (fx_gov F) (id_bytes (gd_public_key g))) ''guarantor public key is malformed'') (\<lambda>_.
     and_then (ensure (\<not> (fx_ed25519_weak F (id_bytes (gd_public_key g)) \<or> length (gd_pq_public_key g) \<noteq> 1952))
       ''guarantor requires an enrolled Ed25519 and ML-DSA-65 key pair; explicit re-enrollment is required for legacy keys'') (\<lambda>_.
     jobject [jnz ''guarantor_id'' (gd_guarantor_id g), jstr ''kind'' (guarantor_kind_str (gd_kind g)),
       jstr ''name'' (gd_name g), jid ''public_key'' (gd_public_key g),
       jstr ''pq_public_key'' (hex_encode (gd_pq_public_key g)),
       (''signature_suite'', Ok (fx_suite_json F (gc_suite_new (fx_gov F) Ed25519MlDsa65))),
       jnz ''risk_policy_digest'' (gd_risk_policy_digest g)])))"

definition guarantor_statement :: "'g facility_ext \<Rightarrow> guarantor_definition \<Rightarrow> id32 db_result" where
  "guarantor_statement F g = and_then (guarantor_body F g) (\<lambda>body.
     Ok (body_digest (fx_gov F) (ascii ''QOMM:DEFMI:GUARANTOR:v1'') body))"

definition verify_guarantor_signature ::
  "'g facility_ext \<Rightarrow> id32 \<Rightarrow> bytes \<Rightarrow> bytes \<Rightarrow> signature \<Rightarrow> unit db_result" where
  "verify_guarantor_signature F classical pq message signature =
     and_then (ensure (\<not> (length pq \<noteq> 1952 \<or> length signature \<noteq> 64 + 3309))
       ''guarantor authorization requires both Ed25519 and ML-DSA-65 components'') (\<lambda>_.
     and_then (ensure (gc_ed25519_key (fx_gov F) (id_bytes classical)) ''guarantor classical key is invalid'') (\<lambda>_.
     and_then (ensure (\<not> fx_ed25519_weak F (id_bytes classical)) ''guarantor classical key is weak'') (\<lambda>_.
     and_then (ensure (fx_ed25519_verify_strict F (id_bytes classical) message (take 64 signature))
       ''guarantor Ed25519 signature is invalid'') (\<lambda>_.
     ensure (fx_ml_dsa_65_verify F Attestation pq message (drop 64 signature))
       ''guarantor ML-DSA-65 signature is invalid''))))"

definition register_guarantor ::
  "'g facility_ext \<Rightarrow> facility_config \<Rightarrow> u64 option \<Rightarrow> guarantor_definition \<Rightarrow> quorum_approval \<Rightarrow> facility_db
    \<Rightarrow> facility_db db_result" where
  "register_guarantor F C wall g approval db =
     and_then (guarantor_statement F g) (\<lambda>statement.
     case bt_get (db_guarantors db) (gd_guarantor_id g) of
       Some row \<Rightarrow> if gr_statement row = statement then Ok db
         else Err ''guarantor identifier was reused for another definition''
     | None \<Rightarrow>
         and_then (authorize F C wall db statement approval) (\<lambda>_.
         and_then (ensure (0 \<notin> set (gd_name g) \<and>
             gd_public_key g \<notin> gr_public_key ` set (bt_values (db_guarantors db)) \<and>
             gd_pq_public_key g \<notin> gr_pq_public_key ` set (bt_values (db_guarantors db)) \<and>
             statement \<notin> gr_statement ` set (bt_values (db_guarantors db)))
           ''guarantor or public key is already registered'') (\<lambda>_.
         Ok (db\<lparr>db_guarantors := bt_insert (gd_guarantor_id g)
           \<lparr>gr_kind = guarantor_kind_str (gd_kind g), gr_name = gd_name g, gr_public_key = gd_public_key g,
            gr_pq_public_key = gd_pq_public_key g, gr_risk_policy_digest = gd_risk_policy_digest g,
            gr_active = True, gr_statement = statement\<rparr> (db_guarantors db)\<rparr>))))"

definition guarantor_message :: "id32 \<Rightarrow> bytes" where
  "guarantor_message statement = ascii ''QOMM:DEFMI:GUARANTOR:SIGNATURE:v1'' @ id_bytes statement"

section \<open>Reading and writing lines\<close>

record credit_facility_snapshot =
  fs_facility_id :: id32
  fs_guarantor_id :: id32
  fs_beneficiary :: id32
  fs_rail_asset_id :: id32
  fs_cap :: id32
  fs_available :: id32
  fs_held :: id32
  fs_outstanding :: id32
  fs_overlimit :: id32
  fs_collateral :: id32
  fs_risk_policy_digest :: id32
  fs_valid_from :: u64
  fs_valid_until :: u64
  fs_status :: facility_status
  fs_sequence :: u64

definition load_credit_facility :: "facility_db \<Rightarrow> id32 \<Rightarrow> credit_facility_snapshot option db_result" where
  "load_credit_facility db facility_id =
     (case bt_get (db_credit_facilities db) facility_id of None \<Rightarrow> Ok None
      | Some row \<Rightarrow>
          and_then (column (cf_valid_from row)) (\<lambda>valid_from.
          and_then (column (cf_valid_until row)) (\<lambda>valid_until.
          and_then (facility_status_parse (cf_status row)) (\<lambda>status.
          and_then (column (cf_sequence row)) (\<lambda>sequence.
          Ok (Some \<lparr>fs_facility_id = facility_id, fs_guarantor_id = cf_guarantor_id row,
            fs_beneficiary = cf_beneficiary row, fs_rail_asset_id = cf_rail_asset_id row, fs_cap = cf_cap row,
            fs_available = cf_available row, fs_held = cf_held row, fs_outstanding = cf_outstanding row,
            fs_overlimit = cf_overlimit row, fs_collateral = cf_collateral row,
            fs_risk_policy_digest = cf_risk_policy_digest row, fs_valid_from = valid_from,
            fs_valid_until = valid_until, fs_status = status, fs_sequence = sequence\<rparr>))))))"

definition load_required :: "facility_db \<Rightarrow> id32 \<Rightarrow> string \<Rightarrow> credit_facility_snapshot db_result" where
  "load_required db facility_id missing =
     and_then (load_credit_facility db facility_id) (\<lambda>loaded. ok_or loaded missing)"

definition credit_operation :: "facility_db \<Rightarrow> id32 \<Rightarrow> id32 \<Rightarrow> bool db_result" where
  "credit_operation db operation_id statement =
     (case bt_get (db_credit_operations db) operation_id of None \<Rightarrow> Ok False
      | Some row \<Rightarrow>
          if co_statement row \<noteq> statement then Err ''credit operation identifier was reused for another transition''
          else Ok True)"

definition insert_credit_operation :: "id32 \<Rightarrow> id32 \<Rightarrow> str \<Rightarrow> id32 \<Rightarrow> facility_db \<Rightarrow> facility_db db_result" where
  "insert_credit_operation operation_id facility_id kind statement db =
     and_then (ensure (bt_get (db_credit_operations db) operation_id = None \<and>
         statement \<notin> co_statement ` set (bt_values (db_credit_operations db)))
       ''UNIQUE constraint failed: credit_operations'') (\<lambda>_.
     operation_trigger (db\<lparr>db_credit_operations := bt_insert operation_id
       \<lparr>co_facility_id = facility_id, co_kind = kind, co_statement = statement\<rparr> (db_credit_operations db)\<rparr>)
       operation_id statement)"

text \<open>
  The compare-and-swap: \<open>UPDATE ... WHERE facility_id=... AND sequence=...\<close> with \<open>sequence+1\<close>, then
  \<open>changes()\<close> must be 1.
\<close>

definition swap_facility ::
  "id32 \<Rightarrow> u64 \<Rightarrow> (credit_facility_row \<Rightarrow> credit_facility_row) \<Rightarrow> string \<Rightarrow> facility_db \<Rightarrow> facility_db db_result" where
  "swap_facility facility_id before_sequence change lost db =
     (case bt_get (db_credit_facilities db) facility_id of None \<Rightarrow> Err lost
      | Some row \<Rightarrow>
          if cf_sequence row = before_sequence
          then Ok (db\<lparr>db_credit_facilities := bt_insert facility_id
            ((change row)\<lparr>cf_sequence := cf_sequence row + 1\<rparr>) (db_credit_facilities db)\<rparr>)
          else Err lost)"

section \<open>Grants\<close>

record credit_facility_grant =
  cg_operation_id :: id32
  cg_facility_id :: id32
  cg_guarantor_id :: id32
  cg_beneficiary :: id32
  cg_rail_asset_id :: id32
  cg_cap :: id32
  cg_available :: id32
  cg_held :: id32
  cg_outstanding :: id32
  cg_collateral :: id32
  cg_risk_policy_digest :: id32
  cg_relation_proof_digest :: id32
  cg_valid_from :: u64
  cg_valid_until :: u64
  cg_nonce :: id32
  cg_guarantor_signature :: signature

definition grant_body :: "credit_facility_grant \<Rightarrow> json db_result" where
  "grant_body g =
     and_then (ensure (\<not> (cg_valid_from g = 0 \<or> cg_valid_until g < cg_valid_from g \<or> max_unix_time < cg_valid_until g))
       ''credit facility validity interval is invalid'') (\<lambda>_.
     and_then (ensure (\<not> (cg_available g \<noteq> cg_cap g \<or> cg_held g \<noteq> 0 \<or> cg_outstanding g \<noteq> 0))
       ''new credit facility must start fully available and unused'') (\<lambda>_.
     jobject [jnz ''operation_id'' (cg_operation_id g), jnz ''facility_id'' (cg_facility_id g),
       jnz ''guarantor_id'' (cg_guarantor_id g), jnz ''beneficiary_commitment'' (cg_beneficiary g),
       jnz ''rail_asset_id'' (cg_rail_asset_id g), jnz ''cap_commitment'' (cg_cap g),
       jnz ''available_commitment'' (cg_available g), jid ''held_commitment'' (cg_held g),
       jid ''outstanding_commitment'' (cg_outstanding g), jnz ''collateral_commitment'' (cg_collateral g),
       jnz ''risk_policy_digest'' (cg_risk_policy_digest g), jnz ''relation_proof_digest'' (cg_relation_proof_digest g),
       jnum ''valid_from'' (cg_valid_from g), jnum ''valid_until'' (cg_valid_until g), jnz ''nonce'' (cg_nonce g)]))"

definition grant_statement :: "'g facility_ext \<Rightarrow> credit_facility_grant \<Rightarrow> id32 db_result" where
  "grant_statement F g = and_then (grant_body g) (\<lambda>body.
     Ok (body_digest (fx_gov F) (ascii ''QOMM:DEFMI:CREDIT:GRANT:v1'') body))"

definition granted_row :: "credit_facility_grant \<Rightarrow> id32 \<Rightarrow> credit_facility_row" where
  "granted_row g statement =
     \<lparr>cf_guarantor_id = cg_guarantor_id g, cf_beneficiary = cg_beneficiary g, cf_rail_asset_id = cg_rail_asset_id g,
      cf_cap = cg_cap g, cf_available = cg_available g, cf_held = cg_held g, cf_outstanding = cg_outstanding g,
      cf_overlimit = 0, cf_collateral = cg_collateral g, cf_risk_policy_digest = cg_risk_policy_digest g,
      cf_valid_from = cg_valid_from g, cf_valid_until = cg_valid_until g, cf_status = lit ''active'',
      cf_sequence = 0, cf_grant_statement = statement\<rparr>"

definition insert_grant :: "credit_facility_grant \<Rightarrow> id32 \<Rightarrow> facility_db \<Rightarrow> facility_db db_result" where
  "insert_grant g statement db =
     and_then (ensure (statement \<notin> cf_grant_statement ` set (bt_values (db_credit_facilities db)))
       ''UNIQUE constraint failed: credit_facilities.grant_statement'') (\<lambda>_.
     and_then (ensure (cg_facility_id g \<notin> set (bt_values (db_scopes db)))
       ''UNIQUE constraint failed: credit_facility_scopes.facility_id'') (\<lambda>_.
     insert_credit_operation (cg_operation_id g) (cg_facility_id g) (lit ''grant'') statement
       (db\<lparr>db_credit_facilities := bt_insert (cg_facility_id g) (granted_row g statement) (db_credit_facilities db),
          db_scopes := bt_insert (cg_guarantor_id g, cg_beneficiary g, cg_rail_asset_id g) (cg_facility_id g)
            (db_scopes db)\<rparr>)))"

definition grant_credit_facility ::
  "'g facility_ext \<Rightarrow> facility_config \<Rightarrow> u64 option \<Rightarrow> u64 \<Rightarrow> credit_facility_grant \<Rightarrow> quorum_approval \<Rightarrow> facility_db
    \<Rightarrow> (facility_db \<times> credit_facility_snapshot) db_result" where
  "grant_credit_facility F C wall now g approval db =
     and_then (grant_statement F g) (\<lambda>statement.
     and_then (credit_operation db (cg_operation_id g) statement) (\<lambda>known.
     if known then and_then (load_required db (cg_facility_id g) ''idempotent credit grant has no facility state'')
       (\<lambda>snapshot. Ok (db, snapshot))
     else
       and_then (ensure (\<not> (cg_valid_until g < now \<or> max_unix_time < now))
         ''credit facility grant has expired or cannot be stored'') (\<lambda>_.
       and_then (authorize F C wall db statement approval) (\<lambda>_.
       and_then (ok_or (bt_get (db_guarantors db) (cg_guarantor_id g)) ''credit facility names an unknown guarantor'') (\<lambda>guarantor.
       and_then (ensure (gr_active guarantor) ''credit facility guarantor is inactive'') (\<lambda>_.
       and_then (ensure (gr_risk_policy_digest guarantor = cg_risk_policy_digest g)
         ''credit facility uses an unregistered risk policy'') (\<lambda>_.
       and_then (verify_guarantor_signature F (gr_public_key guarantor) (gr_pq_public_key guarantor)
         (guarantor_message statement) (cg_guarantor_signature g)) (\<lambda>_.
       and_then (ensure (asset_active db (cg_rail_asset_id g)) ''credit facility asset rail is unknown or inactive'') (\<lambda>_.
       and_then (load_credit_facility db (cg_facility_id g)) (\<lambda>existing.
       and_then (ensure (existing = None) ''credit facility identifier is already registered'') (\<lambda>_.
       and_then (ensure (bt_get (db_scopes db) (cg_guarantor_id g, cg_beneficiary g, cg_rail_asset_id g) = None)
         ''this guarantor already has a facility for the legal entity and asset rail'') (\<lambda>_.
       and_then (insert_grant g statement db) (\<lambda>db.
       and_then (load_required db (cg_facility_id g) ''credit facility was not stored'') (\<lambda>snapshot.
       Ok (db, snapshot)))))))))))))))"

section \<open>Transitions\<close>

datatype credit_transition_kind = Hold | Release | Consume

fun credit_transition_str :: "credit_transition_kind \<Rightarrow> str" where
  "credit_transition_str Hold = lit ''hold''"
| "credit_transition_str Release = lit ''release''"
| "credit_transition_str Consume = lit ''consume''"

record credit_facility_transition =
  ct_operation_id :: id32
  ct_facility_id :: id32
  ct_hold_id :: id32
  ct_kind :: credit_transition_kind
  ct_query :: id32
  ct_amount :: id32
  ct_consumed :: id32
  ct_refund :: id32
  ct_before_available :: id32
  ct_after_available :: id32
  ct_before_held :: id32
  ct_after_held :: id32
  ct_before_outstanding :: id32
  ct_after_outstanding :: id32
  ct_before_sequence :: u64
  ct_expires_at :: u64
  ct_settlement_digest :: id32
  ct_relation_proof_digest :: id32

definition transition_fields :: "credit_facility_transition \<Rightarrow> (string \<times> json db_result) list" where
  "transition_fields t =
     [jnz ''operation_id'' (ct_operation_id t), jnz ''facility_id'' (ct_facility_id t), jnz ''hold_id'' (ct_hold_id t),
      jstr ''kind'' (credit_transition_str (ct_kind t)), jnz ''query_commitment'' (ct_query t),
      jnz ''amount_commitment'' (ct_amount t), jid ''consumed_commitment'' (ct_consumed t),
      jid ''refund_commitment'' (ct_refund t), jid ''before_available_commitment'' (ct_before_available t),
      jid ''after_available_commitment'' (ct_after_available t), jid ''before_held_commitment'' (ct_before_held t),
      jid ''after_held_commitment'' (ct_after_held t),
      jid ''before_outstanding_commitment'' (ct_before_outstanding t),
      jid ''after_outstanding_commitment'' (ct_after_outstanding t), jnum ''before_sequence'' (ct_before_sequence t),
      jnum ''expires_at'' (ct_expires_at t), jid ''settlement_digest'' (ct_settlement_digest t)]"

definition transition_body :: "credit_facility_transition \<Rightarrow> json db_result" where
  "transition_body t =
     and_then (ensure (\<not> (ct_expires_at t = 0 \<or> max_unix_time < ct_expires_at t \<or> ct_before_sequence t = u64_max))
       ''credit reservation expiry or sequence is invalid'') (\<lambda>_.
     and_then (ensure (\<not> (ct_kind t = Hold \<and> ct_settlement_digest t \<noteq> 0)) ''a new hold cannot name a settlement'') (\<lambda>_.
     and_then (ensure (\<not> (ct_kind t = Release \<and> ct_settlement_digest t \<noteq> 0))
       ''a released hold cannot name a settlement'') (\<lambda>_.
     and_then (ensure (\<not> (ct_kind t = Consume \<and> ct_settlement_digest t = 0))
       ''a consumed hold must bind the resulting zkPI settlement'') (\<lambda>_.
     and_then (ensure (\<not> ((ct_kind t = Hold \<or> ct_kind t = Release) \<and> (ct_consumed t \<noteq> 0 \<or> ct_refund t \<noteq> 0)))
       ''only hold consumption can contain used and refunded amounts'') (\<lambda>_.
     jobject (transition_fields t @ [jnz ''relation_proof_digest'' (ct_relation_proof_digest t)]))))))"

definition transition_statement :: "'g facility_ext \<Rightarrow> credit_facility_transition \<Rightarrow> id32 db_result" where
  "transition_statement F t = and_then (transition_body t) (\<lambda>body.
     Ok (body_digest (fx_gov F) (ascii ''QOMM:DEFMI:CREDIT:TRANSITION:v1'') body))"

definition transition_context :: "'g facility_ext \<Rightarrow> credit_facility_transition \<Rightarrow> id32 db_result" where
  "transition_context F t = and_then (jobject (transition_fields t)) (\<lambda>body.
     Ok (body_digest (fx_gov F) (ascii ''QOMM:DEFMI:CREDIT:RELATION:CONTEXT:v1'') body))"

definition verify_credit_relation_equations ::
  "('p::ab_group_add, 's) credit_ext \<Rightarrow> credit_facility_transition \<Rightarrow> unit db_result" where
  "verify_credit_relation_equations E t =
     and_then (point E (ct_before_available t) ''before available commitment'') (\<lambda>before_available.
     and_then (point E (ct_after_available t) ''after available commitment'') (\<lambda>after_available.
     and_then (point E (ct_before_held t) ''before held commitment'') (\<lambda>before_held.
     and_then (point E (ct_after_held t) ''after held commitment'') (\<lambda>after_held.
     and_then (point E (ct_before_outstanding t) ''before outstanding commitment'') (\<lambda>before_outstanding.
     and_then (point E (ct_after_outstanding t) ''after outstanding commitment'') (\<lambda>after_outstanding.
     and_then (point E (ct_amount t) ''hold amount commitment'') (\<lambda>amount.
     and_then (point E (ct_consumed t) ''consumed commitment'') (\<lambda>consumed.
     and_then (point E (ct_refund t) ''refund commitment'') (\<lambda>refund.
     ensure (case ct_kind t of
         Hold \<Rightarrow> before_available = after_available + amount \<and> after_held = before_held + amount \<and>
           before_outstanding = after_outstanding \<and> consumed = 0 \<and> refund = 0
       | Release \<Rightarrow> after_available = before_available + amount \<and> before_held = after_held + amount \<and>
           before_outstanding = after_outstanding \<and> consumed = 0 \<and> refund = 0
       | Consume \<Rightarrow> before_held = after_held + amount \<and> after_outstanding = before_outstanding + consumed \<and>
           after_available = before_available + refund \<and> amount = consumed + refund)
       ''credit commitments do not conserve the facility balance'')))))))))"

record relation_proof =
  rp_state_range :: bytes
  rp_split_range :: bytes

definition relation_proof_digest :: "'g facility_ext \<Rightarrow> relation_proof \<Rightarrow> id32" where
  "relation_proof_digest F p = gc_sha256 (fx_gov F) (ascii ''QOMM:DEFMI:CREDIT:RELATION:PROOF:v1'' @
     prefixed 8 (rp_state_range p) @ prefixed 8 (rp_split_range p))"

definition relation_proof_verify ::
  "'g facility_ext \<Rightarrow> ('p::ab_group_add, 's) credit_ext \<Rightarrow> relation_proof \<Rightarrow> credit_facility_transition \<Rightarrow> unit db_result" where
  "relation_proof_verify F E p t =
     and_then (ensure (relation_proof_digest F p = ct_relation_proof_digest t)
       ''credit relation proof digest does not match the transition'') (\<lambda>_.
     and_then (verify_credit_relation_equations E t) (\<lambda>_.
     and_then (transition_context F t) (\<lambda>ctx.
     and_then (ensure (ce_range_verify E (context_transcript (ascii ''qomm:credit:state-range'') ctx) (rp_state_range p)
         [ct_after_available t, ct_after_held t, ct_after_outstanding t, ct_amount t] 64)
       ''credit facility post-state is outside the allowed range'') (\<lambda>_.
     ensure (ce_range_verify E (context_transcript (ascii ''qomm:credit:split-range'') ctx) (rp_split_range p)
         [ct_consumed t, ct_refund t] 64)
       ''credit consumed/refunded split is outside the allowed range''))))"

text \<open>\<open>prove\<close> returns the proof and the transition with its digest filled in.\<close>

definition relation_proof_prove ::
  "'g facility_ext \<Rightarrow> ('p::ab_group_add, 's) credit_ext \<Rightarrow> credit_facility_transition \<Rightarrow> u64 list \<Rightarrow> 's list \<Rightarrow> u64 list \<Rightarrow> 's list
    \<Rightarrow> (relation_proof \<times> credit_facility_transition) db_result" where
  "relation_proof_prove F E t state_values state_blindings split_values split_blindings =
     and_then (transition_context F t) (\<lambda>ctx.
     and_then (ok_or (ce_range_prove E (context_transcript (ascii ''qomm:credit:state-range'') ctx)
       state_values state_blindings 64) ''credit facility state range proof failed'') (\<lambda>(state_range, state_commitments).
     and_then (ensure (\<not> list_ex (\<lambda>(c, e). c \<noteq> e) (zip state_commitments
         [ct_after_available t, ct_after_held t, ct_after_outstanding t, ct_amount t]))
       ''credit state openings do not match the transition commitments'') (\<lambda>_.
     and_then (ok_or (ce_range_prove E (context_transcript (ascii ''qomm:credit:split-range'') ctx)
       split_values split_blindings 64) ''credit facility split range proof failed'') (\<lambda>(split_range, split_commitments).
     and_then (ensure (\<not> list_ex (\<lambda>(c, e). c \<noteq> e) (zip split_commitments [ct_consumed t, ct_refund t]))
       ''credit split openings do not match the transition commitments'') (\<lambda>_.
     let p = \<lparr>rp_state_range = state_range, rp_split_range = split_range\<rparr>;
         t' = t\<lparr>ct_relation_proof_digest := relation_proof_digest F p\<rparr> in
     and_then (relation_proof_verify F E p t') (\<lambda>_. Ok (p, t')))))))"

definition relation_proof_to_bytes :: "relation_proof \<Rightarrow> bytes db_result" where
  "relation_proof_to_bytes p = (let state = rp_state_range p; split = rp_split_range p in
     and_then (ensure (\<not> (state = [] \<or> split = [] \<or> 2 ^ 20 < length state \<or> 2 ^ 20 < length split))
       ''credit relation proof exceeds its wire bound'') (\<lambda>_.
     Ok (ascii ''QCRPROO1'' @ prefixed 4 state @ prefixed 4 split)))"

definition relation_proof_from_bytes :: "('p, 's) credit_ext \<Rightarrow> bytes \<Rightarrow> relation_proof db_result" where
  "relation_proof_from_bytes E wire =
     and_then (ensure (\<not> (length wire < 16 \<or> take 8 wire \<noteq> ascii ''QCRPROO1''))
       ''credit relation proof wire header is invalid'') (\<lambda>_.
     let state_len = be_nat (take 4 (drop 8 wire)); split_len_offset = 12 + state_len in
     and_then (ensure (\<not> (state_len = 0 \<or> 2 ^ 20 < state_len)) ''credit state proof length is outside its wire bound'') (\<lambda>_.
     and_then (ensure (split_len_offset + 4 \<le> length wire) ''credit relation proof wire is truncated'') (\<lambda>_.
     let split_len = be_nat (take 4 (drop split_len_offset wire)); split_offset = split_len_offset + 4 in
     and_then (ensure (\<not> (split_len = 0 \<or> 2 ^ 20 < split_len)) ''credit split proof length is outside its wire bound'') (\<lambda>_.
     and_then (ensure (split_offset + split_len = length wire)
       ''credit relation proof wire has trailing or missing bytes'') (\<lambda>_.
     let state = take state_len (drop 12 wire); split = drop split_offset wire in
     and_then (ensure (ce_range_bytes E state) ''credit state range proof is invalid'') (\<lambda>_.
     and_then (ensure (ce_range_bytes E split) ''credit split range proof is invalid'') (\<lambda>_.
     Ok \<lparr>rp_state_range = state, rp_split_range = split\<rparr>)))))))"

text \<open>The two arms of the transition on the holds.\<close>

definition open_hold ::
  "credit_facility_snapshot \<Rightarrow> credit_facility_transition \<Rightarrow> u64 \<Rightarrow> facility_db \<Rightarrow> facility_db db_result" where
  "open_hold f t now db =
     and_then (ensure (\<not> (fs_status f \<noteq> FacilityActive \<or> now < fs_valid_from f \<or> fs_valid_until f < now))
       ''credit facility is not active for a new RFQ'') (\<lambda>_.
     and_then (ensure (\<not> (ct_expires_at t < now \<or> fs_valid_until f < ct_expires_at t))
       ''credit hold expiry is outside the facility validity'') (\<lambda>_.
     and_then (ensure (ct_before_outstanding t = ct_after_outstanding t) ''creating a hold cannot change settled debt'') (\<lambda>_.
     and_then (ensure (bt_get (db_credit_holds db) (ct_hold_id t) = None) ''RFQ hold identifier is already registered'') (\<lambda>_.
     Ok (db\<lparr>db_credit_holds := bt_insert (ct_hold_id t)
       \<lparr>ch_facility_id = ct_facility_id t, ch_query = ct_query t, ch_amount = ct_amount t,
        ch_expires_at = ct_expires_at t, ch_status = lit ''active'', ch_settlement_digest = 0,
        ch_created_sequence = ct_before_sequence t + 1, ch_updated_sequence = ct_before_sequence t + 1\<rparr>
       (db_credit_holds db)\<rparr>)))))"

definition close_hold :: "credit_facility_transition \<Rightarrow> u64 \<Rightarrow> facility_db \<Rightarrow> facility_db db_result" where
  "close_hold t now db =
     and_then (ok_or (bt_get (db_credit_holds db) (ct_hold_id t)) ''credit transition names an unknown RFQ hold'') (\<lambda>hold.
     and_then (if ch_facility_id hold \<noteq> ct_facility_id t \<or> ch_query hold \<noteq> ct_query t \<or> ch_amount hold \<noteq> ct_amount t
       then Err ''credit hold context is stale or does not match the RFQ''
       else and_then (column (ch_expires_at hold)) (\<lambda>expires_at.
         ensure (\<not> (expires_at \<noteq> ct_expires_at t \<or> ch_status hold \<noteq> lit ''active''))
           ''credit hold context is stale or does not match the RFQ'')) (\<lambda>_.
     and_then (if ct_kind t = Release
       then and_then (ensure (ct_expires_at t < now) ''an RFQ hold cannot be released before its signed expiry'') (\<lambda>_.
         ensure (ct_before_outstanding t = ct_after_outstanding t) ''releasing a hold cannot change settled debt'')
       else ensure (now \<le> ct_expires_at t) ''an expired RFQ hold cannot be consumed'') (\<lambda>_.
     Ok (db\<lparr>db_credit_holds := bt_insert (ct_hold_id t)
       (hold\<lparr>ch_status := (if ct_kind t = Release then lit ''released'' else lit ''consumed''),
          ch_settlement_digest := ct_settlement_digest t, ch_updated_sequence := ct_before_sequence t + 1\<rparr>)
       (db_credit_holds db)\<rparr>))))"

definition apply_credit_transition ::
  "credit_facility_transition \<Rightarrow> id32 \<Rightarrow> str \<Rightarrow> u64 \<Rightarrow> facility_db \<Rightarrow> (facility_db \<times> credit_facility_snapshot) db_result" where
  "apply_credit_transition t operation_statement operation_kind now db =
     and_then (ensure (\<not> (max_unix_time < now \<or> max_unix_time < ct_expires_at t)) ''credit reservation time cannot be stored'') (\<lambda>_.
     and_then (load_required db (ct_facility_id t) ''credit transition names an unknown facility'') (\<lambda>f.
     and_then (ensure (\<not> (fs_sequence f \<noteq> ct_before_sequence t \<or> fs_available f \<noteq> ct_before_available t \<or>
         fs_held f \<noteq> ct_before_held t \<or> fs_outstanding f \<noteq> ct_before_outstanding t))
       ''credit transition was proved against stale facility state'') (\<lambda>_.
     and_then (case ct_kind t of Hold \<Rightarrow> open_hold f t now db | _ \<Rightarrow> close_hold t now db) (\<lambda>db.
     and_then (swap_facility (ct_facility_id t) (ct_before_sequence t) (\<lambda>row. row\<lparr>cf_available := ct_after_available t,
         cf_held := ct_after_held t, cf_outstanding := ct_after_outstanding t\<rparr>)
       ''credit facility compare-and-swap lost a concurrent update'' db) (\<lambda>db.
     and_then (insert_credit_operation (ct_operation_id t) (ct_facility_id t) operation_kind operation_statement db) (\<lambda>db.
     and_then (load_required db (ct_facility_id t) ''credit facility disappeared during transition'') (\<lambda>snapshot.
     Ok (db, snapshot))))))))"

definition transition_credit_facility ::
  "'g facility_ext \<Rightarrow> ('p::ab_group_add, 's) credit_ext \<Rightarrow> facility_config \<Rightarrow> u64 option \<Rightarrow> u64 \<Rightarrow> credit_facility_transition
    \<Rightarrow> relation_proof \<Rightarrow> quorum_approval \<Rightarrow> facility_db \<Rightarrow> (facility_db \<times> credit_facility_snapshot) db_result" where
  "transition_credit_facility F E C wall now t proof approval db =
     and_then (transition_body t) (\<lambda>_.
     and_then (relation_proof_verify F E proof t) (\<lambda>_.
     and_then (transition_statement F t) (\<lambda>statement.
     and_then (credit_operation db (ct_operation_id t) statement) (\<lambda>known.
     if known then and_then (load_required db (ct_facility_id t) ''idempotent credit transition has no facility state'')
       (\<lambda>snapshot. Ok (db, snapshot))
     else
       and_then (authorize F C wall db statement approval) (\<lambda>_.
       apply_credit_transition t statement (credit_transition_str (ct_kind t)) now db)))))"

section \<open>Amendments\<close>

datatype credit_amendment_mode = WithinLimit | OverLimit

fun credit_amendment_str :: "credit_amendment_mode \<Rightarrow> str" where
  "credit_amendment_str WithinLimit = lit ''within_limit''"
| "credit_amendment_str OverLimit = lit ''over_limit''"

record credit_facility_amendment =
  am_operation_id :: id32
  am_facility_id :: id32
  am_mode :: credit_amendment_mode
  am_before_cap :: id32
  am_after_cap :: id32
  am_before_available :: id32
  am_after_available :: id32
  am_before_held :: id32
  am_before_outstanding :: id32
  am_before_overlimit :: id32
  am_after_overlimit :: id32
  am_before_collateral :: id32
  am_after_collateral :: id32
  am_before_risk_policy :: id32
  am_after_risk_policy :: id32
  am_before_valid_until :: u64
  am_after_valid_until :: u64
  am_before_sequence :: u64
  am_effective_at :: u64
  am_reason_digest :: id32
  am_relation_proof_digest :: id32
  am_guarantor_signature :: signature

definition amendment_context :: "'g facility_ext \<Rightarrow> credit_facility_amendment \<Rightarrow> id32 db_result" where
  "amendment_context F a = and_then (jobject
     [jnz ''operation_id'' (am_operation_id a), jnz ''facility_id'' (am_facility_id a),
      jstr ''mode'' (credit_amendment_str (am_mode a)), jnz ''before_cap_commitment'' (am_before_cap a),
      jnz ''after_cap_commitment'' (am_after_cap a), jid ''before_available_commitment'' (am_before_available a),
      jid ''after_available_commitment'' (am_after_available a), jid ''before_held_commitment'' (am_before_held a),
      jid ''before_outstanding_commitment'' (am_before_outstanding a),
      jid ''before_overlimit_commitment'' (am_before_overlimit a),
      jid ''after_overlimit_commitment'' (am_after_overlimit a),
      jnz ''before_collateral_commitment'' (am_before_collateral a),
      jnz ''after_collateral_commitment'' (am_after_collateral a),
      jnz ''before_risk_policy_digest'' (am_before_risk_policy a),
      jnz ''after_risk_policy_digest'' (am_after_risk_policy a), jnum ''before_valid_until'' (am_before_valid_until a),
      jnum ''after_valid_until'' (am_after_valid_until a), jnum ''before_sequence'' (am_before_sequence a),
      jnum ''effective_at'' (am_effective_at a), jnz ''reason_digest'' (am_reason_digest a)]) (\<lambda>body.
     Ok (body_digest (fx_gov F) (ascii ''QOMM:DEFMI:CREDIT:AMENDMENT:CONTEXT:v1'') body))"

definition amendment_body :: "'g facility_ext \<Rightarrow> credit_facility_amendment \<Rightarrow> json db_result" where
  "amendment_body F a =
     and_then (ensure (\<not> (am_before_sequence a = u64_max \<or> am_effective_at a = 0 \<or> max_unix_time < am_effective_at a \<or>
         max_unix_time < am_before_valid_until a \<or> am_after_valid_until a < am_effective_at a \<or>
         max_unix_time < am_after_valid_until a)) ''credit amendment time or sequence is invalid'') (\<lambda>_.
     and_then (case am_mode a of
         WithinLimit \<Rightarrow> ensure (am_after_overlimit a = 0) ''within-limit amendment must clear the over-limit balance''
       | OverLimit \<Rightarrow> ensure (\<not> (am_after_available a \<noteq> 0 \<or> am_after_overlimit a = 0))
           ''over-limit amendment must expose no usable availability and record the excess'') (\<lambda>_.
     and_then (amendment_context F a) (\<lambda>ctx.
     jobject [jid ''context'' ctx, jnz ''relation_proof_digest'' (am_relation_proof_digest a)])))"

definition amendment_statement :: "'g facility_ext \<Rightarrow> credit_facility_amendment \<Rightarrow> id32 db_result" where
  "amendment_statement F a = and_then (amendment_body F a) (\<lambda>body.
     Ok (body_digest (fx_gov F) (ascii ''QOMM:DEFMI:CREDIT:AMENDMENT:v1'') body))"

record amendment_proof =
  mp_balance_range :: bytes
  mp_support_range :: bytes

definition amendment_proof_digest :: "'g facility_ext \<Rightarrow> amendment_proof \<Rightarrow> id32" where
  "amendment_proof_digest F p = gc_sha256 (fx_gov F) (ascii ''QOMM:DEFMI:CREDIT:AMENDMENT:PROOF:v1'' @
     prefixed 8 (mp_balance_range p) @ prefixed 8 (mp_support_range p))"

definition amendment_proof_verify ::
  "'g facility_ext \<Rightarrow> ('p::ab_group_add, 's) credit_ext \<Rightarrow> amendment_proof \<Rightarrow> credit_facility_amendment \<Rightarrow> unit db_result" where
  "amendment_proof_verify F E p a =
     and_then (ensure (amendment_proof_digest F p = am_relation_proof_digest a)
       ''credit amendment proof digest does not match the statement'') (\<lambda>_.
     and_then (amendment_body F a) (\<lambda>_.
     and_then (point E (am_after_cap a) ''amended cap commitment'') (\<lambda>cap.
     and_then (point E (am_after_available a) ''amended available commitment'') (\<lambda>available.
     and_then (point E (am_before_held a) ''held commitment'') (\<lambda>held.
     and_then (point E (am_before_outstanding a) ''outstanding commitment'') (\<lambda>outstanding.
     and_then (point E (am_after_overlimit a) ''over-limit commitment'') (\<lambda>excess.
     and_then (ensure (case am_mode a of
         WithinLimit \<Rightarrow> excess = 0 \<and> cap = available + held + outstanding
       | OverLimit \<Rightarrow> available = 0 \<and> cap + excess = held + outstanding)
       ''amended cap does not conserve the existing facility exposure'') (\<lambda>_.
     and_then (amendment_context F a) (\<lambda>ctx.
     and_then (ensure (ce_range_verify E (context_transcript (ascii ''qomm:credit:amendment:balance'') ctx)
         (mp_balance_range p) [am_after_cap a, am_after_available a, am_before_held a, am_before_outstanding a] 64)
       ''amended facility balance is outside the allowed range'') (\<lambda>_.
     ensure (ce_range_verify E (context_transcript (ascii ''qomm:credit:amendment:support'') ctx)
         (mp_support_range p) [am_after_collateral a, am_after_overlimit a] 64)
       ''amended collateral or excess is outside the allowed range''))))))))))"

definition amendment_proof_prove ::
  "'g facility_ext \<Rightarrow> ('p::ab_group_add, 's) credit_ext \<Rightarrow> credit_facility_amendment \<Rightarrow> u64 list \<Rightarrow> 's list \<Rightarrow> u64 list \<Rightarrow> 's list
    \<Rightarrow> (amendment_proof \<times> credit_facility_amendment) db_result" where
  "amendment_proof_prove F E a balance_values balance_blindings support_values support_blindings =
     and_then (amendment_context F a) (\<lambda>ctx.
     and_then (ok_or (ce_range_prove E (context_transcript (ascii ''qomm:credit:amendment:balance'') ctx)
       balance_values balance_blindings 64) ''credit amendment balance range proof failed'') (\<lambda>(balance_range, balance_commitments).
     and_then (ensure (\<not> list_ex (\<lambda>(c, e). c \<noteq> e) (zip balance_commitments
         [am_after_cap a, am_after_available a, am_before_held a, am_before_outstanding a]))
       ''credit amendment balance openings do not match commitments'') (\<lambda>_.
     and_then (ok_or (ce_range_prove E (context_transcript (ascii ''qomm:credit:amendment:support'') ctx)
       support_values support_blindings 64) ''credit amendment support range proof failed'') (\<lambda>(support_range, support_commitments).
     and_then (ensure (\<not> list_ex (\<lambda>(c, e). c \<noteq> e) (zip support_commitments [am_after_collateral a, am_after_overlimit a]))
       ''credit amendment support openings do not match commitments'') (\<lambda>_.
     let p = \<lparr>mp_balance_range = balance_range, mp_support_range = support_range\<rparr>;
         a' = a\<lparr>am_relation_proof_digest := amendment_proof_digest F p\<rparr> in
     and_then (amendment_proof_verify F E p a') (\<lambda>_. Ok (p, a')))))))"

definition amend_row :: "credit_facility_amendment \<Rightarrow> facility_status \<Rightarrow> credit_facility_row \<Rightarrow> credit_facility_row" where
  "amend_row a status row = row\<lparr>cf_cap := am_after_cap a, cf_available := am_after_available a,
     cf_overlimit := am_after_overlimit a, cf_collateral := am_after_collateral a,
     cf_risk_policy_digest := am_after_risk_policy a, cf_valid_until := am_after_valid_until a,
     cf_status := facility_status_str status\<rparr>"

definition amend_credit_facility ::
  "'g facility_ext \<Rightarrow> ('p::ab_group_add, 's) credit_ext \<Rightarrow> facility_config \<Rightarrow> u64 option \<Rightarrow> u64 \<Rightarrow> credit_facility_amendment
    \<Rightarrow> amendment_proof \<Rightarrow> quorum_approval \<Rightarrow> facility_db \<Rightarrow> (facility_db \<times> credit_facility_snapshot) db_result" where
  "amend_credit_facility F E C wall now a proof approval db =
     and_then (amendment_proof_verify F E proof a) (\<lambda>_.
     and_then (amendment_statement F a) (\<lambda>statement.
     and_then (credit_operation db (am_operation_id a) statement) (\<lambda>known.
     if known then and_then (load_required db (am_facility_id a) ''idempotent credit amendment has no facility state'')
       (\<lambda>snapshot. Ok (db, snapshot))
     else
       and_then (ensure (\<not> (now < am_effective_at a \<or> am_after_valid_until a < now \<or> max_unix_time < now \<or>
           max_unix_time < am_after_valid_until a))
         ''credit amendment is not effective, has expired, or cannot be stored'') (\<lambda>_.
       and_then (authorize F C wall db statement approval) (\<lambda>_.
       and_then (load_required db (am_facility_id a) ''credit amendment names an unknown facility'') (\<lambda>f.
       and_then (ensure (\<not> (fs_status f = FacilityClosed \<or> fs_status f = FacilityDefaulted))
         ''closed or defaulted facility cannot be amended'') (\<lambda>_.
       and_then (ensure (\<not> (fs_sequence f \<noteq> am_before_sequence a \<or> fs_cap f \<noteq> am_before_cap a \<or>
           fs_available f \<noteq> am_before_available a \<or> fs_held f \<noteq> am_before_held a \<or>
           fs_outstanding f \<noteq> am_before_outstanding a \<or> fs_overlimit f \<noteq> am_before_overlimit a \<or>
           fs_collateral f \<noteq> am_before_collateral a \<or> fs_risk_policy_digest f \<noteq> am_before_risk_policy a \<or>
           fs_valid_until f \<noteq> am_before_valid_until a))
         ''credit amendment was proved against stale facility state'') (\<lambda>_.
       and_then (ensure (fs_valid_from f \<le> am_after_valid_until a) ''credit amendment ends before the facility starts'') (\<lambda>_.
       and_then (ok_or (bt_get (db_guarantors db) (fs_guarantor_id f)) ''credit facility guarantor is missing'') (\<lambda>guarantor.
       and_then (ensure (gr_active guarantor) ''inactive guarantor cannot amend a facility'') (\<lambda>_.
       and_then (ensure (gr_risk_policy_digest guarantor = am_after_risk_policy a)
         ''credit amendment uses an unregistered guarantor risk policy'') (\<lambda>_.
       and_then (verify_guarantor_signature F (gr_public_key guarantor) (gr_pq_public_key guarantor)
         (guarantor_message statement) (am_guarantor_signature a)) (\<lambda>_.
       and_then (swap_facility (am_facility_id a) (am_before_sequence a)
         (amend_row a (if am_mode a = OverLimit then FacilityFrozen else fs_status f))
         ''credit facility compare-and-swap lost a concurrent amendment'' db) (\<lambda>db.
       and_then (insert_credit_operation (am_operation_id a) (am_facility_id a) (lit ''amend'') statement db) (\<lambda>db.
       and_then (load_required db (am_facility_id a) ''credit facility disappeared during amendment'') (\<lambda>snapshot.
       Ok (db, snapshot)))))))))))))))))"

section \<open>Controls\<close>

datatype credit_control_action = Activate | Freeze | CloseLine | DefaultLine

fun credit_control_str :: "credit_control_action \<Rightarrow> str" where
  "credit_control_str Activate = lit ''activate''"
| "credit_control_str Freeze = lit ''freeze''"
| "credit_control_str CloseLine = lit ''close''"
| "credit_control_str DefaultLine = lit ''default''"

fun credit_control_status :: "credit_control_action \<Rightarrow> facility_status" where
  "credit_control_status Activate = FacilityActive"
| "credit_control_status Freeze = FacilityFrozen"
| "credit_control_status CloseLine = FacilityClosed"
| "credit_control_status DefaultLine = FacilityDefaulted"

record credit_facility_control =
  cc_operation_id :: id32
  cc_facility_id :: id32
  cc_action :: credit_control_action
  cc_before_sequence :: u64
  cc_effective_at :: u64
  cc_reason_digest :: id32
  cc_guarantor_signature :: signature

definition control_body :: "credit_facility_control \<Rightarrow> json db_result" where
  "control_body c =
     and_then (ensure (\<not> (cc_before_sequence c = u64_max \<or> cc_effective_at c = 0 \<or> max_unix_time < cc_effective_at c))
       ''credit control time or sequence is invalid'') (\<lambda>_.
     jobject [jnz ''operation_id'' (cc_operation_id c), jnz ''facility_id'' (cc_facility_id c),
       jstr ''action'' (credit_control_str (cc_action c)), jnum ''before_sequence'' (cc_before_sequence c),
       jnum ''effective_at'' (cc_effective_at c), jnz ''reason_digest'' (cc_reason_digest c)])"

definition control_statement :: "'g facility_ext \<Rightarrow> credit_facility_control \<Rightarrow> id32 db_result" where
  "control_statement F c = and_then (control_body c) (\<lambda>body.
     Ok (body_digest (fx_gov F) (ascii ''QOMM:DEFMI:CREDIT:CONTROL:v1'') body))"

definition control_allowed :: "credit_control_action \<Rightarrow> credit_facility_snapshot \<Rightarrow> unit db_result" where
  "control_allowed action f =
     (case action of
        Activate \<Rightarrow> if fs_status f \<noteq> FacilityFrozen then Err ''only a frozen facility can be reactivated''
          else ensure (fs_overlimit f = 0) ''over-limit facility must be rehabilitated before activation''
      | Freeze \<Rightarrow> ensure (fs_status f = FacilityActive) ''only an active facility can be frozen''
      | CloseLine \<Rightarrow> ensure (\<not> (fs_held f \<noteq> 0 \<or> fs_outstanding f \<noteq> 0 \<or> fs_overlimit f \<noteq> 0))
          ''facility with holds, debt, or an over-limit balance cannot be closed''
      | DefaultLine \<Rightarrow> ensure (fs_status f \<noteq> FacilityClosed) ''closed facility cannot enter default'')"

definition control_credit_facility ::
  "'g facility_ext \<Rightarrow> facility_config \<Rightarrow> u64 option \<Rightarrow> u64 \<Rightarrow> credit_facility_control \<Rightarrow> quorum_approval \<Rightarrow> facility_db
    \<Rightarrow> (facility_db \<times> credit_facility_snapshot) db_result" where
  "control_credit_facility F C wall now c approval db =
     and_then (control_statement F c) (\<lambda>statement.
     and_then (credit_operation db (cc_operation_id c) statement) (\<lambda>known.
     if known then and_then (load_required db (cc_facility_id c) ''idempotent credit control has no facility state'')
       (\<lambda>snapshot. Ok (db, snapshot))
     else
       and_then (ensure (\<not> (now < cc_effective_at c \<or> max_unix_time < now))
         ''credit control is not yet effective or cannot be stored'') (\<lambda>_.
       and_then (authorize F C wall db statement approval) (\<lambda>_.
       and_then (load_required db (cc_facility_id c) ''credit control names an unknown facility'') (\<lambda>f.
       and_then (ensure (fs_sequence f = cc_before_sequence c)
         ''credit control was signed against stale facility state'') (\<lambda>_.
       and_then (ok_or (bt_get (db_guarantors db) (fs_guarantor_id f)) ''credit facility guarantor is missing'') (\<lambda>guarantor.
       and_then (ensure (gr_active guarantor) ''inactive guarantor cannot control a facility'') (\<lambda>_.
       and_then (verify_guarantor_signature F (gr_public_key guarantor) (gr_pq_public_key guarantor)
         (guarantor_message statement) (cc_guarantor_signature c)) (\<lambda>_.
       and_then (control_allowed (cc_action c) f) (\<lambda>_.
       and_then (swap_facility (cc_facility_id c) (cc_before_sequence c)
         (\<lambda>row. row\<lparr>cf_status := facility_status_str (credit_control_status (cc_action c))\<rparr>)
         ''credit facility compare-and-swap lost a concurrent control'' db) (\<lambda>db.
       and_then (insert_credit_operation (cc_operation_id c) (cc_facility_id c) (credit_control_str (cc_action c)) statement db) (\<lambda>db.
       and_then (load_required db (cc_facility_id c) ''credit facility disappeared during control'') (\<lambda>snapshot.
       Ok (db, snapshot))))))))))))))"

definition credit_facility :: "facility_db \<Rightarrow> id32 \<Rightarrow> credit_facility_snapshot option db_result" where
  "credit_facility db facility_id = load_credit_facility db facility_id"

end
