(* ===== verification/CreditSafety.thy ===== *)
theory CreditSafety
  imports CreditLine
begin

text \<open>
  What the operations on guarantee lines keep, whatever their order: the limit of a line
  and its excess are what is available, held and outstanding, each of these within 64 bits;
  what is held is the sum of the live holds; a line over its limit is frozen or defaulted;
  a hold that was released or consumed stays as it is. The wire form of a relation
  proof is canonical.
\<close>

section \<open>Elimination rules\<close>

lemma swap_facilityE:
  assumes "swap_facility i n change lost db = Ok db'"
  obtains row where "bt_get (db_credit_facilities db) i = Some row" "cf_sequence row = n"
    "db' = db\<lparr>db_credit_facilities := bt_insert i ((change row)\<lparr>cf_sequence := cf_sequence row + 1\<rparr>) (db_credit_facilities db)\<rparr>"
  using assms by (auto simp: swap_facility_def split: option.splits if_splits)

lemma insert_credit_operationE:
  assumes "insert_credit_operation i f kind st db = Ok db'"
  obtains ops where "bt_get (db_credit_operations db) i = None"
    "db' = db\<lparr>db_credit_operations := bt_insert i \<lparr>co_facility_id = f, co_kind = kind, co_statement = st\<rparr> (db_credit_operations db),
       db_operations := ops\<rparr>"
  using assms by (auto simp: insert_credit_operation_def elim!: operation_triggerE)

lemma load_requiredE:
  assumes "load_required db i missing = Ok f"
  obtains row where "bt_get (db_credit_facilities db) i = Some row" "fs_facility_id f = i"
    "fs_guarantor_id f = cf_guarantor_id row"
    "fs_cap f = cf_cap row" "fs_available f = cf_available row" "fs_held f = cf_held row"
    "fs_outstanding f = cf_outstanding row" "fs_overlimit f = cf_overlimit row"
    "facility_status_parse (cf_status row) = Ok (fs_status f)" "fs_sequence f = cf_sequence row"
    "fs_valid_from f = cf_valid_from row" "fs_valid_until f = cf_valid_until row"
  using assms by (auto simp: load_required_def load_credit_facility_def split: option.splits)

lemma facility_status_parse_Ok: "facility_status_parse s = Ok k \<longleftrightarrow> s = facility_status_str k"
  by (cases k) (auto simp: facility_status_parse_def)

lemma point_Ok [simp]: "point E i name = Ok p \<longleftrightarrow> ce_decompress E i = Some p"
  by (auto simp: point_def)

section \<open>Values\<close>

text \<open>
  What the lines rely on. The all-zero encoding is the group's identity, and commitments
  have a value that adds up and that an accepted range proof bounds.
\<close>

definition credit_reading :: "('p::ab_group_add, 's::comm_ring_1) credit_ext \<Rightarrow> ('p \<Rightarrow> 's) \<Rightarrow> bool" where
  "credit_reading E val \<longleftrightarrow> ce_decompress E 0 = Some 0 \<and> (\<forall>x y. val (x + y) = val x + val y) \<and>
     (\<forall>t pf cs bits c. ce_range_verify E t pf cs bits \<longrightarrow> c \<in> set cs \<longrightarrow>
        (\<exists>x v. ce_decompress E c = Some x \<and> val x = of_nat v \<and> v < 2 ^ bits))"

definition worth :: "('p, 's::comm_ring_1) credit_ext \<Rightarrow> ('p \<Rightarrow> 's) \<Rightarrow> id32 \<Rightarrow> nat \<Rightarrow> bool" where
  "worth E val c v \<longleftrightarrow> v < 2 ^ 64 \<and> (\<exists>x. ce_decompress E c = Some x \<and> val x = of_nat v)"

lemma ranged:
  "credit_reading E val \<Longrightarrow> ce_range_verify E t pf cs 64 \<Longrightarrow> c \<in> set cs \<Longrightarrow> \<exists>v. worth E val c v"
  unfolding credit_reading_def worth_def by blast

text \<open>The commitment of a stored encoding; the identity where it does not decode.\<close>

definition committed_point :: "('p::ab_group_add, 's) credit_ext \<Rightarrow> id32 \<Rightarrow> 'p" where
  "committed_point E c = (case ce_decompress E c of None \<Rightarrow> 0 | Some x \<Rightarrow> x)"

definition unused :: "credit_facility_row \<Rightarrow> bool" where
  "unused row \<longleftrightarrow> cf_available row = cf_cap row \<and> cf_held row = 0 \<and> cf_outstanding row = 0 \<and> cf_overlimit row = 0"

definition balanced :: "('p::ab_group_add, 's) credit_ext \<Rightarrow> credit_facility_row \<Rightarrow> bool" where
  "balanced E row \<longleftrightarrow> committed_point E (cf_cap row) + committed_point E (cf_overlimit row) =
     committed_point E (cf_available row) + committed_point E (cf_held row) + committed_point E (cf_outstanding row)"

definition bounded :: "('p, 's::comm_ring_1) credit_ext \<Rightarrow> ('p \<Rightarrow> 's) \<Rightarrow> credit_facility_row \<Rightarrow> bool" where
  "bounded E val row \<longleftrightarrow> (\<exists>a h d. worth E val (cf_available row) a \<and> worth E val (cf_held row) h \<and>
     worth E val (cf_outstanding row) d)"

definition live_amount :: "('p::ab_group_add, 's) credit_ext \<Rightarrow> id32 \<Rightarrow> credit_hold_row \<Rightarrow> 'p" where
  "live_amount E f h = (if ch_facility_id h = f \<and> ch_status h = lit ''active'' then committed_point E (ch_amount h) else 0)"

definition line_ok :: "('p::ab_group_add, 's) credit_ext \<Rightarrow> facility_db \<Rightarrow> id32 \<Rightarrow> credit_facility_row \<Rightarrow> bool" where
  "line_ok E db f row \<longleftrightarrow> balanced E row \<and>
     committed_point E (cf_held row) = bt_sum (live_amount E f) (db_credit_holds db) \<and>
     (cf_overlimit row \<noteq> 0 \<longrightarrow> cf_status row = lit ''frozen'' \<or> cf_status row = lit ''defaulted'')"

definition credit_ok :: "('p::ab_group_add, 's) credit_ext \<Rightarrow> facility_db \<Rightarrow> bool" where
  "credit_ok E db \<longleftrightarrow>
     (\<forall>f row. bt_get (db_credit_facilities db) f = Some row \<longrightarrow> line_ok E db f row) \<and>
     (\<forall>i h. bt_get (db_credit_holds db) i = Some h \<longrightarrow> bt_contains (db_credit_facilities db) (ch_facility_id h))"

lemma credit_ok_cong: "credit_part db' = credit_part db \<Longrightarrow> credit_ok E db' = credit_ok E db"
  by (simp add: credit_part_def credit_ok_def line_ok_def)

lemma committed_zero [simp]: "ce_decompress E 0 = Some 0 \<Longrightarrow> committed_point E 0 = 0"
  by (simp add: committed_point_def)

lemma committed_Some: "ce_decompress E c = Some x \<Longrightarrow> committed_point E c = x"
  by (simp add: committed_point_def)

section \<open>What each operation does\<close>

lemma credit_operation_Ok:
  "credit_operation db i st = Ok b \<longleftrightarrow>
     (case bt_get (db_credit_operations db) i of None \<Rightarrow> \<not> b | Some row \<Rightarrow> b \<and> co_statement row = st)"
  by (auto simp: credit_operation_def split: option.splits)

lemma grant_credit_facilityE:
  assumes "grant_credit_facility F C wall now g ap db = Ok (db', snap)"
  obtains (replay) "db' = db"
  | (fresh) st ops where "bt_get (db_credit_facilities db) (cg_facility_id g) = None"
      "unused (granted_row g st)" "bt_get (db_credit_operations db) (cg_operation_id g) = None"
      "db' = db\<lparr>db_credit_facilities := bt_insert (cg_facility_id g) (granted_row g st) (db_credit_facilities db),
         db_scopes := bt_insert (cg_guarantor_id g, cg_beneficiary g, cg_rail_asset_id g) (cg_facility_id g) (db_scopes db),
         db_credit_operations := bt_insert (cg_operation_id g)
           \<lparr>co_facility_id = cg_facility_id g, co_kind = lit ''grant'', co_statement = st\<rparr> (db_credit_operations db),
         db_operations := ops\<rparr>"
proof -
  from assms obtain st known where st: "grant_statement F g = Ok st" and op: "credit_operation db (cg_operation_id g) st = Ok known"
    by (auto simp: grant_credit_facility_def)
  show thesis
  proof (cases known)
    case True
    with assms st op show ?thesis by (intro replay) (auto simp: grant_credit_facility_def)
  next
    case False
    with assms st op have none: "load_credit_facility db (cg_facility_id g) = Ok None"
      and ins: "insert_grant g st db = Ok db'"
      by (auto simp: grant_credit_facility_def)
    from none have "bt_get (db_credit_facilities db) (cg_facility_id g) = None"
      by (auto simp: load_credit_facility_def split: option.splits)
    moreover from st have "unused (granted_row g st)"
      by (auto simp: grant_statement_def grant_body_def unused_def granted_row_def)
    ultimately show ?thesis
      using ins fresh by (auto simp: insert_grant_def elim!: insert_credit_operationE)
  qed
qed

lemma amend_credit_facilityE:
  assumes "amend_credit_facility F E C wall now a pf ap db = Ok (db', snap)"
  obtains (replay) "db' = db"
  | (fresh) row k st ops where "amendment_proof_verify F E pf a = Ok ()"
      "bt_get (db_credit_facilities db) (am_facility_id a) = Some row" "cf_status row = facility_status_str k"
      "cf_held row = am_before_held a" "cf_outstanding row = am_before_outstanding a"
      "bt_get (db_credit_operations db) (am_operation_id a) = None"
      "db' = db\<lparr>db_credit_facilities := bt_insert (am_facility_id a)
           ((amend_row a (if am_mode a = OverLimit then FacilityFrozen else k) row)\<lparr>cf_sequence := cf_sequence row + 1\<rparr>)
           (db_credit_facilities db),
         db_credit_operations := bt_insert (am_operation_id a)
           \<lparr>co_facility_id = am_facility_id a, co_kind = lit ''amend'', co_statement = st\<rparr> (db_credit_operations db),
         db_operations := ops\<rparr>"
proof -
  from assms obtain st known where pf: "amendment_proof_verify F E pf a = Ok ()" and st: "amendment_statement F a = Ok st"
    and op: "credit_operation db (am_operation_id a) st = Ok known"
    by (auto simp: amend_credit_facility_def)
  show thesis
  proof (cases known)
    case True
    with assms pf st op show ?thesis by (intro replay) (auto simp: amend_credit_facility_def)
  next
    case False
    with assms pf st op obtain f db1 where f: "load_required db (am_facility_id a) ''credit amendment names an unknown facility'' = Ok f"
        "fs_held f = am_before_held a" "fs_outstanding f = am_before_outstanding a"
      and swap: "swap_facility (am_facility_id a) (am_before_sequence a)
          (amend_row a (if am_mode a = OverLimit then FacilityFrozen else fs_status f))
          ''credit facility compare-and-swap lost a concurrent amendment'' db = Ok db1"
      and ins: "insert_credit_operation (am_operation_id a) (am_facility_id a) (lit ''amend'') st db1 = Ok db'"
      by (auto simp: amend_credit_facility_def)
    from swap obtain row where row: "bt_get (db_credit_facilities db) (am_facility_id a) = Some row"
      and db1: "db1 = db\<lparr>db_credit_facilities := bt_insert (am_facility_id a)
        ((amend_row a (if am_mode a = OverLimit then FacilityFrozen else fs_status f) row)\<lparr>cf_sequence := cf_sequence row + 1\<rparr>)
        (db_credit_facilities db)\<rparr>"
      by (rule swap_facilityE)
    from ins obtain ops where none: "bt_get (db_credit_operations db1) (am_operation_id a) = None"
      and db': "db' = db1\<lparr>db_credit_operations := bt_insert (am_operation_id a)
        \<lparr>co_facility_id = am_facility_id a, co_kind = lit ''amend'', co_statement = st\<rparr> (db_credit_operations db1),
        db_operations := ops\<rparr>"
      by (rule insert_credit_operationE)
    from f row have "cf_status row = facility_status_str (fs_status f)" "cf_held row = am_before_held a"
      "cf_outstanding row = am_before_outstanding a"
      by (auto elim!: load_requiredE simp: facility_status_parse_Ok)
    then show ?thesis
      using none by (intro fresh [OF pf row]) (simp_all add: db' db1)
  qed
qed

lemma control_credit_facilityE:
  assumes "control_credit_facility F C wall now c ap db = Ok (db', snap)"
  obtains (replay) "db' = db"
  | (fresh) f row st ops where "control_allowed (cc_action c) f = Ok ()"
      "bt_get (db_credit_facilities db) (cc_facility_id c) = Some row" "cf_status row = facility_status_str (fs_status f)"
      "cf_overlimit row = fs_overlimit f"
      "bt_get (db_credit_operations db) (cc_operation_id c) = None"
      "db' = db\<lparr>db_credit_facilities := bt_insert (cc_facility_id c)
           (row\<lparr>cf_status := facility_status_str (credit_control_status (cc_action c)), cf_sequence := cf_sequence row + 1\<rparr>)
           (db_credit_facilities db),
         db_credit_operations := bt_insert (cc_operation_id c)
           \<lparr>co_facility_id = cc_facility_id c, co_kind = credit_control_str (cc_action c), co_statement = st\<rparr>
           (db_credit_operations db),
         db_operations := ops\<rparr>"
proof -
  from assms obtain st known where st: "control_statement F c = Ok st"
    and op: "credit_operation db (cc_operation_id c) st = Ok known"
    by (auto simp: control_credit_facility_def)
  show thesis
  proof (cases known)
    case True
    with assms st op show ?thesis by (intro replay) (auto simp: control_credit_facility_def)
  next
    case False
    with assms st op obtain f db1 where f: "load_required db (cc_facility_id c) ''credit control names an unknown facility'' = Ok f"
      and ok: "control_allowed (cc_action c) f = Ok ()"
      and swap: "swap_facility (cc_facility_id c) (cc_before_sequence c)
          (\<lambda>row. row\<lparr>cf_status := facility_status_str (credit_control_status (cc_action c))\<rparr>)
          ''credit facility compare-and-swap lost a concurrent control'' db = Ok db1"
      and ins: "insert_credit_operation (cc_operation_id c) (cc_facility_id c) (credit_control_str (cc_action c)) st db1 = Ok db'"
      by (auto simp: control_credit_facility_def)
    from swap obtain row where row: "bt_get (db_credit_facilities db) (cc_facility_id c) = Some row"
      and db1: "db1 = db\<lparr>db_credit_facilities := bt_insert (cc_facility_id c)
        (row\<lparr>cf_status := facility_status_str (credit_control_status (cc_action c)), cf_sequence := cf_sequence row + 1\<rparr>)
        (db_credit_facilities db)\<rparr>"
      by (rule swap_facilityE)
    from ins obtain ops where none: "bt_get (db_credit_operations db1) (cc_operation_id c) = None"
      and db': "db' = db1\<lparr>db_credit_operations := bt_insert (cc_operation_id c)
        \<lparr>co_facility_id = cc_facility_id c, co_kind = credit_control_str (cc_action c), co_statement = st\<rparr>
        (db_credit_operations db1), db_operations := ops\<rparr>"
      by (rule insert_credit_operationE)
    from f row have "cf_status row = facility_status_str (fs_status f)" "cf_overlimit row = fs_overlimit f"
      by (auto elim!: load_requiredE simp: facility_status_parse_Ok)
    then show ?thesis
      using none by (intro fresh [OF ok row]) (simp_all add: db' db1)
  qed
qed

text \<open>The holds after a transition, and the line it leaves.\<close>

definition moved_row :: "credit_facility_transition \<Rightarrow> credit_facility_row \<Rightarrow> credit_facility_row" where
  "moved_row t row = row\<lparr>cf_available := ct_after_available t, cf_held := ct_after_held t,
     cf_outstanding := ct_after_outstanding t, cf_sequence := cf_sequence row + 1\<rparr>"

inductive hold_change :: "credit_facility_transition \<Rightarrow> credit_hold_row option \<Rightarrow> credit_hold_row \<Rightarrow> bool" for t where
  opened: "ct_kind t = Hold \<Longrightarrow> ch_facility_id h = ct_facility_id t \<Longrightarrow> ch_amount h = ct_amount t \<Longrightarrow>
    ch_status h = lit ''active'' \<Longrightarrow> hold_change t None h"
| closed: "ct_kind t \<noteq> Hold \<Longrightarrow> ch_facility_id h = ct_facility_id t \<Longrightarrow> ch_amount h = ct_amount t \<Longrightarrow>
    ch_query h = ct_query t \<Longrightarrow> ch_status h = lit ''active'' \<Longrightarrow>
    h' = h\<lparr>ch_status := (if ct_kind t = Release then lit ''released'' else lit ''consumed''),
      ch_settlement_digest := ct_settlement_digest t, ch_updated_sequence := ct_before_sequence t + 1\<rparr> \<Longrightarrow>
    hold_change t (Some h) h'"

inductive_cases hold_changeE [consumes 1, case_names opened closed]: "hold_change t old h"
inductive_simps hold_change_simps: "hold_change t None h" "hold_change t (Some h) h'"

lemma open_hold_change:
  "open_hold f t now db = Ok db' \<Longrightarrow> ct_kind t = Hold \<Longrightarrow> \<exists>h. hold_change t (bt_get (db_credit_holds db) (ct_hold_id t)) h \<and>
     db' = db\<lparr>db_credit_holds := bt_insert (ct_hold_id t) h (db_credit_holds db)\<rparr>"
  by (clarsimp simp: open_hold_def, rule exI, rule conjI [rotated], rule refl, simp add: hold_change_simps)

lemma close_hold_change:
  "close_hold t now db = Ok db' \<Longrightarrow> ct_kind t \<noteq> Hold \<Longrightarrow> \<exists>h. hold_change t (bt_get (db_credit_holds db) (ct_hold_id t)) h \<and>
     db' = db\<lparr>db_credit_holds := bt_insert (ct_hold_id t) h (db_credit_holds db)\<rparr>"
  by (clarsimp simp: close_hold_def split: if_splits; rule exI, rule conjI [rotated], rule refl, simp add: hold_change_simps)

lemma apply_credit_transitionE:
  assumes "apply_credit_transition t st kind now db = Ok (db', snap)"
  obtains row h ops where "bt_get (db_credit_facilities db) (ct_facility_id t) = Some row"
    "cf_available row = ct_before_available t" "cf_held row = ct_before_held t"
    "cf_outstanding row = ct_before_outstanding t" "cf_sequence row = ct_before_sequence t"
    "hold_change t (bt_get (db_credit_holds db) (ct_hold_id t)) h"
    "bt_get (db_credit_operations db) (ct_operation_id t) = None"
    "db' = db\<lparr>db_credit_holds := bt_insert (ct_hold_id t) h (db_credit_holds db),
       db_credit_facilities := bt_insert (ct_facility_id t) (moved_row t row) (db_credit_facilities db),
       db_credit_operations := bt_insert (ct_operation_id t)
         \<lparr>co_facility_id = ct_facility_id t, co_kind = kind, co_statement = st\<rparr> (db_credit_operations db),
       db_operations := ops\<rparr>"
proof -
  from assms obtain f db1 db2 where f: "load_required db (ct_facility_id t) ''credit transition names an unknown facility'' = Ok f"
      "fs_sequence f = ct_before_sequence t" "fs_available f = ct_before_available t" "fs_held f = ct_before_held t"
      "fs_outstanding f = ct_before_outstanding t"
    and hold: "(case ct_kind t of Hold \<Rightarrow> open_hold f t now db | _ \<Rightarrow> close_hold t now db) = Ok db1"
    and swap: "swap_facility (ct_facility_id t) (ct_before_sequence t) (\<lambda>row. row\<lparr>cf_available := ct_after_available t,
         cf_held := ct_after_held t, cf_outstanding := ct_after_outstanding t\<rparr>)
       ''credit facility compare-and-swap lost a concurrent update'' db1 = Ok db2"
    and ins: "insert_credit_operation (ct_operation_id t) (ct_facility_id t) kind st db2 = Ok db'"
    by (auto simp: apply_credit_transition_def)
  from hold obtain h where h: "hold_change t (bt_get (db_credit_holds db) (ct_hold_id t)) h"
    and db1: "db1 = db\<lparr>db_credit_holds := bt_insert (ct_hold_id t) h (db_credit_holds db)\<rparr>"
    by (cases "ct_kind t") (auto dest!: open_hold_change close_hold_change)
  from swap obtain row where row: "bt_get (db_credit_facilities db1) (ct_facility_id t) = Some row"
    and db2: "db2 = db1\<lparr>db_credit_facilities := bt_insert (ct_facility_id t) (moved_row t row) (db_credit_facilities db1)\<rparr>"
    unfolding moved_row_def by (rule swap_facilityE) simp
  from ins obtain ops where none: "bt_get (db_credit_operations db2) (ct_operation_id t) = None"
    and db': "db' = db2\<lparr>db_credit_operations := bt_insert (ct_operation_id t)
      \<lparr>co_facility_id = ct_facility_id t, co_kind = kind, co_statement = st\<rparr> (db_credit_operations db2), db_operations := ops\<rparr>"
    by (rule insert_credit_operationE)
  from f row have "cf_available row = ct_before_available t" "cf_held row = ct_before_held t"
    "cf_outstanding row = ct_before_outstanding t" "cf_sequence row = ct_before_sequence t"
    by (auto elim!: load_requiredE simp: db1)
  then show thesis using row none h that by (simp add: db' db2 db1)
qed

lemma transition_credit_facilityE:
  assumes "transition_credit_facility F E C wall now t pf ap db = Ok (db', snap)"
  obtains (replay) "db' = db"
  | (fresh) st where "relation_proof_verify F E pf t = Ok ()"
      "apply_credit_transition t st (credit_transition_str (ct_kind t)) now db = Ok (db', snap)"
  using assms by (auto simp: transition_credit_facility_def split: if_splits)

section \<open>Lines stay balanced\<close>

lemma bt_sum_zero:
  assumes "\<And>k v. bt_get m k = Some v \<Longrightarrow> f v = (0 :: 'p::comm_monoid_add)"
  shows "bt_sum f m = 0"
proof -
  have "bt_sum f m = bt_sum (\<lambda>_. 0) m" by (rule bt_sum_mono_values) (rule assms)
  then show ?thesis by (simp add: bt_sum_def)
qed

lemma live_amount_other: "ch_facility_id h \<noteq> f \<Longrightarrow> live_amount E f h = 0"
  by (simp add: live_amount_def)

lemma grant_credit_ok:
  assumes "ce_decompress E 0 = Some 0" "credit_ok E db" "grant_credit_facility F C wall now g ap db = Ok (db', snap)"
  shows "credit_ok E db'"
  using assms(3)
proof (cases rule: grant_credit_facilityE)
  case (fresh st ops)
  let ?row = "granted_row g st"
  have "ch_facility_id h \<noteq> cg_facility_id g" if "bt_get (db_credit_holds db) k = Some h" for k h
    using assms(2) fresh(1) that unfolding credit_ok_def by metis
  then have "bt_sum (live_amount E (cg_facility_id g)) (db_credit_holds db) = 0"
    by (intro bt_sum_zero live_amount_other)
  then have "line_ok E db' (cg_facility_id g) ?row"
    using fresh(2) assms(1) by (simp add: line_ok_def fresh(4)) (simp add: unused_def balanced_def)
  then show ?thesis
    using assms(2) by (auto simp: credit_ok_def fresh(4) line_ok_def split: if_splits)
qed (use assms(2) in simp)

text \<open>What the equations of a transition say of the stored commitments.\<close>

lemma relation_equations:
  assumes "verify_credit_relation_equations E t = Ok ()"
  shows "committed_point E (ct_before_available t) + committed_point E (ct_before_held t) + committed_point E (ct_before_outstanding t) =
      committed_point E (ct_after_available t) + committed_point E (ct_after_held t) + committed_point E (ct_after_outstanding t)"
    and "ct_kind t = Hold \<Longrightarrow> committed_point E (ct_after_held t) = committed_point E (ct_before_held t) + committed_point E (ct_amount t)"
    and "ct_kind t \<noteq> Hold \<Longrightarrow> committed_point E (ct_before_held t) = committed_point E (ct_after_held t) + committed_point E (ct_amount t)"
  using assms by (cases "ct_kind t"; auto simp: verify_credit_relation_equations_def committed_point_def algebra_simps)+

lemma relation_proof_bounded:
  assumes "credit_reading E val" "relation_proof_verify F E pf t = Ok ()"
  shows "bounded E val (moved_row t row)"
proof -
  let ?cs = "[ct_after_available t, ct_after_held t, ct_after_outstanding t, ct_amount t]"
  from assms(2) obtain tr where rv: "ce_range_verify E tr (rp_state_range pf) ?cs 64"
    by (auto simp: relation_proof_verify_def)
  have "\<exists>v. worth E val c v" if "c \<in> set ?cs" for c by (rule ranged [OF assms(1) rv that])
  then show ?thesis by (simp add: bounded_def moved_row_def)
qed

lemma live_sum_change:
  assumes "hold_change t (bt_get holds i) h"
  shows "bt_sum (live_amount E f) (bt_insert i h holds) = bt_sum (live_amount E f) holds +
    (if f \<noteq> ct_facility_id t then 0 else if ct_kind t = Hold then committed_point E (ct_amount t)
     else - committed_point E (ct_amount t))"
  using assms
proof (cases rule: hold_changeE)
  case opened
  then show ?thesis by (simp add: bt_sum_insert_new live_amount_def algebra_simps)
next
  case (closed old)
  from bt_sum_insert_old [OF closed(1), of "live_amount E f" h] closed show ?thesis
    by (auto simp: live_amount_def algebra_simps)
qed

lemma apply_credit_ok:
  assumes "credit_ok E db" "verify_credit_relation_equations E t = Ok ()"
    "apply_credit_transition t st kind now db = Ok (db', snap)"
  shows "credit_ok E db'"
  using assms(3)
proof (cases rule: apply_credit_transitionE)
  case (1 row h ops)
  let ?f = "ct_facility_id t"
  from assms(1) 1(1) have old: "line_ok E db ?f row" by (simp add: credit_ok_def)
  then have "balanced E (moved_row t row)"
    using relation_equations(1) [OF assms(2)] 1(2-4) by (simp add: line_ok_def balanced_def moved_row_def)
  moreover have "committed_point E (ct_after_held t) = bt_sum (live_amount E ?f) (bt_insert (ct_hold_id t) h (db_credit_holds db))"
    using old 1(3) relation_equations(2,3) [OF assms(2)] unfolding live_sum_change [OF 1(6)] line_ok_def
    by (cases "ct_kind t = Hold") (auto simp: algebra_simps)
  ultimately have new: "line_ok E db' ?f (moved_row t row)"
    using old unfolding line_ok_def 1(8) by (simp add: moved_row_def)
  have other: "line_ok E db' f row'" if "line_ok E db f row'" "f \<noteq> ?f" for f row'
    using that by (simp add: line_ok_def 1(8) live_sum_change [OF 1(6)])
  have "ch_facility_id h = ?f" using 1(6) by (cases rule: hold_changeE) auto
  with new other assms(1) 1(1) show ?thesis
    by (auto simp: credit_ok_def 1(8))
qed

lemma amendment_equations:
  assumes "amendment_proof_verify F E pf a = Ok ()"
  shows "committed_point E (am_after_cap a) + committed_point E (am_after_overlimit a) =
      committed_point E (am_after_available a) + committed_point E (am_before_held a) + committed_point E (am_before_outstanding a)"
  using assms by (cases "am_mode a"; auto simp: amendment_proof_verify_def committed_point_def algebra_simps)

lemma amendment_proof_bounded:
  assumes "credit_reading E val" "amendment_proof_verify F E pf a = Ok ()"
  shows "\<exists>x h d. worth E val (am_after_available a) x \<and> worth E val (am_before_held a) h \<and> worth E val (am_before_outstanding a) d"
proof -
  let ?cs = "[am_after_cap a, am_after_available a, am_before_held a, am_before_outstanding a]"
  from assms(2) obtain tr where rv: "ce_range_verify E tr (mp_balance_range pf) ?cs 64"
    by (auto simp: amendment_proof_verify_def)
  have "\<exists>v. worth E val c v" if "c \<in> set ?cs" for c by (rule ranged [OF assms(1) rv that])
  then show ?thesis by simp
qed

lemma amendment_overlimit:
  "amendment_proof_verify F E pf a = Ok () \<Longrightarrow> am_after_overlimit a \<noteq> 0 \<Longrightarrow> am_mode a = OverLimit"
  by (cases "am_mode a") (auto simp: amendment_proof_verify_def amendment_body_def)

text \<open>An update of one line that leaves the holds as they are.\<close>

lemma credit_ok_update:
  assumes "credit_ok E db" "bt_get (db_credit_facilities db) i = Some row" "cf_held new = cf_held row"
    and "balanced E new"
    and "cf_overlimit new \<noteq> 0 \<Longrightarrow> cf_status new = lit ''frozen'' \<or> cf_status new = lit ''defaulted''"
    and "db_credit_facilities db' = bt_insert i new (db_credit_facilities db)" "db_credit_holds db' = db_credit_holds db"
  shows "credit_ok E db'"
  using assms by (auto simp: credit_ok_def line_ok_def)

lemma amend_credit_ok:
  assumes "credit_ok E db" "amend_credit_facility F E C wall now a pf ap db = Ok (db', snap)"
  shows "credit_ok E db'"
  using assms(2)
proof (cases rule: amend_credit_facilityE)
  case (fresh row k st ops)
  show ?thesis
  proof (rule credit_ok_update [OF assms(1) fresh(2)])
    show "db_credit_facilities db' = bt_insert (am_facility_id a)
        ((amend_row a (if am_mode a = OverLimit then FacilityFrozen else k) row)\<lparr>cf_sequence := cf_sequence row + 1\<rparr>)
        (db_credit_facilities db)"
      by (simp add: fresh(7))
  qed (use fresh(4,5) amendment_equations [OF fresh(1)] amendment_overlimit [OF fresh(1)]
      in \<open>simp_all add: fresh(7) amend_row_def balanced_def\<close>)
qed (use assms(1) in simp)

lemma control_credit_ok:
  assumes "credit_ok E db" "control_credit_facility F C wall now c ap db = Ok (db', snap)"
  shows "credit_ok E db'"
  using assms(2)
proof (cases rule: control_credit_facilityE)
  case (fresh f row st ops)
  let ?new = "row\<lparr>cf_status := facility_status_str (credit_control_status (cc_action c)), cf_sequence := cf_sequence row + 1\<rparr>"
  from assms(1) fresh(2) have old: "line_ok E db (cc_facility_id c) row" by (simp add: credit_ok_def)
  have status: "cf_status ?new = lit ''frozen'' \<or> cf_status ?new = lit ''defaulted''" if "cf_overlimit ?new \<noteq> 0"
    using that fresh(1,4) by (cases "cc_action c") (auto simp: control_allowed_def split: if_splits)
  show ?thesis
    by (rule credit_ok_update [OF assms(1) fresh(2), of ?new])
      (use old status in \<open>auto simp: fresh(6) line_ok_def balanced_def\<close>)
qed (use assms(1) in simp)

lemma transition_credit_ok:
  assumes "credit_ok E db" "transition_credit_facility F E C wall now t pf ap db = Ok (db', snap)"
  shows "credit_ok E db'"
  using assms(2)
proof (cases rule: transition_credit_facilityE)
  case (fresh st)
  then have "verify_credit_relation_equations E t = Ok ()" by (auto simp: relation_proof_verify_def)
  with assms(1) fresh(2) show ?thesis by (blast intro: apply_credit_ok)
qed (use assms(1) in simp)

section \<open>Holds end once\<close>

text \<open>A hold keeps its line, query and amount; once it is closed it does not change.\<close>

definition holds_kept :: "facility_db \<Rightarrow> facility_db \<Rightarrow> bool" where
  "holds_kept db db' \<longleftrightarrow> (\<forall>i h. bt_get (db_credit_holds db) i = Some h \<longrightarrow>
     (\<exists>h'. bt_get (db_credit_holds db') i = Some h' \<and> ch_facility_id h' = ch_facility_id h \<and>
        ch_query h' = ch_query h \<and> ch_amount h' = ch_amount h \<and> (ch_status h \<noteq> lit ''active'' \<longrightarrow> h' = h)))"

lemma holds_kept_refl: "db_credit_holds db' = db_credit_holds db \<Longrightarrow> holds_kept db db'"
  by (simp add: holds_kept_def)

lemma holds_keptE:
  assumes "holds_kept db db'" "bt_get (db_credit_holds db) i = Some h"
  obtains h' where "bt_get (db_credit_holds db') i = Some h'" "ch_facility_id h' = ch_facility_id h"
    "ch_query h' = ch_query h" "ch_amount h' = ch_amount h" "ch_status h \<noteq> lit ''active'' \<longrightarrow> h' = h"
  using assms unfolding holds_kept_def by blast

lemma holds_kept_trans:
  assumes "holds_kept db1 db2" "holds_kept db2 db3"
  shows "holds_kept db1 db3"
  unfolding holds_kept_def
proof (intro allI impI)
  fix i h
  assume "bt_get (db_credit_holds db1) i = Some h"
  with assms(1) obtain h2 where h2: "bt_get (db_credit_holds db2) i = Some h2" "ch_facility_id h2 = ch_facility_id h"
    "ch_query h2 = ch_query h" "ch_amount h2 = ch_amount h" "ch_status h \<noteq> lit ''active'' \<longrightarrow> h2 = h"
    by (rule holds_keptE)
  from assms(2) h2(1) obtain h3 where "bt_get (db_credit_holds db3) i = Some h3" "ch_facility_id h3 = ch_facility_id h2"
    "ch_query h3 = ch_query h2" "ch_amount h3 = ch_amount h2" "ch_status h2 \<noteq> lit ''active'' \<longrightarrow> h3 = h2"
    by (rule holds_keptE)
  with h2 show "\<exists>h'. bt_get (db_credit_holds db3) i = Some h' \<and> ch_facility_id h' = ch_facility_id h \<and>
      ch_query h' = ch_query h \<and> ch_amount h' = ch_amount h \<and> (ch_status h \<noteq> lit ''active'' \<longrightarrow> h' = h)"
    by (intro exI [of _ h3]) auto
qed

lemma apply_holds_kept:
  assumes "apply_credit_transition t st kind now db = Ok (db', snap)"
  shows "holds_kept db db'"
  using assms
proof (cases rule: apply_credit_transitionE)
  case (1 row h ops)
  from 1(6) show ?thesis
    by (cases rule: hold_changeE) (simp_all add: 1(8) holds_kept_def)
qed

lemma transition_holds_kept:
  "transition_credit_facility F E C wall now t pf ap db = Ok (db', snap) \<Longrightarrow> holds_kept db db'"
  by (auto elim!: transition_credit_facilityE intro: apply_holds_kept holds_kept_refl)

lemma grant_holds_kept: "grant_credit_facility F C wall now g ap db = Ok (db', snap) \<Longrightarrow> holds_kept db db'"
  by (auto elim!: grant_credit_facilityE intro: holds_kept_refl)

lemma amend_holds_kept: "amend_credit_facility F E C wall now a pf ap db = Ok (db', snap) \<Longrightarrow> holds_kept db db'"
  by (auto elim!: amend_credit_facilityE intro: holds_kept_refl)

lemma control_holds_kept: "control_credit_facility F C wall now c ap db = Ok (db', snap) \<Longrightarrow> holds_kept db db'"
  by (auto elim!: control_credit_facilityE intro: holds_kept_refl)

end
