(* ===== verification/Reservation.thy ===== *)
theory Reservation
  imports Settlement Admission CreditSafety
begin

text \<open>
  \<open>facility.rs\<close> and \<open>product.rs\<close>: reservations for a product. A Maker's policy or a Taker's
  request for a quote reserves a maximum before it is executable: one transaction opens a hold on
  a guarantee line, consumes the Taker's lane of the admission order, binds the hold to
  the signed authority, and takes the asset out of the owner's account into an escrow under
  the hold's identifier. A reservation that was not used is released after its expiry, which gives the
  hold back to the line and the asset back to the account.

  The typed instruction of \<open>zkpi\<close> is a record of the fields the program reads; its
  verification and encoding, and hashing to a point, are fields of \<open>product_ext\<close>, which
  bundles the parameters of the components used here. Mandates and identity
  presentations belong to \<open>zkpi_committee\<close> and \<open>zkpi_proofs\<close>; what the adapter compares of them is a record,
  and their verification a field.

  What the operations keep is shown in \<open>ReservationSafety\<close>.
\<close>

section \<open>The typed instruction\<close>

datatype operation_kind = OpReserve | OpRelease | OpConsume | OpSettle | OpOther nat
datatype authorization_scope = MakerScope | TakerScope | JointScope | OtherScope nat
datatype trade_direction = TakerBuys | TakerSells

record 'p typed_context =
  tx_operation :: operation_kind
  tx_scope :: authorization_scope
  tx_direction :: trade_direction
  tx_venue_id :: id32
  tx_defmi_id :: id32
  tx_reserve_handle :: 'p
  tx_maker_handle :: 'p
  tx_taker_handle :: 'p
  tx_maker_reservation_id :: id32
  tx_maker_reservation_sequence :: u64
  tx_maker_reserve_receipt_digest :: id32
  tx_taker_reservation_id :: id32
  tx_taker_reservation_sequence :: u64
  tx_taker_reserve_receipt_digest :: id32
  tx_maker_policy_digest :: id32
  tx_maker_mandate_digest :: id32
  tx_taker_mandate_digest :: id32
  tx_rfq_nullifier :: id32
  tx_quote_proof_digest :: id32
  tx_market_statement_digest :: id32
  tx_before_state_root :: id32

record 'p typed_instruction =
  ti_payment :: "'p instruction"
  ti_context :: "'p typed_context"
  ti_rest :: bytes

text \<open>\<open>zkpi_committee::mandate\<close>: the fields the adapter compares.\<close>

datatype mandate_direction = MandateTakerBuys | MandateTakerSells

record maker_mandate =
  mm_entity :: id32
  mm_asset_id :: id32
  mm_direction :: mandate_direction
  mm_policy_digest :: id32
  mm_policy_version :: u64
  mm_reserve_id :: id32
  mm_maximum_amount :: id32
  mm_venue_id :: id32
  mm_defmi_id :: id32
  mm_maker_handle :: id32
  mm_rest :: bytes

record taker_mandate =
  tm_entity :: id32
  tm_asset_id :: id32
  tm_reserve_asset_id :: id32
  tm_direction :: mandate_direction
  tm_rfq_nullifier :: id32
  tm_admission_ticket_id :: id32
  tm_admission_slot :: u64
  tm_reserve_id :: id32
  tm_maximum_amount :: id32
  tm_quantity :: id32
  tm_limit_price :: id32
  tm_deadline :: u64
  tm_allow_partial :: bool
  tm_venue_id :: id32
  tm_defmi_id :: id32
  tm_taker_handle :: id32
  tm_rest :: bytes

text \<open>
  The parameters: \<open>Venue::verify_typed\<close>, \<open>typed_wire::encode\<close>, the venue's key and width,
  the discriminants of the two directions, \<open>RistrettoPoint::hash_from_bytes\<close>, and \<open>verify\<close>
  with an identity presentation and \<open>digest\<close> of the two mandates.
\<close>

record ('g, 'p, 's, 'v) product_ext =
  px_facility :: "'g facility_ext"
  px_credit :: "('p, 's) credit_ext"
  px_prims :: "('p, 's) prims"
  px_zkpi :: "('p, 'v) zkpi"
  px_verify_typed :: "'v \<Rightarrow> 'p typed_instruction \<Rightarrow> u64 \<Rightarrow> unit db_result"
  px_typed_encode :: "'p typed_instruction \<Rightarrow> bytes"
  px_venue_key :: "'v \<Rightarrow> 'p pedersen"
  px_amount_bits :: "'v \<Rightarrow> nat"
  px_direction :: "trade_direction \<Rightarrow> u8"
  px_hash_to_point :: "bytes \<Rightarrow> 'p"
  px_mandate_direction :: "mandate_direction \<Rightarrow> u8"
  px_maker_verify :: "maker_mandate \<Rightarrow> bytes \<Rightarrow> u64 \<Rightarrow> unit db_result"
  px_maker_digest :: "maker_mandate \<Rightarrow> id32 db_result"
  px_taker_verify :: "taker_mandate \<Rightarrow> bytes \<Rightarrow> u64 \<Rightarrow> unit db_result"
  px_taker_digest :: "taker_mandate \<Rightarrow> id32 db_result"

definition reserve_handle_for :: "('g, 'p, 's, 'v) product_ext \<Rightarrow> id32 \<Rightarrow> 'p" where
  "reserve_handle_for X facility_id =
     px_hash_to_point X (ascii ''QOMM:DEFMI:FACILITY-RESERVE-HANDLE:v1'' @ id_bytes facility_id)"

text \<open>The sha-256 of the encoded instruction, and an encoding of a point against 32 bytes.\<close>

definition typed_digest :: "('g, 'p, 's, 'v) product_ext \<Rightarrow> 'p typed_instruction \<Rightarrow> id32" where
  "typed_digest X ti = gc_sha256 (fx_gov (px_facility X)) (px_typed_encode X ti)"

definition encodes :: "('g, 'p, 's, 'v) product_ext \<Rightarrow> 'p \<Rightarrow> id32 \<Rightarrow> bool" where
  "encodes X x c \<longleftrightarrow> compress (px_prims X) x = id_bytes c"

definition to_point :: "('g, 'p, 's, 'v) product_ext \<Rightarrow> id32 \<Rightarrow> 'p option" where
  "to_point X c = decompress (px_prims X) (id_bytes c)"

text \<open>\<open>try_into\<close> of a derived account name to 32 bytes.\<close>

definition handle32 :: "bytes \<Rightarrow> string \<Rightarrow> id32 db_result" where
  "handle32 raw e = (if length raw = 32 then Ok (of_nat (be_nat raw)) else Err e)"

section \<open>Escrows and authorizations\<close>

datatype reservation_role = Maker | Taker

fun reservation_role_str :: "reservation_role \<Rightarrow> str" where
  "reservation_role_str Maker = lit ''maker''"
| "reservation_role_str Taker = lit ''taker''"

record reservation_escrow =
  rx_source_handle :: id32
  rx_escrow_handle :: id32
  rx_asset_id :: id32
  rx_amount :: id32
  rx_source_before :: id32
  rx_source_after :: id32
  rx_source_before_sequence :: u64
  rx_proof_digest :: id32

definition escrow_body :: "reservation_escrow \<Rightarrow> json db_result" where
  "escrow_body e =
     and_then (ensure (rx_source_before_sequence e \<noteq> u64_max) ''reservation escrow source sequence overflows'') (\<lambda>_.
     jobject [jnz ''source_handle'' (rx_source_handle e), jnz ''escrow_handle'' (rx_escrow_handle e),
       jnz ''asset_id'' (rx_asset_id e), jnz ''amount_commitment'' (rx_amount e),
       jid ''source_before_commitment'' (rx_source_before e), jid ''source_after_commitment'' (rx_source_after e),
       jnum ''source_before_sequence'' (rx_source_before_sequence e), jnz ''proof_digest'' (rx_proof_digest e)])"

definition escrow_statement :: "'g facility_ext \<Rightarrow> reservation_escrow \<Rightarrow> id32 db_result" where
  "escrow_statement F e = and_then (escrow_body e) (\<lambda>body.
     Ok (body_digest (fx_gov F) (ascii ''QOMM:DEFMI:RESERVATION-ESCROW:v1'') body))"

record reservation_authorization =
  ra_role :: reservation_role
  ra_entity :: id32
  ra_asset_id :: id32
  ra_direction :: u8
  ra_authorization_digest :: id32
  ra_mandate_digest :: id32
  ra_typed_reserve_digest :: id32
  ra_reserve_nullifier :: id32
  ra_asset_link_proof_digest :: id32
  ra_limit_price :: id32
  ra_escrow_digest :: id32
  ra_rfq_nullifier :: id32
  ra_policy_version :: u64
  ra_admission_ticket_id :: id32
  ra_admission_slot :: u64
  ra_admission_receipt_digest :: id32
  ra_admission_epoch :: u64
  ra_admission_sequence :: u64
  ra_admission_batch_id :: id32

text \<open>What a role may and must name.\<close>

definition role_fields_ok :: "('g, 'p, 's, 'v) product_ext \<Rightarrow> reservation_authorization \<Rightarrow> unit db_result" where
  "role_fields_ok X a = (case ra_role a of
       Maker \<Rightarrow> ensure (\<not> (ra_policy_version a = 0 \<or> ra_rfq_nullifier a \<noteq> 0 \<or> ra_admission_ticket_id a \<noteq> 0 \<or>
           ra_admission_slot a \<noteq> 0 \<or> ra_admission_receipt_digest a \<noteq> 0 \<or> ra_admission_epoch a \<noteq> 0 \<or>
           ra_admission_sequence a \<noteq> 0 \<or> ra_admission_batch_id a \<noteq> 0 \<or> ra_limit_price a \<noteq> 0))
         ''Maker reservation must name a policy version, not an RFQ''
     | Taker \<Rightarrow> ensure (\<not> (ra_policy_version a \<noteq> 0 \<or> ra_rfq_nullifier a = 0 \<or> ra_admission_ticket_id a = 0 \<or>
           ra_admission_receipt_digest a = 0 \<or> ra_admission_epoch a = 0 \<or> ra_admission_sequence a = 0 \<or>
           ra_admission_batch_id a = 0 \<or> ra_limit_price a = 0 \<or> to_point X (ra_limit_price a) = None))
         ''Taker reservation must name an admitted one-use RFQ'')"

definition authorization_body ::
  "('g, 'p, 's, 'v) product_ext \<Rightarrow> reservation_authorization \<Rightarrow> credit_facility_transition \<Rightarrow> json db_result" where
  "authorization_body X a t =
     and_then (ensure (ct_kind t = Hold) ''a bound reservation must create a hold'') (\<lambda>_.
     and_then (ensure (\<not> (ra_direction a \<noteq> 1 \<and> ra_direction a \<noteq> 2))
       ''reservation direction must be Taker-buy or Taker-sell'') (\<lambda>_.
     and_then (ensure (ct_query t = ra_authorization_digest a)
       ''facility hold is bound to another policy or RFQ authorization'') (\<lambda>_.
     and_then (role_fields_ok X a) (\<lambda>_.
     jobject [jstr ''role'' (reservation_role_str (ra_role a)), jnz ''entity_commitment'' (ra_entity a),
       jnz ''asset_id'' (ra_asset_id a), (''direction'', Ok (JNumber (unat (ra_direction a)))),
       jnz ''authorization_digest'' (ra_authorization_digest a), jnz ''mandate_digest'' (ra_mandate_digest a),
       jnz ''typed_reserve_digest'' (ra_typed_reserve_digest a), jnz ''reserve_nullifier'' (ra_reserve_nullifier a),
       jnz ''asset_link_proof_digest'' (ra_asset_link_proof_digest a), jid ''limit_price_commitment'' (ra_limit_price a),
       jnz ''escrow_digest'' (ra_escrow_digest a), jid ''rfq_nullifier'' (ra_rfq_nullifier a),
       jnum ''policy_version'' (ra_policy_version a), jid ''admission_ticket_id'' (ra_admission_ticket_id a),
       jnum ''admission_slot'' (ra_admission_slot a),
       jid ''admission_receipt_digest'' (ra_admission_receipt_digest a), jnum ''admission_epoch'' (ra_admission_epoch a),
       jnum ''admission_sequence'' (ra_admission_sequence a), jid ''admission_batch_id'' (ra_admission_batch_id a),
       (''hold_statement'', and_then (transition_statement (px_facility X) t) (\<lambda>s. Ok (JString (key s))))]))))"

definition authorization_statement ::
  "('g, 'p, 's, 'v) product_ext \<Rightarrow> reservation_authorization \<Rightarrow> credit_facility_transition \<Rightarrow> id32 db_result" where
  "authorization_statement X a t = and_then (authorization_body X a t) (\<lambda>body.
     Ok (body_digest (fx_gov (px_facility X)) (ascii ''QOMM:DEFMI:BOUND-RESERVATION:v1'') body))"

section \<open>Reserving\<close>

record ('p, 's, 'v) reservation_execution =
  ex_transition :: credit_facility_transition
  ex_relation_proof :: relation_proof
  ex_authorization :: reservation_authorization
  ex_escrow :: reservation_escrow
  ex_typed :: "'p typed_instruction"
  ex_venue :: 'v
  ex_asset_link :: "('p, 's) asset_link_proof"
  ex_admission :: "ordered_admission option"
  ex_approval :: quorum_approval
  ex_now :: u64

fun scope_of :: "reservation_role \<Rightarrow> authorization_scope" where
  "scope_of Maker = MakerScope"
| "scope_of Taker = TakerScope"

fun reservation_of :: "reservation_role \<Rightarrow> 'p typed_context \<Rightarrow> id32 \<times> u64 \<times> id32" where
  "reservation_of Maker c =
     (tx_maker_reservation_id c, tx_maker_reservation_sequence c, tx_maker_reserve_receipt_digest c)"
| "reservation_of Taker c =
     (tx_taker_reservation_id c, tx_taker_reservation_sequence c, tx_taker_reserve_receipt_digest c)"

definition admission_matches ::
  "('g, 'p, 's, 'v) product_ext \<Rightarrow> reservation_authorization \<Rightarrow> 'p typed_context \<Rightarrow> credit_facility_transition
    \<Rightarrow> ordered_admission option \<Rightarrow> unit db_result" where
  "admission_matches X a c t admission = (case (ra_role a, admission) of
       (Maker, None) \<Rightarrow> Ok ()
     | (Maker, Some _) \<Rightarrow> Err ''Maker policy reserve must not carry an RFQ admission receipt''
     | (Taker, Some m) \<Rightarrow>
         and_then (fx_certified_digest (px_facility X) m) (\<lambda>digest.
         ensure (digest = ra_admission_receipt_digest a \<and> oa_venue_id m = tx_venue_id c \<and>
             oa_ticket_id m = ra_admission_ticket_id a \<and> oa_slot m = ra_admission_slot a \<and>
             oa_epoch m = ra_admission_epoch a \<and> oa_sequence m = ra_admission_sequence a \<and>
             oa_rfq_nullifier m = ra_rfq_nullifier a \<and> oa_taker_entity m = ra_entity a \<and>
             oa_taker_mandate_digest m = ra_mandate_digest a \<and> oa_expires_at m = ct_expires_at t)
           ''Taker reserve lacks its exact ordered admission receipt'')
     | (Taker, None) \<Rightarrow> Err ''Taker reserve lacks its exact ordered admission receipt'')"

definition mandate_matches :: "reservation_authorization \<Rightarrow> 'p typed_context \<Rightarrow> unit db_result" where
  "mandate_matches a c = (case ra_role a of
       Maker \<Rightarrow> ensure (\<not> (tx_maker_policy_digest c \<noteq> ra_authorization_digest a \<or>
           tx_maker_mandate_digest c \<noteq> ra_mandate_digest a)) ''Maker reserve zkPI is bound to another policy mandate''
     | Taker \<Rightarrow> ensure (\<not> (ra_authorization_digest a \<noteq> ra_mandate_digest a \<or>
           tx_taker_mandate_digest c \<noteq> ra_mandate_digest a)) ''Taker reserve zkPI is bound to another execution mandate'')"

definition linked ::
  "('g, 'p::ab_group_add, 's, 'v) product_ext \<Rightarrow> 'v \<Rightarrow> id32 \<Rightarrow> 'p typed_instruction \<Rightarrow> ('p, 's) asset_link_proof \<Rightarrow> id32 \<Rightarrow> bool" where
  "linked X venue asset_id ti link digest \<longleftrightarrow>
     asset_link_verify (px_prims X) (px_venue_key X venue) (id_bytes asset_id) (i_asset_commitment (ti_payment ti)) link \<and>
     asset_link_digest (px_prims X) link (id_bytes asset_id) (i_asset_commitment (ti_payment ti)) = id_bytes digest"

text \<open>The checks before the transaction.\<close>

definition reserve_checks ::
  "('g, 'p::ab_group_add, 's, 'v) product_ext \<Rightarrow> ('p, 's, 'v) reservation_execution \<Rightarrow> unit db_result" where
  "reserve_checks X r =
     (let t = ex_transition r; a = ex_authorization r; e = ex_escrow r; ti = ex_typed r; c = ti_context ti;
          (reservation_id, reservation_sequence, _) = reservation_of (ra_role a) c in
     and_then (transition_body t) (\<lambda>_.
     and_then (relation_proof_verify (px_facility X) (px_credit X) (ex_relation_proof r) t) (\<lambda>_.
     and_then (if rx_asset_id e \<noteq> ra_asset_id a \<or> rx_amount e \<noteq> ct_amount t
       then Err ''reservation escrow differs from its signed authorization''
       else and_then (escrow_statement (px_facility X) e) (\<lambda>digest.
         ensure (\<not> (digest \<noteq> ra_escrow_digest a \<or> rx_source_handle e = rx_escrow_handle e))
           ''reservation escrow differs from its signed authorization'')) (\<lambda>_.
     and_then (map_err (\<lambda>error. ''reserve zkPI failed: '' @ error) (px_verify_typed X (ex_venue r) ti (ex_now r))) (\<lambda>_.
     and_then (admission_matches X a c t (ex_admission r)) (\<lambda>_.
     and_then (ensure (\<not> (tx_operation c \<noteq> OpReserve \<or> tx_scope c \<noteq> scope_of (ra_role a) \<or>
         px_direction X (tx_direction c) \<noteq> ra_direction a \<or> tx_reserve_handle c \<noteq> reserve_handle_for X (ct_facility_id t) \<or>
         reservation_id \<noteq> ct_hold_id t \<or> reservation_sequence \<noteq> ct_before_sequence t \<or>
         \<not> encodes X (i_amount_commitment (ti_payment ti)) (ct_amount t) \<or> i_deadline (ti_payment ti) \<noteq> ct_expires_at t))
       ''reserve zkPI does not describe this facility hold'') (\<lambda>_.
     and_then (mandate_matches a c) (\<lambda>_.
     ensure (\<not> (typed_digest X ti \<noteq> ra_typed_reserve_digest a \<or>
         i_nullifier (ti_payment ti) \<noteq> id_bytes (ra_reserve_nullifier a) \<or>
         \<not> linked X (ex_venue r) (ra_asset_id a) ti (ex_asset_link r) (ra_asset_link_proof_digest a)))
       ''reserve zkPI digest, nullifier, or hidden asset link is invalid''))))))))"

definition taker_binding :: "binding_row \<Rightarrow> bool" where
  "taker_binding b \<longleftrightarrow> rb_role b = lit ''taker''"

text \<open>The three one-use checks of a Taker.\<close>

definition one_use :: "reservation_authorization \<Rightarrow> facility_db \<Rightarrow> unit db_result" where
  "one_use a db = (let takers = filter taker_binding (bt_values (db_bindings db)) in
     if ra_role a \<noteq> Taker then Ok () else
     and_then (ensure (ra_rfq_nullifier a \<notin> rb_rfq_nullifier ` set takers)
       ''one-use RFQ already has a Taker reservation'') (\<lambda>_.
     and_then (ensure (ra_admission_ticket_id a \<notin> rb_admission_ticket_id ` set takers)
       ''admission ticket was already used by another RFQ'') (\<lambda>_.
     ensure (ra_admission_receipt_digest a \<notin> rb_admission_receipt_digest ` set takers)
       ''admission receipt was already used by another RFQ'')))"

definition source_fresh :: "reservation_escrow \<Rightarrow> facility_db \<Rightarrow> unit db_result" where
  "source_fresh e db =
     and_then (ok_or (bt_get (db_accounts db) (rx_source_handle e))
       ''reservation escrow names an unknown source account'') (\<lambda>row.
     if ac_asset_id row \<noteq> rx_asset_id e \<or> ac_commitment row \<noteq> rx_source_before e
     then Err ''reservation escrow was proved against stale source-account state''
     else and_then (column (ac_sequence row)) (\<lambda>sequence.
       ensure (sequence = rx_source_before_sequence e) ''reservation escrow was proved against stale source-account state''))"

definition binding_of :: "reservation_authorization \<Rightarrow> id32 \<Rightarrow> id32 \<Rightarrow> binding_row" where
  "binding_of a batch_id statement =
     \<lparr>rb_role = reservation_role_str (ra_role a), rb_entity = ra_entity a, rb_asset_id = ra_asset_id a,
      rb_direction = ucast (ra_direction a), rb_authorization_digest = ra_authorization_digest a,
      rb_mandate_digest = ra_mandate_digest a, rb_typed_reserve_digest = ra_typed_reserve_digest a,
      rb_reserve_nullifier = ra_reserve_nullifier a, rb_asset_link_proof_digest = ra_asset_link_proof_digest a,
      rb_limit_price = ra_limit_price a, rb_rfq_nullifier = ra_rfq_nullifier a,
      rb_policy_version = ra_policy_version a, rb_admission_ticket_id = ra_admission_ticket_id a,
      rb_admission_slot = ra_admission_slot a, rb_admission_receipt_digest = ra_admission_receipt_digest a,
      rb_admission_epoch = ra_admission_epoch a, rb_admission_sequence = ra_admission_sequence a,
      rb_admission_batch_id = batch_id, rb_receipt_digest = statement\<rparr>"

text \<open>
  The constraints on a binding: the primary key, the unique columns and the partial unique indexes, and the
  references to the hold and the asset.
\<close>

definition insert_binding :: "id32 \<Rightarrow> binding_row \<Rightarrow> facility_db \<Rightarrow> facility_db db_result" where
  "insert_binding hold_id b db = (let rows = bt_values (db_bindings db); takers = filter taker_binding rows in
     and_then (ensure (bt_get (db_bindings db) hold_id = None \<and> bt_contains (db_credit_holds db) hold_id \<and>
         bt_contains (db_assets db) (rb_asset_id b) \<and>
         rb_typed_reserve_digest b \<notin> rb_typed_reserve_digest ` set rows \<and>
         rb_receipt_digest b \<notin> rb_receipt_digest ` set rows \<and>
         (rb_reserve_nullifier b = 0 \<or> rb_reserve_nullifier b \<notin> rb_reserve_nullifier ` set rows) \<and>
         (\<not> taker_binding b \<or> rb_admission_ticket_id b = 0 \<or>
           rb_admission_ticket_id b \<notin> rb_admission_ticket_id ` set takers) \<and>
         (\<not> taker_binding b \<or> rb_admission_receipt_digest b = 0 \<or>
           rb_admission_receipt_digest b \<notin> rb_admission_receipt_digest ` set takers) \<and>
         (\<not> taker_binding b \<or> rb_admission_batch_id b = 0 \<or> rb_admission_sequence b = 0 \<or>
           (rb_admission_batch_id b, rb_admission_sequence b) \<notin>
             (\<lambda>x. (rb_admission_batch_id x, rb_admission_sequence x)) ` set takers))
       ''constraint failed: reservation_bindings'') (\<lambda>_.
     Ok (db\<lparr>db_bindings := bt_insert hold_id b (db_bindings db)\<rparr>)))"

text \<open>\<open>UPDATE accounts SET commitment=...,sequence=sequence+1 WHERE handle=...\<close>\<close>

definition set_commitment :: "id32 \<Rightarrow> id32 \<Rightarrow> facility_db \<Rightarrow> facility_db" where
  "set_commitment handle c db = (case bt_get (db_accounts db) handle of None \<Rightarrow> db
     | Some row \<Rightarrow> db\<lparr>db_accounts := bt_insert handle
         (row\<lparr>ac_commitment := c, ac_sequence := ac_sequence row + 1\<rparr>) (db_accounts db)\<rparr>)"

definition escrow_row_of :: "reservation_escrow \<Rightarrow> escrow_row" where
  "escrow_row_of e =
     \<lparr>re_source_handle = rx_source_handle e, re_escrow_handle = rx_escrow_handle e, re_asset_id = rx_asset_id e,
      re_amount = rx_amount e, re_source_before = rx_source_before e, re_source_after = rx_source_after e,
      re_source_before_sequence = rx_source_before_sequence e, re_proof_digest = rx_proof_digest e,
      re_status = lit ''active'', re_settlement_digest = 0\<rparr>"

definition insert_escrow :: "id32 \<Rightarrow> escrow_row \<Rightarrow> facility_db \<Rightarrow> facility_db db_result" where
  "insert_escrow hold_id e db =
     and_then (ensure (bt_get (db_escrows db) hold_id = None \<and> bt_contains (db_bindings db) hold_id \<and>
         bt_contains (db_assets db) (re_asset_id e) \<and>
         re_proof_digest e \<notin> re_proof_digest ` set (bt_values (db_escrows db)))
       ''constraint failed: reservation_escrows'') (\<lambda>_.
     Ok (db\<lparr>db_escrows := bt_insert hold_id e (db_escrows db)\<rparr>))"

text \<open>The writes of a new reservation.\<close>

definition write_reservation ::
  "('g, 'p, 's, 'v) product_ext \<Rightarrow> ('p, 's, 'v) reservation_execution \<Rightarrow> id32 \<Rightarrow> facility_db
    \<Rightarrow> (facility_db \<times> credit_facility_snapshot) db_result" where
  "write_reservation X r statement db =
     (let t = ex_transition r; a = ex_authorization r; e = ex_escrow r in
     and_then (case ex_admission r of
         Some m \<Rightarrow> consume_ordered_admission (px_facility X) m (ct_operation_id t) (ex_now r) db
       | None \<Rightarrow> Ok (db, 0)) (\<lambda>(db, batch_id).
     and_then (ensure (batch_id = ra_admission_batch_id a) ''Taker reservation names another admission batch'') (\<lambda>_.
     and_then (apply_credit_transition t statement (lit ''bound_hold'') (ex_now r) db) (\<lambda>(db, snapshot).
     and_then (insert_binding (ct_hold_id t) (binding_of a batch_id statement) db) (\<lambda>db.
     and_then (insert_escrow (ct_hold_id t) (escrow_row_of e)
       (set_commitment (rx_source_handle e) (rx_source_after e) db)) (\<lambda>db.
     Ok (db, snapshot)))))))"

definition reserve_for_authorization ::
  "('g, 'p::ab_group_add, 's, 'v) product_ext \<Rightarrow> facility_config \<Rightarrow> u64 option \<Rightarrow> ('p, 's, 'v) reservation_execution
    \<Rightarrow> facility_db \<Rightarrow> (facility_db \<times> credit_facility_snapshot) db_result" where
  "reserve_for_authorization X C wall r db =
     (let t = ex_transition r; a = ex_authorization r; e = ex_escrow r; c = ti_context (ex_typed r); F = px_facility X in
     and_then (reserve_checks X r) (\<lambda>_.
     and_then (authorization_statement X a t) (\<lambda>statement.
     and_then (credit_operation db (ct_operation_id t) statement) (\<lambda>known.
     if known then
       and_then (ensure (map_option rb_receipt_digest (bt_get (db_bindings db) (ct_hold_id t)) = Some statement)
         ''idempotent bound reserve has another receipt'') (\<lambda>_.
       and_then (ensure (map_option re_status (bt_get (db_escrows db) (ct_hold_id t)) = Some (lit ''active''))
         ''idempotent bound reserve has no active asset escrow'') (\<lambda>_.
       and_then (load_required db (ct_facility_id t) ''idempotent bound reserve has no facility state'') (\<lambda>snapshot.
       Ok (db, snapshot))))
     else
       and_then (calculate_root F db) (\<lambda>before_root.
       and_then (ensure (tx_before_state_root c = before_root)
         ''reserve zkPI was authorized against a stale DeFMI state root'') (\<lambda>_.
       and_then (require_quorum F C wall statement before_root (ex_approval r)) (\<lambda>_.
       and_then (load_required db (ct_facility_id t) ''bound reserve names an unknown facility'') (\<lambda>facility.
       and_then (ensure (\<not> (fs_beneficiary facility \<noteq> ra_entity a \<or> fs_rail_asset_id facility \<noteq> ra_asset_id a))
         ''reserve entity or asset does not match its facility'') (\<lambda>_.
       and_then (one_use a db) (\<lambda>_.
       and_then (source_fresh e db) (\<lambda>_.
       write_reservation X r statement db)))))))))))"

section \<open>The adapter\<close>

definition escrow_transfer_context :: "id32 \<Rightarrow> bytes" where
  "escrow_transfer_context hold_id = ascii ''QOMM:DEFMI:RESERVE-ESCROW:v1'' @ id_bytes hold_id"

fun rail_of :: "asset_kind \<Rightarrow> bytes" where
  "rail_of Cash = cash_rail"
| "rail_of Security = securities_rail"
| "rail_of Fund = securities_rail"
| "rail_of Commodity = securities_rail"
| "rail_of Carbon = securities_rail"
| "rail_of OtherAsset = securities_rail"

definition verify_reservation_escrow ::
  "('g, 'p::ab_group_add, 's, 'v) product_ext \<Rightarrow> ('p, 's, 'v) reservation_execution \<Rightarrow> 'p transfer \<Rightarrow> facility_db \<Rightarrow> unit db_result" where
  "verify_reservation_escrow X r transfer db =
     (let P = px_prims X; a = ex_authorization r; e = ex_escrow r; t = ex_transition r; pay = ti_payment (ex_typed r) in
     and_then (stored_asset_kind db (ra_asset_id a)) (\<lambda>kind.
     and_then (handle32 (account_of (px_zkpi X) (i_payer_handle pay) (rail_of kind))
       ''derived reserve source handle is not 32 bytes'') (\<lambda>expected_source.
     and_then (handle32 (account_of (px_zkpi X) (i_payee_handle pay) (rail_of kind))
       ''derived reserve escrow handle is not 32 bytes'') (\<lambda>expected_escrow.
     and_then (if rx_source_handle e \<noteq> expected_source \<or> rx_escrow_handle e \<noteq> expected_escrow \<or>
         rx_asset_id e \<noteq> ra_asset_id a \<or> rx_amount e \<noteq> ct_amount t \<or>
         id_bytes (rx_proof_digest e) \<noteq> transfer_digest P transfer
       then Err ''asset escrow does not match the signed reserve zkPI''
       else and_then (escrow_statement (px_facility X) e) (\<lambda>digest.
         ensure (\<not> (ra_escrow_digest a \<noteq> digest \<or> t_tag transfer \<noteq> None \<or>
             \<not> encodes X (t_amount_commitment transfer) (rx_amount e) \<or>
             \<not> encodes X (t_remainder_commitment transfer) (rx_source_after e)))
           ''asset escrow does not match the signed reserve zkPI'')) (\<lambda>_.
     and_then (ok_or (to_point X (rx_source_before e)) ''reservation source commitment is not canonical'') (\<lambda>source_before.
     and_then (map_err (\<lambda>_. ''handle already open'') (Ledger.open_account
       (ledger_new (px_venue_key X (ex_venue r)) (px_amount_bits X (ex_venue r)))
       (id_bytes (rx_source_handle e)) source_before)) (\<lambda>ledger.
     map_err (\<lambda>_. ''reserve asset proof failed'') (check_transfer P ledger (id_bytes (rx_source_handle e)) transfer
       (escrow_transfer_context (ct_hold_id t)) True))))))))"

definition verify_maker_reservation ::
  "('g, 'p, 's, 'v) product_ext \<Rightarrow> ('p, 's, 'v) reservation_execution \<Rightarrow> maker_mandate \<Rightarrow> bytes \<Rightarrow> unit db_result" where
  "verify_maker_reservation X r m identity =
     (let a = ex_authorization r; t = ex_transition r; c = ti_context (ex_typed r) in
     and_then (px_maker_verify X m identity (ex_now r)) (\<lambda>_.
     and_then (px_maker_digest X m) (\<lambda>mandate_digest.
     ensure (\<not> (ra_role a \<noteq> Maker \<or> ra_entity a \<noteq> mm_entity m \<or> ra_asset_id a \<noteq> mm_asset_id m \<or>
         ra_direction a \<noteq> px_mandate_direction X (mm_direction m) \<or> ra_authorization_digest a \<noteq> mm_policy_digest m \<or>
         ra_mandate_digest a \<noteq> mandate_digest \<or> ra_policy_version a \<noteq> mm_policy_version m \<or>
         ra_rfq_nullifier a \<noteq> 0 \<or> ra_admission_epoch a \<noteq> 0 \<or> ra_admission_sequence a \<noteq> 0 \<or>
         ct_hold_id t \<noteq> mm_reserve_id m \<or> ct_amount t \<noteq> mm_maximum_amount m \<or>
         tx_venue_id c \<noteq> mm_venue_id m \<or> tx_defmi_id c \<noteq> mm_defmi_id m \<or>
         \<not> encodes X (tx_maker_handle c) (mm_maker_handle m)))
       ''Maker reserve differs from its signed policy mandate'')))"

definition verify_taker_reservation ::
  "('g, 'p, 's, 'v) product_ext \<Rightarrow> ('p, 's, 'v) reservation_execution \<Rightarrow> taker_mandate \<Rightarrow> ordered_admission \<Rightarrow> bytes
    \<Rightarrow> unit db_result" where
  "verify_taker_reservation X r m admission identity =
     (let a = ex_authorization r; t = ex_transition r; c = ti_context (ex_typed r) in
     and_then (px_taker_verify X m identity (ex_now r)) (\<lambda>_.
     and_then (px_taker_digest X m) (\<lambda>mandate_digest.
     and_then (fx_certified_digest (px_facility X) admission) (\<lambda>certified.
     and_then (ensure (\<not> (certified \<noteq> ra_admission_receipt_digest a \<or> oa_venue_id admission \<noteq> tm_venue_id m \<or>
         oa_ticket_id admission \<noteq> tm_admission_ticket_id m \<or> oa_slot admission \<noteq> tm_admission_slot m \<or>
         oa_rfq_nullifier admission \<noteq> tm_rfq_nullifier m \<or> oa_taker_entity admission \<noteq> tm_entity m \<or>
         oa_taker_mandate_digest admission \<noteq> mandate_digest \<or> oa_expires_at admission \<noteq> tm_deadline m))
       ''ordered admission does not bind the pre-submission Taker mandate'') (\<lambda>_.
     ensure (\<not> (ra_role a \<noteq> Taker \<or> ra_entity a \<noteq> tm_entity m \<or> ra_asset_id a \<noteq> tm_reserve_asset_id m \<or>
         ra_direction a \<noteq> px_mandate_direction X (tm_direction m) \<or> ra_authorization_digest a \<noteq> mandate_digest \<or>
         ra_mandate_digest a \<noteq> mandate_digest \<or> ra_policy_version a \<noteq> 0 \<or> ra_rfq_nullifier a \<noteq> tm_rfq_nullifier m \<or>
         ra_admission_ticket_id a \<noteq> tm_admission_ticket_id m \<or> ra_admission_slot a \<noteq> tm_admission_slot m \<or>
         ra_admission_epoch a \<noteq> oa_epoch admission \<or> ra_admission_sequence a \<noteq> oa_sequence admission \<or>
         ct_hold_id t \<noteq> tm_reserve_id m \<or> ct_amount t \<noteq> tm_maximum_amount m \<or> ct_expires_at t \<noteq> tm_deadline m \<or>
         tx_venue_id c \<noteq> tm_venue_id m \<or> tx_defmi_id c \<noteq> tm_defmi_id m \<or>
         \<not> encodes X (tx_taker_handle c) (tm_taker_handle m)))
       ''Taker reserve differs from its signed execution mandate'')))))"

text \<open>The two entry points; \<open>ordered_admission\<close> is set by them.\<close>

definition reserve_maker ::
  "('g, 'p::ab_group_add, 's, 'v) product_ext \<Rightarrow> facility_config \<Rightarrow> u64 option \<Rightarrow> ('p, 's, 'v) reservation_execution
    \<Rightarrow> 'p transfer \<Rightarrow> maker_mandate \<Rightarrow> bytes \<Rightarrow> facility_db \<Rightarrow> (facility_db \<times> credit_facility_snapshot) db_result" where
  "reserve_maker X C wall r transfer mandate identity db =
     and_then (verify_maker_reservation X r mandate identity) (\<lambda>_.
     and_then (verify_reservation_escrow X r transfer db) (\<lambda>_.
     reserve_for_authorization X C wall (r\<lparr>ex_admission := None\<rparr>) db))"

definition reserve_taker ::
  "('g, 'p::ab_group_add, 's, 'v) product_ext \<Rightarrow> facility_config \<Rightarrow> u64 option \<Rightarrow> ('p, 's, 'v) reservation_execution
    \<Rightarrow> 'p transfer \<Rightarrow> ordered_admission \<Rightarrow> taker_mandate \<Rightarrow> bytes \<Rightarrow> facility_db
    \<Rightarrow> (facility_db \<times> credit_facility_snapshot) db_result" where
  "reserve_taker X C wall r transfer admission mandate identity db =
     and_then (verify_taker_reservation X r mandate admission identity) (\<lambda>_.
     and_then (verify_reservation_escrow X r transfer db) (\<lambda>_.
     reserve_for_authorization X C wall (r\<lparr>ex_admission := Some admission\<rparr>) db))"

section \<open>Releasing\<close>

record product_release_order =
  pr_transition :: credit_facility_transition
  pr_role :: reservation_role
  pr_reserve_receipt_digest :: id32
  pr_typed_instruction_digest :: id32
  pr_release_nullifier :: id32
  pr_release_deadline :: u64
  pr_asset_id :: id32
  pr_asset_link_proof_digest :: id32
  pr_refund_leg :: state_leg

definition release_body :: "product_release_order \<Rightarrow> json db_result" where
  "release_body q =
     and_then (ensure (\<not> (ct_kind (pr_transition q) \<noteq> Release \<or> ct_operation_id (pr_transition q) = 0 \<or>
         pr_release_deadline q \<le> ct_expires_at (pr_transition q) \<or> max_unix_time < pr_release_deadline q \<or>
         sl_asset_id (pr_refund_leg q) \<noteq> pr_asset_id q))
       ''product release has an invalid transition, deadline, or asset leg'') (\<lambda>_.
     jobject [(''transition'', transition_body (pr_transition q)), jstr ''role'' (reservation_role_str (pr_role q)),
       jnz ''reserve_receipt_digest'' (pr_reserve_receipt_digest q),
       jnz ''typed_instruction_digest'' (pr_typed_instruction_digest q),
       jnz ''release_nullifier'' (pr_release_nullifier q), jnum ''release_deadline'' (pr_release_deadline q),
       jnz ''asset_id'' (pr_asset_id q), jnz ''asset_link_proof_digest'' (pr_asset_link_proof_digest q),
       (''refund_leg'', leg_body (pr_refund_leg q))])"

definition release_statement :: "'g facility_ext \<Rightarrow> product_release_order \<Rightarrow> id32 db_result" where
  "release_statement F q = and_then (release_body q) (\<lambda>body.
     Ok (body_digest (fx_gov F) (ascii ''QOMM:DEFMI:PRODUCT-RELEASE:v1'') body))"

text \<open>The checks before the transaction; \<open>asset_kind\<close> reads the database.\<close>

definition release_checks ::
  "('g, 'p::ab_group_add, 's, 'v) product_ext \<Rightarrow> product_release_order \<Rightarrow> relation_proof \<Rightarrow> 'p typed_instruction \<Rightarrow> 'v
    \<Rightarrow> ('p, 's) asset_link_proof \<Rightarrow> u64 \<Rightarrow> facility_db \<Rightarrow> unit db_result" where
  "release_checks X q proof ti venue link now db =
     (let t = pr_transition q; c = ti_context ti; leg = pr_refund_leg q;
          (reservation_id, reservation_sequence, reserve_receipt) = reservation_of (pr_role q) c in
     and_then (release_body q) (\<lambda>_.
     and_then (relation_proof_verify (px_facility X) (px_credit X) proof t) (\<lambda>_.
     and_then (map_err (\<lambda>error. ''release zkPI failed: '' @ error) (px_verify_typed X venue ti now)) (\<lambda>_.
     and_then (ensure (\<not> (tx_operation c \<noteq> OpRelease \<or> tx_scope c \<noteq> scope_of (pr_role q) \<or>
         tx_reserve_handle c \<noteq> reserve_handle_for X (ct_facility_id t) \<or> reservation_id \<noteq> ct_hold_id t \<or>
         reservation_sequence \<noteq> ct_before_sequence t \<or> reserve_receipt \<noteq> pr_reserve_receipt_digest q \<or>
         \<not> encodes X (i_amount_commitment (ti_payment ti)) (ct_amount t) \<or>
         i_nullifier (ti_payment ti) \<noteq> id_bytes (pr_release_nullifier q) \<or>
         i_deadline (ti_payment ti) \<noteq> pr_release_deadline q))
       ''release zkPI does not describe this reservation state'') (\<lambda>_.
     and_then (ensure (\<not> (typed_digest X ti \<noteq> pr_typed_instruction_digest q \<or>
         \<not> linked X venue (pr_asset_id q) ti link (pr_asset_link_proof_digest q)))
       ''release zkPI digest or hidden asset link is invalid'') (\<lambda>_.
     and_then (stored_asset_kind db (pr_asset_id q)) (\<lambda>kind.
     and_then (handle32 (account_of (px_zkpi X) (i_payee_handle (ti_payment ti)) (rail_of kind))
       ''derived release account handle is not 32 bytes'') (\<lambda>expected_refund.
     and_then (ensure (sl_handle leg = expected_refund)
       ''release refunds an account other than the reservation owner'') (\<lambda>_.
     and_then (ok_or (to_point X (sl_before leg)) ''release before commitment is not canonical'') (\<lambda>before_point.
     and_then (ok_or (to_point X (ct_amount t)) ''release amount commitment is not canonical'') (\<lambda>amount_point.
     ensure (encodes X (before_point + amount_point) (sl_after leg))
       ''release account does not receive the complete asset escrow'')))))))))))"

definition release_binding_ok :: "product_release_order \<Rightarrow> 'p typed_context \<Rightarrow> binding_row \<Rightarrow> unit db_result" where
  "release_binding_ok q c b =
     and_then (ensure (\<not> (rb_role b \<noteq> reservation_role_str (pr_role q) \<or> rb_asset_id b \<noteq> pr_asset_id q \<or>
         rb_receipt_digest b \<noteq> pr_reserve_receipt_digest q))
       ''release differs from the stored reservation binding'') (\<lambda>_.
     case pr_role q of
       Maker \<Rightarrow> ensure (\<not> (tx_maker_policy_digest c \<noteq> rb_authorization_digest b \<or>
           tx_maker_mandate_digest c \<noteq> rb_mandate_digest b \<or> tx_taker_mandate_digest c \<noteq> 0 \<or> tx_rfq_nullifier c \<noteq> 0))
         ''Maker release names another policy or RFQ''
     | Taker \<Rightarrow> ensure (\<not> (tx_taker_mandate_digest c \<noteq> rb_mandate_digest b \<or> tx_maker_policy_digest c \<noteq> 0 \<or>
           tx_maker_mandate_digest c \<noteq> 0 \<or> tx_rfq_nullifier c \<noteq> rb_rfq_nullifier b))
         ''Taker release names another RFQ mandate'')"

definition release_escrow_ok :: "product_release_order \<Rightarrow> escrow_row \<Rightarrow> bool" where
  "release_escrow_ok q e \<longleftrightarrow> re_status e = lit ''active'' \<and> re_source_handle e = sl_handle (pr_refund_leg q) \<and>
     re_asset_id e = pr_asset_id q \<and> re_amount e = ct_amount (pr_transition q)"

definition refund_fresh :: "product_release_order \<Rightarrow> facility_db \<Rightarrow> unit db_result" where
  "refund_fresh q db = (let leg = pr_refund_leg q in
     and_then (ok_or (bt_get (db_accounts db) (sl_handle leg)) ''release refund account is unknown'') (\<lambda>row.
     if ac_asset_id row \<noteq> pr_asset_id q \<or> ac_commitment row \<noteq> sl_before leg
     then Err ''release was built against a stale refund account''
     else and_then (column (ac_sequence row)) (\<lambda>sequence.
       ensure (sequence = sl_before_sequence leg) ''release was built against a stale refund account'')))"

text \<open>\<open>UPDATE reservation_escrows SET status=...,settlement_digest=... WHERE hold_id=... AND status='active'\<close>\<close>

definition close_escrow :: "str \<Rightarrow> id32 \<Rightarrow> id32 \<Rightarrow> facility_db \<Rightarrow> facility_db" where
  "close_escrow status statement hold_id db = (case bt_get (db_escrows db) hold_id of None \<Rightarrow> db
     | Some e \<Rightarrow> if re_status e = lit ''active''
         then db\<lparr>db_escrows := bt_insert hold_id (e\<lparr>re_status := status, re_settlement_digest := statement\<rparr>) (db_escrows db)\<rparr>
         else db)"

text \<open>The account update is the last statement, so \<open>changes()\<close> is the number of accounts it met.\<close>

definition refund_account :: "state_leg \<Rightarrow> facility_db \<Rightarrow> facility_db db_result" where
  "refund_account leg db = (case bt_get (db_accounts db) (sl_handle leg) of
       Some row \<Rightarrow> if ac_sequence row = sl_before_sequence leg then Ok (set_commitment (sl_handle leg) (sl_after leg) db)
         else Err ''release account compare-and-swap lost a concurrent update''
     | None \<Rightarrow> Err ''release account compare-and-swap lost a concurrent update'')"

definition write_release ::
  "'g facility_ext \<Rightarrow> settle_env \<Rightarrow> u64 \<Rightarrow> product_release_order \<Rightarrow> id32 \<Rightarrow> id32 \<Rightarrow> u64 \<Rightarrow> facility_db
    \<Rightarrow> (facility_db \<times> settlement_receipt) db_result" where
  "write_release F ev now q statement before_root request_bytes db =
     (let t = pr_transition q in
     and_then (apply_credit_transition t statement (lit ''product_release'') now db) (\<lambda>(db, _).
     and_then (spend_nullifier (pr_release_nullifier q) (pr_release_deadline q) statement
       (close_escrow (lit ''released'') statement (ct_hold_id t) db)) (\<lambda>db.
     and_then (refund_account (pr_refund_leg q) db) (\<lambda>db.
     append_receipt F ev (ct_operation_id t) (pr_release_nullifier q) statement before_root request_bytes db))))"

definition release_product_reservation_inner ::
  "('g, 'p::ab_group_add, 's, 'v) product_ext \<Rightarrow> facility_config \<Rightarrow> settle_env \<Rightarrow> product_release_order \<Rightarrow> relation_proof
    \<Rightarrow> 'p typed_instruction \<Rightarrow> 'v \<Rightarrow> ('p, 's) asset_link_proof \<Rightarrow> quorum_approval \<Rightarrow> u64 \<Rightarrow> facility_db
    \<Rightarrow> (facility_db \<times> settlement_receipt) db_result" where
  "release_product_reservation_inner X C ev q proof ti venue link approval now db =
     (let F = px_facility X; t = pr_transition q; c = ti_context ti in
     and_then (release_checks X q proof ti venue link now db) (\<lambda>_.
     and_then (release_body q) (\<lambda>request.
     and_then (release_statement F q) (\<lambda>statement.
     case find (\<lambda>r. rr_operation_id r = ct_operation_id t) (db_receipts db) of
       Some row \<Rightarrow>
         if rr_statement row \<noteq> statement then Err ''operation identifier was reused for another release''
         else and_then (receipt_from_json F (rr_receipt_json row)) (\<lambda>receipt. Ok (db, receipt))
     | None \<Rightarrow>
         and_then (calculate_root F db) (\<lambda>before_root.
         and_then (ensure (tx_before_state_root c = before_root)
           ''release zkPI was authorized against a stale DeFMI state root'') (\<lambda>_.
         and_then (require_quorum F C (ev_wall ev) statement before_root approval) (\<lambda>_.
         and_then (ensure (\<not> (now \<le> ct_expires_at t \<or> pr_release_deadline q < now))
           ''reservation is not expired or its release authorization expired'') (\<lambda>_.
         and_then (ensure (bt_get (db_nullifiers db) (pr_release_nullifier q) = None)
           ''release nullifier was already used'') (\<lambda>_.
         and_then (ok_or (bt_get (db_bindings db) (ct_hold_id t)) ''release reservation was not product-bound'') (\<lambda>b.
         and_then (release_binding_ok q c b) (\<lambda>_.
         and_then (ok_or (bt_get (db_escrows db) (ct_hold_id t)) ''release reservation has no asset escrow'') (\<lambda>e.
         and_then (ensure (release_escrow_ok q e) ''release has no matching active asset escrow'') (\<lambda>_.
         and_then (refund_fresh q db) (\<lambda>_.
         write_release F ev now q statement before_root (of_nat (length (canonical (fx_gov F) request))) db))))))))))))))"

text \<open>The two callers: one commits, the other rolls back.\<close>

definition release_reservation ::
  "('g, 'p::ab_group_add, 's, 'v) product_ext \<Rightarrow> facility_config \<Rightarrow> settle_env \<Rightarrow> product_release_order \<Rightarrow> relation_proof
    \<Rightarrow> 'p typed_instruction \<Rightarrow> 'v \<Rightarrow> ('p, 's) asset_link_proof \<Rightarrow> quorum_approval \<Rightarrow> u64 \<Rightarrow> facility_db
    \<Rightarrow> (facility_db \<times> settlement_receipt) db_result" where
  "release_reservation X C ev q proof ti venue link approval now db =
     release_product_reservation_inner X C ev q proof ti venue link approval now db"

definition preflight_product_release ::
  "('g, 'p::ab_group_add, 's, 'v) product_ext \<Rightarrow> facility_config \<Rightarrow> settle_env \<Rightarrow> product_release_order \<Rightarrow> relation_proof
    \<Rightarrow> 'p typed_instruction \<Rightarrow> 'v \<Rightarrow> ('p, 's) asset_link_proof \<Rightarrow> quorum_approval \<Rightarrow> u64 \<Rightarrow> facility_db \<Rightarrow> unit db_result" where
  "preflight_product_release X C ev q proof ti venue link approval now db =
     and_then (release_product_reservation_inner X C ev q proof ti venue link approval now db) (\<lambda>_. Ok ())"

end
