(* ===== verification/ReservationSafety.thy ===== *)
theory ReservationSafety
  imports Reservation
begin

text \<open>
  What the operations of \<open>Reservation\<close> keep: a reservation moves exactly the reserved amount of
  an asset from its source account into an escrow and a release moves it back, so the sum of
  the accounts and the active escrows of an asset stays as it was; the credit lines stay
  balanced, the admission lanes in order, and the receipts a chain.
\<close>

section \<open>What is written\<close>

lemma set_commitment_Some:
  "bt_get (db_accounts db) i = Some row \<Longrightarrow> set_commitment i c db =
     db\<lparr>db_accounts := bt_insert i (row\<lparr>ac_commitment := c, ac_sequence := ac_sequence row + 1\<rparr>) (db_accounts db)\<rparr>"
  by (simp add: set_commitment_def)

lemma set_commitment_frame [simp]:
  "db_receipts (set_commitment i c db) = db_receipts db"
  "db_last_receipt (set_commitment i c db) = db_last_receipt db"
  "db_escrows (set_commitment i c db) = db_escrows db"
  "db_bindings (set_commitment i c db) = db_bindings db"
  "db_nullifiers (set_commitment i c db) = db_nullifiers db"
  "credit_part (set_commitment i c db) = credit_part db"
  "admission_part (set_commitment i c db) = admission_part db"
  "db_credit_holds (set_commitment i c db) = db_credit_holds db"
  "db_entries (set_commitment i c db) = db_entries db"
  by (simp_all add: set_commitment_def split: option.split)

lemma close_escrow_frame [simp]:
  "db_receipts (close_escrow s st i db) = db_receipts db"
  "db_last_receipt (close_escrow s st i db) = db_last_receipt db"
  "db_accounts (close_escrow s st i db) = db_accounts db"
  "db_bindings (close_escrow s st i db) = db_bindings db"
  "db_nullifiers (close_escrow s st i db) = db_nullifiers db"
  "credit_part (close_escrow s st i db) = credit_part db"
  "admission_part (close_escrow s st i db) = admission_part db"
  "db_credit_holds (close_escrow s st i db) = db_credit_holds db"
  "db_entries (close_escrow s st i db) = db_entries db"
  by (simp_all add: close_escrow_def split: option.split)

lemma insert_bindingE:
  assumes "insert_binding i b db = Ok db'"
  obtains "bt_get (db_bindings db) i = None" "db' = db\<lparr>db_bindings := bt_insert i b (db_bindings db)\<rparr>"
    "taker_binding b \<longrightarrow> rb_admission_ticket_id b \<noteq> 0 \<longrightarrow>
       rb_admission_ticket_id b \<notin> rb_admission_ticket_id ` {x \<in> set (bt_values (db_bindings db)). taker_binding x}"
  using assms by (auto simp: insert_binding_def Let_def)

lemma insert_escrowE:
  assumes "insert_escrow i e db = Ok db'"
  obtains "bt_get (db_escrows db) i = None" "db' = db\<lparr>db_escrows := bt_insert i e (db_escrows db)\<rparr>"
  using assms by (auto simp: insert_escrow_def)

lemma source_freshE:
  assumes "source_fresh e db = Ok u"
  obtains row where "bt_get (db_accounts db) (rx_source_handle e) = Some row" "ac_asset_id row = rx_asset_id e"
    "ac_commitment row = rx_source_before e" "ac_sequence row = rx_source_before_sequence e"
  using assms by (auto simp: source_fresh_def column_def split: if_splits)

text \<open>The lane a reservation takes: the next one, or none for a Maker.\<close>

inductive admitted ::
  "'g facility_ext \<Rightarrow> id32 \<Rightarrow> u64 \<Rightarrow> ordered_admission option \<Rightarrow> facility_db \<Rightarrow> facility_db \<Rightarrow> id32 \<Rightarrow> bool"
  for F op now where
  policy: "admitted F op now None db db 0"
| lane: "consume_ordered_admission F m op now db = Ok (db', b) \<Longrightarrow> admitted F op now (Some m) db db' b"

inductive_cases admittedE [consumes 1, case_names policy lane]: "admitted F op now adm db db' b"

lemma consume_lane_product [simp]:
  "db_bindings (consume_lane b s i n db) = db_bindings db" "db_escrows (consume_lane b s i n db) = db_escrows db"
  "db_rfq_nullifiers (consume_lane b s i n db) = db_rfq_nullifiers db"
  by (simp_all add: consume_lane_def split: option.split)

lemma admitted_frame:
  "admitted F op now adm db db' b \<Longrightarrow> op \<noteq> 0 \<Longrightarrow> settlement_part db' = settlement_part db \<and>
     credit_part db' = credit_part db \<and> db_bindings db' = db_bindings db \<and> db_escrows db' = db_escrows db \<and>
     db_rfq_nullifiers db' = db_rfq_nullifiers db"
  by (auto elim!: admittedE dest: consume_ordered_admission_keeps) (auto elim!: consume_ordered_admissionE)

lemma admitted_order: "admitted F op now adm db db' b \<Longrightarrow> op \<noteq> 0 \<Longrightarrow> admission_ok F db \<Longrightarrow> admission_ok F db'"
  by (auto elim!: admittedE dest: consume_ordered_admission_keeps)

lemma admitted_consumers: "admitted F op now adm db db' b \<Longrightarrow> consumers_kept db db'"
  by (auto elim!: admittedE intro: consumers_kept_refl consume_ordered_admission_consumers)

text \<open>The database a reservation leaves.\<close>

definition reserved_db ::
  "('p, 's, 'v) reservation_execution \<Rightarrow> id32 \<Rightarrow> id32 \<Rightarrow> account_row \<Rightarrow> facility_db \<Rightarrow> facility_db" where
  "reserved_db r b st row db = (let t = ex_transition r; e = ex_escrow r in
     db\<lparr>db_bindings := bt_insert (ct_hold_id t) (binding_of (ex_authorization r) b st) (db_bindings db),
        db_accounts := bt_insert (rx_source_handle e)
          (row\<lparr>ac_commitment := rx_source_after e, ac_sequence := ac_sequence row + 1\<rparr>) (db_accounts db),
        db_escrows := bt_insert (ct_hold_id t) (escrow_row_of e) (db_escrows db)\<rparr>)"

lemma write_reservationE:
  assumes "write_reservation X r st db = Ok (db', snap)"
    and "bt_get (db_accounts db) (rx_source_handle (ex_escrow r)) = Some row" "ct_operation_id (ex_transition r) \<noteq> 0"
  obtains db1 db2 where
    "admitted (px_facility X) (ct_operation_id (ex_transition r)) (ex_now r) (ex_admission r) db db1
       (ra_admission_batch_id (ex_authorization r))"
    "apply_credit_transition (ex_transition r) st (lit ''bound_hold'') (ex_now r) db1 = Ok (db2, snap)"
    "bt_get (db_bindings db2) (ct_hold_id (ex_transition r)) = None"
    "bt_get (db_escrows db2) (ct_hold_id (ex_transition r)) = None"
    "db' = reserved_db r (ra_admission_batch_id (ex_authorization r)) st row db2"
proof -
  from assms(1) obtain db1 db2 db3 b where adm: "(case ex_admission r of
        Some m \<Rightarrow> consume_ordered_admission (px_facility X) m (ct_operation_id (ex_transition r)) (ex_now r) db
      | None \<Rightarrow> Ok (db, 0)) = Ok (db1, b)" and b: "b = ra_admission_batch_id (ex_authorization r)"
    and app: "apply_credit_transition (ex_transition r) st (lit ''bound_hold'') (ex_now r) db1 = Ok (db2, snap)"
    and bind: "insert_binding (ct_hold_id (ex_transition r)) (binding_of (ex_authorization r) b st) db2 = Ok db3"
    and esc: "insert_escrow (ct_hold_id (ex_transition r)) (escrow_row_of (ex_escrow r))
       (set_commitment (rx_source_handle (ex_escrow r)) (rx_source_after (ex_escrow r)) db3) = Ok db'"
    by (auto simp: write_reservation_def Let_def split: prod.splits)
  from adm have adm': "admitted (px_facility X) (ct_operation_id (ex_transition r)) (ex_now r) (ex_admission r) db db1 b"
    by (auto intro: admitted.intros split: option.splits)
  have acc: "db_accounts db1 = db_accounts db"
    using admitted_frame [OF adm' assms(3)] by (simp add: settlement_part_def)
  have "db_accounts db2 = db_accounts db1" using app by (auto elim!: apply_credit_transitionE)
  with assms(2) acc have row: "bt_get (db_accounts db2) (rx_source_handle (ex_escrow r)) = Some row" by simp
  from bind have none: "bt_get (db_bindings db2) (ct_hold_id (ex_transition r)) = None"
    and db3: "db3 = db2\<lparr>db_bindings := bt_insert (ct_hold_id (ex_transition r)) (binding_of (ex_authorization r) b st) (db_bindings db2)\<rparr>"
    by (elim insert_bindingE, simp)+
  from esc have "bt_get (db_escrows db2) (ct_hold_id (ex_transition r)) = None"
    and "db' = reserved_db r b st row db2"
    by (elim insert_escrowE, simp add: db3 set_commitment_Some row reserved_db_def Let_def)+
  then show thesis by (intro that [OF _ app none]) (use adm' b in simp_all)
qed

lemma transition_body_operation: "transition_body t = Ok j \<Longrightarrow> ct_operation_id t \<noteq> 0"
  by (auto simp: transition_body_def jobject_def transition_fields_def jnz_def nonzero_def split: if_splits)

lemma relation_proof_equations: "relation_proof_verify F E p t = Ok u \<Longrightarrow> verify_credit_relation_equations E t = Ok ()"
  by (auto simp: relation_proof_verify_def)

lemma reserve_checksE:
  assumes "reserve_checks X r = Ok u"
  obtains j where "transition_body (ex_transition r) = Ok j"
    "relation_proof_verify (px_facility X) (px_credit X) (ex_relation_proof r) (ex_transition r) = Ok ()"
    "rx_asset_id (ex_escrow r) = ra_asset_id (ex_authorization r)" "rx_amount (ex_escrow r) = ct_amount (ex_transition r)"
    "typed_digest X (ex_typed r) = ra_typed_reserve_digest (ex_authorization r)"
    "tx_scope (ti_context (ex_typed r)) = scope_of (ra_role (ex_authorization r))"
    "encodes X (i_amount_commitment (ti_payment (ex_typed r))) (ct_amount (ex_transition r))"
  using assms by (auto simp: reserve_checks_def Let_def split: if_splits prod.splits)

lemma reserve_for_authorizationE:
  assumes "reserve_for_authorization X C wall r db = Ok (db', snap)"
  obtains (replay) "db' = db" "map_option re_status (bt_get (db_escrows db) (ct_hold_id (ex_transition r))) = Some (lit ''active'')"
  | (fresh) st root row where "reserve_checks X r = Ok ()" "authorization_statement X (ex_authorization r) (ex_transition r) = Ok st"
      "calculate_root (px_facility X) db = Ok root" "tx_before_state_root (ti_context (ex_typed r)) = root"
      "require_quorum (px_facility X) C wall st root (ex_approval r) = Ok ()" "one_use (ex_authorization r) db = Ok ()"
      "bt_get (db_accounts db) (rx_source_handle (ex_escrow r)) = Some row" "ac_asset_id row = rx_asset_id (ex_escrow r)"
      "ac_commitment row = rx_source_before (ex_escrow r)"
      "write_reservation X r st db = Ok (db', snap)"
proof -
  note [simp] = reserve_for_authorization_def Let_def
  from assms obtain st known where start: "reserve_checks X r = Ok ()"
      "authorization_statement X (ex_authorization r) (ex_transition r) = Ok st"
      "credit_operation db (ct_operation_id (ex_transition r)) st = Ok known" by auto
  show thesis
  proof (cases known)
    case True with assms start show thesis by (intro replay) (auto split: if_splits)
  next
    case False
    with assms start obtain root where "calculate_root (px_facility X) db = Ok root"
      "tx_before_state_root (ti_context (ex_typed r)) = root"
      "require_quorum (px_facility X) C wall st root (ex_approval r) = Ok ()" "one_use (ex_authorization r) db = Ok ()"
      "source_fresh (ex_escrow r) db = Ok ()" "write_reservation X r st db = Ok (db', snap)" by auto
    with start show thesis by (elim source_freshE) (rule fresh)
  qed
qed

section \<open>Assets are conserved\<close>

text \<open>
  The value of an asset the facility keeps: what its accounts hold and what its active
  escrows hold, as points. A commitment that does not decode counts as zero.
\<close>

definition held_point :: "('g, 'p::ab_group_add, 's, 'v) product_ext \<Rightarrow> id32 \<Rightarrow> 'p" where
  "held_point X c = (case to_point X c of None \<Rightarrow> 0 | Some p \<Rightarrow> p)"

definition account_value :: "('g, 'p::ab_group_add, 's, 'v) product_ext \<Rightarrow> id32 \<Rightarrow> account_row \<Rightarrow> 'p" where
  "account_value X a row = (if ac_asset_id row = a then held_point X (ac_commitment row) else 0)"

definition escrow_value :: "('g, 'p::ab_group_add, 's, 'v) product_ext \<Rightarrow> id32 \<Rightarrow> escrow_row \<Rightarrow> 'p" where
  "escrow_value X a e = (if re_asset_id e = a \<and> re_status e = lit ''active'' then held_point X (re_amount e) else 0)"

definition asset_total :: "('g, 'p::ab_group_add, 's, 'v) product_ext \<Rightarrow> facility_db \<Rightarrow> id32 \<Rightarrow> 'p" where
  "asset_total X db a = bt_sum (account_value X a) (db_accounts db) + bt_sum (escrow_value X a) (db_escrows db)"

lemma asset_total_cong:
  "db_accounts db' = db_accounts db \<Longrightarrow> db_escrows db' = db_escrows db \<Longrightarrow> asset_total X db' a = asset_total X db a"
  by (simp add: asset_total_def)

lemma encodes_to_point: "ristretto_encoding (px_prims X) \<Longrightarrow> encodes X p c \<Longrightarrow> to_point X c = Some p"
  by (auto simp: encodes_def to_point_def ristretto_encoding_def dest: sym)

lemma verify_reservation_escrowD:
  assumes "verify_reservation_escrow X r tr db = Ok u" "ristretto_encoding (px_prims X)"
  shows "held_point X (rx_source_before (ex_escrow r)) =
    held_point X (rx_amount (ex_escrow r)) + held_point X (rx_source_after (ex_escrow r))"
proof -
  let ?e = "ex_escrow r" and ?P = "px_prims X"
  let ?l = "ledger_new (px_venue_key X (ex_venue r)) (px_amount_bits X (ex_venue r))"
  from assms(1) obtain before l where enc: "encodes X (t_amount_commitment tr) (rx_amount ?e)"
      "encodes X (t_remainder_commitment tr) (rx_source_after ?e)"
    and before: "to_point X (rx_source_before ?e) = Some before"
    and l: "Ledger.open_account ?l (id_bytes (rx_source_handle ?e)) before = Ok l"
    and chk: "check_transfer ?P l (id_bytes (rx_source_handle ?e)) tr
      (escrow_transfer_context (ct_hold_id (ex_transition r))) True = Ok ()"
    by (auto simp: verify_reservation_escrow_def Let_def split: if_splits)
  from l have "bt_get (l_accounts l) (id_bytes (rx_source_handle ?e)) = Some before"
    by (auto simp: Ledger.open_account_def)
  with chk have "t_remainder_commitment tr = before - t_amount_commitment tr" by (elim check_transferD) simp
  then show ?thesis by (simp add: held_point_def before enc [THEN encodes_to_point [OF assms(2)]])
qed

lemma reserved_total:
  assumes "bt_get (db_accounts db) (rx_source_handle (ex_escrow r)) = Some row"
    "bt_get (db_escrows db) (ct_hold_id (ex_transition r)) = None"
    "ac_asset_id row = rx_asset_id (ex_escrow r)" "ac_commitment row = rx_source_before (ex_escrow r)"
    "held_point X (rx_source_before (ex_escrow r)) =
       held_point X (rx_amount (ex_escrow r)) + held_point X (rx_source_after (ex_escrow r))"
  shows "asset_total X (reserved_db r b st row db) a = asset_total X db a"
  using bt_sum_insert_old [OF assms(1), of "account_value X a"
      "row\<lparr>ac_commitment := rx_source_after (ex_escrow r), ac_sequence := ac_sequence row + 1\<rparr>"] assms(3-)
  by (simp add: asset_total_def reserved_db_def Let_def bt_sum_insert_new [OF assms(2)] account_value_def escrow_value_def
      escrow_row_of_def ac_simps split: if_splits)

lemma reserve_total:
  assumes "reserve_for_authorization X C wall r db = Ok (db', snap)"
    "held_point X (rx_source_before (ex_escrow r)) =
       held_point X (rx_amount (ex_escrow r)) + held_point X (rx_source_after (ex_escrow r))"
  shows "asset_total X db' a = asset_total X db a"
  using assms(1)
proof (cases rule: reserve_for_authorizationE)
  case (fresh st root row)
  have nz: "ct_operation_id (ex_transition r) \<noteq> 0" using fresh(1) by (elim reserve_checksE) (rule transition_body_operation)
  from fresh(10) fresh(7) nz show ?thesis
  proof (cases rule: write_reservationE)
    case (1 db1 db2)
    have "settlement_part db1 = settlement_part db \<and> db_escrows db1 = db_escrows db" using admitted_frame [OF 1(1) nz] by simp
    moreover have "db_accounts db2 = db_accounts db1 \<and> db_escrows db2 = db_escrows db1"
      using 1(2) by (auto elim!: apply_credit_transitionE)
    ultimately have same: "db_accounts db2 = db_accounts db" "db_escrows db2 = db_escrows db"
      by (simp_all add: settlement_part_def)
    show ?thesis unfolding 1(5)
      by (subst reserved_total) (use 1(4) fresh(7,8,9) assms(2) same in \<open>simp_all add: asset_total_def\<close>)
  qed
qed simp

section \<open>A reservation keeps the rest\<close>

lemma credit_ok_apply: "apply_credit_transition t st kind now db = Ok (db', snap) \<Longrightarrow> relation_proof_verify F E p t = Ok u \<Longrightarrow>
    credit_ok E db \<Longrightarrow> credit_ok E db'"
  by (rule apply_credit_ok [OF _ relation_proof_equations])

lemma apply_credit_frame:
  "apply_credit_transition t st kind now db = Ok (db', snap) \<Longrightarrow> settlement_part db' = settlement_part db \<and>
     admission_part db' = admission_part db \<and> db_bindings db' = db_bindings db \<and> db_escrows db' = db_escrows db \<and>
     db_rfq_nullifiers db' = db_rfq_nullifiers db"
  by (erule apply_credit_transitionE) simp

lemma reserved_db_frame [simp]:
  "credit_part (reserved_db r b st row db) = credit_part db" "admission_part (reserved_db r b st row db) = admission_part db"
  "db_credit_holds (reserved_db r b st row db) = db_credit_holds db" "db_entries (reserved_db r b st row db) = db_entries db"
  "db_receipts (reserved_db r b st row db) = db_receipts db" "db_last_receipt (reserved_db r b st row db) = db_last_receipt db"
  "db_nullifiers (reserved_db r b st row db) = db_nullifiers db"
  "db_rfq_nullifiers (reserved_db r b st row db) = db_rfq_nullifiers db"
  by (simp_all add: reserved_db_def Let_def)

lemmas part_defs = settlement_part_def credit_part_def admission_part_def

text \<open>A closed escrow.\<close>

definition closed_escrow :: "string \<Rightarrow> id32 \<Rightarrow> escrow_row \<Rightarrow> escrow_row" where
  "closed_escrow status st e = e\<lparr>re_status := lit status, re_settlement_digest := st\<rparr>"

text \<open>What every operation of the facility keeps, and what it may change only once.\<close>

definition facility_ok ::
  "'g facility_ext \<Rightarrow> ('p::ab_group_add, 's) credit_ext \<Rightarrow> facility_config \<Rightarrow> facility_db \<Rightarrow> bool" where
  "facility_ok F E C db \<longleftrightarrow> chain_ok F C db \<and> credit_ok E db \<and> admission_ok F db"

text \<open>An escrow is closed at most once, and keeps its account, asset and amount.\<close>

definition escrow_kept :: "escrow_row \<Rightarrow> escrow_row \<Rightarrow> bool" where
  "escrow_kept e e' \<longleftrightarrow> e' = e \<or> re_status e = lit ''active'' \<and> re_status e' \<noteq> lit ''active'' \<and>
     e' = e\<lparr>re_status := re_status e', re_settlement_digest := re_settlement_digest e'\<rparr>"

definition escrows_kept :: "facility_db \<Rightarrow> facility_db \<Rightarrow> bool" where
  "escrows_kept db db' \<longleftrightarrow> (\<forall>i e. bt_get (db_escrows db) i = Some e \<longrightarrow>
     (\<exists>e'. bt_get (db_escrows db') i = Some e' \<and> escrow_kept e e'))"

lemma escrow_kept_refl [simp, intro]: "escrow_kept e e"
  by (simp add: escrow_kept_def)

lemma escrow_kept_trans: "escrow_kept e1 e2 \<Longrightarrow> escrow_kept e2 e3 \<Longrightarrow> escrow_kept e1 e3"
  by (auto simp: escrow_kept_def)

lemma escrow_kept_closed: "re_status e = lit ''active'' \<Longrightarrow> s \<noteq> ''active'' \<Longrightarrow> escrow_kept e (closed_escrow s st e)"
  by (cases e) (simp add: escrow_kept_def closed_escrow_def)

lemma escrows_kept_refl: "db_escrows db' = db_escrows db \<Longrightarrow> escrows_kept db db'"
  by (simp add: escrows_kept_def)

lemma escrows_keptE:
  assumes "escrows_kept db db'" "bt_get (db_escrows db) i = Some e"
  obtains e' where "bt_get (db_escrows db') i = Some e'" "escrow_kept e e'"
  using assms unfolding escrows_kept_def by blast

lemma escrows_kept_trans:
  assumes "escrows_kept db1 db2" "escrows_kept db2 db3"
  shows "escrows_kept db1 db3"
  unfolding escrows_kept_def
proof (intro allI impI)
  fix i e assume "bt_get (db_escrows db1) i = Some e"
  with assms(1) obtain e2 where "bt_get (db_escrows db2) i = Some e2" "escrow_kept e e2" by (rule escrows_keptE)
  moreover from assms(2) calculation(1) obtain e3 where "bt_get (db_escrows db3) i = Some e3" "escrow_kept e2 e3" by (rule escrows_keptE)
  ultimately show "\<exists>e'. bt_get (db_escrows db3) i = Some e' \<and> escrow_kept e e'" by (blast intro: escrow_kept_trans)
qed

lemma escrows_kept_insert:
  "db_escrows db' = bt_insert i e' (db_escrows db) \<Longrightarrow> (\<And>e. bt_get (db_escrows db) i = Some e \<Longrightarrow> escrow_kept e e') \<Longrightarrow>
     escrows_kept db db'"
  by (simp add: escrows_kept_def)

definition facility_kept :: "facility_db \<Rightarrow> facility_db \<Rightarrow> bool" where
  "facility_kept db db' \<longleftrightarrow> holds_kept db db' \<and> consumers_kept db db' \<and> escrows_kept db db' \<and>
     (\<exists>rows. db_receipts db' = db_receipts db @ rows) \<and>
     (\<forall>nf. bt_contains (db_nullifiers db) nf \<longrightarrow> bt_get (db_nullifiers db') nf = bt_get (db_nullifiers db) nf) \<and>
     (\<forall>nf. bt_contains (db_rfq_nullifiers db) nf \<longrightarrow> bt_get (db_rfq_nullifiers db') nf = bt_get (db_rfq_nullifiers db) nf)"

lemma facility_kept_refl [simp, intro]: "facility_kept db db"
  by (simp add: facility_kept_def holds_kept_refl consumers_kept_refl escrows_kept_refl)

lemma facility_kept_trans: "facility_kept db1 db2 \<Longrightarrow> facility_kept db2 db3 \<Longrightarrow> facility_kept db1 db3"
  unfolding facility_kept_def
  by (elim conjE, intro conjI, erule (1) holds_kept_trans, erule (1) consumers_kept_trans, erule (1) escrows_kept_trans) auto

lemma chain_ok_cong: "settlement_part db' = settlement_part db \<Longrightarrow> chain_ok F C db' = chain_ok F C db"
  by (simp add: chain_ok_def part_defs)

lemma reserve_keeps:
  assumes "reserve_for_authorization X C wall r db = Ok (db', snap)"
  shows "(facility_ok (px_facility X) (px_credit X) C' db \<longrightarrow> facility_ok (px_facility X) (px_credit X) C' db') \<and> facility_kept db db'"
  using assms
proof (cases rule: reserve_for_authorizationE)
  case (fresh st root row)
  let ?F = "px_facility X" and ?E = "px_credit X"
  from fresh(1) obtain j where rel: "relation_proof_verify ?F ?E (ex_relation_proof r) (ex_transition r) = Ok ()"
    and nz: "ct_operation_id (ex_transition r) \<noteq> 0" by (elim reserve_checksE) (auto dest: transition_body_operation)
  from fresh(10) fresh(7) nz show ?thesis
  proof (cases rule: write_reservationE)
    case (1 db1 db2)
    note adm = admitted_frame [OF 1(1) nz] and app = apply_credit_frame [OF 1(2)]
    have "chain_ok ?F C' db \<longrightarrow> chain_ok ?F C' db'"
      using adm app by (simp add: chain_ok_def 1(5) part_defs)
    moreover have "credit_ok ?E db \<longrightarrow> credit_ok ?E db'"
      using credit_ok_apply [OF 1(2) rel] credit_ok_cong [of db1 db ?E] credit_ok_cong [of db' db2 ?E] adm by (simp add: 1(5))
    moreover have "admission_ok ?F db \<longrightarrow> admission_ok ?F db'"
      using admitted_order [OF 1(1) nz] admission_ok_cong [of db2 db1 ?F] admission_ok_cong [of db' db2 ?F] app by (simp add: 1(5))
    moreover have "holds_kept db db'"
      using holds_kept_trans [OF holds_kept_refl apply_holds_kept [OF 1(2)]] adm
      by (simp add: 1(5) holds_kept_def part_defs)
    moreover have "consumers_kept db db'"
      using admitted_consumers [OF 1(1)] app by (simp add: 1(5) consumers_kept_def part_defs)
    moreover have "escrows_kept db db'" using 1(4) adm app
      by (intro escrows_kept_insert [of _ "ct_hold_id (ex_transition r)" "escrow_row_of (ex_escrow r)"]) (simp_all add: 1(5) reserved_db_def Let_def)
    ultimately show ?thesis using adm app by (simp add: facility_ok_def facility_kept_def 1(5) part_defs)
  qed
qed simp

section \<open>Releases\<close>

lemma close_escrow_active:
  "bt_get (db_escrows db) i = Some e \<Longrightarrow> re_status e = lit ''active'' \<Longrightarrow>
     close_escrow (lit s) st i db = db\<lparr>db_escrows := bt_insert i (closed_escrow s st e) (db_escrows db)\<rparr>"
  by (simp add: close_escrow_def closed_escrow_def)

lemma spend_nullifierE:
  assumes "spend_nullifier nf d st db = Ok db'"
  obtains "db' = db\<lparr>db_nullifiers := bt_insert nf \<lparr>nf_deadline = d, nf_statement = st\<rparr> (db_nullifiers db)\<rparr>"
  using assms by (auto simp: spend_nullifier_def)

definition released_db ::
  "'g facility_ext \<Rightarrow> product_release_order \<Rightarrow> id32 \<Rightarrow> settlement_receipt \<Rightarrow> (id32, id32) btree_map \<Rightarrow> escrow_row \<Rightarrow> account_row
    \<Rightarrow> facility_db \<Rightarrow> facility_db" where
  "released_db F q st receipt ops e row db = (let t = pr_transition q; leg = pr_refund_leg q in
     db\<lparr>db_escrows := bt_insert (ct_hold_id t) (closed_escrow ''released'' st e) (db_escrows db),
        db_nullifiers := bt_insert (pr_release_nullifier q) \<lparr>nf_deadline = pr_release_deadline q, nf_statement = st\<rparr> (db_nullifiers db),
        db_accounts := bt_insert (sl_handle leg)
          (row\<lparr>ac_commitment := sl_after leg, ac_sequence := ac_sequence row + 1\<rparr>) (db_accounts db),
        db_receipts := db_receipts db @ [receipt_row_of F receipt], db_operations := ops,
        db_state_root := sr_after_root receipt, db_last_receipt := receipt_digest F receipt\<rparr>)"

lemma released_db_simps [simp]:
  "credit_part (released_db F q st r ops e row db) = credit_part db"
  "admission_part (released_db F q st r ops e row db) = admission_part db"
  "db_credit_holds (released_db F q st r ops e row db) = db_credit_holds db"
  "db_entries (released_db F q st r ops e row db) = db_entries db"
  "db_receipts (released_db F q st r ops e row db) = db_receipts db @ [receipt_row_of F r]"
  "db_last_receipt (released_db F q st r ops e row db) = receipt_digest F r"
  "db_rfq_nullifiers (released_db F q st r ops e row db) = db_rfq_nullifiers db"
  "db_nullifiers (released_db F q st r ops e row db) = bt_insert (pr_release_nullifier q)
     \<lparr>nf_deadline = pr_release_deadline q, nf_statement = st\<rparr> (db_nullifiers db)"
  "db_escrows (released_db F q st r ops e row db) =
     bt_insert (ct_hold_id (pr_transition q)) (closed_escrow ''released'' st e) (db_escrows db)"
  by (simp_all add: released_db_def Let_def)

lemma write_releaseE:
  assumes "write_release F ev now q st root n db = Ok (db', receipt)"
    and e: "bt_get (db_escrows db) (ct_hold_id (pr_transition q)) = Some e" "re_status e = lit ''active''"
  obtains db1 snap row ops where
    "apply_credit_transition (pr_transition q) st (lit ''product_release'') now db = Ok (db1, snap)"
    "bt_get (db_accounts db) (sl_handle (pr_refund_leg q)) = Some row"
    "receipt_for F (ct_operation_id (pr_transition q)) (pr_release_nullifier q) st root db receipt"
    "db' = released_db F q st receipt ops e row db1"
proof -
  let ?t = "pr_transition q"
  from assms(1) obtain db1 snap db2 db3
    where app: "apply_credit_transition ?t st (lit ''product_release'') now db = Ok (db1, snap)"
    and spend: "spend_nullifier (pr_release_nullifier q) (pr_release_deadline q) st
       (close_escrow (lit ''released'') st (ct_hold_id ?t) db1) = Ok db2"
    and refund: "refund_account (pr_refund_leg q) db2 = Ok db3"
    and rec: "append_receipt F ev (ct_operation_id ?t) (pr_release_nullifier q) st root n db3 = Ok (db', receipt)"
    by (auto simp: write_release_def Let_def split: prod.splits)
  note same = apply_credit_frame [OF app]
  from e same have e1: "bt_get (db_escrows db1) (ct_hold_id ?t) = Some e" by simp
  from spend have db2: "db2 = db1\<lparr>db_escrows := bt_insert (ct_hold_id ?t) (closed_escrow ''released'' st e) (db_escrows db1),
      db_nullifiers := bt_insert (pr_release_nullifier q) \<lparr>nf_deadline = pr_release_deadline q, nf_statement = st\<rparr> (db_nullifiers db1)\<rparr>"
    by (elim spend_nullifierE) (simp add: close_escrow_active [OF e1 e(2)])
  from refund obtain row where row: "bt_get (db_accounts db2) (sl_handle (pr_refund_leg q)) = Some row"
    and db3: "db3 = set_commitment (sl_handle (pr_refund_leg q)) (sl_after (pr_refund_leg q)) db2"
    by (auto simp: refund_account_def split: option.splits if_splits)
  from rec obtain ops where "receipt_for F (ct_operation_id ?t) (pr_release_nullifier q) st root db3 receipt"
    and "db' = db3\<lparr>db_receipts := db_receipts db3 @ [receipt_row_of F receipt], db_operations := ops,
       db_state_root := sr_after_root receipt, db_last_receipt := receipt_digest F receipt\<rparr>"
    by (rule append_receiptE)
  then show thesis using row same
    by (intro that [OF app]) (simp_all add: db3 set_commitment_Some db2 released_db_def Let_def receipt_for_def settlement_part_def)
qed

lemma release_checksE:
  assumes "release_checks X q pf ti v link now db = Ok u"
  obtains j before amount where "release_body q = Ok j"
    "relation_proof_verify (px_facility X) (px_credit X) pf (pr_transition q) = Ok ()"
    "to_point X (sl_before (pr_refund_leg q)) = Some before" "to_point X (ct_amount (pr_transition q)) = Some amount"
    "encodes X (before + amount) (sl_after (pr_refund_leg q))"
  using assms by (auto simp: release_checks_def Let_def split: prod.splits)

lemma release_body_asset: "release_body q = Ok j \<Longrightarrow> sl_asset_id (pr_refund_leg q) = pr_asset_id q \<and> ct_kind (pr_transition q) = Release"
  by (auto simp: release_body_def)

lemma refund_freshE:
  assumes "refund_fresh q db = Ok u"
  obtains row where "bt_get (db_accounts db) (sl_handle (pr_refund_leg q)) = Some row"
    "ac_asset_id row = pr_asset_id q" "ac_commitment row = sl_before (pr_refund_leg q)"
  using assms by (auto simp: refund_fresh_def Let_def split: if_splits)

lemma release_reservationE:
  assumes "release_reservation X C ev q pf ti v link ap now db = Ok (db', receipt)"
  obtains (replay) st row where "db' = db" "release_statement (px_facility X) q = Ok st" "row \<in> set (db_receipts db)"
      "rr_operation_id row = ct_operation_id (pr_transition q)" "rr_statement row = st"
      "receipt_from_json (px_facility X) (rr_receipt_json row) = Ok receipt"
  | (fresh) st root n e row where "release_checks X q pf ti v link now db = Ok ()"
      "release_statement (px_facility X) q = Ok st"
      "calculate_root (px_facility X) db = Ok root" "tx_before_state_root (ti_context ti) = root"
      "require_quorum (px_facility X) C (ev_wall ev) st root ap = Ok ()"
      "ct_expires_at (pr_transition q) < now \<and> now \<le> pr_release_deadline q"
      "bt_get (db_nullifiers db) (pr_release_nullifier q) = None"
      "bt_get (db_escrows db) (ct_hold_id (pr_transition q)) = Some e" "release_escrow_ok q e"
      "bt_get (db_accounts db) (sl_handle (pr_refund_leg q)) = Some row"
      "ac_asset_id row = pr_asset_id q" "ac_commitment row = sl_before (pr_refund_leg q)"
      "write_release (px_facility X) ev now q st root n db = Ok (db', receipt)"
proof -
  note [simp] = release_reservation_def release_product_reservation_inner_def Let_def
  from assms obtain st j where start: "release_checks X q pf ti v link now db = Ok ()"
    "release_body q = Ok j" "release_statement (px_facility X) q = Ok st" by auto
  show thesis
  proof (cases "find (\<lambda>r. rr_operation_id r = ct_operation_id (pr_transition q)) (db_receipts db)")
    case (Some row)
    then have "row \<in> set (db_receipts db)" "rr_operation_id row = ct_operation_id (pr_transition q)"
      by (auto simp: find_Some_iff)
    with assms start Some show thesis by (intro replay) (auto split: if_splits)
  next
    case None
    with assms start obtain root e where "calculate_root (px_facility X) db = Ok root" "tx_before_state_root (ti_context ti) = root"
      "require_quorum (px_facility X) C (ev_wall ev) st root ap = Ok ()"
      "ct_expires_at (pr_transition q) < now \<and> now \<le> pr_release_deadline q"
      "bt_get (db_nullifiers db) (pr_release_nullifier q) = None"
      "bt_get (db_escrows db) (ct_hold_id (pr_transition q)) = Some e" "release_escrow_ok q e" "refund_fresh q db = Ok ()"
      "write_release (px_facility X) ev now q st root (of_nat (length (canonical (fx_gov (px_facility X)) j))) db = Ok (db', receipt)"
      by (auto simp: not_le not_less)
    with start show thesis by (elim refund_freshE) (rule fresh)
  qed
qed

lemma released_total:
  assumes "bt_get (db_accounts db) (sl_handle (pr_refund_leg q)) = Some row"
    "bt_get (db_escrows db) (ct_hold_id (pr_transition q)) = Some e" "re_status e = lit ''active''"
    "ac_asset_id row = re_asset_id e" "ac_commitment row = sl_before (pr_refund_leg q)"
    "held_point X (sl_after (pr_refund_leg q)) = held_point X (sl_before (pr_refund_leg q)) + held_point X (re_amount e)"
  shows "asset_total X (released_db F q st r ops e row db) a = asset_total X db a"
  using bt_sum_insert_old [OF assms(1), of "account_value X a"
      "row\<lparr>ac_commitment := sl_after (pr_refund_leg q), ac_sequence := ac_sequence row + 1\<rparr>"]
    bt_sum_insert_old [OF assms(2), of "escrow_value X a" "closed_escrow ''released'' st e"] assms(3-)
  by (simp add: asset_total_def released_db_def Let_def account_value_def escrow_value_def closed_escrow_def
      ac_simps split: if_splits)

lemma release_asset_total:
  assumes "release_reservation X C ev q pf ti v link ap now db = Ok (db', receipt)" "ristretto_encoding (px_prims X)"
  shows "asset_total X db' a = asset_total X db a"
  using assms(1)
proof (cases rule: release_reservationE)
  case (fresh st root n e row)
  from fresh(1) have pts: "held_point X (sl_after (pr_refund_leg q)) =
      held_point X (sl_before (pr_refund_leg q)) + held_point X (ct_amount (pr_transition q))"
    by (elim release_checksE) (auto simp: held_point_def dest: encodes_to_point [OF assms(2)])
  from fresh(9) have esc: "re_status e = lit ''active''" "re_asset_id e = pr_asset_id q" "re_amount e = ct_amount (pr_transition q)"
    by (simp_all add: release_escrow_ok_def)
  from fresh(13) fresh(8) esc(1) show ?thesis
  proof (cases rule: write_releaseE)
    case (1 db1 snap row' ops)
    note same = apply_credit_frame [OF 1(1)]
    from 1(2) fresh(10) have "row' = row" by simp
    then show ?thesis unfolding 1(4)
      by (subst released_total) (use same fresh(8-12) esc pts in \<open>simp_all add: asset_total_def settlement_part_def\<close>)
  qed
qed simp

lemma release_keeps:
  assumes "release_reservation X C ev q pf ti v link ap now db = Ok (db', receipt)"
  shows "(receipt_laws (px_facility X) C' \<longrightarrow> facility_ok (px_facility X) (px_credit X) C' db \<longrightarrow>
      facility_ok (px_facility X) (px_credit X) C' db') \<and> facility_kept db db'"
  using assms
proof (cases rule: release_reservationE)
  case (fresh st root n e row)
  let ?F = "px_facility X" and ?E = "px_credit X"
  from fresh(1) have rel: "relation_proof_verify ?F ?E pf (pr_transition q) = Ok ()" by (rule release_checksE)
  from fresh(9) have esc: "re_status e = lit ''active''" by (simp add: release_escrow_ok_def)
  from fresh(13) fresh(8) esc show ?thesis
  proof (cases rule: write_releaseE)
    case (1 db1 snap row' ops)
    note same = apply_credit_frame [OF 1(1)]
    have "receipt_laws ?F C' \<longrightarrow> chain_ok ?F C' db \<longrightarrow> chain_ok ?F C' db'"
      using chain_ok_append [OF _ _ 1(3), of C' db'] same by (simp add: 1(4) settlement_part_def)
    moreover have "credit_ok ?E db \<longrightarrow> credit_ok ?E db'"
      using credit_ok_apply [OF 1(1) rel] credit_ok_cong [of db' db1 ?E] by (simp add: 1(4))
    moreover have "admission_ok ?F db \<longrightarrow> admission_ok ?F db'"
      using admission_ok_cong [of db' db ?F] same by (simp add: 1(4))
    moreover have "holds_kept db db'" using apply_holds_kept [OF 1(1)] by (simp add: 1(4) holds_kept_def)
    moreover have "consumers_kept db db'" using same by (intro consumers_kept_refl) (simp add: 1(4) admission_part_def)
    moreover have "escrows_kept db db'" using fresh(8) esc same
      by (intro escrows_kept_insert [of _ "ct_hold_id (pr_transition q)" "closed_escrow ''released'' st e"])
        (auto simp: 1(4) escrow_kept_closed)
    ultimately show ?thesis using same fresh(7)
      by (auto simp: facility_ok_def facility_kept_def 1(4) settlement_part_def)
  qed
qed simp

end
