(* ===== verification/SettlementVerifier.thy ===== *)
theory SettlementVerifier
  imports FacilityDb
begin

text \<open>
  \<open>settlement_verifier.rs\<close>, and its table in \<open>facility.rs\<close>: the configuration that pins, per
  venue and epoch, the committee keys and widths a product settlement is verified with.
  The FROST package, the committee policy and the venue built from them belong to \<open>zkpi\<close>;
  they are the types \<open>'k\<close> and \<open>'v\<close>, the record \<open>quorum_policy\<close> and the fields of \<open>verifier_ext\<close>.
\<close>

record quorum_policy =
  qp_members :: "bytes list"
  qp_threshold :: nat
  qp_rest :: bytes

record ('k, 'v) verifier_ext =
  vx_frost_deserialize :: "bytes \<Rightarrow> 'k option"
  vx_frost_serialize :: "'k \<Rightarrow> bytes option"
  vx_validate_committee :: "quorum_policy \<Rightarrow> 'k \<Rightarrow> unit db_result"
  vx_policy_digest :: "quorum_policy \<Rightarrow> id32 db_result"
  vx_policy_to_vec :: "quorum_policy \<Rightarrow> bytes"
  vx_policy_from_slice :: "bytes \<Rightarrow> quorum_policy option"
  vx_venue_new :: "nat \<Rightarrow> nat \<Rightarrow> u64 \<Rightarrow> 'k \<Rightarrow> 'v"
  vx_require_pq_committee :: "'v \<Rightarrow> quorum_policy \<Rightarrow> 'v db_result"
  vx_require_threshold_ranges :: "'v \<Rightarrow> 'v"

record verifier_config =
  vc_venue_id :: id32
  vc_defmi_id :: id32
  vc_epoch :: u64
  vc_quote_registry_digest :: id32
  vc_quote_eligibility_bits :: u16
  vc_quote_span_bits :: u16
  vc_amount_bits :: u16
  vc_price_bits :: u16
  vc_max_horizon :: u64
  vc_frost_public_package :: bytes
  vc_pq_committee :: quorum_policy
  vc_valid_from :: u64
  vc_valid_until :: u64

definition settlement_verifier_key :: "'g facility_ext \<Rightarrow> id32 \<Rightarrow> u64 \<Rightarrow> id32" where
  "settlement_verifier_key F venue_id epoch =
     gc_sha256 (fx_gov F) (ascii ''QOMM:DEFMI:SETTLEMENT-VERIFIER-KEY:v1'' @ id_bytes venue_id @ be64 epoch)"

definition verifier_validate :: "('k, 'v) verifier_ext \<Rightarrow> verifier_config \<Rightarrow> unit db_result" where
  "verifier_validate V c =
     and_then (ensure (\<not> (vc_venue_id c = 0 \<or> vc_defmi_id c = 0 \<or> vc_epoch c = 0 \<or> vc_quote_registry_digest c = 0 \<or>
         vc_quote_eligibility_bits c = 0 \<or> 62 < vc_quote_eligibility_bits c \<or> vc_quote_span_bits c = 0 \<or>
         64 < vc_quote_span_bits c \<or> vc_amount_bits c = 0 \<or> 64 < vc_amount_bits c \<or> vc_price_bits c = 0 \<or>
         64 < vc_price_bits c \<or> vc_max_horizon c = 0 \<or> vc_valid_from c = 0 \<or> vc_valid_until c < vc_valid_from c \<or>
         max_unix_time < vc_valid_until c \<or> vc_frost_public_package c = [] \<or>
         64 * 1024 < length (vc_frost_public_package c)))
       ''settlement verifier configuration is outside its bounds'') (\<lambda>_.
     and_then (ok_or (vx_frost_deserialize V (vc_frost_public_package c))
       ''settlement verifier FROST package is invalid'') (\<lambda>package.
     and_then (ok_or (vx_frost_serialize V package)
       ''settlement verifier FROST package cannot be serialized'') (\<lambda>serialized.
     and_then (ensure (serialized = vc_frost_public_package c)
       ''settlement verifier FROST package is not canonical'') (\<lambda>_.
     and_then (vx_validate_committee V (vc_pq_committee c) package) (\<lambda>_.
     ensure (\<not> (length (qp_members (vc_pq_committee c)) \<noteq> 7 \<or> qp_threshold (vc_pq_committee c) \<noteq> 3))
       ''settlement verifier requires the enrolled three-of-seven PQ committee'')))))"

definition verifier_venue :: "('k, 'v) verifier_ext \<Rightarrow> verifier_config \<Rightarrow> u64 \<Rightarrow> 'v db_result" where
  "verifier_venue V c now =
     and_then (verifier_validate V c) (\<lambda>_.
     and_then (ensure (\<not> (now < vc_valid_from c \<or> vc_valid_until c < now))
       ''settlement verifier is not currently valid'') (\<lambda>_.
     and_then (ok_or (vx_frost_deserialize V (vc_frost_public_package c))
       ''registered settlement committee is malformed'') (\<lambda>public.
     vx_require_pq_committee V (vx_venue_new V (unat (vc_amount_bits c)) (unat (vc_price_bits c)) (vc_max_horizon c) public)
       (vc_pq_committee c))))"

definition verifier_key :: "'g facility_ext \<Rightarrow> verifier_config \<Rightarrow> id32" where
  "verifier_key F c = settlement_verifier_key F (vc_venue_id c) (vc_epoch c)"

definition verifier_statement :: "'g facility_ext \<Rightarrow> ('k, 'v) verifier_ext \<Rightarrow> verifier_config \<Rightarrow> id32 db_result" where
  "verifier_statement F V c =
     and_then (verifier_validate V c) (\<lambda>_.
     and_then (vx_policy_digest V (vc_pq_committee c)) (\<lambda>policy.
     Ok (gc_sha256 (fx_gov F) (ascii ''QOMM:DEFMI:SETTLEMENT-VERIFIER:v2'' @ id_bytes (vc_venue_id c) @
       id_bytes (vc_defmi_id c) @ be64 (vc_epoch c) @ id_bytes (vc_quote_registry_digest c) @
       be16 (vc_quote_eligibility_bits c) @ be16 (vc_quote_span_bits c) @ be16 (vc_amount_bits c) @
       be16 (vc_price_bits c) @ be64 (vc_max_horizon c) @ prefixed 8 (vc_frost_public_package c) @
       id_bytes policy @ be64 (vc_valid_from c) @ be64 (vc_valid_until c)))))"

section \<open>The table\<close>

definition stored_u64 :: "string \<Rightarrow> u64 \<Rightarrow> u64 db_result" where
  "stored_u64 name v = map_err (\<lambda>_. ''stored settlement verifier '' @ name @ '' is invalid'') (column v)"

definition load_settlement_verifier ::
  "'g facility_ext \<Rightarrow> ('k, 'v) verifier_ext \<Rightarrow> facility_db \<Rightarrow> id32 \<Rightarrow> u64 \<Rightarrow> verifier_config option db_result" where
  "load_settlement_verifier F V db venue_id epoch =
     (case find (\<lambda>r. sv_venue_id r = venue_id \<and> sql_key F (sv_epoch r) = sql_key F epoch) (bt_values (db_verifiers db)) of
        None \<Rightarrow> Ok None
      | Some r \<Rightarrow>
          and_then (stored_u64 ''horizon'' (sv_max_horizon r)) (\<lambda>max_horizon.
          and_then (ok_or (vx_policy_from_slice V (sv_pq_committee r)) ''stored PQ committee is invalid'') (\<lambda>policy.
          and_then (stored_u64 ''valid-from time'' (sv_valid_from r)) (\<lambda>valid_from.
          and_then (stored_u64 ''valid-until time'' (sv_valid_until r)) (\<lambda>valid_until.
          let c = \<lparr>vc_venue_id = venue_id, vc_defmi_id = sv_defmi_id r, vc_epoch = epoch,
            vc_quote_registry_digest = sv_quote_registry_digest r,
            vc_quote_eligibility_bits = sv_quote_eligibility_bits r, vc_quote_span_bits = sv_quote_span_bits r,
            vc_amount_bits = sv_amount_bits r, vc_price_bits = sv_price_bits r, vc_max_horizon = max_horizon,
            vc_frost_public_package = sv_frost_public_package r, vc_pq_committee = policy,
            vc_valid_from = valid_from, vc_valid_until = valid_until\<rparr> in
          and_then (verifier_validate V c) (\<lambda>_. Ok (Some c)))))))"

definition verifier_row_of :: "('k, 'v) verifier_ext \<Rightarrow> verifier_config \<Rightarrow> id32 \<Rightarrow> verifier_row" where
  "verifier_row_of V c statement =
     \<lparr>sv_venue_id = vc_venue_id c, sv_defmi_id = vc_defmi_id c, sv_epoch = vc_epoch c,
      sv_quote_registry_digest = vc_quote_registry_digest c, sv_quote_eligibility_bits = vc_quote_eligibility_bits c,
      sv_quote_span_bits = vc_quote_span_bits c, sv_amount_bits = vc_amount_bits c, sv_price_bits = vc_price_bits c,
      sv_max_horizon = vc_max_horizon c, sv_frost_public_package = vc_frost_public_package c,
      sv_pq_committee = vx_policy_to_vec V (vc_pq_committee c), sv_valid_from = vc_valid_from c,
      sv_valid_until = vc_valid_until c, sv_statement = statement\<rparr>"

definition register_settlement_verifier ::
  "'g facility_ext \<Rightarrow> ('k, 'v) verifier_ext \<Rightarrow> facility_config \<Rightarrow> u64 option \<Rightarrow> u64 \<Rightarrow> verifier_config \<Rightarrow> quorum_approval
    \<Rightarrow> facility_db \<Rightarrow> facility_db db_result" where
  "register_settlement_verifier F V C wall now c approval db =
     and_then (verifier_validate V c) (\<lambda>_.
     and_then (ensure (\<not> (now < vc_valid_from c \<or> vc_valid_until c < now))
       ''settlement verifier is not currently valid'') (\<lambda>_.
     and_then (verifier_statement F V c) (\<lambda>statement.
     and_then (load_settlement_verifier F V db (vc_venue_id c) (vc_epoch c)) (\<lambda>existing.
     case existing of
       Some e \<Rightarrow> if e = c then Ok db else Err ''settlement verifier venue and epoch were reused''
     | None \<Rightarrow>
         and_then (authorize F C wall db statement approval) (\<lambda>_.
         and_then (ensure (bt_get (db_verifiers db) (verifier_key F c) = None \<and>
             statement \<notin> sv_statement ` set (bt_values (db_verifiers db)))
           ''UNIQUE constraint failed: settlement_verifiers'') (\<lambda>_.
         Ok (db\<lparr>db_verifiers := bt_insert (verifier_key F c) (verifier_row_of V c statement) (db_verifiers db)\<rparr>)))))))"

section \<open>A value SQLite cannot keep stops the facility\<close>

text \<open>Reading the state root fails as soon as one integer column is past \<open>i64::MAX\<close>.\<close>

lemma hash_parts_fold_Err:
  "Err e \<in> set ps \<Longrightarrow> try_fold (\<lambda>acc p. and_then p (\<lambda>b. Ok (acc @ b))) acc ps \<noteq> Ok bs"
  by (induction ps arbitrary: acc) (auto split: result.splits)

lemma hash_parts_Err: "Err e \<in> set ps \<Longrightarrow> hash_parts ps \<noteq> Ok bs"
  unfolding hash_parts_def by (rule hash_parts_fold_Err)

lemma hash_parts_ErrE:
  assumes "Err e \<in> set ps"
  obtains e' where "hash_parts ps = Err e'"
  using hash_parts_Err [OF assms] by (cases "hash_parts ps") auto

lemma oversized_horizon_root:
  assumes "(k, r) \<in> set (entries (db_verifiers db))" "max_unix_time < sv_max_horizon r"
  shows "calculate_root F db \<noteq> Ok root"
proof -
  have "u64_part (sv_max_horizon r) = Err ''invalid digit found in string''"
    using assms(2) by (simp add: u64_part_def column_def)
  then have "Err ''invalid digit found in string'' \<in> set
     [id_part (sv_venue_id r), id_part (sv_defmi_id r), u64_part (sv_epoch r),
      id_part (sv_quote_registry_digest r), Ok (be16 (sv_quote_eligibility_bits r)),
      Ok (be16 (sv_quote_span_bits r)), Ok (be16 (sv_amount_bits r)), Ok (be16 (sv_price_bits r)),
      u64_part (sv_max_horizon r), Ok (prefixed 8 (sv_frost_public_package r)),
      and_then (ok_or (fx_policy_digest F (sv_pq_committee r)) ''stored PQ committee is invalid'') id_part,
      u64_part (sv_valid_from r), u64_part (sv_valid_until r), id_part (sv_statement r)]"
    by simp
  then obtain e where "verifier_part F (k, r) = Err e"
    unfolding verifier_part_def Let_def snd_conv by (rule hash_parts_ErrE)
  then have "Err e \<in> set (map (verifier_part F) (entries (db_verifiers db)))"
    using assms(1) by (force simp: image_iff)
  then show ?thesis
    unfolding calculate_root_def by (simp add: hash_parts_Err [where e = e])
qed

end
