(* ===== verification/Product.thy ===== *)
theory Product
  imports ReservationSafety SettlementVerifier
begin

text \<open>
  \<open>facility.rs\<close> and \<open>product.rs\<close>: settling a product. An order names a Maker's and a Taker's reservation
  and four account legs, and binds the signed mandates, the proofs of the quote, the price
  limit and the delivery versus payment, and the admission position of the Taker. Settling it consumes both
  holds and both escrows, pays the two payees, returns what was not used to the two
  owners, and spends the payment's and the request's nullifier, in one transaction.
  A batch applies several such orders in admission order.

  \<open>settlement_ext\<close> bundles the parameters: those of the reservations and the verifier, the digest of a
  threshold package, the two questions asked of an instruction, and the price-limit proof.
\<close>

record ('g, 'p, 's, 'v, 'k) settlement_ext =
  sx_product :: "('g, 'p, 's, 'v) product_ext"
  sx_verifier :: "('k, 'v) verifier_ext"
  sx_threshold_digest :: "'p threshold_package \<Rightarrow> bytes"
  sx_is_threshold :: "'p instruction \<Rightarrow> bool"
  sx_quote_proof_digest :: "'p instruction \<Rightarrow> id32 option"
  sx_price_bits :: "'v \<Rightarrow> nat"
  sx_verify_price_limit :: "'p pedersen \<Rightarrow> 'p \<Rightarrow> 'p \<Rightarrow> mandate_direction \<Rightarrow> nat \<Rightarrow> id32 \<Rightarrow> bytes \<Rightarrow> unit db_result"
  sx_price_limit_digest :: "bytes \<Rightarrow> 'p \<Rightarrow> 'p \<Rightarrow> id32 \<Rightarrow> id32"

section \<open>Evidence\<close>

datatype 'p dvp_evidence = Legacy "'p dvp_package" | Threshold "'p threshold_package"

fun ev_instruction :: "'p dvp_evidence \<Rightarrow> 'p instruction" where
  "ev_instruction (Legacy pk) = dp_instruction pk"
| "ev_instruction (Threshold pk) = tp_instruction pk"

fun ev_digest :: "('g, 'p, 's, 'v, 'k) settlement_ext \<Rightarrow> 'p dvp_evidence \<Rightarrow> bytes" where
  "ev_digest S (Legacy pk) = dvp_digest (px_prims (sx_product S)) (px_zkpi (sx_product S)) pk"
| "ev_digest S (Threshold pk) = sx_threshold_digest S pk"

text \<open>\<open>securities_from\<close>, \<open>securities_to\<close>, \<open>cash_from\<close> and \<open>cash_to\<close>.\<close>

fun ev_sides :: "'p dvp_evidence \<Rightarrow> sides" where
  "ev_sides (Legacy pk) = \<lparr>sd_securities_from = dp_securities_from pk, sd_securities_to = dp_securities_to pk,
     sd_cash_from = dp_cash_from pk, sd_cash_to = dp_cash_to pk\<rparr>"
| "ev_sides (Threshold pk) = \<lparr>sd_securities_from = tp_securities_from pk, sd_securities_to = tp_securities_to pk,
     sd_cash_from = tp_cash_from pk, sd_cash_to = tp_cash_to pk\<rparr>"

fun securities_amount :: "'p dvp_evidence \<Rightarrow> 'p" where
  "securities_amount (Legacy pk) = t_amount_commitment (dp_securities_leg pk)"
| "securities_amount (Threshold pk) = i_amount_commitment (tp_instruction pk)"

fun cash_amount :: "'p dvp_evidence \<Rightarrow> 'p" where
  "cash_amount (Legacy pk) = t_amount_commitment (dp_cash_leg pk)"
| "cash_amount (Threshold pk) = tp_cash_commitment pk"

fun securities_remainder :: "'p dvp_evidence \<Rightarrow> 'p" where
  "securities_remainder (Legacy pk) = t_remainder_commitment (dp_securities_leg pk)"
| "securities_remainder (Threshold pk) = tp_securities_remainder pk"

fun cash_remainder :: "'p dvp_evidence \<Rightarrow> 'p" where
  "cash_remainder (Legacy pk) = t_remainder_commitment (dp_cash_leg pk)"
| "cash_remainder (Threshold pk) = tp_cash_remainder pk"

fun has_hidden_asset_tag :: "'p dvp_evidence \<Rightarrow> bool" where
  "has_hidden_asset_tag (Legacy pk) \<longleftrightarrow> t_tag (dp_securities_leg pk) \<noteq> None \<or> t_tag (dp_cash_leg pk) \<noteq> None"
| "has_hidden_asset_tag (Threshold pk) \<longleftrightarrow> False"

fun is_threshold_evidence :: "'p dvp_evidence \<Rightarrow> bool" where
  "is_threshold_evidence (Legacy pk) \<longleftrightarrow> False"
| "is_threshold_evidence (Threshold pk) \<longleftrightarrow> True"

section \<open>The threshold relation\<close>

definition threshold_dvp_relation_digest ::
  "'g facility_ext \<Rightarrow> credit_facility_transition \<Rightarrow> reservation_role \<Rightarrow> id32 \<Rightarrow> id32 db_result" where
  "threshold_dvp_relation_digest F t role dvp_proof_digest =
     and_then (ensure (\<not> (ct_kind t \<noteq> Consume \<or> ct_settlement_digest t = 0 \<or> dvp_proof_digest = 0))
       ''threshold DvP relation must bind a consumption and its settlement'') (\<lambda>_.
     and_then (transition_context F t) (\<lambda>ctx.
     Ok (body_digest (fx_gov F) (ascii ''QOMM:DEFMI:CREDIT:THRESHOLD-DVP-RELATION:v1'')
       (JObject [(lit ''credit_relation_context'', JString (key ctx)),
         (lit ''reservation_role'', JString (reservation_role_str role)),
         (lit ''dvp_proof_digest'', JString (key dvp_proof_digest))]))))"

definition bind_threshold_dvp_relation ::
  "'g facility_ext \<Rightarrow> ('p::ab_group_add, 's) credit_ext \<Rightarrow> credit_facility_transition \<Rightarrow> reservation_role \<Rightarrow> id32
    \<Rightarrow> credit_facility_transition db_result" where
  "bind_threshold_dvp_relation F E t role dvp_proof_digest =
     and_then (verify_credit_relation_equations E t) (\<lambda>_.
     and_then (threshold_dvp_relation_digest F t role dvp_proof_digest) (\<lambda>digest.
     Ok (t\<lparr>ct_relation_proof_digest := digest\<rparr>)))"

record credit_hold_snapshot =
  hs_hold_id :: id32
  hs_facility_id :: id32
  hs_query :: id32
  hs_amount :: id32
  hs_expires_at :: u64

definition hold_snapshot_of :: "credit_facility_transition \<Rightarrow> credit_hold_snapshot" where
  "hold_snapshot_of t = \<lparr>hs_hold_id = ct_hold_id t, hs_facility_id = ct_facility_id t, hs_query = ct_query t,
     hs_amount = ct_amount t, hs_expires_at = ct_expires_at t\<rparr>"

text \<open>\<open>compress().to_bytes()\<close> as an identifier.\<close>

definition compress32 :: "('p, 's) prims \<Rightarrow> 'p \<Rightarrow> id32" where
  "compress32 P x = of_nat (be_nat (compress P x))"

definition build_threshold_dvp_consumption_from_snapshot ::
  "'g facility_ext \<Rightarrow> ('p::ab_group_add, 's) credit_ext \<Rightarrow> ('p, 's) prims \<Rightarrow> id32 \<Rightarrow> credit_hold_snapshot \<Rightarrow> credit_facility_snapshot
    \<Rightarrow> reservation_role \<Rightarrow> 'p \<Rightarrow> 'p \<Rightarrow> id32 \<Rightarrow> id32 \<Rightarrow> credit_facility_transition db_result" where
  "build_threshold_dvp_consumption_from_snapshot F E P operation_id hold before role consumed refund
       settlement_digest dvp_proof_digest =
     and_then (ensure (\<not> (operation_id = 0 \<or> settlement_digest = 0 \<or> hs_facility_id hold \<noteq> fs_facility_id before \<or>
         hs_hold_id hold = 0 \<or> hs_query hold = 0 \<or> hs_amount hold = 0 \<or> hs_expires_at hold = 0))
       ''threshold DvP consumption lacks a live hold or settlement'') (\<lambda>_.
     and_then (point E (hs_amount hold) ''hold amount'') (\<lambda>amount.
     and_then (ensure (amount = consumed + refund)
       ''threshold DvP consumed and refund commitments do not fill the hold'') (\<lambda>_.
     and_then (point E (fs_available before) ''available facility balance'') (\<lambda>before_available.
     and_then (point E (fs_held before) ''held facility balance'') (\<lambda>before_held.
     and_then (point E (fs_outstanding before) ''outstanding facility balance'') (\<lambda>before_outstanding.
     bind_threshold_dvp_relation F E
       \<lparr>ct_operation_id = operation_id, ct_facility_id = hs_facility_id hold, ct_hold_id = hs_hold_id hold,
        ct_kind = Consume, ct_query = hs_query hold, ct_amount = hs_amount hold,
        ct_consumed = compress32 P consumed, ct_refund = compress32 P refund,
        ct_before_available = fs_available before,
        ct_after_available = compress32 P (before_available + refund),
        ct_before_held = fs_held before, ct_after_held = compress32 P (before_held - amount),
        ct_before_outstanding = fs_outstanding before,
        ct_after_outstanding = compress32 P (before_outstanding + consumed),
        ct_before_sequence = fs_sequence before, ct_expires_at = hs_expires_at hold,
        ct_settlement_digest = settlement_digest, ct_relation_proof_digest = 0\<rparr> role dvp_proof_digest))))))"

definition build_threshold_dvp_consumption ::
  "'g facility_ext \<Rightarrow> ('p::ab_group_add, 's) credit_ext \<Rightarrow> ('p, 's) prims \<Rightarrow> id32 \<Rightarrow> credit_facility_transition \<Rightarrow> credit_facility_snapshot
    \<Rightarrow> reservation_role \<Rightarrow> 'p \<Rightarrow> 'p \<Rightarrow> id32 \<Rightarrow> id32 \<Rightarrow> credit_facility_transition db_result" where
  "build_threshold_dvp_consumption F E P operation_id hold before role consumed refund settlement_digest dvp_proof_digest =
     and_then (ensure (ct_kind hold = Hold) ''threshold DvP consumption lacks a live hold or settlement'') (\<lambda>_.
     build_threshold_dvp_consumption_from_snapshot F E P operation_id (hold_snapshot_of hold) before role consumed refund
       settlement_digest dvp_proof_digest)"

definition verify_threshold_dvp_relation ::
  "'g facility_ext \<Rightarrow> ('p::ab_group_add, 's) credit_ext \<Rightarrow> credit_facility_transition \<Rightarrow> reservation_role \<Rightarrow> id32 \<Rightarrow> unit db_result" where
  "verify_threshold_dvp_relation F E t role dvp_proof_digest =
     and_then (verify_credit_relation_equations E t) (\<lambda>_.
     and_then (threshold_dvp_relation_digest F t role dvp_proof_digest) (\<lambda>digest.
     ensure (ct_relation_proof_digest t = digest) ''credit transition is not bound to this threshold DvP proof''))"

section \<open>Orders\<close>

record reservation_consumption =
  rc_role :: reservation_role
  rc_reserve_receipt_digest :: id32
  rc_transition :: credit_facility_transition

record product_settlement_order =
  po_settlement :: settlement_order
  po_venue_id :: id32
  po_defmi_id :: id32
  po_maker_entity :: id32
  po_taker_entity :: id32
  po_rfq_nullifier :: id32
  po_taker_authorization_digest :: id32
  po_maker_policy_digest :: id32
  po_maker_mandate_digest :: id32
  po_taker_mandate_digest :: id32
  po_typed_instruction_digest :: id32
  po_quote_proof_digest :: id32
  po_price_limit_proof_digest :: id32
  po_dvp_proof_digest :: id32
  po_quantity :: id32
  po_cash :: id32
  po_traded_asset_id :: id32
  po_asset_link_proof_digest :: id32
  po_admission_receipt_digest :: id32
  po_admission_epoch :: u64
  po_admission_sequence :: u64
  po_reservations :: "reservation_consumption list"

text \<open>The identifiers that must not be zero, in the order of their test.\<close>

definition product_bindings :: "product_settlement_order \<Rightarrow> id32 list" where
  "product_bindings q = [po_venue_id q, po_defmi_id q, po_maker_entity q, po_taker_entity q, po_rfq_nullifier q,
     po_taker_authorization_digest q, po_maker_policy_digest q, po_maker_mandate_digest q, po_taker_mandate_digest q,
     po_typed_instruction_digest q, po_quote_proof_digest q, po_price_limit_proof_digest q, po_dvp_proof_digest q,
     po_quantity q, po_cash q, po_traded_asset_id q, po_asset_link_proof_digest q, po_admission_receipt_digest q]"

text \<open>The map \<open>assets\<close> counts the legs of each asset.\<close>

definition two_rails :: "id32 \<Rightarrow> state_leg list \<Rightarrow> bool" where
  "two_rails traded legs = (let assets = map sl_asset_id legs in
     length legs = 4 \<and> card (set assets) = 2 \<and> (\<forall>a \<in> set assets. count_list assets a = 2) \<and> traded \<in> set assets)"

text \<open>The loop over the reservations; what it has seen are their roles, holds and lines.\<close>

definition note_reservation ::
  "id32 \<Rightarrow> reservation_consumption list \<Rightarrow> reservation_consumption \<Rightarrow> reservation_consumption list db_result" where
  "note_reservation base_statement seen rc =
     and_then (ensure (rc_role rc \<notin> rc_role ` set seen \<and>
         ct_hold_id (rc_transition rc) \<notin> (ct_hold_id \<circ> rc_transition) ` set seen \<and>
         ct_facility_id (rc_transition rc) \<notin> (ct_facility_id \<circ> rc_transition) ` set seen)
       ''product settlement repeats a role, hold, or facility'') (\<lambda>_.
     and_then (ensure (\<not> (ct_kind (rc_transition rc) \<noteq> Consume \<or> ct_settlement_digest (rc_transition rc) \<noteq> base_statement))
       ''product settlement reservation is not consumed by this DvP'') (\<lambda>_.
     Ok (seen @ [rc])))"

definition reservation_json :: "reservation_consumption \<Rightarrow> json db_result" where
  "reservation_json rc = jobject [jstr ''role'' (reservation_role_str (rc_role rc)),
     jid ''reserve_receipt_digest'' (rc_reserve_receipt_digest rc), (''transition'', transition_body (rc_transition rc))]"

definition product_body :: "'g facility_ext \<Rightarrow> product_settlement_order \<Rightarrow> json db_result" where
  "product_body F q =
     and_then (order_body (po_settlement q)) (\<lambda>_.
     and_then (ensure (\<not> (length (po_reservations q) \<noteq> 2 \<or> po_admission_epoch q = 0 \<or> po_admission_sequence q = 0))
       ''product settlement needs one ordered Maker and Taker reservation'') (\<lambda>_.
     and_then (ensure (0 \<notin> set (product_bindings q)) ''product settlement has an all-zero binding'') (\<lambda>_.
     and_then (ensure (\<not> (so_payment_instruction_digest (po_settlement q) \<noteq> po_typed_instruction_digest q \<or>
         so_proof_digest (po_settlement q) \<noteq> po_quote_proof_digest q))
       ''settlement summary is not for the typed zkPI and quote proof'') (\<lambda>_.
     and_then (ensure (two_rails (po_traded_asset_id q) (so_legs (po_settlement q)))
       ''product DvP must have two traded-asset and two payment-asset legs'') (\<lambda>_.
     and_then (order_statement F (po_settlement q)) (\<lambda>base_statement.
     and_then (try_fold (note_reservation base_statement) [] (po_reservations q)) (\<lambda>seen.
     and_then (ensure (Maker \<in> rc_role ` set seen \<and> Taker \<in> rc_role ` set seen)
       ''product settlement lacks Maker or Taker reservation'') (\<lambda>_.
     and_then (try_map reservation_json (po_reservations q)) (\<lambda>reservations.
     jobject [(''settlement'', order_body (po_settlement q)), jid ''venue_id'' (po_venue_id q), jid ''defmi_id'' (po_defmi_id q),
       jid ''maker_entity_commitment'' (po_maker_entity q), jid ''taker_entity_commitment'' (po_taker_entity q),
       jid ''rfq_nullifier'' (po_rfq_nullifier q), jid ''taker_authorization_digest'' (po_taker_authorization_digest q),
       jid ''maker_policy_digest'' (po_maker_policy_digest q), jid ''maker_mandate_digest'' (po_maker_mandate_digest q),
       jid ''taker_mandate_digest'' (po_taker_mandate_digest q),
       jid ''typed_instruction_digest'' (po_typed_instruction_digest q), jid ''quote_proof_digest'' (po_quote_proof_digest q),
       jid ''price_limit_proof_digest'' (po_price_limit_proof_digest q), jid ''dvp_proof_digest'' (po_dvp_proof_digest q),
       jid ''quantity_commitment'' (po_quantity q), jid ''cash_commitment'' (po_cash q),
       jid ''traded_asset_id'' (po_traded_asset_id q), jid ''asset_link_proof_digest'' (po_asset_link_proof_digest q),
       jid ''admission_receipt_digest'' (po_admission_receipt_digest q), jnum ''admission_epoch'' (po_admission_epoch q),
       jnum ''admission_sequence'' (po_admission_sequence q), (''reservations'', Ok (JArray reservations))])))))))))"

definition product_statement :: "'g facility_ext \<Rightarrow> product_settlement_order \<Rightarrow> id32 db_result" where
  "product_statement F q = and_then (product_body F q) (\<lambda>body.
     Ok (body_digest (fx_gov F) (ascii ''QOMM:DEFMI:PRODUCT-SETTLEMENT:v1'') body))"

section \<open>Batches\<close>

record batch_member =
  bm_admission_sequence :: u64
  bm_settlement_statement :: id32

record product_settlement_batch =
  psb_batch_id :: id32
  psb_venue_id :: id32
  psb_defmi_id :: id32
  psb_admission_epoch :: u64
  psb_members :: "batch_member list"

text \<open>The sets \<open>validate_orders\<close> fills.\<close>

record batch_seen =
  sn_previous :: u64
  sn_statements :: "id32 set"
  sn_operations :: "id32 set"
  sn_nullifiers :: "id32 set"
  sn_rfq_nullifiers :: "id32 set"
  sn_facilities :: "id32 set"
  sn_holds :: "id32 set"
  sn_handles :: "id32 set"

definition see_reservation :: "batch_seen \<Rightarrow> reservation_consumption \<Rightarrow> batch_seen db_result" where
  "see_reservation s rc = (let t = rc_transition rc in
     and_then (ensure (ct_operation_id t \<notin> sn_operations s) ''product settlement batch reuses a reservation operation'') (\<lambda>_.
     and_then (ensure (ct_facility_id t \<notin> sn_facilities s) ''product settlement batch reuses a credit facility'') (\<lambda>_.
     and_then (ensure (ct_hold_id t \<notin> sn_holds s) ''product settlement batch reuses a reservation hold'') (\<lambda>_.
     Ok (s\<lparr>sn_operations := insert (ct_operation_id t) (sn_operations s),
       sn_facilities := insert (ct_facility_id t) (sn_facilities s), sn_holds := insert (ct_hold_id t) (sn_holds s)\<rparr>)))))"

definition see_leg :: "batch_seen \<Rightarrow> state_leg \<Rightarrow> batch_seen db_result" where
  "see_leg s leg =
     and_then (ensure (sl_handle leg \<notin> sn_handles s) ''product settlement batch reuses an account'') (\<lambda>_.
     Ok (s\<lparr>sn_handles := insert (sl_handle leg) (sn_handles s)\<rparr>))"

definition see_member ::
  "'g facility_ext \<Rightarrow> product_settlement_batch \<Rightarrow> batch_seen \<Rightarrow> batch_member \<times> product_settlement_order \<Rightarrow> batch_seen db_result" where
  "see_member F b s item = (case item of (m, q) \<Rightarrow> let o' = po_settlement q in
     and_then (if po_venue_id q \<noteq> psb_venue_id b \<or> po_defmi_id q \<noteq> psb_defmi_id b \<or>
         po_admission_epoch q \<noteq> psb_admission_epoch b \<or> po_admission_sequence q \<noteq> bm_admission_sequence m \<or>
         bm_admission_sequence m \<le> sn_previous s
       then Err ''product settlement batch is not a unique certified admission sequence''
       else and_then (product_statement F q) (\<lambda>statement.
         ensure (bm_settlement_statement m = statement \<and> bm_settlement_statement m \<notin> sn_statements s)
           ''product settlement batch is not a unique certified admission sequence'')) (\<lambda>_.
     and_then (ensure (so_operation_id o' \<notin> sn_operations s) ''product settlement batch reuses an operation'') (\<lambda>_.
     and_then (ensure (so_nullifier o' \<notin> sn_nullifiers s) ''product settlement batch reuses a payment nullifier'') (\<lambda>_.
     and_then (ensure (po_rfq_nullifier q \<notin> sn_rfq_nullifiers s) ''product settlement batch reuses an RFQ nullifier'') (\<lambda>_.
     and_then (try_fold see_reservation
       (s\<lparr>sn_statements := insert (bm_settlement_statement m) (sn_statements s),
          sn_operations := insert (so_operation_id o') (sn_operations s),
          sn_nullifiers := insert (so_nullifier o') (sn_nullifiers s),
          sn_rfq_nullifiers := insert (po_rfq_nullifier q) (sn_rfq_nullifiers s)\<rparr>) (po_reservations q)) (\<lambda>s.
     and_then (try_fold see_leg s (so_legs o')) (\<lambda>s.
     Ok (s\<lparr>sn_previous := bm_admission_sequence m\<rparr>))))))))"

definition batch_in_bounds :: "product_settlement_batch \<Rightarrow> bool" where
  "batch_in_bounds b \<longleftrightarrow> \<not> (psb_batch_id b = 0 \<or> psb_venue_id b = 0 \<or> psb_defmi_id b = 0 \<or> psb_admission_epoch b = 0 \<or>
     psb_members b = [] \<or> 4096 < length (psb_members b))"

definition validate_orders :: "'g facility_ext \<Rightarrow> product_settlement_batch \<Rightarrow> product_settlement_order list \<Rightarrow> unit db_result" where
  "validate_orders F b orders =
     and_then (ensure (batch_in_bounds b \<and> length (psb_members b) = length orders)
       ''product settlement batch is incomplete or outside its bound'') (\<lambda>_.
     and_then (try_fold (see_member F b) \<lparr>sn_previous = 0, sn_statements = {}, sn_operations = {psb_batch_id b},
         sn_nullifiers = {}, sn_rfq_nullifiers = {}, sn_facilities = {}, sn_holds = {}, sn_handles = {}\<rparr>
       (zip (psb_members b) orders)) (\<lambda>_. Ok ()))"

definition order_member ::
  "u64 \<times> id32 set \<Rightarrow> batch_member \<Rightarrow> (u64 \<times> id32 set) db_result" where
  "order_member s m = (case s of (previous, statements) \<Rightarrow>
     and_then (ensure (\<not> (bm_admission_sequence m \<le> previous \<or> bm_settlement_statement m = 0 \<or>
         bm_settlement_statement m \<in> statements))
       ''product settlement batch members must be unique and admission ordered'') (\<lambda>_.
     Ok (bm_admission_sequence m, insert (bm_settlement_statement m) statements)))"

definition batch_body :: "product_settlement_batch \<Rightarrow> json db_result" where
  "batch_body b =
     and_then (ensure (batch_in_bounds b) ''product settlement batch is incomplete or outside its bound'') (\<lambda>_.
     and_then (try_fold order_member (0, {}) (psb_members b)) (\<lambda>_.
     jobject [jid ''batch_id'' (psb_batch_id b), jid ''venue_id'' (psb_venue_id b), jid ''defmi_id'' (psb_defmi_id b),
       jnum ''admission_epoch'' (psb_admission_epoch b),
       (''members'', Ok (JArray (map (\<lambda>m. JObject [(lit ''admission_sequence'', JNumber (unat (bm_admission_sequence m))),
         (lit ''settlement_statement'', JString (key (bm_settlement_statement m)))]) (psb_members b))))]))"

definition batch_statement :: "'g facility_ext \<Rightarrow> product_settlement_batch \<Rightarrow> id32 db_result" where
  "batch_statement F b = and_then (batch_body b) (\<lambda>body.
     Ok (body_digest (fx_gov F) (ascii ''QOMM:DEFMI:PRODUCT-SETTLEMENT-BATCH:v1'') body))"

definition batch_from_orders ::
  "'g facility_ext \<Rightarrow> id32 \<Rightarrow> product_settlement_order list \<Rightarrow> product_settlement_batch db_result" where
  "batch_from_orders F batch_id orders = (case orders of
       [] \<Rightarrow> Err ''product settlement batch cannot be empty''
     | first # _ \<Rightarrow>
         and_then (try_map (\<lambda>q. and_then (product_statement F q) (\<lambda>statement.
           Ok \<lparr>bm_admission_sequence = po_admission_sequence q, bm_settlement_statement = statement\<rparr>)) orders) (\<lambda>members.
         let batch = \<lparr>psb_batch_id = batch_id, psb_venue_id = po_venue_id first, psb_defmi_id = po_defmi_id first,
           psb_admission_epoch = po_admission_epoch first, psb_members = members\<rparr> in
         and_then (validate_orders F batch orders) (\<lambda>_. Ok batch)))"

section \<open>Settling one order\<close>

text \<open>The venue is built from the enrolled record, never from the caller's.\<close>

definition enrolled_venue ::
  "('g, 'p, 's, 'v, 'k) settlement_ext \<Rightarrow> facility_db \<Rightarrow> product_settlement_order \<Rightarrow> bool \<Rightarrow> u64 \<Rightarrow> 'v db_result" where
  "enrolled_venue S db q threshold now = (let F = px_facility (sx_product S); V = sx_verifier S in
     and_then (load_settlement_verifier F V db (po_venue_id q) (po_admission_epoch q)) (\<lambda>found.
     and_then (ok_or found ''product settlement lacks its registered verifier'') (\<lambda>enrolled.
     and_then (ensure (vc_defmi_id enrolled = po_defmi_id q) ''registered verifier belongs to another DeFMI'') (\<lambda>_.
     and_then (verifier_venue V enrolled now) (\<lambda>venue.
     Ok (if threshold then vx_require_threshold_ranges V venue else venue))))))"

definition product_relations ::
  "('g, 'p::ab_group_add, 's, 'v) product_ext \<Rightarrow> product_settlement_order \<Rightarrow> relation_proof list \<Rightarrow> bool \<Rightarrow> unit db_result" where
  "product_relations X q proofs threshold = (let F = px_facility X; E = px_credit X in
     if proofs = [] \<and> threshold then
       try_for_each (\<lambda>rc. verify_threshold_dvp_relation F E (rc_transition rc) (rc_role rc) (po_dvp_proof_digest q))
         (po_reservations q)
     else
       and_then (ensure (length proofs = length (po_reservations q))
         ''each reservation consumption needs one relation proof'') (\<lambda>_.
       try_for_each (\<lambda>(rc, proof). relation_proof_verify F E proof (rc_transition rc)) (zip (po_reservations q) proofs)))"

definition reservation_with :: "reservation_role \<Rightarrow> product_settlement_order \<Rightarrow> string \<Rightarrow> reservation_consumption db_result" where
  "reservation_with role q e = ok_or (find (\<lambda>rc. rc_role rc = role) (po_reservations q)) e"

text \<open>The instruction, the proofs and the context against the order, before the transaction.\<close>

definition instruction_checks ::
  "('g, 'p::ab_group_add, 's, 'v, 'k) settlement_ext \<Rightarrow> product_settlement_order \<Rightarrow> 'v \<Rightarrow> 'p typed_instruction
    \<Rightarrow> ('p, 's) asset_link_proof \<Rightarrow> 'p dvp_evidence \<Rightarrow> u64 \<Rightarrow> unit db_result" where
  "instruction_checks S q venue ti link ev now = (let X = sx_product S; pay = ti_payment ti; o' = po_settlement q in
     and_then (map_err (\<lambda>error. ''typed zkPI failed: '' @ error) (px_verify_typed X venue ti now)) (\<lambda>_.
     and_then (ensure (linked X venue (po_traded_asset_id q) ti link (po_asset_link_proof_digest q))
       ''zkPI asset is not the traded DeFMI asset'') (\<lambda>_.
     and_then (ensure (\<not> (typed_digest X ti \<noteq> po_typed_instruction_digest q \<or> i_nullifier pay \<noteq> id_bytes (so_nullifier o') \<or>
         i_deadline pay \<noteq> so_deadline o'))
       ''typed zkPI bytes, nullifier, or deadline do not match settlement'') (\<lambda>_.
     and_then (ensure (wire_encode (px_zkpi X) (ev_instruction ev) = wire_encode (px_zkpi X) pay)
       ''DvP package is not for the typed zkPI instruction'') (\<lambda>_.
     and_then (ensure (ev_digest S ev = id_bytes (po_dvp_proof_digest q))
       ''DvP proof bytes differ from the committee-approved digest'') (\<lambda>_.
     and_then (ensure (\<not> (\<not> encodes X (securities_amount ev) (po_quantity q) \<or> \<not> encodes X (cash_amount ev) (po_cash q)))
       ''product amount commitments differ from the proved DvP package'') (\<lambda>_.
     ensure (\<not> has_hidden_asset_tag ev)
       ''durable DeFMI requires untagged DvP legs for its explicit asset rails'')))))))"

definition context_checks ::
  "product_settlement_order \<Rightarrow> 'p typed_context \<Rightarrow> reservation_consumption \<Rightarrow> reservation_consumption \<Rightarrow> unit db_result" where
  "context_checks q c maker taker =
     ensure (\<not> (tx_maker_reservation_id c \<noteq> ct_hold_id (rc_transition maker) \<or>
         tx_maker_reservation_sequence c \<noteq> ct_before_sequence (rc_transition maker) \<or>
         tx_maker_reserve_receipt_digest c \<noteq> rc_reserve_receipt_digest maker \<or>
         tx_taker_reservation_id c \<noteq> ct_hold_id (rc_transition taker) \<or>
         tx_taker_reservation_sequence c \<noteq> ct_before_sequence (rc_transition taker) \<or>
         tx_taker_reserve_receipt_digest c \<noteq> rc_reserve_receipt_digest taker))
       ''typed zkPI names another Maker or Taker reservation state''"

definition execution_context_ok :: "product_settlement_order \<Rightarrow> 'p typed_context \<Rightarrow> bool" where
  "execution_context_ok q c \<longleftrightarrow> (tx_operation c = OpConsume \<or> tx_operation c = OpSettle) \<and> tx_scope c = JointScope \<and>
     tx_venue_id c = po_venue_id q \<and> tx_defmi_id c = po_defmi_id q \<and> tx_rfq_nullifier c = po_rfq_nullifier q \<and>
     tx_maker_policy_digest c = po_maker_policy_digest q \<and> tx_maker_mandate_digest c = po_maker_mandate_digest q \<and>
     tx_taker_mandate_digest c = po_taker_mandate_digest q \<and> tx_quote_proof_digest c = po_quote_proof_digest q \<and>
     tx_market_statement_digest c = so_market_statement_digest (po_settlement q)"

text \<open>The four handles of the package: both escrows and both payees.\<close>

record package_handles =
  ph_securities_from :: id32
  ph_securities_to :: id32
  ph_cash_from :: id32
  ph_cash_to :: id32

definition package_handles_of ::
  "('g, 'p, 's, 'v) product_ext \<Rightarrow> 'p dvp_evidence \<Rightarrow> package_handles db_result" where
  "package_handles_of X ev = (let who = ev_sides ev; party = sides_of (px_zkpi X) (ev_instruction ev) in
     and_then (handle32 (sd_securities_from who) ''securities escrow must be a 32-byte anonymous account handle'') (\<lambda>sf.
     and_then (handle32 (sd_securities_to who) ''securities payee must be a 32-byte anonymous account handle'') (\<lambda>st.
     and_then (handle32 (sd_cash_from who) ''cash escrow must be a 32-byte anonymous account handle'') (\<lambda>cf.
     and_then (handle32 (sd_cash_to who) ''cash payee must be a 32-byte anonymous account handle'') (\<lambda>ct.
     and_then (ensure (\<not> (sd_securities_to who \<noteq> sd_securities_to party \<or> sd_cash_to who \<noteq> sd_cash_to party \<or>
         sf = st \<or> cf = ct)) ''DvP destinations or escrow source handles differ from the signed zkPI'') (\<lambda>_.
     Ok \<lparr>ph_securities_from = sf, ph_securities_to = st, ph_cash_from = cf, ph_cash_to = ct\<rparr>))))))"

definition payment_asset :: "product_settlement_order \<Rightarrow> id32 db_result" where
  "payment_asset q = and_then (ok_or (find (\<lambda>l. sl_asset_id l \<noteq> po_traded_asset_id q) (so_legs (po_settlement q)))
     ''product settlement has no payment rail'') (\<lambda>l. Ok (sl_asset_id l))"

text \<open>Maker and Taker give what the direction says.\<close>

fun consumed_by_direction :: "trade_direction \<Rightarrow> 'p dvp_evidence \<Rightarrow> 'p \<times> 'p" where
  "consumed_by_direction TakerBuys ev = (securities_amount ev, cash_amount ev)"
| "consumed_by_direction TakerSells ev = (cash_amount ev, securities_amount ev)"

definition product_checks ::
  "('g, 'p::ab_group_add, 's, 'v, 'k) settlement_ext \<Rightarrow> product_settlement_order \<Rightarrow> 'v \<Rightarrow> 'p typed_instruction
    \<Rightarrow> ('p, 's) asset_link_proof \<Rightarrow> 'p dvp_evidence \<Rightarrow> u64 \<Rightarrow> (package_handles \<times> id32) db_result" where
  "product_checks S q venue ti link ev now = (let X = sx_product S; c = ti_context ti in
     and_then (instruction_checks S q venue ti link ev now) (\<lambda>_.
     and_then (ensure (execution_context_ok q c)
       ''typed zkPI execution context differs from the product settlement'') (\<lambda>_.
     and_then (reservation_with Maker q ''Maker reservation is missing'') (\<lambda>maker.
     and_then (reservation_with Taker q ''Taker reservation is missing'') (\<lambda>taker.
     and_then (context_checks q c maker taker) (\<lambda>_.
     and_then (package_handles_of X ev) (\<lambda>handles.
     and_then (payment_asset q) (\<lambda>payment_asset_id.
     and_then (case consumed_by_direction (tx_direction c) ev of (maker_consumed, taker_consumed) \<Rightarrow>
       ensure (\<not> (\<not> encodes X maker_consumed (ct_consumed (rc_transition maker)) \<or>
           \<not> encodes X taker_consumed (ct_consumed (rc_transition taker))))
         ''guarantee reservations are not consumed by the proved DvP amounts'') (\<lambda>_.
     Ok (handles, payment_asset_id))))))))))"

section \<open>The stored reservations\<close>

definition maker_binding_ok :: "product_settlement_order \<Rightarrow> u8 \<Rightarrow> id32 \<Rightarrow> binding_row \<Rightarrow> unit db_result" where
  "maker_binding_ok q direction payment_asset_id b =
     and_then (column (rb_policy_version b)) (\<lambda>version.
     ensure (\<not> (version = 0 \<or> (direction = 1 \<and> rb_asset_id b \<noteq> po_traded_asset_id q) \<or>
         (direction = 2 \<and> rb_asset_id b \<noteq> payment_asset_id)))
       ''Maker reserve does not back the selected policy asset'')"

definition taker_binding_ok :: "product_settlement_order \<Rightarrow> u8 \<Rightarrow> id32 \<Rightarrow> binding_row \<Rightarrow> unit db_result" where
  "taker_binding_ok q direction payment_asset_id b =
     and_then (ensure (\<not> (rb_limit_price b = 0 \<or> rb_rfq_nullifier b \<noteq> po_rfq_nullifier q))
       ''Taker reserve names another RFQ nullifier'') (\<lambda>_.
     and_then (ensure (rb_admission_receipt_digest b = po_admission_receipt_digest q)
       ''Taker reserve names another admission receipt'') (\<lambda>_.
     and_then (and_then (column (rb_admission_epoch b)) (\<lambda>epoch.
         if epoch \<noteq> po_admission_epoch q then Err ''Taker reserve names another certified admission position''
         else and_then (column (rb_admission_sequence b)) (\<lambda>sequence.
           ensure (sequence = po_admission_sequence q) ''Taker reserve names another certified admission position''))) (\<lambda>_.
     ensure (\<not> ((direction = 2 \<and> rb_asset_id b \<noteq> po_traded_asset_id q) \<or>
         (direction = 1 \<and> rb_asset_id b \<noteq> payment_asset_id)))
       ''Taker reserve is on the wrong RFQ asset rail'')))"

fun of_role :: "reservation_role \<Rightarrow> 'a \<Rightarrow> 'a \<Rightarrow> 'a" where
  "of_role Maker maker taker = maker"
| "of_role Taker maker taker = taker"

definition reserved_escrow ::
  "product_settlement_order \<Rightarrow> u8 \<Rightarrow> id32 \<Rightarrow> facility_db \<Rightarrow> reservation_consumption
    \<Rightarrow> (reservation_role \<times> escrow_row) db_result" where
  "reserved_escrow q direction payment_asset_id db rc = (let t = rc_transition rc; role = rc_role rc in
     and_then (ok_or (bt_get (db_bindings db) (ct_hold_id t)) ''settlement reservation was not product-bound'') (\<lambda>b.
     and_then (if rb_role b \<noteq> reservation_role_str role \<or>
         rb_entity b \<noteq> of_role role (po_maker_entity q) (po_taker_entity q)
       then Err ''reservation binding differs from the signed product context''
       else if 255 < rb_direction b then Err ''number too large to fit in target type''
       else ensure (\<not> (rb_direction b \<noteq> ucast direction \<or>
           rb_authorization_digest b \<noteq> of_role role (po_maker_policy_digest q) (po_taker_authorization_digest q) \<or>
           rb_mandate_digest b \<noteq> of_role role (po_maker_mandate_digest q) (po_taker_mandate_digest q) \<or>
           rb_receipt_digest b \<noteq> rc_reserve_receipt_digest rc))
         ''reservation binding differs from the signed product context'') (\<lambda>_.
     and_then (case role of Maker \<Rightarrow> maker_binding_ok q direction payment_asset_id b
       | Taker \<Rightarrow> taker_binding_ok q direction payment_asset_id b) (\<lambda>_.
     and_then (ok_or (bt_get (db_escrows db) (ct_hold_id t)) ''settlement reservation has no asset escrow'') (\<lambda>e.
     and_then (ensure (re_status e = lit ''active'') ''settlement reservation asset escrow is not active'') (\<lambda>_.
     and_then (column (re_source_before_sequence e)) (\<lambda>_.
     and_then (ensure (\<not> (re_asset_id e \<noteq> rb_asset_id b \<or> re_amount e \<noteq> ct_amount t))
       ''asset escrow differs from the consumed guarantee hold'') (\<lambda>_.
     Ok (role, e)))))))))"

section \<open>The four legs\<close>

definition leg_for :: "product_settlement_order \<Rightarrow> id32 \<Rightarrow> state_leg db_result" where
  "leg_for q handle = ok_or (find (\<lambda>l. sl_handle l = handle) (so_legs (po_settlement q)))
     ''reservation source or DvP destination is absent from settlement''"

definition canonical_point :: "('g, 'p, 's, 'v) product_ext \<Rightarrow> id32 \<Rightarrow> string \<Rightarrow> 'p db_result" where
  "canonical_point X c name = ok_or (to_point X c) (name @ '' is not a canonical Ristretto commitment'')"

text \<open>
  Each owner gets back what its escrow did not pay, each payee what it was paid. The two
  before-commitments of the payees are returned for the proof.
\<close>

definition settlement_legs ::
  "('g, 'p::ab_group_add, 's, 'v) product_ext \<Rightarrow> product_settlement_order \<Rightarrow> id32 \<Rightarrow> package_handles \<Rightarrow> escrow_row \<Rightarrow> escrow_row
    \<Rightarrow> 'p dvp_evidence \<Rightarrow> ('p \<times> 'p) db_result" where
  "settlement_legs X q payment_asset_id handles securities_escrow cash_escrow ev =
     and_then (leg_for q (re_source_handle securities_escrow)) (\<lambda>securities_source.
     and_then (leg_for q (ph_securities_to handles)) (\<lambda>securities_to.
     and_then (leg_for q (re_source_handle cash_escrow)) (\<lambda>cash_source.
     and_then (leg_for q (ph_cash_to handles)) (\<lambda>cash_to.
     and_then (ensure (\<not> (sl_asset_id securities_source \<noteq> po_traded_asset_id q \<or> sl_asset_id securities_to \<noteq> po_traded_asset_id q \<or>
         sl_asset_id cash_source \<noteq> payment_asset_id \<or> sl_asset_id cash_to \<noteq> payment_asset_id))
       ''settlement refund or destination is on the wrong asset rail'') (\<lambda>_.
     and_then (canonical_point X (sl_before securities_source) ''securities reserve owner before commitment'') (\<lambda>ss.
     and_then (canonical_point X (sl_before securities_to) ''securities payee before commitment'') (\<lambda>st.
     and_then (canonical_point X (sl_before cash_source) ''cash reserve owner before commitment'') (\<lambda>cs.
     and_then (canonical_point X (sl_before cash_to) ''cash payee before commitment'') (\<lambda>ct.
     and_then (ensure (\<not> (\<not> encodes X (ss + securities_remainder ev) (sl_after securities_source) \<or>
         \<not> encodes X (st + securities_amount ev) (sl_after securities_to) \<or>
         \<not> encodes X (cs + cash_remainder ev) (sl_after cash_source) \<or>
         \<not> encodes X (ct + cash_amount ev) (sl_after cash_to)))
       ''settlement does not pay from escrow and return its unused maximum'') (\<lambda>_.
     Ok (st, ct)))))))))))"

text \<open>The proof against the two escrows. The legacy proof draws its weights from \<open>rng\<close>.\<close>

definition escrow_rail :: "('g, 'p::ab_group_add, 's, 'v) product_ext \<Rightarrow> 'v \<Rightarrow> bytes \<Rightarrow> 'p \<Rightarrow> bytes \<Rightarrow> 'p \<Rightarrow> ('p ledger, ledger_error) result" where
  "escrow_rail X venue from_handle amount to_handle before =
     and_then (Ledger.open_account (ledger_new (px_venue_key X venue) (px_amount_bits X venue)) from_handle amount) (\<lambda>l.
     Ledger.open_account l to_handle before)"

fun reserved_dvp_ok ::
  "('g, 'p::ab_group_add, 's, 'v) product_ext \<Rightarrow> 'v \<Rightarrow> 'p dvp_evidence \<Rightarrow> 'p \<Rightarrow> 'p \<Rightarrow> 'p \<times> 'p \<Rightarrow> 's \<times> 's \<times> 's \<Rightarrow> unit db_result" where
  "reserved_dvp_ok X venue (Legacy pk) securities_held cash_held befores ws = (case befores of (st, ct) \<Rightarrow>
     let party = sides_of (px_zkpi X) (dp_instruction pk) in
     and_then (map_err (\<lambda>_. ''handle already open'')
       (escrow_rail X venue (dp_securities_from pk) securities_held (dp_securities_to pk) st)) (\<lambda>securities_ledger.
     and_then (map_err (\<lambda>_. ''handle already open'')
       (escrow_rail X venue (dp_cash_from pk) cash_held (dp_cash_to pk) ct)) (\<lambda>cash_ledger.
     map_err (\<lambda>_. ''reserved DvP proof failed'') (verify_package_legs_for_sides (px_prims X) (px_venue_key X venue)
       securities_ledger cash_ledger pk
       \<lparr>sd_securities_from = dp_securities_from pk, sd_securities_to = sd_securities_to party,
        sd_cash_from = dp_cash_from pk, sd_cash_to = sd_cash_to party\<rparr> ws))))"
| "reserved_dvp_ok X venue (Threshold pk) securities_held cash_held befores ws =
     and_then (ensure (trp_bits (tp_securities_remainder_range pk) = trp_bits (tp_cash_remainder_range pk))
       ''threshold DvP remainder proofs use different range widths'') (\<lambda>_.
     map_err (\<lambda>_. ''reserved threshold DvP proof failed'') (verify_threshold_package (px_prims X) (px_zkpi X)
       (px_venue_key X venue) pk securities_held cash_held (trp_bits (tp_securities_remainder_range pk))))"

text \<open>The two escrows against the order, its legs and the proof.\<close>

definition escrow_on :: "id32 \<Rightarrow> (reservation_role \<times> escrow_row) list \<Rightarrow> string \<Rightarrow> (reservation_role \<times> escrow_row) db_result" where
  "escrow_on asset_id escrows e = ok_or (find (\<lambda>(_, x). re_asset_id x = asset_id) escrows) e"

definition escrows_checked ::
  "('g, 'p::ab_group_add, 's, 'v) product_ext \<Rightarrow> product_settlement_order \<Rightarrow> 'v \<Rightarrow> id32 \<Rightarrow> package_handles
    \<Rightarrow> (reservation_role \<times> escrow_row) list \<Rightarrow> 'p dvp_evidence \<Rightarrow> 's \<times> 's \<times> 's \<Rightarrow> unit db_result" where
  "escrows_checked X q venue payment_asset_id handles escrows ev ws =
     and_then (escrow_on (po_traded_asset_id q) escrows ''product has no traded-asset reservation escrow'') (\<lambda>(srole, se).
     and_then (escrow_on payment_asset_id escrows ''product has no payment-asset reservation escrow'') (\<lambda>(crole, ce).
     and_then (ensure (\<not> (re_escrow_handle se \<noteq> ph_securities_from handles \<or> re_escrow_handle ce \<noteq> ph_cash_from handles))
       ''DvP spends an account other than the pre-trade asset escrow'') (\<lambda>_.
     and_then (settlement_legs X q payment_asset_id handles se ce ev) (\<lambda>befores.
     and_then (canonical_point X (re_amount se) ''securities escrow amount'') (\<lambda>securities_held.
     and_then (canonical_point X (re_amount ce) ''cash escrow amount'') (\<lambda>cash_held.
     and_then (reserved_dvp_ok X venue ev securities_held cash_held befores ws) (\<lambda>_.
     and_then (reservation_with srole q ''reservation role is missing'') (\<lambda>sr.
     if \<not> encodes X (securities_remainder ev) (ct_refund (rc_transition sr))
     then Err ''guarantee refund differs from unused asset escrow''
     else and_then (reservation_with crole q ''reservation role is missing'') (\<lambda>cr.
       ensure (encodes X (cash_remainder ev) (ct_refund (rc_transition cr)))
         ''guarantee refund differs from unused asset escrow'')))))))))"

section \<open>Consuming\<close>

definition consume_reservation :: "'g facility_ext \<Rightarrow> u64 \<Rightarrow> id32 \<Rightarrow> facility_db \<Rightarrow> reservation_consumption \<Rightarrow> facility_db db_result" where
  "consume_reservation F now statement db rc = (let t = rc_transition rc in
     and_then (transition_statement F t) (\<lambda>own.
     and_then (apply_credit_transition t own (lit ''product_consume'') now db) (\<lambda>(db, _).
     Ok (close_escrow (lit ''consumed'') statement (ct_hold_id t) db))))"

definition spend_rfq_nullifier :: "id32 \<Rightarrow> id32 \<Rightarrow> facility_db \<Rightarrow> facility_db db_result" where
  "spend_rfq_nullifier nullifier statement db =
     and_then (ensure (bt_get (db_rfq_nullifiers db) nullifier = None \<and> statement \<notin> set (bt_values (db_rfq_nullifiers db)))
       ''UNIQUE constraint failed: rfq_nullifiers'') (\<lambda>_.
     Ok (db\<lparr>db_rfq_nullifiers := bt_insert nullifier statement (db_rfq_nullifiers db)\<rparr>))"

definition consume_all ::
  "'g facility_ext \<Rightarrow> u64 \<Rightarrow> product_settlement_order \<Rightarrow> id32 \<Rightarrow> facility_db \<Rightarrow> facility_db db_result" where
  "consume_all F now q statement db = (let o' = po_settlement q in
     and_then (try_fold (consume_reservation F now statement) db (po_reservations q)) (\<lambda>db.
     and_then (spend_nullifier (so_nullifier o') (so_deadline o') statement db) (\<lambda>db.
     spend_rfq_nullifier (po_rfq_nullifier q) statement db)))"

definition settle_product_inner ::
  "('g, 'p::ab_group_add, 's, 'v, 'k) settlement_ext \<Rightarrow> facility_config \<Rightarrow> settle_env \<Rightarrow> product_settlement_order
    \<Rightarrow> relation_proof list \<Rightarrow> 'p typed_instruction \<Rightarrow> ('p, 's) asset_link_proof \<Rightarrow> 'p dvp_evidence \<Rightarrow> quorum_approval option
    \<Rightarrow> id32 option \<Rightarrow> u64 \<Rightarrow> 's \<times> 's \<times> 's \<Rightarrow> facility_db \<Rightarrow> (facility_db \<times> settlement_receipt) db_result" where
  "settle_product_inner S C ev q proofs ti link evidence approval batch_preflight_root now ws db =
     (let X = sx_product S; F = px_facility X; o' = po_settlement q; c = ti_context ti;
          threshold = is_threshold_evidence evidence; direction = px_direction X (tx_direction c) in
     and_then (product_body F q) (\<lambda>request.
     and_then (enrolled_venue S db q threshold now) (\<lambda>venue.
     and_then (product_relations X q proofs threshold) (\<lambda>_.
     and_then (product_checks S q venue ti link evidence now) (\<lambda>(handles, payment_asset_id).
     and_then (product_statement F q) (\<lambda>statement.
     case find (\<lambda>r. rr_operation_id r = so_operation_id o') (db_receipts db) of
       Some row \<Rightarrow>
         if rr_statement row \<noteq> statement then Err ''operation identifier was reused for another settlement''
         else and_then (receipt_from_json F (rr_receipt_json row)) (\<lambda>receipt. Ok (db, receipt))
     | None \<Rightarrow>
         and_then (calculate_root F db) (\<lambda>before_root.
         and_then (case batch_preflight_root of
             Some batch_root \<Rightarrow> ensure (\<not> (tx_before_state_root c \<noteq> batch_root \<or> before_root \<noteq> batch_root))
               ''typed zkPI batch was authorized against a stale DeFMI state root''
           | None \<Rightarrow>
               and_then (ensure (tx_before_state_root c = before_root)
                 ''typed zkPI was authorized against a stale DeFMI state root'') (\<lambda>_.
               and_then (ok_or approval ''individual product settlement lacks quorum approval'') (\<lambda>ap.
               require_quorum F C (ev_wall ev) statement before_root ap))) (\<lambda>_.
         and_then (ensure (now \<le> so_deadline o') ''payment instruction has expired'') (\<lambda>_.
         and_then (ensure (bt_get (db_nullifiers db) (so_nullifier o') = None) ''payment nullifier was already settled'') (\<lambda>_.
         and_then (ensure (bt_get (db_rfq_nullifiers db) (po_rfq_nullifier q) = None) ''RFQ nullifier was already settled'') (\<lambda>_.
         and_then (try_map (reserved_escrow q direction payment_asset_id db) (po_reservations q)) (\<lambda>escrows.
         and_then (ensure (map_option as_kind (bt_get (db_assets db) payment_asset_id) = Some (asset_kind_str Cash))
           ''the payment side of product DvP is not a registered cash rail'') (\<lambda>_.
         and_then (try_for_each (check_leg db) (so_legs o')) (\<lambda>_.
         and_then (escrows_checked X q venue payment_asset_id handles escrows evidence ws) (\<lambda>_.
         and_then (consume_all F now q statement db) (\<lambda>db.
         commit_receipt F ev o' statement before_root (of_nat (length (canonical (fx_gov F) request)))
           (db\<lparr>db_accounts := fold update_account (so_legs o') (db_accounts db)\<rparr>)))))))))))))))))"

text \<open>The evidence of one settlement, as the adapter receives it.\<close>

record ('p, 's, 'e) product_settlement =
  ps_order :: product_settlement_order
  ps_relation_proofs :: "relation_proof list"
  ps_typed :: "'p typed_instruction"
  ps_asset_link :: "('p, 's) asset_link_proof"
  ps_evidence :: 'e
  ps_price_limit_proof :: bytes
  ps_maker_mandate :: maker_mandate
  ps_maker_identity :: bytes
  ps_taker_mandate :: taker_mandate
  ps_taker_identity :: bytes

section \<open>The signed authority\<close>

definition verify_settlement_authority ::
  "('g, 'p, 's, 'v, 'k) settlement_ext \<Rightarrow> ('p, 's, 'e) product_settlement \<Rightarrow> 'v \<Rightarrow> u64 \<Rightarrow> unit db_result" where
  "verify_settlement_authority S i venue now =
     (let X = sx_product S; q = ps_order i; pay = ti_payment (ps_typed i); c = ti_context (ps_typed i);
          m = ps_maker_mandate i; k = ps_taker_mandate i in
     and_then (ensure (\<not> (\<not> sx_is_threshold S pay \<or> sx_quote_proof_digest S pay \<noteq> Some (po_quote_proof_digest q)))
       ''product settlement requires an MPC-produced zkPI bound to this quote proof'') (\<lambda>_.
     and_then (px_maker_verify X m (ps_maker_identity i) now) (\<lambda>_.
     and_then (px_taker_verify X k (ps_taker_identity i) now) (\<lambda>_.
     and_then (px_maker_digest X m) (\<lambda>maker_digest.
     and_then (px_taker_digest X k) (\<lambda>taker_digest.
     and_then (ok_or (to_point X (tm_limit_price k)) ''Taker limit price is not a canonical commitment'') (\<lambda>limit_price.
     and_then (sx_verify_price_limit S (px_venue_key X venue) (i_price_commitment pay) limit_price (tm_direction k)
       (sx_price_bits S venue) taker_digest (ps_price_limit_proof i)) (\<lambda>_.
     and_then (ensure (sx_price_limit_digest S (ps_price_limit_proof i) (i_price_commitment pay) limit_price taker_digest =
         po_price_limit_proof_digest q) ''price limit proof differs from the committee-approved digest'') (\<lambda>_.
     and_then (reservation_with Maker q ''Maker reservation is missing'') (\<lambda>maker.
     and_then (reservation_with Taker q ''Taker reservation is missing'') (\<lambda>taker.
     ensure (\<not> (po_venue_id q \<noteq> mm_venue_id m \<or> po_venue_id q \<noteq> tm_venue_id k \<or> po_defmi_id q \<noteq> mm_defmi_id m \<or>
         po_defmi_id q \<noteq> tm_defmi_id k \<or> po_maker_entity q \<noteq> mm_entity m \<or> po_taker_entity q \<noteq> tm_entity k \<or>
         po_maker_policy_digest q \<noteq> mm_policy_digest m \<or> po_maker_mandate_digest q \<noteq> maker_digest \<or>
         po_taker_mandate_digest q \<noteq> taker_digest \<or> po_taker_authorization_digest q \<noteq> taker_digest \<or>
         po_rfq_nullifier q \<noteq> tm_rfq_nullifier k \<or> po_traded_asset_id q \<noteq> tm_asset_id k \<or>
         px_mandate_direction X (mm_direction m) \<noteq> px_direction X (tx_direction c) \<or>
         px_mandate_direction X (tm_direction k) \<noteq> px_direction X (tx_direction c) \<or> mm_direction m \<noteq> tm_direction k \<or>
         \<not> encodes X (tx_maker_handle c) (mm_maker_handle m) \<or> \<not> encodes X (tx_taker_handle c) (tm_taker_handle k) \<or>
         mm_reserve_id m \<noteq> ct_hold_id (rc_transition maker) \<or> tm_reserve_id k \<noteq> ct_hold_id (rc_transition taker) \<or>
         \<not> encodes X (i_amount_commitment pay) (tm_quantity k) \<or> tm_deadline k < i_deadline pay \<or> tm_allow_partial k))
       ''settlement differs from the signed Maker/Taker mandates'')))))))))))"

text \<open>The two entry points differ in the kind of evidence; the preflights run the same transaction and roll it back.\<close>

definition settle_product ::
  "('g, 'p::ab_group_add, 's, 'v, 'k) settlement_ext \<Rightarrow> facility_config \<Rightarrow> settle_env \<Rightarrow> ('p, 's, 'p dvp_package) product_settlement \<Rightarrow> 'v
    \<Rightarrow> quorum_approval \<Rightarrow> u64 \<Rightarrow> 's \<times> 's \<times> 's \<Rightarrow> facility_db \<Rightarrow> (facility_db \<times> settlement_receipt) db_result" where
  "settle_product S C ev i venue approval now ws db =
     and_then (verify_settlement_authority S i venue now) (\<lambda>_.
     settle_product_inner S C ev (ps_order i) (ps_relation_proofs i) (ps_typed i) (ps_asset_link i) (Legacy (ps_evidence i))
       (Some approval) None now ws db)"

definition settle_product_threshold ::
  "('g, 'p::ab_group_add, 's, 'v, 'k) settlement_ext \<Rightarrow> facility_config \<Rightarrow> settle_env \<Rightarrow> ('p, 's, 'p threshold_package) product_settlement \<Rightarrow> 'v
    \<Rightarrow> quorum_approval \<Rightarrow> u64 \<Rightarrow> 's \<times> 's \<times> 's \<Rightarrow> facility_db \<Rightarrow> (facility_db \<times> settlement_receipt) db_result" where
  "settle_product_threshold S C ev i venue approval now ws db =
     and_then (verify_settlement_authority S i venue now) (\<lambda>_.
     settle_product_inner S C ev (ps_order i) (ps_relation_proofs i) (ps_typed i) (ps_asset_link i) (Threshold (ps_evidence i))
       (Some approval) None now ws db)"

definition preflight_product ::
  "('g, 'p::ab_group_add, 's, 'v, 'k) settlement_ext \<Rightarrow> facility_config \<Rightarrow> settle_env \<Rightarrow> ('p, 's, 'p dvp_package) product_settlement
    \<Rightarrow> quorum_approval \<Rightarrow> u64 \<Rightarrow> 's \<times> 's \<times> 's \<Rightarrow> facility_db \<Rightarrow> unit db_result" where
  "preflight_product S C ev i approval now ws db =
     and_then (settle_product_inner S C ev (ps_order i) (ps_relation_proofs i) (ps_typed i) (ps_asset_link i)
       (Legacy (ps_evidence i)) (Some approval) None now ws db) (\<lambda>_. Ok ())"

text \<open>\<open>preflight_product_threshold\<close> has an approval and no batch root, \<open>preflight_product_threshold_for_batch\<close> the opposite.\<close>

definition preflight_product_threshold ::
  "('g, 'p::ab_group_add, 's, 'v, 'k) settlement_ext \<Rightarrow> facility_config \<Rightarrow> settle_env \<Rightarrow> ('p, 's, 'p threshold_package) product_settlement
    \<Rightarrow> quorum_approval option \<Rightarrow> id32 option \<Rightarrow> u64 \<Rightarrow> 's \<times> 's \<times> 's \<Rightarrow> facility_db \<Rightarrow> unit db_result" where
  "preflight_product_threshold S C ev i approval batch_root now ws db =
     and_then (settle_product_inner S C ev (ps_order i) (ps_relation_proofs i) (ps_typed i) (ps_asset_link i)
       (Threshold (ps_evidence i)) approval batch_root now ws db) (\<lambda>_. Ok ())"

section \<open>Settling a batch\<close>

text \<open>What the second loop over the orders collects: operations, both kinds of nullifier, holds, lines, accounts.\<close>

definition batch_disjoint :: "'g facility_ext \<Rightarrow> batch_seen \<Rightarrow> product_settlement_order \<Rightarrow> batch_seen db_result" where
  "batch_disjoint F s q = (let o' = po_settlement q; e = ''atomic product batch reuses an operation, nullifier, facility, hold, or account'' in
     and_then (product_body F q) (\<lambda>_.
     and_then (ensure (so_operation_id o' \<notin> sn_operations s \<and> so_nullifier o' \<notin> sn_nullifiers s \<and>
         po_rfq_nullifier q \<notin> sn_rfq_nullifiers s) e) (\<lambda>_.
     and_then (map_err (\<lambda>_. e) (try_fold see_reservation
       (s\<lparr>sn_operations := insert (so_operation_id o') (sn_operations s),
          sn_nullifiers := insert (so_nullifier o') (sn_nullifiers s),
          sn_rfq_nullifiers := insert (po_rfq_nullifier q) (sn_rfq_nullifiers s)\<rparr>) (po_reservations q))) (\<lambda>s.
     map_err (\<lambda>_. e) (try_fold see_leg s (so_legs o'))))))"

definition batch_leg_fresh :: "facility_db \<Rightarrow> state_leg \<Rightarrow> unit db_result" where
  "batch_leg_fresh db l =
     and_then (ok_or (bt_get (db_accounts db) (sl_handle l)) ''settlement names an unknown account'') (\<lambda>row.
     if ac_asset_id row \<noteq> sl_asset_id l \<or> ac_commitment row \<noteq> sl_before l
     then Err ''atomic product batch member was proved against stale account state''
     else and_then (column (ac_sequence row)) (\<lambda>sequence.
       ensure (sequence = sl_before_sequence l) ''atomic product batch member was proved against stale account state''))"

text \<open>The compare-and-swap of one leg, and the row it reads back.\<close>

definition swap_leg :: "facility_db \<Rightarrow> state_leg \<Rightarrow> facility_db db_result" where
  "swap_leg db l = (case bt_get (db_accounts db) (sl_handle l) of
       None \<Rightarrow> Err ''updated settlement account disappeared''
     | Some row \<Rightarrow>
         let db' = (if ac_commitment row = sl_before l \<and> ac_sequence row = sl_before_sequence l
               then db\<lparr>db_accounts := update_account l (db_accounts db)\<rparr> else db) in
         and_then (ok_or (bt_get (db_accounts db') (sl_handle l)) ''updated settlement account disappeared'') (\<lambda>new.
         if ac_commitment new \<noteq> sl_after l then Err ''atomic settlement account compare-and-swap failed''
         else and_then (column (ac_sequence new)) (\<lambda>sequence.
           and_then (ensure (sequence = sl_before_sequence l + 1) ''atomic settlement account compare-and-swap failed'') (\<lambda>_.
           Ok db'))))"

definition settle_batch_item ::
  "'g facility_ext \<Rightarrow> (id32 \<Rightarrow> settle_env) \<Rightarrow> u64 \<Rightarrow> facility_db \<times> settlement_receipt list \<Rightarrow> product_settlement_order
    \<Rightarrow> (facility_db \<times> settlement_receipt list) db_result" where
  "settle_batch_item F evs now st q = (case st of (db, receipts) \<Rightarrow> let o' = po_settlement q in
     and_then (ensure (now \<le> so_deadline o') ''payment instruction has expired'') (\<lambda>_.
     and_then (product_statement F q) (\<lambda>statement.
     and_then (ensure (bt_get (db_nullifiers db) (so_nullifier o') = None \<and> bt_get (db_rfq_nullifiers db) (po_rfq_nullifier q) = None)
       ''atomic product batch contains an already settled RFQ'') (\<lambda>_.
     and_then (try_for_each (\<lambda>rc. ensure (map_option re_status (bt_get (db_escrows db) (ct_hold_id (rc_transition rc))) = Some (lit ''active''))
       ''atomic product batch names an inactive asset escrow'') (po_reservations q)) (\<lambda>_.
     and_then (try_for_each (batch_leg_fresh db) (so_legs o')) (\<lambda>_.
     and_then (calculate_root F db) (\<lambda>item_before_root.
     and_then (consume_all F now q statement db) (\<lambda>db.
     and_then (try_fold swap_leg db (so_legs o')) (\<lambda>db.
     and_then (product_body F q) (\<lambda>request.
     and_then (commit_receipt F (evs (so_operation_id o')) o' statement item_before_root
       (of_nat (length (canonical (fx_gov F) request))) db) (\<lambda>(db, receipt).
     Ok (db, receipts @ [receipt]))))))))))))"

definition stored_batch_receipt :: "'g facility_ext \<Rightarrow> facility_db \<Rightarrow> product_settlement_order \<Rightarrow> settlement_receipt db_result" where
  "stored_batch_receipt F db q =
     and_then (ok_or (find (\<lambda>r. rr_operation_id r = so_operation_id (po_settlement q)) (db_receipts db))
       ''committed product batch is missing an item receipt'') (\<lambda>row.
     and_then (product_statement F q) (\<lambda>statement.
     and_then (ensure (rr_statement row = statement) ''stored batch receipt belongs to another settlement'') (\<lambda>_.
     receipt_from_json F (rr_receipt_json row))))"

definition batch_row_of ::
  "'g facility_ext \<Rightarrow> product_settlement_batch \<Rightarrow> id32 \<Rightarrow> id32 \<Rightarrow> id32 \<Rightarrow> settlement_receipt list \<Rightarrow> product_batch_row" where
  "batch_row_of F b statement before_root after_root receipts =
     \<lparr>pb_statement = statement, pb_before_root = before_root, pb_after_root = after_root,
      pb_item_count = length receipts, pb_first_sequence = bm_admission_sequence (hd (psb_members b)),
      pb_last_sequence = bm_admission_sequence (last (psb_members b)),
      pb_first_receipt_digest = receipt_digest F (hd receipts), pb_last_receipt_digest = receipt_digest F (last receipts)\<rparr>"

definition insert_product_batch :: "id32 \<Rightarrow> product_batch_row \<Rightarrow> facility_db \<Rightarrow> facility_db db_result" where
  "insert_product_batch batch_id row db =
     and_then (ensure (bt_get (db_product_batches db) batch_id = None \<and>
         pb_statement row \<notin> pb_statement ` set (bt_values (db_product_batches db)))
       ''UNIQUE constraint failed: product_settlement_batches'') (\<lambda>_.
     operation_trigger (db\<lparr>db_product_batches := bt_insert batch_id row (db_product_batches db)\<rparr>) batch_id (pb_statement row))"

definition settle_product_threshold_batch ::
  "'g facility_ext \<Rightarrow> facility_config \<Rightarrow> u64 option \<Rightarrow> (id32 \<Rightarrow> settle_env) \<Rightarrow> product_settlement_batch \<Rightarrow> product_settlement_order list
    \<Rightarrow> quorum_approval \<Rightarrow> u64 \<Rightarrow> facility_db \<Rightarrow> (facility_db \<times> settlement_receipt list) db_result" where
  "settle_product_threshold_batch F C wall evs b orders approval now db =
     and_then (validate_orders F b orders) (\<lambda>_.
     and_then (batch_statement F b) (\<lambda>statement.
     and_then (try_fold (batch_disjoint F) \<lparr>sn_previous = 0, sn_statements = {}, sn_operations = {psb_batch_id b},
       sn_nullifiers = {}, sn_rfq_nullifiers = {}, sn_facilities = {}, sn_holds = {}, sn_handles = {}\<rparr> orders) (\<lambda>_.
     case bt_get (db_product_batches db) (psb_batch_id b) of
       Some row \<Rightarrow>
         and_then (ensure (pb_statement row = statement) ''product batch identifier was reused for different members'') (\<lambda>_.
         and_then (try_map (stored_batch_receipt F db) orders) (\<lambda>receipts. Ok (db, receipts)))
     | None \<Rightarrow>
         and_then (ensure (\<forall>q \<in> set orders. \<forall>r \<in> set (db_receipts db).
             rr_operation_id r \<noteq> so_operation_id (po_settlement q) \<and> rr_nullifier r \<noteq> so_nullifier (po_settlement q))
           ''atomic product batch contains an independently committed member'') (\<lambda>_.
         and_then (authorize F C wall db statement approval) (\<lambda>batch_before_root.
         and_then (try_fold (settle_batch_item F evs now) (db, []) orders) (\<lambda>(db, receipts).
         and_then (register_operation db (psb_batch_id b) statement) (\<lambda>db.
         and_then (calculate_root F db) (\<lambda>batch_after_root.
         and_then (insert_product_batch (psb_batch_id b)
           (batch_row_of F b statement batch_before_root batch_after_root receipts) db) (\<lambda>db.
         Ok (db, receipts))))))))))"

text \<open>
  The adapter: every member is verified against the common root before the batch is
  applied. The second check of the approval uses the caller's time.
\<close>

definition settle_batch ::
  "('g, 'p::ab_group_add, 's, 'v, 'k) settlement_ext \<Rightarrow> facility_config \<Rightarrow> u64 option \<Rightarrow> (id32 \<Rightarrow> settle_env) \<Rightarrow> product_settlement_batch
    \<Rightarrow> ('p, 's, 'p threshold_package) product_settlement list \<Rightarrow> 'v \<Rightarrow> quorum_approval \<Rightarrow> u64 \<Rightarrow> 's \<times> 's \<times> 's \<Rightarrow> facility_db
    \<Rightarrow> (facility_db \<times> settlement_receipt list) db_result" where
  "settle_batch S C wall evs b items venue approval now ws db =
     (let F = px_facility (sx_product S); orders = map ps_order items in
     and_then (ensure (items \<noteq> []) ''product settlement batch cannot be empty'') (\<lambda>_.
     and_then (validate_orders F b orders) (\<lambda>_.
     and_then (state_root F db) (\<lambda>root.
     and_then (batch_statement F b) (\<lambda>statement.
     and_then (ensure (\<not> (root \<noteq> qa_before_root approval \<or>
         \<not> quorum_verify (fx_gov F) (quorum_at (fc_authorizer C) now) statement root approval))
       ''product settlement batch lacks approval for the current DeFMI state'') (\<lambda>_.
     and_then (try_for_each (\<lambda>i. and_then (verify_settlement_authority S i venue now) (\<lambda>_.
         preflight_product_threshold S C (evs (so_operation_id (po_settlement (ps_order i)))) i None (Some root) now ws db)) items) (\<lambda>_.
     settle_product_threshold_batch F C wall evs b orders approval now db)))))))"

end
