(* ===== verification/ProductSafety.thy ===== *)
theory ProductSafety
  imports Product
begin

text \<open>
  What settling a product keeps. The two escrows are emptied into exactly the four legs, so no
  asset is created or lost when each owner's account is another than the payee's on the
  same rail; the credit lines, the admission order and the receipt chain stay as they must be; the
  request is settled once.
\<close>

section \<open>Sums over legs and escrows\<close>

definition leg_delta :: "('g, 'p::ab_group_add, 's, 'v) product_ext \<Rightarrow> id32 \<Rightarrow> state_leg \<Rightarrow> 'p" where
  "leg_delta X a l = (if sl_asset_id l = a then held_point X (sl_after l) - held_point X (sl_before l) else 0)"

text \<open>The account a leg was written for.\<close>

definition leg_current :: "(id32, account_row) btree_map \<Rightarrow> state_leg \<Rightarrow> bool" where
  "leg_current m l \<longleftrightarrow> (\<exists>row. bt_get m (sl_handle l) = Some row \<and> ac_asset_id row = sl_asset_id l \<and> ac_commitment row = sl_before l)"

lemma update_account_total:
  assumes "leg_current m l"
  shows "bt_sum (account_value X a) (update_account l m) = bt_sum (account_value X a) m + leg_delta X a l"
proof -
  from assms obtain row where row: "bt_get m (sl_handle l) = Some row" "ac_asset_id row = sl_asset_id l" "ac_commitment row = sl_before l"
    by (auto simp: leg_current_def)
  from bt_sum_insert_old [OF row(1), of "account_value X a"
      "row\<lparr>ac_commitment := sl_after l, ac_sequence := ac_sequence row + 1\<rparr>"] row show ?thesis
    by (simp add: update_account_def account_value_def leg_delta_def algebra_simps split: if_splits)
qed

lemma update_account_current:
  "sl_handle k \<noteq> sl_handle l \<Longrightarrow> leg_current (update_account l m) k = leg_current m k"
  by (simp add: leg_current_def update_account_def split: option.split)

lemma legs_total:
  "distinct (map sl_handle ls) \<Longrightarrow> \<forall>l \<in> set ls. leg_current m l \<Longrightarrow>
     bt_sum (account_value X a) (fold update_account ls m) = bt_sum (account_value X a) m + sum_list (map (leg_delta X a) ls)"
proof (induction ls arbitrary: m)
  case (Cons l ls)
  then have "\<forall>k \<in> set ls. leg_current (update_account l m) k" by (auto simp: update_account_current image_iff)
  with Cons show ?case by (simp add: update_account_total add.assoc)
qed simp

lemma check_leg_current: "check_leg db l = Ok u \<Longrightarrow> leg_current (db_accounts db) l"
  by (erule check_leg_Ok) (simp add: leg_current_def)

lemma consume_reservationE:
  assumes "consume_reservation F now st db rc = Ok db'"
  obtains own db1 snap where "transition_statement F (rc_transition rc) = Ok own"
    "apply_credit_transition (rc_transition rc) own (lit ''product_consume'') now db = Ok (db1, snap)"
    "db' = close_escrow (lit ''consumed'') st (ct_hold_id (rc_transition rc)) db1"
  using assms by (auto simp: consume_reservation_def Let_def split: prod.splits)

lemma close_escrow_get:
  "bt_get (db_escrows (close_escrow s st i db)) j = (if i = j then map_option
     (\<lambda>e. if re_status e = lit ''active'' then e\<lparr>re_status := s, re_settlement_digest := st\<rparr> else e) (bt_get (db_escrows db) j)
     else bt_get (db_escrows db) j)"
  by (auto simp: close_escrow_def split: option.split)

lemma consume_reservation_escrows:
  assumes "consume_reservation F now st db rc = Ok db'"
    "bt_get (db_escrows db) (ct_hold_id (rc_transition rc)) = Some e" "re_status e = lit ''active''"
  shows "bt_sum (escrow_value X a) (db_escrows db') + escrow_value X a e = bt_sum (escrow_value X a) (db_escrows db)"
  using assms(1)
proof (cases rule: consume_reservationE)
  case (1 own db1 snap)
  have same: "db_escrows db1 = db_escrows db" using apply_credit_frame [OF 1(2)] by simp
  with assms(2) have e: "bt_get (db_escrows db1) (ct_hold_id (rc_transition rc)) = Some e" by simp
  have "escrow_value X a (closed_escrow ''consumed'' st e) = 0" by (simp add: escrow_value_def closed_escrow_def)
  with bt_sum_insert_old [OF e, of "escrow_value X a" "closed_escrow ''consumed'' st e"]
  show ?thesis by (simp add: 1(3) close_escrow_active [OF e assms(3)] same add.commute)
qed

lemma consume_reservation_other:
  assumes "consume_reservation F now st db rc = Ok db'" "j \<noteq> ct_hold_id (rc_transition rc)"
  shows "bt_get (db_escrows db') j = bt_get (db_escrows db) j"
  using assms(1)
proof (cases rule: consume_reservationE)
  case (1 own db1 snap)
  with apply_credit_frame [OF 1(2)] assms(2) show ?thesis by (simp add: close_escrow_get)
qed

lemma consumed_escrows:
  "try_fold (consume_reservation F now st) db rcs = Ok db' \<Longrightarrow> distinct (map (ct_hold_id \<circ> rc_transition) rcs) \<Longrightarrow>
     list_all2 (\<lambda>rc e. bt_get (db_escrows db) (ct_hold_id (rc_transition rc)) = Some e \<and> re_status e = lit ''active'') rcs es \<Longrightarrow>
     bt_sum (escrow_value X a) (db_escrows db') + sum_list (map (escrow_value X a) es) = bt_sum (escrow_value X a) (db_escrows db)"
proof (induction rcs arbitrary: db es)
  case (Cons rc rcs)
  then obtain db1 e es' where step: "consume_reservation F now st db rc = Ok db1"
    and rest: "try_fold (consume_reservation F now st) db1 rcs = Ok db'"
    and es: "es = e # es'" "bt_get (db_escrows db) (ct_hold_id (rc_transition rc)) = Some e" "re_status e = lit ''active''"
    and all: "list_all2 (\<lambda>rc e. bt_get (db_escrows db) (ct_hold_id (rc_transition rc)) = Some e \<and> re_status e = lit ''active'') rcs es'"
    by (auto simp: list_all2_Cons1)
  have ne: "ct_hold_id (rc_transition z) \<noteq> ct_hold_id (rc_transition rc)" if "z \<in> set rcs" for z
    using Cons.prems(2) that by (auto simp: rev_image_eqI)
  have "list_all2 (\<lambda>rc e. bt_get (db_escrows db1) (ct_hold_id (rc_transition rc)) = Some e \<and> re_status e = lit ''active'') rcs es'"
    using all by (rule list.rel_mono_strong) (simp add: consume_reservation_other [OF step ne])
  from Cons.IH [OF rest _ this] Cons.prems(2) consume_reservation_escrows [OF step es(2,3), of X a]
  show ?case by (simp add: es(1) algebra_simps)
qed simp

section \<open>The legs of a settlement\<close>

lemma sum_two:
  assumes "distinct xs" "length (filter P xs) = 2" "s \<in> set xs" "t \<in> set xs" "s \<noteq> t" "P s" "P t"
  shows "sum_list (map (\<lambda>x. if P x then f x else 0) xs) = f s + (f t :: 'a::comm_monoid_add)"
proof -
  have "card (set (filter P xs)) = 2" using assms(1,2) distinct_card [of "filter P xs"] by simp
  moreover have "{s, t} \<subseteq> set (filter P xs)" "card {s, t} = 2" using assms(3-) by simp_all
  ultimately have "{s, t} = set (filter P xs)" by (intro card_subset_eq) simp_all
  then have set: "{x \<in> set xs. P x} = {s, t}" by simp
  have "sum_list (map (\<lambda>x. if P x then f x else 0) xs) = sum f {x \<in> set xs. P x}"
    using assms(1) by (simp add: sum_list_distinct_conv_sum_set sum.inter_filter)
  then show ?thesis using assms(5) by (simp add: set)
qed

lemma count_list_filter: "count_list (map f xs) a = length (filter (\<lambda>x. f x = a) xs)"
  by (induction xs) auto

lemma leg_forD: "leg_for q h = Ok l \<Longrightarrow> l \<in> set (so_legs (po_settlement q)) \<and> sl_handle l = h"
  by (auto simp: leg_for_def find_Some_iff)

lemma order_body_distinct: "order_body o' = Ok j \<Longrightarrow> distinct (map sl_handle (so_legs o'))"
  by (auto simp: order_body_def)

lemma rail_total:
  assumes "two_rails traded legs" "distinct (map sl_handle legs)" "s \<in> set legs" "t \<in> set legs" "sl_handle s \<noteq> sl_handle t"
    "sl_asset_id s = a" "sl_asset_id t = a"
  shows "sum_list (map (leg_delta X a) legs) = leg_delta X a s + leg_delta X a t"
proof -
  have "count_list (map sl_asset_id legs) a = 2" using assms(1,3,6) by (auto simp: two_rails_def Let_def)
  then have "length (filter (\<lambda>l. sl_asset_id l = a) legs) = 2" by (simp add: count_list_filter)
  from sum_two [OF _ this assms(3,4), of "\<lambda>l. held_point X (sl_after l) - held_point X (sl_before l)"] assms
  show ?thesis by (auto simp: leg_delta_def [abs_def] distinct_map)
qed

lemma other_rail: "a \<notin> sl_asset_id ` set legs \<Longrightarrow> sum_list (map (leg_delta X a) legs) = 0"
  by (induction legs) (auto simp: leg_delta_def)

text \<open>The two rails of an order are the traded asset and the payment asset.\<close>

lemma rails_of_order:
  assumes "two_rails (po_traded_asset_id q) (so_legs (po_settlement q))" "payment_asset q = Ok p"
  shows "p \<noteq> po_traded_asset_id q" "sl_asset_id ` set (so_legs (po_settlement q)) = {po_traded_asset_id q, p}"
proof -
  let ?A = "sl_asset_id ` set (so_legs (po_settlement q))"
  from assms(2) show ne: "p \<noteq> po_traded_asset_id q" by (auto simp: payment_asset_def find_Some_iff)
  from assms(2) have "p \<in> ?A" by (auto simp: payment_asset_def find_Some_iff)
  with assms(1) ne have "{po_traded_asset_id q, p} \<subseteq> ?A" "card ?A = card {po_traded_asset_id q, p}"
    by (auto simp: two_rails_def Let_def)
  then show "?A = {po_traded_asset_id q, p}" using card_subset_eq [of ?A "{po_traded_asset_id q, p}"] by simp
qed

text \<open>What the four checked legs add to each rail.\<close>

lemma settlement_legs_delta:
  assumes "settlement_legs X q p hs se ce ev = Ok befores" "ristretto_encoding (px_prims X)"
    "two_rails (po_traded_asset_id q) (so_legs (po_settlement q))" "distinct (map sl_handle (so_legs (po_settlement q)))"
    "re_source_handle se \<noteq> ph_securities_to hs" "re_source_handle ce \<noteq> ph_cash_to hs"
  shows "sum_list (map (leg_delta X (po_traded_asset_id q)) (so_legs (po_settlement q))) =
      securities_remainder ev + securities_amount ev"
    and "sum_list (map (leg_delta X p) (so_legs (po_settlement q))) = cash_remainder ev + cash_amount ev"
proof -
  let ?L = "so_legs (po_settlement q)"
  from assms(1) obtain ss st cs ct pss pst pcs pct where legs: "leg_for q (re_source_handle se) = Ok ss"
      "leg_for q (ph_securities_to hs) = Ok st" "leg_for q (re_source_handle ce) = Ok cs" "leg_for q (ph_cash_to hs) = Ok ct"
    and rails: "sl_asset_id ss = po_traded_asset_id q" "sl_asset_id st = po_traded_asset_id q"
      "sl_asset_id cs = p" "sl_asset_id ct = p"
    and pts: "to_point X (sl_before ss) = Some pss" "to_point X (sl_before st) = Some pst"
      "to_point X (sl_before cs) = Some pcs" "to_point X (sl_before ct) = Some pct"
    and enc: "encodes X (pss + securities_remainder ev) (sl_after ss)" "encodes X (pst + securities_amount ev) (sl_after st)"
      "encodes X (pcs + cash_remainder ev) (sl_after cs)" "encodes X (pct + cash_amount ev) (sl_after ct)"
    by (auto simp: settlement_legs_def canonical_point_def)
  note mem = legs [THEN leg_forD]
  note val = pts enc [THEN encodes_to_point [OF assms(2)]]
  show "sum_list (map (leg_delta X (po_traded_asset_id q)) ?L) = securities_remainder ev + securities_amount ev"
    using mem assms(5) rails by (subst rail_total [OF assms(3,4), of ss st]) (simp_all add: leg_delta_def held_point_def val)
  show "sum_list (map (leg_delta X p) ?L) = cash_remainder ev + cash_amount ev"
    using mem assms(6) rails by (subst rail_total [OF assms(3,4), of cs ct]) (simp_all add: leg_delta_def held_point_def val)
qed

text \<open>An accepted proof empties both escrows.\<close>

lemma escrow_railD:
  "escrow_rail X v h x h' y = Ok l \<Longrightarrow> h \<noteq> h' \<Longrightarrow> bt_get (l_accounts l) h = Some x"
  by (auto simp: escrow_rail_def Ledger.open_account_def)

lemma package_legsD:
  assumes "verify_package_legs_for_sides P k sl cl pk who ws = Ok u"
  shows "dp_securities_from pk \<noteq> dp_securities_to pk" "dp_cash_from pk \<noteq> dp_cash_to pk"
    "check_transfer P sl (dp_securities_from pk) (dp_securities_leg pk) (settle_domain @ ascii '':sec'') True = Ok ()"
    "check_transfer P cl (dp_cash_from pk) (dp_cash_leg pk) (settle_domain @ ascii '':cash'') True = Ok ()"
  using assms unfolding verify_package_legs_for_sides_def by (cases ws, simp add: Let_def)+

lemma transfer_conserves:
  assumes "check_transfer P l h t ctx b = Ok ()" "bt_get (l_accounts l) h = Some x"
  shows "x = t_remainder_commitment t + t_amount_commitment t"
  using assms(1) by (rule check_transferD) (simp add: assms(2))

lemma reserved_dvp_conserves:
  assumes "reserved_dvp_ok X v ev x y befores ws = Ok u"
  shows "x = securities_remainder ev + securities_amount ev \<and> y = cash_remainder ev + cash_amount ev"
proof (cases ev)
  case (Legacy pk)
  from assms obtain sl cl who
    where rails: "escrow_rail X v (dp_securities_from pk) x (dp_securities_to pk) (fst befores) = Ok sl"
      "escrow_rail X v (dp_cash_from pk) y (dp_cash_to pk) (snd befores) = Ok cl"
    and legs: "verify_package_legs_for_sides (px_prims X) (px_venue_key X v) sl cl pk who ws = Ok ()"
    unfolding Legacy by (cases befores) (auto simp: Let_def)
  note legs = package_legsD [OF legs]
  from transfer_conserves [OF legs(3) escrow_railD [OF rails(1) legs(1)]]
    transfer_conserves [OF legs(4) escrow_railD [OF rails(2) legs(2)]]
  show ?thesis by (simp add: Legacy)
next
  case (Threshold pk)
  with assms show ?thesis by (auto simp: verify_threshold_package_def algebra_simps split: if_splits)
qed

section \<open>What an accepted order says\<close>

lemma note_reservationD:
  "note_reservation b seen rc = Ok seen' \<Longrightarrow> ct_hold_id (rc_transition rc) \<notin> (ct_hold_id \<circ> rc_transition) ` set seen \<and>
     ct_kind (rc_transition rc) = Consume \<and> seen' = seen @ [rc]"
  by (auto simp: note_reservation_def)

lemma note_reservations:
  "try_fold (note_reservation b) pre rcs = Ok seen \<Longrightarrow> distinct (map (ct_hold_id \<circ> rc_transition) pre) \<Longrightarrow>
     seen = pre @ rcs \<and> distinct (map (ct_hold_id \<circ> rc_transition) (pre @ rcs)) \<and>
     (\<forall>rc \<in> set rcs. ct_kind (rc_transition rc) = Consume)"
proof (induction rcs arbitrary: pre)
  case (Cons rc rcs)
  then have step: "ct_hold_id (rc_transition rc) \<notin> (ct_hold_id \<circ> rc_transition) ` set pre" "ct_kind (rc_transition rc) = Consume"
    and rest: "try_fold (note_reservation b) (pre @ [rc]) rcs = Ok seen"
    by (auto dest: note_reservationD)
  from Cons.IH [OF rest] step Cons.prems(2) show ?case by simp
qed simp

lemma product_bodyE:
  assumes "product_body F q = Ok j"
  obtains "two_rails (po_traded_asset_id q) (so_legs (po_settlement q))" "distinct (map sl_handle (so_legs (po_settlement q)))"
    "length (po_reservations q) = 2" "distinct (map (ct_hold_id \<circ> rc_transition) (po_reservations q))"
    "\<forall>rc \<in> set (po_reservations q). ct_kind (rc_transition rc) = Consume"
proof -
  from assms obtain b seen where rails: "two_rails (po_traded_asset_id q) (so_legs (po_settlement q))" "length (po_reservations q) = 2"
    and seen: "try_fold (note_reservation b) [] (po_reservations q) = Ok seen"
    and body: "\<exists>j. order_body (po_settlement q) = Ok j"
    by (auto simp: product_body_def)
  from body have "distinct (map sl_handle (so_legs (po_settlement q)))" by (auto dest: order_body_distinct)
  with rails note_reservations [OF seen] show thesis by (intro that) simp_all
qed

lemma try_for_each_member: "try_for_each f xs = Ok u \<Longrightarrow> x \<in> set xs \<Longrightarrow> f x = Ok ()"
  by (induction xs) auto

lemma product_relations_equations:
  assumes "product_relations X q pfs th = Ok u" "rc \<in> set (po_reservations q)"
  shows "verify_credit_relation_equations (px_credit X) (rc_transition rc) = Ok ()"
proof (cases "pfs = [] \<and> th")
  case True
  with assms(1) have "verify_threshold_dvp_relation (px_facility X) (px_credit X) (rc_transition rc) (rc_role rc) (po_dvp_proof_digest q) = Ok ()"
    using try_for_each_member [OF _ assms(2)] by (force simp: product_relations_def Let_def)
  then show ?thesis by (auto simp: verify_threshold_dvp_relation_def)
next
  case False
  with assms(1) have len: "length pfs = length (po_reservations q)"
    and all: "try_for_each (\<lambda>(rc, pf). relation_proof_verify (px_facility X) (px_credit X) pf (rc_transition rc)) (zip (po_reservations q) pfs) = Ok u"
    by (auto simp: product_relations_def Let_def split: if_splits)
  from assms(2) len obtain pf where "(rc, pf) \<in> set (zip (po_reservations q) pfs)"
    by (metis in_set_impl_in_set_zip1)
  from try_for_each_member [OF all this] show ?thesis by (auto intro: relation_proof_equations)
qed

text \<open>
  No reservation's source account is also a payee of the package. The code does not check this. When it fails
  \<open>leg_for\<close> finds one leg for both, and the rail's other leg is named by nobody.
\<close>

definition owners_apart :: "('g, 'p, 's, 'v) product_ext \<Rightarrow> product_settlement_order \<Rightarrow> 'p dvp_evidence \<Rightarrow> facility_db \<Rightarrow> bool" where
  "owners_apart X q ev db \<longleftrightarrow> (case package_handles_of X ev of Err _ \<Rightarrow> True | Ok hs \<Rightarrow>
     list_all (\<lambda>rc. case bt_get (db_escrows db) (ct_hold_id (rc_transition rc)) of None \<Rightarrow> True
       | Some e \<Rightarrow> re_source_handle e \<noteq> ph_securities_to hs \<and> re_source_handle e \<noteq> ph_cash_to hs) (po_reservations q))"

lemma owners_apartD:
  "owners_apart X q ev db \<Longrightarrow> package_handles_of X ev = Ok hs \<Longrightarrow> rc \<in> set (po_reservations q) \<Longrightarrow>
     bt_get (db_escrows db) (ct_hold_id (rc_transition rc)) = Some e \<Longrightarrow>
     re_source_handle e \<noteq> ph_securities_to hs \<and> re_source_handle e \<noteq> ph_cash_to hs"
  by (auto simp: owners_apart_def list_all_iff dest!: bspec)

lemma reserved_escrowD:
  "reserved_escrow q d p db rc = Ok (role, e) \<Longrightarrow>
     bt_get (db_escrows db) (ct_hold_id (rc_transition rc)) = Some e \<and> re_status e = lit ''active''"
  by (auto simp: reserved_escrow_def Let_def split: if_splits)

lemma reserved_escrows:
  "try_map (reserved_escrow q d p db) rcs = Ok es \<Longrightarrow>
     list_all2 (\<lambda>rc e. bt_get (db_escrows db) (ct_hold_id (rc_transition rc)) = Some e \<and> re_status e = lit ''active'') rcs (map snd es)"
  by (induction rcs arbitrary: es) (auto dest!: reserved_escrowD)

text \<open>The two escrows of the two rails are all there are.\<close>

lemma two_escrows:
  assumes "length es = 2" "escrow_on t es m = Ok (r, se)" "escrow_on p es m' = Ok (r', ce)" "p \<noteq> t"
  shows "re_asset_id se = t" "re_asset_id ce = p" "(r, se) \<in> set es" "(r', ce) \<in> set es"
    "re_status se = lit ''active'' \<Longrightarrow> re_status ce = lit ''active'' \<Longrightarrow> sum_list (map (escrow_value X a) (map snd es)) =
       (if a = t then held_point X (re_amount se) else if a = p then held_point X (re_amount ce) else 0)"
proof -
  obtain x y where es: "es = [x, y]" using assms(1) by (auto simp: length_Suc_conv numeral_2_eq_2)
  from assms(2-4) es show "re_asset_id se = t" "re_asset_id ce = p" "(r, se) \<in> set es" "(r', ce) \<in> set es"
    by (auto simp: escrow_on_def split: if_splits)
  assume "re_status se = lit ''active''" "re_status ce = lit ''active''"
  with assms(2-4) show "sum_list (map (escrow_value X a) (map snd es)) =
       (if a = t then held_point X (re_amount se) else if a = p then held_point X (re_amount ce) else 0)"
    by (auto simp: es escrow_on_def escrow_value_def split: if_splits)
qed

section \<open>Settling one order\<close>

text \<open>What a new settlement was checked for.\<close>

definition product_verified ::
  "('g, 'p::ab_group_add, 's, 'v, 'k) settlement_ext \<Rightarrow> product_settlement_order \<Rightarrow> relation_proof list \<Rightarrow> 'p typed_instruction
    \<Rightarrow> ('p, 's) asset_link_proof \<Rightarrow> 'p dvp_evidence \<Rightarrow> u64 \<Rightarrow> 's \<times> 's \<times> 's \<Rightarrow> facility_db \<Rightarrow> bool" where
  "product_verified S q pfs ti link ev now ws db \<longleftrightarrow> (\<exists>j v hs p es. product_body (px_facility (sx_product S)) q = Ok j \<and>
     product_relations (sx_product S) q pfs (is_threshold_evidence ev) = Ok () \<and>
     product_checks S q v ti link ev now = Ok (hs, p) \<and>
     try_map (reserved_escrow q (px_direction (sx_product S) (tx_direction (ti_context ti))) p db) (po_reservations q) = Ok es \<and>
     (\<forall>l \<in> set (so_legs (po_settlement q)). leg_current (db_accounts db) l) \<and>
     escrows_checked (sx_product S) q v p hs es ev ws = Ok ())"

lemma settle_product_innerE:
  assumes "settle_product_inner S C ev q pfs ti link evi ap br now ws db = Ok (db', receipt)"
  obtains (replay) row where "db' = db" "row \<in> set (db_receipts db)" "rr_operation_id row = so_operation_id (po_settlement q)"
      "product_statement (px_facility (sx_product S)) q = Ok (rr_statement row)"
      "receipt_from_json (px_facility (sx_product S)) (rr_receipt_json row) = Ok receipt"
  | (fresh) st root n db1 where "product_verified S q pfs ti link evi now ws db"
      "product_statement (px_facility (sx_product S)) q = Ok st" "calculate_root (px_facility (sx_product S)) db = Ok root"
      "tx_before_state_root (ti_context ti) = root"
      "br = None \<Longrightarrow> \<exists>a. ap = Some a \<and> require_quorum (px_facility (sx_product S)) C (ev_wall ev) st root a = Ok ()"
      "now \<le> so_deadline (po_settlement q)" "bt_get (db_nullifiers db) (so_nullifier (po_settlement q)) = None"
      "bt_get (db_rfq_nullifiers db) (po_rfq_nullifier q) = None"
      "consume_all (px_facility (sx_product S)) now q st db = Ok db1"
      "commit_receipt (px_facility (sx_product S)) ev (po_settlement q) st root n
         (db1\<lparr>db_accounts := fold update_account (so_legs (po_settlement q)) (db_accounts db1)\<rparr>) = Ok (db', receipt)"
proof -
  let ?F = "px_facility (sx_product S)"
  note [simp] = settle_product_inner_def Let_def
  from assms obtain j v hs p st where start: "product_body ?F q = Ok j"
    "product_relations (sx_product S) q pfs (is_threshold_evidence evi) = Ok ()"
    "product_checks S q v ti link evi now = Ok (hs, p)" "product_statement ?F q = Ok st"
    "enrolled_venue S db q (is_threshold_evidence evi) now = Ok v" by auto
  show thesis
  proof (cases "find (\<lambda>r. rr_operation_id r = so_operation_id (po_settlement q)) (db_receipts db)")
    case (Some row)
    then have "row \<in> set (db_receipts db)" "rr_operation_id row = so_operation_id (po_settlement q)"
      by (auto simp: find_Some_iff)
    with assms start Some show thesis by (intro replay) (auto split: if_splits)
  next
    case None
    with assms start obtain root es db1 where fresh': "calculate_root ?F db = Ok root"
        "try_map (reserved_escrow q (px_direction (sx_product S) (tx_direction (ti_context ti))) p db) (po_reservations q) = Ok es"
        "try_for_each (check_leg db) (so_legs (po_settlement q)) = Ok ()" "escrows_checked (sx_product S) q v p hs es evi ws = Ok ()"
      and auth: "tx_before_state_root (ti_context ti) = root"
        "br = None \<Longrightarrow> \<exists>a. ap = Some a \<and> require_quorum ?F C (ev_wall ev) st root a = Ok ()"
      and rest: "now \<le> so_deadline (po_settlement q)" "bt_get (db_nullifiers db) (so_nullifier (po_settlement q)) = None"
        "bt_get (db_rfq_nullifiers db) (po_rfq_nullifier q) = None" "consume_all ?F now q st db = Ok db1"
        "commit_receipt ?F ev (po_settlement q) st root (of_nat (length (canonical (fx_gov ?F) j)))
           (db1\<lparr>db_accounts := fold update_account (so_legs (po_settlement q)) (db_accounts db1)\<rparr>) = Ok (db', receipt)"
      by (cases br) auto
    have "\<forall>l \<in> set (so_legs (po_settlement q)). leg_current (db_accounts db) l"
      using try_for_each_member [OF fresh'(3)] by (auto intro: check_leg_current)
    with start fresh' have "product_verified S q pfs ti link evi now ws db"
      unfolding product_verified_def by (intro exI conjI)
    from fresh [OF this start(4) fresh'(1) auth rest] show thesis .
  qed
qed

lemma consume_allE:
  assumes "consume_all F now q st db = Ok db'"
  obtains db1 where "try_fold (consume_reservation F now st) db (po_reservations q) = Ok db1"
    "bt_get (db_rfq_nullifiers db1) (po_rfq_nullifier q) = None"
    "db' = db1\<lparr>db_nullifiers := bt_insert (so_nullifier (po_settlement q))
         \<lparr>nf_deadline = so_deadline (po_settlement q), nf_statement = st\<rparr> (db_nullifiers db1),
       db_rfq_nullifiers := bt_insert (po_rfq_nullifier q) st (db_rfq_nullifiers db1)\<rparr>"
  using assms by (auto simp: consume_all_def Let_def spend_rfq_nullifier_def elim!: spend_nullifierE)

lemma consume_reservation_frame:
  assumes "consume_reservation F now st db rc = Ok db'"
  shows "settlement_part db' = settlement_part db \<and> admission_part db' = admission_part db \<and> db_bindings db' = db_bindings db \<and>
    db_rfq_nullifiers db' = db_rfq_nullifiers db"
  using assms
proof (cases rule: consume_reservationE)
  case (1 own db1 snap)
  with apply_credit_frame [OF 1(2)] show ?thesis by (simp add: close_escrow_def split: option.split)
qed

lemma consume_reservation_escrows_kept:
  assumes "consume_reservation F now st db rc = Ok db'"
  shows "escrows_kept db db'"
  using assms
proof (cases rule: consume_reservationE)
  case (1 own db1 snap)
  with apply_credit_frame [OF 1(2)] show ?thesis
    by (auto simp: escrows_kept_def close_escrow_get escrow_kept_closed [unfolded closed_escrow_def])
qed

lemma consume_reservation_holds_kept:
  assumes "consume_reservation F now st db rc = Ok db'"
  shows "holds_kept db db'"
  using assms by (cases rule: consume_reservationE) (auto dest: apply_holds_kept simp: holds_kept_def)

lemma consume_reservation_credit_ok:
  assumes "consume_reservation F now st db rc = Ok db'" "verify_credit_relation_equations E (rc_transition rc) = Ok ()" "credit_ok E db"
  shows "credit_ok E db'"
  using assms(1)
proof (cases rule: consume_reservationE)
  case (1 own db1 snap)
  from apply_credit_ok [OF assms(3,2) 1(2)] credit_ok_cong [of db' db1 E] show ?thesis by (simp add: 1(3))
qed

lemma consume_reservations_keep:
  "try_fold (consume_reservation F now st) db rcs = Ok db' \<Longrightarrow>
     settlement_part db' = settlement_part db \<and> admission_part db' = admission_part db \<and> db_bindings db' = db_bindings db \<and>
     db_rfq_nullifiers db' = db_rfq_nullifiers db \<and> escrows_kept db db' \<and> holds_kept db db' \<and>
     ((\<forall>rc \<in> set rcs. verify_credit_relation_equations E (rc_transition rc) = Ok ()) \<longrightarrow> credit_ok E db \<longrightarrow> credit_ok E db')"
proof (induction rcs arbitrary: db)
  case (Cons rc rcs)
  then obtain db1 where step: "consume_reservation F now st db rc = Ok db1"
    and rest: "try_fold (consume_reservation F now st) db1 rcs = Ok db'" by auto
  note rest = Cons.IH [OF rest]
  have "escrows_kept db db'" "holds_kept db db'"
    using rest consume_reservation_escrows_kept [OF step] consume_reservation_holds_kept [OF step]
    by (auto intro: escrows_kept_trans holds_kept_trans)
  with rest consume_reservation_frame [OF step] consume_reservation_credit_ok [OF step, of E] show ?case by simp
qed (simp add: escrows_kept_refl holds_kept_refl)

text \<open>The two escrows hold what the four legs add, on each rail.\<close>

definition escrows_of :: "product_settlement_order \<Rightarrow> facility_db \<Rightarrow> escrow_row list \<Rightarrow> bool" where
  "escrows_of q db es \<longleftrightarrow> list_all2 (\<lambda>rc e. bt_get (db_escrows db) (ct_hold_id (rc_transition rc)) = Some e \<and>
     re_status e = lit ''active'') (po_reservations q) es"

definition order_balanced ::
  "('g, 'p::ab_group_add, 's, 'v) product_ext \<Rightarrow> product_settlement_order \<Rightarrow> escrow_row list \<Rightarrow> bool" where
  "order_balanced X q es \<longleftrightarrow> distinct (map sl_handle (so_legs (po_settlement q))) \<and>
     distinct (map (ct_hold_id \<circ> rc_transition) (po_reservations q)) \<and>
     (\<forall>a. sum_list (map (leg_delta X a) (so_legs (po_settlement q))) = sum_list (map (escrow_value X a) es))"

lemma product_checksD: "product_checks S q v ti link ev now = Ok (hs, p) \<Longrightarrow>
    package_handles_of (sx_product S) ev = Ok hs \<and> payment_asset q = Ok p"
  by (auto simp: product_checks_def Let_def)

lemma escrows_of_member:
  assumes "escrows_of q db es" "e \<in> set es"
  obtains rc where "rc \<in> set (po_reservations q)" "bt_get (db_escrows db) (ct_hold_id (rc_transition rc)) = Some e"
    "re_status e = lit ''active''"
proof -
  from assms(2) obtain i where i: "i < length es" "e = es ! i" by (auto simp: in_set_conv_nth)
  with assms(1) show thesis by (intro that [of "po_reservations q ! i"]) (simp_all add: escrows_of_def list_all2_conv_all_nth)
qed

lemma escrows_checkedE:
  assumes "escrows_checked X q v p hs es ev ws = Ok u"
  obtains r se r' ce befores x y where "escrow_on (po_traded_asset_id q) es ''product has no traded-asset reservation escrow'' = Ok (r, se)"
    "escrow_on p es ''product has no payment-asset reservation escrow'' = Ok (r', ce)"
    "settlement_legs X q p hs se ce ev = Ok befores" "to_point X (re_amount se) = Some x" "to_point X (re_amount ce) = Some y"
    "reserved_dvp_ok X v ev x y befores ws = Ok ()"
  using assms by (auto simp: escrows_checked_def canonical_point_def split: if_splits)

text \<open>The order with another after-commitment on the leg of one account.\<close>

definition with_after :: "id32 \<Rightarrow> id32 \<Rightarrow> product_settlement_order \<Rightarrow> product_settlement_order" where
  "with_after h c q = q\<lparr>po_settlement := (po_settlement q)\<lparr>so_legs :=
     map (\<lambda>l. if sl_handle l = h then l\<lparr>sl_after := c\<rparr> else l) (so_legs (po_settlement q))\<rparr>\<rparr>"

lemma leg_for_with_after: "k \<noteq> h \<Longrightarrow> leg_for (with_after h c q) k = leg_for q k"
proof -
  assume "k \<noteq> h"
  then have "find (\<lambda>l. sl_handle l = k) (map (\<lambda>l. if sl_handle l = h then l\<lparr>sl_after := c\<rparr> else l) ls) =
      find (\<lambda>l. sl_handle l = k) ls" for ls :: "state_leg list"
    by (induction ls) auto
  then show ?thesis by (simp add: leg_for_def with_after_def)
qed

lemma unnamed_leg_unchecked:
  assumes "h \<notin> re_source_handle ` snd ` set es" "h \<noteq> ph_securities_to hs" "h \<noteq> ph_cash_to hs"
  shows "escrows_checked X (with_after h c q) v p hs es ev ws = escrows_checked X q v p hs es ev ws"
proof -
  have q: "po_traded_asset_id (with_after h c q) = po_traded_asset_id q"
    "reservation_with r (with_after h c q) m = reservation_with r q m" for r m
    by (simp_all add: with_after_def reservation_with_def)
  have on: "re_source_handle e \<noteq> h" if "escrow_on a es m = Ok (r, e)" for a m r e
  proof -
    from that have "(r, e) \<in> set es" by (auto simp: escrow_on_def find_Some_iff set_conv_nth)
    with assms(1) show ?thesis by force
  qed
  have legs: "settlement_legs X (with_after h c q) p hs se ce ev = settlement_legs X q p hs se ce ev"
    if "re_source_handle se \<noteq> h" "re_source_handle ce \<noteq> h" for se ce
    using that assms(2,3) unfolding settlement_legs_def q by (simp add: leg_for_with_after)
  show ?thesis
    unfolding escrows_checked_def q
    by (cases "escrow_on (po_traded_asset_id q) es ''product has no traded-asset reservation escrow''";
        cases "escrow_on p es ''product has no payment-asset reservation escrow''")
      (auto simp: legs on split: prod.splits)
qed

lemma verified_balanced:
  assumes "product_verified S q pfs ti link ev now ws db" "owners_apart (sx_product S) q ev db"
    "ristretto_encoding (px_prims (sx_product S))"
  obtains es where "escrows_of q db es" "order_balanced (sx_product S) q es"
proof -
  let ?X = "sx_product S"
  from assms(1) obtain j v hs p es where body: "product_body (px_facility ?X) q = Ok j"
    and chk: "product_checks S q v ti link ev now = Ok (hs, p)"
    and esc: "try_map (reserved_escrow q (px_direction ?X (tx_direction (ti_context ti))) p db) (po_reservations q) = Ok es"
    and ok: "escrows_checked ?X q v p hs es ev ws = Ok ()"
    unfolding product_verified_def by blast
  from body have rails: "two_rails (po_traded_asset_id q) (so_legs (po_settlement q))"
    and dist: "distinct (map sl_handle (so_legs (po_settlement q)))" and "length (po_reservations q) = 2"
    and holds: "distinct (map (ct_hold_id \<circ> rc_transition) (po_reservations q))" by (elim product_bodyE, simp)+
  note all = reserved_escrows [OF esc, folded escrows_of_def]
  with \<open>length (po_reservations q) = 2\<close> have len: "length es = 2" by (auto simp: escrows_of_def dest: list_all2_lengthD)
  note pay = rails_of_order [OF rails conjunct2 [OF product_checksD [OF chk]]]
  from ok obtain r se r' ce befores x y where on: "escrow_on (po_traded_asset_id q) es ''product has no traded-asset reservation escrow'' = Ok (r, se)"
      "escrow_on p es ''product has no payment-asset reservation escrow'' = Ok (r', ce)"
    and legs: "settlement_legs ?X q p hs se ce ev = Ok befores" and pts: "to_point ?X (re_amount se) = Some x" "to_point ?X (re_amount ce) = Some y"
    and dvp: "reserved_dvp_ok ?X v ev x y befores ws = Ok ()"
    by (rule escrows_checkedE)
  note two = two_escrows [OF len on pay(1)]
  have apart: "re_source_handle e \<noteq> ph_securities_to hs \<and> re_source_handle e \<noteq> ph_cash_to hs \<and> re_status e = lit ''active''"
    if "e \<in> set (map snd es)" for e
    using all that
  proof (rule escrows_of_member)
    fix rc assume "rc \<in> set (po_reservations q)" "bt_get (db_escrows db) (ct_hold_id (rc_transition rc)) = Some e" "re_status e = lit ''active''"
    with owners_apartD [OF assms(2) conjunct1 [OF product_checksD [OF chk]]] show ?thesis by simp
  qed
  have se: "se \<in> set (map snd es)" "ce \<in> set (map snd es)" using two(3,4) by force+
  note delta = settlement_legs_delta [OF legs assms(3) rails dist] and dvp = reserved_dvp_conserves [OF dvp]
  have "sum_list (map (leg_delta ?X a) (so_legs (po_settlement q))) = sum_list (map (escrow_value ?X a) (map snd es))" for a
    using delta dvp pts apart [OF se(1)] apart [OF se(2)] pay other_rail [of a "so_legs (po_settlement q)" ?X]
    by (subst two(5)) (auto simp: held_point_def)
  with dist holds have "order_balanced ?X q (map snd es)" unfolding order_balanced_def by blast
  with all show thesis by (rule that)
qed

lemma consumed_total:
  assumes "consume_all F now q st db = Ok db1" "escrows_of q db es" "order_balanced X q es"
    "\<forall>l \<in> set (so_legs (po_settlement q)). leg_current (db_accounts db) l"
    "db_accounts db' = fold update_account (so_legs (po_settlement q)) (db_accounts db)" "db_escrows db' = db_escrows db1"
  shows "asset_total X db' a = asset_total X db a"
  using assms(1)
proof (cases rule: consume_allE)
  case (1 db2)
  from assms(3) have bal: "distinct (map sl_handle (so_legs (po_settlement q)))"
      "distinct (map (ct_hold_id \<circ> rc_transition) (po_reservations q))"
      "sum_list (map (leg_delta X a) (so_legs (po_settlement q))) = sum_list (map (escrow_value X a) es)"
    by (simp_all add: order_balanced_def)
  have "bt_sum (escrow_value X a) (db_escrows db') + sum_list (map (escrow_value X a) es) = bt_sum (escrow_value X a) (db_escrows db)"
    using consumed_escrows [OF 1(1) bal(2) assms(2) [unfolded escrows_of_def]] by (simp add: assms(6) 1(3))
  then show ?thesis
    by (simp add: asset_total_def assms(5) legs_total [OF bal(1) assms(4)] bal(3) add.assoc)
      (simp add: algebra_simps)
qed

text \<open>Consuming, paying and committing, whichever path led there.\<close>

lemma committed_keeps:
  assumes "consume_all F now q st db = Ok db1" "bt_get (db_nullifiers db) (so_nullifier (po_settlement q)) = None"
    "\<forall>rc \<in> set (po_reservations q). verify_credit_relation_equations E (rc_transition rc) = Ok ()"
    "commit_receipt F ev (po_settlement q) st root n (db1\<lparr>db_accounts := accounts\<rparr>) = Ok (db', receipt)"
  shows "(receipt_laws F C \<longrightarrow> facility_ok F E C db \<longrightarrow> facility_ok F E C db') \<and> facility_kept db db'"
  using assms(1)
proof (cases rule: consume_allE)
  case (1 db2)
  note keep = consume_reservations_keep [OF 1(1), of E]
  from assms(4) obtain ops where rec: "receipt_for F (so_operation_id (po_settlement q)) (so_nullifier (po_settlement q)) st root
      (db1\<lparr>db_accounts := accounts\<rparr>) receipt"
    and db': "db' = db1\<lparr>db_accounts := accounts, db_receipts := db_receipts db1 @ [receipt_row_of F receipt], db_operations := ops,
       db_state_root := sr_after_root receipt, db_last_receipt := receipt_digest F receipt\<rparr>"
    by (elim commit_receiptD) simp
  have "receipt_laws F C \<longrightarrow> chain_ok F C db \<longrightarrow> chain_ok F C db'"
    using chain_ok_append [OF _ _ rec, of C db'] keep by (simp add: db' 1(3) chain_ok_def part_defs)
  moreover have "credit_ok E db \<longrightarrow> credit_ok E db'"
    using keep assms(3) credit_ok_cong [of db' db2 E] by (simp add: db' 1(3))
  moreover have "admission_ok F db \<longrightarrow> admission_ok F db'"
    using keep admission_ok_cong [of db' db F] by (simp add: db' 1(3))
  moreover have "holds_kept db db'" using keep by (simp add: db' 1(3) holds_kept_def)
  moreover have "escrows_kept db db'" using keep by (simp add: db' 1(3) escrows_kept_def)
  moreover have "consumers_kept db db'" using keep by (intro consumers_kept_refl) (simp add: db' 1(3) admission_part_def)
  ultimately show ?thesis using keep 1(2) assms(2)
    by (auto simp: facility_ok_def facility_kept_def db' 1(3) settlement_part_def)
qed

lemma committed_tables:
  assumes "commit_receipt F ev o' st root n db = Ok (db', receipt)"
  shows "db_accounts db' = db_accounts db" "db_escrows db' = db_escrows db"
  using assms by (elim commit_receiptD, simp)+

lemma verified_equations:
  assumes "product_verified S q pfs ti link ev now ws db" "rc \<in> set (po_reservations q)"
  shows "verify_credit_relation_equations (px_credit (sx_product S)) (rc_transition rc) = Ok ()"
  using assms product_relations_equations unfolding product_verified_def by blast

lemma settle_product_inner_keeps:
  assumes "settle_product_inner S C ev q pfs ti link evi ap br now ws db = Ok (db', receipt)"
  shows "(receipt_laws (px_facility (sx_product S)) C' \<longrightarrow> facility_ok (px_facility (sx_product S)) (px_credit (sx_product S)) C' db \<longrightarrow>
      facility_ok (px_facility (sx_product S)) (px_credit (sx_product S)) C' db') \<and> facility_kept db db'"
  using assms
proof (cases rule: settle_product_innerE)
  case (fresh st root n db1)
  with verified_equations [OF fresh(1)] show ?thesis by (intro committed_keeps [OF fresh(9,7) _ fresh(10)]) blast
qed simp

lemma settle_product_inner_total:
  assumes "settle_product_inner S C ev q pfs ti link evi ap br now ws db = Ok (db', receipt)"
    "ristretto_encoding (px_prims (sx_product S))" "owners_apart (sx_product S) q evi db"
  shows "asset_total (sx_product S) db' a = asset_total (sx_product S) db a"
  using assms(1)
proof (cases rule: settle_product_innerE)
  case (fresh st root n db1)
  from fresh(1) assms(3,2) obtain es where es: "escrows_of q db es" "order_balanced (sx_product S) q es" by (rule verified_balanced)
  have legs: "\<forall>l \<in> set (so_legs (po_settlement q)). leg_current (db_accounts db) l"
    using fresh(1) unfolding product_verified_def by blast
  have "db_accounts db1 = db_accounts db"
    using fresh(9) by (elim consume_allE) (auto dest: consume_reservations_keep simp: settlement_part_def)
  then show ?thesis
    by (intro consumed_total [OF fresh(9) es legs]) (simp_all add: committed_tables [OF fresh(10)])
qed simp

section \<open>Settling a batch\<close>

definition leg_exact :: "(id32, account_row) btree_map \<Rightarrow> state_leg \<Rightarrow> bool" where
  "leg_exact m l \<longleftrightarrow> (\<exists>row. bt_get m (sl_handle l) = Some row \<and> ac_asset_id row = sl_asset_id l \<and>
     ac_commitment row = sl_before l \<and> ac_sequence row = sl_before_sequence l)"

lemma batch_leg_exact: "batch_leg_fresh db l = Ok u \<Longrightarrow> leg_exact (db_accounts db) l"
  by (auto simp: batch_leg_fresh_def leg_exact_def column_def split: if_splits)

lemma leg_exact_current: "leg_exact m l \<Longrightarrow> leg_current m l"
  by (auto simp: leg_exact_def leg_current_def)

lemma leg_exact_other: "sl_handle k \<noteq> sl_handle l \<Longrightarrow> leg_exact (update_account l m) k = leg_exact m k"
  by (simp add: leg_exact_def update_account_def split: option.split)

lemma swap_legE:
  assumes "swap_leg db l = Ok db'" "leg_exact (db_accounts db) l"
  shows "db' = db\<lparr>db_accounts := update_account l (db_accounts db)\<rparr>"
  using assms by (auto simp: swap_leg_def leg_exact_def Let_def split: if_splits)

lemma swap_legs:
  "try_fold swap_leg db ls = Ok db' \<Longrightarrow> distinct (map sl_handle ls) \<Longrightarrow> \<forall>l \<in> set ls. leg_exact (db_accounts db) l \<Longrightarrow>
     db' = db\<lparr>db_accounts := fold update_account ls (db_accounts db)\<rparr>"
proof (induction ls arbitrary: db)
  case (Cons l ls)
  then obtain db1 where step: "swap_leg db l = Ok db1" and rest: "try_fold swap_leg db1 ls = Ok db'" by auto
  from swap_legE [OF step] Cons.prems have db1: "db1 = db\<lparr>db_accounts := update_account l (db_accounts db)\<rparr>" by simp
  have "\<forall>k \<in> set ls. leg_exact (db_accounts db1) k"
    using Cons.prems(2,3) by (auto simp: db1 leg_exact_other image_iff)
  with Cons.IH [OF rest] Cons.prems(2) show ?case by (simp add: db1)
qed simp

lemma settle_batch_itemE:
  assumes "settle_batch_item F evs now (db, rs) q = Ok (db', rs')"
  obtains st root n db1 receipt where "product_statement F q = Ok st" "bt_get (db_nullifiers db) (so_nullifier (po_settlement q)) = None"
    "\<forall>rc \<in> set (po_reservations q). map_option re_status (bt_get (db_escrows db) (ct_hold_id (rc_transition rc))) = Some (lit ''active'')"
    "\<forall>l \<in> set (so_legs (po_settlement q)). leg_exact (db_accounts db) l"
    "consume_all F now q st db = Ok db1" "db_accounts db1 = db_accounts db" "now \<le> so_deadline (po_settlement q)"
    "commit_receipt F (evs (so_operation_id (po_settlement q))) (po_settlement q) st root n
       (db1\<lparr>db_accounts := fold update_account (so_legs (po_settlement q)) (db_accounts db)\<rparr>) = Ok (db', receipt)"
    "rs' = rs @ [receipt]" "calculate_root F db = Ok root"
proof -
  from assms obtain st root j db1 db2 receipt where st: "product_statement F q = Ok st" "now \<le> so_deadline (po_settlement q)"
      "bt_get (db_nullifiers db) (so_nullifier (po_settlement q)) = None"
    and act: "try_for_each (\<lambda>rc. ensure (map_option re_status (bt_get (db_escrows db) (ct_hold_id (rc_transition rc))) = Some (lit ''active''))
       ''atomic product batch names an inactive asset escrow'') (po_reservations q) = Ok ()"
    and legs: "try_for_each (batch_leg_fresh db) (so_legs (po_settlement q)) = Ok ()"
    and con: "consume_all F now q st db = Ok db1" and swap: "try_fold swap_leg db1 (so_legs (po_settlement q)) = Ok db2"
    and body: "product_body F q = Ok j" and root: "calculate_root F db = Ok root"
    and rec: "commit_receipt F (evs (so_operation_id (po_settlement q))) (po_settlement q) st root
       (of_nat (length (canonical (fx_gov F) j))) db2 = Ok (db', receipt)" and rs: "rs' = rs @ [receipt]"
    by (auto simp: settle_batch_item_def Let_def)
  have same: "db_accounts db1 = db_accounts db"
    using con by (elim consume_allE) (auto dest: consume_reservations_keep simp: settlement_part_def)
  have exact: "\<forall>l \<in> set (so_legs (po_settlement q)). leg_exact (db_accounts db) l"
    using try_for_each_member [OF legs] by (auto intro: batch_leg_exact)
  have "db2 = db1\<lparr>db_accounts := fold update_account (so_legs (po_settlement q)) (db_accounts db1)\<rparr>"
    using body by (elim product_bodyE) (intro swap_legs [OF swap], simp_all add: same exact)
  moreover have "\<forall>rc \<in> set (po_reservations q). map_option re_status (bt_get (db_escrows db) (ct_hold_id (rc_transition rc))) = Some (lit ''active'')"
    using try_for_each_member [OF act] by auto
  ultimately show thesis using that [OF st(1,3) _ exact con same st(2) _ rs root] rec same by simp
qed

lemma batch_items_keep:
  "try_fold (settle_batch_item F evs now) (db, rs) qs = Ok (db', rs') \<Longrightarrow>
     \<forall>q \<in> set qs. \<forall>rc \<in> set (po_reservations q). verify_credit_relation_equations E (rc_transition rc) = Ok () \<Longrightarrow>
     (receipt_laws F C \<longrightarrow> facility_ok F E C db \<longrightarrow> facility_ok F E C db') \<and> facility_kept db db'"
proof (induction qs arbitrary: db rs)
  case (Cons q qs)
  then obtain db1 rs1 where step: "settle_batch_item F evs now (db, rs) q = Ok (db1, rs1)"
    and rest: "try_fold (settle_batch_item F evs now) (db1, rs1) qs = Ok (db', rs')" by auto
  have "(receipt_laws F C \<longrightarrow> facility_ok F E C db \<longrightarrow> facility_ok F E C db1) \<and> facility_kept db db1"
    using step by (rule settle_batch_itemE) (rule committed_keeps, use Cons.prems(2) in auto)
  with Cons.IH [OF rest] Cons.prems(2) show ?case by (auto intro: facility_kept_trans)
qed auto

lemma escrows_of_later:
  assumes "escrows_of q db0 es" "escrows_kept db0 db"
    "\<forall>rc \<in> set (po_reservations q). map_option re_status (bt_get (db_escrows db) (ct_hold_id (rc_transition rc))) = Some (lit ''active'')"
  shows "escrows_of q db es"
  unfolding escrows_of_def
proof (rule list.rel_mono_strong [OF assms(1) [unfolded escrows_of_def]])
  fix rc e
  assume rc: "rc \<in> set (po_reservations q)"
    and "bt_get (db_escrows db0) (ct_hold_id (rc_transition rc)) = Some e \<and> re_status e = lit ''active''"
  then have e: "bt_get (db_escrows db0) (ct_hold_id (rc_transition rc)) = Some e" "re_status e = lit ''active''" by simp_all
  from assms(2) e(1) obtain e' where e': "bt_get (db_escrows db) (ct_hold_id (rc_transition rc)) = Some e'" "escrow_kept e e'"
    by (rule escrows_keptE)
  from assms(3) rc e'(1) have "re_status e' = lit ''active''" by force
  with e' e(2) show "bt_get (db_escrows db) (ct_hold_id (rc_transition rc)) = Some e \<and> re_status e = lit ''active''"
    by (auto simp: escrow_kept_def)
qed

lemma batch_items_total:
  "try_fold (settle_batch_item F evs now) (db, rs) qs = Ok (db', rs') \<Longrightarrow> escrows_kept db0 db \<Longrightarrow>
     \<forall>q \<in> set qs. \<exists>es. escrows_of q db0 es \<and> order_balanced X q es \<Longrightarrow> asset_total X db' a = asset_total X db a"
proof (induction qs arbitrary: db rs)
  case (Cons q qs)
  then obtain db1 rs1 where step: "settle_batch_item F evs now (db, rs) q = Ok (db1, rs1)"
    and rest: "try_fold (settle_batch_item F evs now) (db1, rs1) qs = Ok (db', rs')" by auto
  from step have "asset_total X db1 a = asset_total X db a \<and> escrows_kept db db1"
  proof (rule settle_batch_itemE)
    fix st root n db2 receipt
    assume act: "\<forall>rc \<in> set (po_reservations q). map_option re_status (bt_get (db_escrows db) (ct_hold_id (rc_transition rc))) = Some (lit ''active'')"
      and legs: "\<forall>l \<in> set (so_legs (po_settlement q)). leg_exact (db_accounts db) l"
      and con: "consume_all F now q st db = Ok db2" and same: "db_accounts db2 = db_accounts db"
      and rec: "commit_receipt F (evs (so_operation_id (po_settlement q))) (po_settlement q) st root n
       (db2\<lparr>db_accounts := fold update_account (so_legs (po_settlement q)) (db_accounts db)\<rparr>) = Ok (db1, receipt)"
    from Cons.prems(3) obtain es where "escrows_of q db0 es" and bal: "order_balanced X q es" by auto
    then have es: "escrows_of q db es" using Cons.prems(2) act by (auto intro: escrows_of_later)
    have "asset_total X db1 a = asset_total X db a"
      by (rule consumed_total [OF con es bal]) (use legs in \<open>auto simp: committed_tables [OF rec] intro: leg_exact_current\<close>)
    moreover have "escrows_kept db db1" using con
      by (elim consume_allE) (auto dest: consume_reservations_keep simp: escrows_kept_def committed_tables [OF rec])
    ultimately show ?thesis by blast
  qed
  with Cons.IH [OF rest] Cons.prems(2,3) show ?case by (auto intro: escrows_kept_trans)
qed simp

lemma settle_batchE:
  assumes "settle_batch S C wall evs b items v ap now ws db = Ok (db', rs)"
  obtains (replay) "db' = db" "bt_contains (db_product_batches db) (psb_batch_id b)"
  | (fresh) st root db1 ops row where "batch_statement (px_facility (sx_product S)) b = Ok st"
      "validate_orders (px_facility (sx_product S)) b (map ps_order items) = Ok ()"
      "authorize (px_facility (sx_product S)) C wall db st ap = Ok root"
      "\<forall>i \<in> set items. verify_settlement_authority S i v now = Ok ()"
      "\<forall>i \<in> set items. product_verified S (ps_order i) (ps_relation_proofs i) (ps_typed i) (ps_asset_link i)
         (Threshold (ps_evidence i)) now ws db"
      "try_fold (settle_batch_item (px_facility (sx_product S)) evs now) (db, []) (map ps_order items) = Ok (db1, rs)"
      "db' = db1\<lparr>db_product_batches := bt_insert (psb_batch_id b) row (db_product_batches db1), db_operations := ops\<rparr>"
proof -
  let ?F = "px_facility (sx_product S)"
  from assms obtain root0 where val: "validate_orders ?F b (map ps_order items) = Ok ()"
    and pre: "try_for_each (\<lambda>i. and_then (verify_settlement_authority S i v now) (\<lambda>_.
         preflight_product_threshold S C (evs (so_operation_id (po_settlement (ps_order i)))) i None (Some root0) now ws db)) items = Ok ()"
    and run: "settle_product_threshold_batch ?F C wall evs b (map ps_order items) ap now db = Ok (db', rs)"
    by (auto simp: settle_batch_def Let_def)
  show thesis
  proof (cases "bt_get (db_product_batches db) (psb_batch_id b)")
    case (Some row)
    with run show thesis by (intro replay) (auto simp: settle_product_threshold_batch_def)
  next
    case None
    with run obtain st root after db1 db2 where st: "batch_statement ?F b = Ok st" "authorize ?F C wall db st ap = Ok root"
      and new: "\<forall>q \<in> set (map ps_order items). \<forall>r \<in> set (db_receipts db).
             rr_operation_id r \<noteq> so_operation_id (po_settlement q) \<and> rr_nullifier r \<noteq> so_nullifier (po_settlement q)"
      and items: "try_fold (settle_batch_item ?F evs now) (db, []) (map ps_order items) = Ok (db1, rs)"
      and reg: "register_operation db1 (psb_batch_id b) st = Ok db2"
      and ins: "insert_product_batch (psb_batch_id b) (batch_row_of ?F b st root after rs) db2 = Ok db'"
      by (auto simp: settle_product_threshold_batch_def)
    have auth: "\<forall>i \<in> set items. verify_settlement_authority S i v now = Ok ()"
      using try_for_each_member [OF pre] by (auto simp del: and_then_Ok simp: result_simps)
    have "product_verified S (ps_order i) (ps_relation_proofs i) (ps_typed i) (ps_asset_link i) (Threshold (ps_evidence i)) now ws db"
      if i: "i \<in> set items" for i
    proof -
      from try_for_each_member [OF pre i] obtain db3 r where "settle_product_inner S C (evs (so_operation_id (po_settlement (ps_order i))))
          (ps_order i) (ps_relation_proofs i) (ps_typed i) (ps_asset_link i) (Threshold (ps_evidence i)) None (Some root0) now ws db = Ok (db3, r)"
        by (auto simp: preflight_product_threshold_def)
      then show ?thesis
        by (cases rule: settle_product_innerE) (use new i in auto)
    qed
    moreover from reg obtain ops where db2: "db2 = db1\<lparr>db_operations := ops\<rparr>" by (rule register_operationE)
    from ins obtain ops' where "db' = db1\<lparr>db_product_batches := bt_insert (psb_batch_id b) (batch_row_of ?F b st root after rs)
        (db_product_batches db1), db_operations := ops'\<rparr>"
      by (auto simp: insert_product_batch_def db2 elim!: operation_triggerE)
    ultimately show thesis using fresh [OF st(1) val st(2) auth _ items] by blast
  qed
qed

end
