(* ===== verification/FacilityExample.thy ===== *)
theory FacilityExample
  imports ProductSafety
begin

text \<open>
  A concrete facility: points are 256-bit words under addition, a commitment is its value, every
  proof is accepted, and a digest is read off two letters of its domain. The committee is the
  one of \<open>Quorum\<close>. On it an asset is registered, an account opened, a guarantor
  enrolled, a line granted, a maker's amount reserved, and the reservation released. The properties
  of the facility's histories are instantiated here.
\<close>

section \<open>Receipts as bytes\<close>

text \<open>Numbers in unary, ended by 1; strings ended by 2.\<close>

definition sample_str :: "nat list \<Rightarrow> bytes" where
  "sample_str s = concat (map (\<lambda>n. replicate n 0 @ [1]) s) @ [2]"

fun sample_read :: "nat \<Rightarrow> nat list \<Rightarrow> bytes \<Rightarrow> nat list list" where
  "sample_read n s [] = []"
| "sample_read n s (b # bs) = (if b = 0 then sample_read (Suc n) s bs
     else if b = 1 then sample_read 0 (s @ [n]) bs else s # sample_read 0 [] bs)"

definition sample_wire :: "receipt_wire \<Rightarrow> bytes" where
  "sample_wire w = concat (map sample_str [rw_operation_id w, rw_nullifier w, rw_statement w, rw_before_root w,
     rw_after_root w, rw_previous_receipt w, [unat (rw_committed_at_ns w)], [unat (rw_elapsed_ns w)],
     [unat (rw_request_bytes w)], [unat (rw_response_bytes w)], [unat (rw_database_bytes_before w)],
     [unat (rw_database_bytes_after w)], rw_signature w])"

definition sample_unwire :: "bytes \<Rightarrow> receipt_wire option" where
  "sample_unwire bs = (let l = sample_read 0 [] bs; n = (\<lambda>i. of_nat (hd (l ! i))) in
     if length l = 13 then Some \<lparr>rw_operation_id = l ! 0, rw_nullifier = l ! 1, rw_statement = l ! 2, rw_before_root = l ! 3,
       rw_after_root = l ! 4, rw_previous_receipt = l ! 5, rw_committed_at_ns = n 6, rw_elapsed_ns = n 7,
       rw_request_bytes = n 8, rw_response_bytes = n 9, rw_database_bytes_before = n 10, rw_database_bytes_after = n 11,
       rw_signature = l ! 12\<rparr> else None)"

lemma sample_read_zeros: "sample_read n s (replicate k 0 @ bs) = sample_read (n + k) s bs"
  by (induction k arbitrary: n) simp_all

lemma sample_read_str: "sample_read 0 s (sample_str t @ bs) = (s @ t) # sample_read 0 [] bs"
  unfolding sample_str_def by (induction t arbitrary: s) (simp_all add: sample_read_zeros)

lemma sample_read_strs: "sample_read 0 [] (concat (map sample_str ts)) = ts"
  by (induction ts) (simp_all add: sample_read_str)

lemma sample_unwire_wire: "sample_unwire (sample_wire w) = Some w"
  unfolding sample_unwire_def sample_wire_def sample_read_strs by (simp add: Let_def)

section \<open>The parameters\<close>

definition sample_hash :: "bytes \<Rightarrow> id32" where
  "sample_hash bs = ucast (bs ! 11) * 256 + ucast (bs ! 18)"

definition sample_gov :: "bytes gov_crypto" where
  "sample_gov = demo_gov\<lparr>gc_sha256 := sample_hash, gc_hybrid_verify := (\<lambda>purpose pk m s.
     if purpose = AuditCheckpoint then length s = 3373 else length pk = 33 \<and> s = pk @ m)\<rparr>"

definition sample_facility :: "bytes facility_ext" where
  "sample_facility = \<lparr>fx_gov = sample_gov, fx_wire_to_vec = sample_wire, fx_wire_from_slice = sample_unwire,
     fx_receipt_sign = (\<lambda>_. Some (replicate 3373 0)), fx_committee_nodes = 4, fx_admission_key = (\<lambda>_. True),
     fx_verify_lane = (\<lambda>_ _. Err ''''), fx_lane_digest = (\<lambda>_ _ _. None), fx_certified_digest = (\<lambda>_. Ok 1),
     fx_ed25519_weak = (\<lambda>_. False), fx_ed25519_verify_strict = (\<lambda>_ _ _. True), fx_ml_dsa_65_verify = (\<lambda>_ _ _ _. True),
     fx_suite_json = (\<lambda>_. JNumber 0), fx_policy_digest = (\<lambda>_. Some 1), fx_sql_real = (\<lambda>v. unat v)\<rparr>"

definition sample_config :: facility_config where
  "sample_config = \<lparr>fc_authorizer = demo_committee, fc_receipt_public_key = []\<rparr>"

definition sample_credit :: "(id32, id32) credit_ext" where
  "sample_credit = \<lparr>ce_decompress = Some, ce_range_verify = (\<lambda>_ _ _ _. True), ce_range_prove = (\<lambda>_ _ _ _. None),
     ce_range_bytes = (\<lambda>_. True)\<rparr>"

definition sample_decode :: "bytes \<Rightarrow> id32 option" where
  "sample_decode bs = (if length bs = 32 then Some (of_nat (be_nat bs)) else None)"

definition sample_prims :: "(id32, id32) prims" where
  "sample_prims = \<lparr>smul = (*), compress = id_bytes, decompress = sample_decode, sha256 = (\<lambda>_. id_bytes 1),
     ped_commit = (\<lambda>key v r. v * ped_g key + r * ped_h key),
     gens_commit = (\<lambda>g v r. v * gen_B g + r * gen_B_blinding g), range_prove = (\<lambda>_ _ _ _ _. None),
     range_verify = (\<lambda>_ _ _ _ _. True), hybrid_verify = (\<lambda>_ _ _ _. True),
     same_value_prove = (\<lambda>_ _ _ _ _ _ _ _ _. []), same_value_terms = (\<lambda>_ _ _ _ _ _ _ _. ([], [])),
     product_prove = (\<lambda>_ _ _ _ _ _ _ _. []), product_terms = (\<lambda>_ _ _ _ _ _ _. ([], [])),
     product_verify = (\<lambda>_ _ _ _ _ _. True), opening_prove = (\<lambda>_ _ _ _ _. []), opening_terms = (\<lambda>_ _ _ _ _. ([], [])),
     zero_opening_prove = (\<lambda>_ _ _ _. []), zero_opening_verify = (\<lambda>_ _ _ _. True), batch_verify = (\<lambda>_. True),
     adaptor_public = (\<lambda>s. s), adaptor_verify = (\<lambda>_ _ _. True), adaptor_pre_sign = (\<lambda>_ _ _. []),
     adaptor_pre_verify = (\<lambda>_ _ _ _. True), adaptor_adapt = (\<lambda>_ _. []), adaptor_extract = (\<lambda>_ _. 0),
     asset_tag = (\<lambda>i. ucast i), oneofmany_prove = (\<lambda>_ _ _ _ _. None), oneofmany_verify = (\<lambda>_ _ _ _. True),
     sha512_scalar = (\<lambda>_. 1), scalar_bytes = id_bytes, zkpi_asset_scalar = (\<lambda>_. 0)\<rparr>"

definition sample_zkpi :: "(id32, unit) zkpi" where
  "sample_zkpi = \<lparr>venue_verify = (\<lambda>_ _ _. Ok ()), venue_settle = (\<lambda>v _ _. Ok v), wire_encode = i_rest,
     shared_account_of = (\<lambda>handle _. id_bytes handle), verify_threshold_range = (\<lambda>_ _ _ _. True),
     joint_prove_product = (\<lambda>_ _ _ _ _ _ _. Ok []), joint_prove_range = (\<lambda>_ _ _ _. Ok \<lparr>trp_bits = 64, trp_bytes = []\<rparr>),
     dvp_product_context = [1], dvp_securities_context = [2], dvp_cash_context = [3]\<rparr>"

definition sample_product :: "(bytes, id32, id32, unit) product_ext" where
  "sample_product = \<lparr>px_facility = sample_facility, px_credit = sample_credit, px_prims = sample_prims, px_zkpi = sample_zkpi,
     px_verify_typed = (\<lambda>_ _ _. Ok ()), px_typed_encode = (\<lambda>_. replicate 19 9),
     px_venue_key = (\<lambda>_. \<lparr>ped_g = 1, ped_h = 0\<rparr>), px_amount_bits = (\<lambda>_. 64),
     px_direction = (\<lambda>d. case d of TakerBuys \<Rightarrow> 1 | TakerSells \<Rightarrow> 2), px_hash_to_point = (\<lambda>_. 11),
     px_mandate_direction = (\<lambda>d. case d of MandateTakerBuys \<Rightarrow> 1 | MandateTakerSells \<Rightarrow> 2),
     px_maker_verify = (\<lambda>_ _ _. Ok ()), px_maker_digest = (\<lambda>_. Ok 41), px_taker_verify = (\<lambda>_ _ _. Ok ()),
     px_taker_digest = (\<lambda>_. Ok 42)\<rparr>"

definition sample_verifier :: "(unit, unit) verifier_ext" where
  "sample_verifier = \<lparr>vx_frost_deserialize = (\<lambda>_. Some ()), vx_frost_serialize = (\<lambda>_. Some [1]),
     vx_validate_committee = (\<lambda>_ _. Ok ()), vx_policy_digest = (\<lambda>_. Ok 1), vx_policy_to_vec = (\<lambda>_. [1]),
     vx_policy_from_slice = (\<lambda>_. None), vx_venue_new = (\<lambda>_ _ _ _. ()), vx_require_pq_committee = (\<lambda>v _. Ok v),
     vx_require_threshold_ranges = (\<lambda>v. v)\<rparr>"

definition sample_ext :: "(bytes, id32, id32, unit, unit) settlement_ext" where
  "sample_ext = \<lparr>sx_product = sample_product, sx_verifier = sample_verifier, sx_threshold_digest = (\<lambda>_. id_bytes 1),
     sx_is_threshold = (\<lambda>_. False), sx_quote_proof_digest = (\<lambda>_. Some 1), sx_price_bits = (\<lambda>_. 64),
     sx_verify_price_limit = (\<lambda>_ _ _ _ _ _ _. Ok ()), sx_price_limit_digest = (\<lambda>_ _ _ _. 1)\<rparr>"

lemma sample_parts [simp]:
  "sx_product sample_ext = sample_product" "sx_verifier sample_ext = sample_verifier"
  "px_facility sample_product = sample_facility" "px_credit sample_product = sample_credit"
  "px_prims sample_product = sample_prims" "px_zkpi sample_product = sample_zkpi" "fx_gov sample_facility = sample_gov"
  "ce_decompress sample_credit = Some" "ce_range_verify sample_credit = (\<lambda>_ _ _ _. True)"
  by (simp_all add: sample_ext_def sample_product_def sample_facility_def sample_credit_def)

lemma sample_laws: "receipt_laws sample_facility sample_config"
  by (auto simp: receipt_laws_def sample_facility_def sample_unwire_wire sample_gov_def)

lemma be_nat_id_bytes: "of_nat (be_nat (id_bytes i)) = i"
  using unat_bound [of i] by (simp add: id_bytes_def be_nat_nat_be)

lemma sample_decode_id [simp]: "sample_decode (id_bytes i) = Some i"
  by (simp add: sample_decode_def be_nat_id_bytes)

lemma sample_encoding: "ristretto_encoding sample_prims"
  by (auto simp: ristretto_encoding_def sample_prims_def intro!: injI dest: arg_cong [of _ _ sample_decode])

section \<open>Approvals and roots\<close>

definition sample_root :: id32 where
  "sample_root = 21299"

definition sample_approval :: "id32 \<Rightarrow> quorum_approval" where
  "sample_approval st = \<lparr>qa_statement = st, qa_signer_epoch = 1,
     qa_suite = \<lparr>suite_id = Ed25519MlDsa65, suite_version = 1\<rparr>,
     qa_committee_digest = qz_committee_digest demo_committee, qa_domain = lit ''chain-a'', qa_before_root = sample_root,
     qa_approvals = [
       \<lparr>na_node_id = lit ''b'', na_signature = replicate 33 2 @ signing_body demo_committee st sample_root (lit ''b'')\<rparr>,
       \<lparr>na_node_id = lit ''a'', na_signature = replicate 33 1 @ signing_body demo_committee st sample_root (lit ''a'')\<rparr>]\<rparr>"

lemma sample_approval_verifies:
  "quorum_verify sample_gov (quorum_at demo_committee 100) st sample_root (sample_approval st)"
proof -
  have "qz_nodes demo_committee = demo_nodes" "qz_policy demo_committee = None" by (simp_all add: demo_committee_def)
  then have "approvals_verify sample_gov (quorum_at demo_committee 100) 100 st sample_root {} (qa_approvals (sample_approval st))"
    by (simp add: sample_approval_def demo_nodes_simps signature_verifies_def sample_gov_def demo_gov_def demo_signer_def
        verifying_key_def lit_def)
  moreover have "qa_suite (sample_approval st) = expected_suite sample_gov (qz_policy demo_committee)"
    by (simp add: sample_approval_def demo_committee_def expected_suite_def sample_gov_def demo_gov_def)
  ultimately show ?thesis
    by (simp add: quorum_verify_def) (simp add: sample_approval_def demo_committee_def demo_nodes_simps)
qed

text \<open>The tables whose integer columns a root reads, all within range.\<close>

definition columns_ok :: "facility_db \<Rightarrow> bool" where
  "columns_ok db \<longleftrightarrow>
     list_all (\<lambda>r. ac_sequence r \<le> max_unix_time) (bt_values (db_accounts db)) \<and>
     list_all (\<lambda>r. cf_valid_from r \<le> max_unix_time \<and> cf_valid_until r \<le> max_unix_time \<and> cf_sequence r \<le> max_unix_time)
       (bt_values (db_credit_facilities db)) \<and>
     list_all (\<lambda>r. ch_expires_at r \<le> max_unix_time \<and> ch_created_sequence r \<le> max_unix_time \<and>
       ch_updated_sequence r \<le> max_unix_time) (bt_values (db_credit_holds db)) \<and>
     list_all (\<lambda>r. rb_direction r \<le> max_unix_time \<and> rb_policy_version r \<le> max_unix_time \<and>
       rb_admission_slot r \<le> max_unix_time \<and> rb_admission_epoch r \<le> max_unix_time \<and>
       rb_admission_sequence r \<le> max_unix_time) (bt_values (db_bindings db)) \<and>
     list_all (\<lambda>r. re_source_before_sequence r \<le> max_unix_time) (bt_values (db_escrows db)) \<and>
     list_all (\<lambda>r. nf_deadline r \<le> max_unix_time) (bt_values (db_nullifiers db)) \<and>
     db_committees db = bt_empty \<and> db_batches db = bt_empty \<and> db_entries db = bt_empty \<and> db_verifiers db = bt_empty"

lemma hash_parts_all:
  assumes "\<And>p. p \<in> set ps \<Longrightarrow> \<exists>b. p = Ok b"
  shows "\<exists>b. hash_parts ps = Ok b"
proof -
  have "\<exists>b. try_fold (\<lambda>acc p. and_then p (\<lambda>b. Ok (acc @ b))) acc ps = Ok b" for acc
    using assms
  proof (induction ps arbitrary: acc)
    case (Cons p ps)
    from Cons.prems [of p] obtain b where "p = Ok b" by auto
    with Cons show ?case by simp
  qed simp
  then show ?thesis by (simp add: hash_parts_def)
qed

lemma hash_parts_Cons_Ok: "hash_parts (Ok b # ps) = and_then (hash_parts ps) (\<lambda>bs. Ok (b @ bs))"
proof -
  have "try_fold (\<lambda>acc p. and_then p (\<lambda>b. Ok (acc @ b))) (x @ y) ps =
      and_then (try_fold (\<lambda>acc p. and_then p (\<lambda>b. Ok (acc @ b))) y ps) (\<lambda>bs. Ok (x @ bs))" for x y
  proof (induction ps arbitrary: y)
    case (Cons p ps) then show ?case by (cases p) simp_all
  qed simp
  from this [of b "[]"] show ?thesis by (simp add: hash_parts_def)
qed

lemma sample_root_ok:
  assumes "columns_ok db"
  shows "calculate_root sample_facility db = Ok sample_root"
proof -
  let ?ps = "map (asset_part sample_facility) (entries (db_assets db)) @ map account_part (entries (db_accounts db)) @
       map (guarantor_part sample_facility) (entries (db_guarantors db)) @
       map credit_facility_part (entries (db_credit_facilities db)) @ map credit_hold_part (entries (db_credit_holds db)) @
       map binding_part (entries (db_bindings db)) @ map escrow_part (entries (db_escrows db)) @
       map nullifier_part (entries (db_nullifiers db)) @ map pair_part (entries (db_rfq_nullifiers db)) @
       map committee_part (entries (db_committees db)) @ map batch_part (entries (db_batches db)) @
       map entry_part (entries (db_entries db)) @ map (verifier_part sample_facility) (entries (db_verifiers db)) @
       map pair_part (entries (db_operations db))"
  have "\<exists>b. p = Ok b" if "p \<in> set ?ps" for p
    using that assms
    by (auto simp: columns_ok_def list_all_iff bt_values_def bt_empty.rep_eq asset_part_def account_part_def guarantor_part_def
        credit_facility_part_def credit_hold_part_def binding_part_def escrow_part_def nullifier_part_def pair_part_def Let_def
        id_part_def u64_part_def text_part_def column_def hash_parts_Cons_Ok hash_parts_def [of "[]"])
  then have "\<exists>b. hash_parts ?ps = Ok b" by (rule hash_parts_all)
  then obtain b where "hash_parts ?ps = Ok b" ..
  then show ?thesis
    by (simp add: calculate_root_def sample_gov_def sample_hash_def sample_root_def ascii_def nth_append)
qed

lemma sample_authorize [simp]:
  "columns_ok db \<Longrightarrow> authorize sample_facility sample_config (Some 100) db st (sample_approval st) = Ok sample_root"
  by (simp add: authorize_Ok sample_root_ok sample_config_def sample_approval_verifies)

section \<open>An account and a line\<close>

definition written_ok :: "(facility_db \<times> 'a) db_result \<Rightarrow> facility_db \<Rightarrow> bool" where
  "written_ok r db \<longleftrightarrow> (\<exists>x. r = Ok (db, x))"

definition sample_asset :: asset_definition where
  "sample_asset = \<lparr>ad_asset_id = 1, ad_code = lit ''JPY'', ad_kind = Cash, ad_decimals = 0, ad_terms_digest = 4\<rparr>"

definition sample_opening :: account_opening where
  "sample_opening = \<lparr>op_handle = 5, op_asset_id = 1, op_commitment = 100, op_issuance_nonce = 1\<rparr>"

definition sample_guarantor :: guarantor_definition where
  "sample_guarantor = \<lparr>gd_guarantor_id = 2, gd_kind = Bank, gd_name = lit ''bank'', gd_public_key = 1,
     gd_pq_public_key = replicate 1952 0, gd_risk_policy_digest = 9\<rparr>"

definition sample_grant :: credit_facility_grant where
  "sample_grant = \<lparr>cg_operation_id = 10, cg_facility_id = 3, cg_guarantor_id = 2, cg_beneficiary = 12, cg_rail_asset_id = 1,
     cg_cap = 100, cg_available = 100, cg_held = 0, cg_outstanding = 0, cg_collateral = 1, cg_risk_policy_digest = 9,
     cg_relation_proof_digest = 1, cg_valid_from = 50, cg_valid_until = 200, cg_nonce = 1,
     cg_guarantor_signature = replicate 3373 0\<rparr>"

definition sample_db1 :: facility_db where
  "sample_db1 = empty_db\<lparr>db_assets := bt_insert 1 \<lparr>as_code = lit ''JPY'', as_kind = asset_kind_str Cash, as_decimals = 0,
     as_terms_digest = 4, as_active = True, as_statement = 16689\<rparr> bt_empty\<rparr>"

definition sample_db2 :: facility_db where
  "sample_db2 = sample_db1\<lparr>db_accounts := bt_insert 5 \<lparr>ac_asset_id = 1, ac_commitment = 100, ac_sequence = 0,
     ac_opening_statement = 16698\<rparr> bt_empty\<rparr>"

definition sample_db3 :: facility_db where
  "sample_db3 = sample_db2\<lparr>db_guarantors := bt_insert 2 \<lparr>gr_kind = guarantor_kind_str Bank, gr_name = lit ''bank'',
     gr_public_key = 1, gr_pq_public_key = replicate 1952 0, gr_risk_policy_digest = 9, gr_active = True,
     gr_statement = 18255\<rparr> bt_empty\<rparr>"

definition sample_db4 :: facility_db where
  "sample_db4 = sample_db3\<lparr>db_credit_facilities := bt_insert 3 (granted_row sample_grant 17223) bt_empty,
     db_scopes := bt_insert (2, 12, 1) 3 bt_empty,
     db_credit_operations := bt_insert 10 \<lparr>co_facility_id = 3, co_kind = lit ''grant'', co_statement = 17223\<rparr> bt_empty,
     db_operations := bt_insert 10 17223 bt_empty\<rparr>"

lemma max_unix_simps [simp]:
  "(0 :: u64) \<le> max_unix_time" "(1 :: u64) \<le> max_unix_time" "numeral n \<le> max_unix_time \<longleftrightarrow> unat (numeral n :: u64) \<le> 2 ^ 63 - 1"
  "max_unix_time < numeral n \<longleftrightarrow> 2 ^ 63 - 1 < unat (numeral n :: u64)"
  by (simp_all add: max_unix_time_def word_le_nat_alt word_less_nat_alt)

lemma sample_hash_simps [simp]:
  "gc_sha256 sample_gov = sample_hash" "canonical sample_gov v = []"
  "sample_hash (ascii ''QOMM:DEFMI:ASSET:v1'') = 16689" "sample_hash (ascii ''QOMM:DEFMI:ACCOUNT:v1'') = 16698"
  "sample_hash (ascii ''QOMM:DEFMI:GUARANTOR:v1'') = 18255" "sample_hash (ascii ''QOMM:DEFMI:CREDIT:GRANT:v1'') = 17223"
  "sample_hash (ascii ''QOMM:DEFMI:CREDIT:TRANSITION:v1'') = 17236"
  "sample_hash (ascii ''QOMM:DEFMI:CREDIT:RELATION:PROOF:v1'' @ bs) = 17234"
  "sample_hash (ascii ''QOMM:DEFMI:BOUND-RESERVATION:v1'') = 16965"
  "sample_hash (ascii ''QOMM:DEFMI:RESERVATION-ESCROW:v1'') = 21076"
  "sample_hash (ascii ''QOMM:DEFMI:PRODUCT-RELEASE:v1'') = 20525"
  by (simp_all add: sample_gov_def canonical_def demo_gov_def sample_hash_def ascii_def nth_append)

lemma values_of_empty [simp]: "bt_values bt_empty = []"
  by (simp add: bt_values_def bt_empty.rep_eq)

lemma set_bt_values_insert_new:
  "bt_get m k = None \<Longrightarrow> set (bt_values (bt_insert k v m)) = insert v (set (bt_values m))"
  by (auto simp: bt_values_iff set_eq_iff split: if_splits) (metis option.distinct(1))

lemma values_of_single [simp]: "bt_values (bt_insert k v bt_empty) = [v]"
  by (simp add: bt_values_def bt_insert.rep_eq bt_empty.rep_eq)

lemmas sample_db_simps = sample_db1_def sample_db2_def sample_db3_def sample_db4_def empty_db_def

lemmas sample_defs = sample_asset_def sample_opening_def sample_guarantor_def sample_grant_def granted_row_def
  columns_ok_def body_digest_def nonzero_def asset_active_def jobject_def jnz_def jid_def jnum_def jstr_def

lemma lit_nul [simp]: "0 \<notin> set (lit ''JPY'')" "0 \<notin> set (lit ''bank'')" "lit ''JPY'' \<noteq> []" "lit ''bank'' \<noteq> []"
  "length (as_bytes (lit ''bank'')) = 4"
  by (simp_all add: lit_def as_bytes_def utf8_char_def)

lemma sample_gov_simps [simp]: "gc_ed25519_key sample_gov k" "\<not> fx_ed25519_weak sample_facility k"
  "fx_ed25519_verify_strict sample_facility k m sg" "fx_ml_dsa_65_verify sample_facility u k m sg"
  by (simp_all add: sample_gov_def sample_facility_def demo_gov_def)

lemma sample_register_asset:
  "register_asset sample_facility sample_config (Some 100) sample_asset (sample_approval 16689) empty_db = Ok sample_db1"
  by (simp add: register_asset_def asset_statement_def asset_body_def sample_defs sample_db_simps)

lemma sample_open_account:
  "open_account sample_facility sample_config (Some 100) sample_opening (sample_approval 16698) sample_db1 = Ok sample_db2"
  by (simp add: FacilitySettle.open_account_def account_statement_def account_body_def sample_defs sample_db_simps)

lemma sample_register_guarantor:
  "register_guarantor sample_facility sample_config (Some 100) sample_guarantor (sample_approval 18255) sample_db2 = Ok sample_db3"
  by (simp add: register_guarantor_def guarantor_statement_def guarantor_body_def sample_defs sample_db_simps)

lemma sample_grant_credit:
  "written_ok (grant_credit_facility sample_facility sample_config (Some 100) 100 sample_grant (sample_approval 17223) sample_db3) sample_db4"
  by (simp add: written_ok_def grant_credit_facility_def grant_statement_def grant_body_def insert_grant_def verify_guarantor_signature_def
      insert_credit_operation_def operation_trigger_def credit_operation_def load_required_def load_credit_facility_def column_def
      facility_status_parse_def sample_defs sample_db_simps)

section \<open>A maker's reservation\<close>

definition sample_hold :: credit_facility_transition where
  "sample_hold = \<lparr>ct_operation_id = 20, ct_facility_id = 3, ct_hold_id = 8, ct_kind = Hold, ct_query = 40, ct_amount = 30,
     ct_consumed = 0, ct_refund = 0, ct_before_available = 100, ct_after_available = 70, ct_before_held = 0, ct_after_held = 30,
     ct_before_outstanding = 0, ct_after_outstanding = 0, ct_before_sequence = 0, ct_expires_at = 150,
     ct_settlement_digest = 0, ct_relation_proof_digest = 17234\<rparr>"

definition sample_context :: "id32 typed_context" where
  "sample_context = \<lparr>tx_operation = OpReserve, tx_scope = MakerScope, tx_direction = TakerBuys, tx_venue_id = 1, tx_defmi_id = 1,
     tx_reserve_handle = 11, tx_maker_handle = 13, tx_taker_handle = 14, tx_maker_reservation_id = 8,
     tx_maker_reservation_sequence = 0, tx_maker_reserve_receipt_digest = 0, tx_taker_reservation_id = 0,
     tx_taker_reservation_sequence = 0, tx_taker_reserve_receipt_digest = 0, tx_maker_policy_digest = 40,
     tx_maker_mandate_digest = 41, tx_taker_mandate_digest = 0, tx_rfq_nullifier = 0, tx_quote_proof_digest = 0,
     tx_market_statement_digest = 0, tx_before_state_root = sample_root\<rparr>"

definition sample_payment :: "id32 instruction" where
  "sample_payment = \<lparr>i_payer_handle = 5, i_payee_handle = 6, i_asset_commitment = 0, i_amount_commitment = 30,
     i_price_commitment = 0, i_nullifier = id_bytes 50, i_deadline = 150, i_rest = []\<rparr>"

definition sample_escrow :: reservation_escrow where
  "sample_escrow = \<lparr>rx_source_handle = 5, rx_escrow_handle = 6, rx_asset_id = 1, rx_amount = 30, rx_source_before = 100,
     rx_source_after = 70, rx_source_before_sequence = 0, rx_proof_digest = 1\<rparr>"

definition sample_authorization :: reservation_authorization where
  "sample_authorization = \<lparr>ra_role = Maker, ra_entity = 12, ra_asset_id = 1, ra_direction = 1, ra_authorization_digest = 40,
     ra_mandate_digest = 41, ra_typed_reserve_digest = 2313, ra_reserve_nullifier = 50, ra_asset_link_proof_digest = 1,
     ra_limit_price = 0, ra_escrow_digest = 21076, ra_rfq_nullifier = 0, ra_policy_version = 1, ra_admission_ticket_id = 0,
     ra_admission_slot = 0, ra_admission_receipt_digest = 0, ra_admission_epoch = 0, ra_admission_sequence = 0,
     ra_admission_batch_id = 0\<rparr>"

definition sample_reservation :: "(id32, id32, unit) reservation_execution" where
  "sample_reservation = \<lparr>ex_transition = sample_hold, ex_relation_proof = \<lparr>rp_state_range = [1], rp_split_range = [1]\<rparr>,
     ex_authorization = sample_authorization, ex_escrow = sample_escrow,
     ex_typed = \<lparr>ti_payment = sample_payment, ti_context = sample_context, ti_rest = []\<rparr>, ex_venue = (),
     ex_asset_link = \<lparr>al_announcement = 0, al_response = 0\<rparr>, ex_admission = None, ex_approval = sample_approval 16965,
     ex_now = 100\<rparr>"

definition sample_transfer :: "id32 transfer" where
  "sample_transfer = \<lparr>t_amount_commitment = 30, t_amount_range = None, t_remainder_commitment = 70, t_remainder_range = [],
     t_tag = None\<rparr>"

definition sample_mandate :: maker_mandate where
  "sample_mandate = \<lparr>mm_entity = 12, mm_asset_id = 1, mm_direction = MandateTakerBuys, mm_policy_digest = 40,
     mm_policy_version = 1, mm_reserve_id = 8, mm_maximum_amount = 30, mm_venue_id = 1, mm_defmi_id = 1,
     mm_maker_handle = 13, mm_rest = []\<rparr>"

definition sample_held :: credit_hold_row where
  "sample_held = \<lparr>ch_facility_id = 3, ch_query = 40, ch_amount = 30, ch_expires_at = 150, ch_status = lit ''active'',
     ch_settlement_digest = 0, ch_created_sequence = 1, ch_updated_sequence = 1\<rparr>"

definition sample_db5 :: facility_db where
  "sample_db5 = sample_db4\<lparr>
     db_credit_holds := bt_insert 8 sample_held bt_empty,
     db_credit_facilities := bt_insert 3 ((granted_row sample_grant 17223)\<lparr>cf_available := 70, cf_held := 30, cf_outstanding := 0,
       cf_sequence := 1\<rparr>) bt_empty,
     db_credit_operations := bt_insert 20 \<lparr>co_facility_id = 3, co_kind = lit ''bound_hold'', co_statement = 16965\<rparr>
       (db_credit_operations sample_db4),
     db_operations := bt_insert 20 16965 (db_operations sample_db4),
     db_bindings := bt_insert 8 (binding_of sample_authorization 0 16965) bt_empty,
     db_accounts := bt_insert 5 \<lparr>ac_asset_id = 1, ac_commitment = 70, ac_sequence = 1, ac_opening_statement = 16698\<rparr> bt_empty,
     db_escrows := bt_insert 8 (escrow_row_of sample_escrow) bt_empty\<rparr>"

lemmas sample_reserve_defs = sample_reservation_def sample_hold_def sample_context_def sample_payment_def sample_escrow_def
  sample_authorization_def sample_transfer_def sample_mandate_def

lemma sample_ext_simps [simp]:
  "px_maker_verify sample_product m i n = Ok ()" "px_maker_digest sample_product m = Ok 41"
  "px_mandate_direction sample_product MandateTakerBuys = 1" "px_direction sample_product TakerBuys = 1"
  "px_verify_typed sample_product v ti n = Ok ()" "px_typed_encode sample_product ti = replicate 19 9"
  "px_venue_key sample_product v = \<lparr>ped_g = 1, ped_h = 0\<rparr>" "px_amount_bits sample_product v = 64"
  "reserve_handle_for sample_product f = 11" "encodes sample_product x c \<longleftrightarrow> x = c" "to_point sample_product c = Some c"
  "account_of sample_zkpi x rail = id_bytes x" "transfer_digest sample_prims tr = id_bytes 1"
  "handle32 (id_bytes x) e = Ok x" "range_verify sample_prims g t pf cs bits" "typed_digest sample_product ti = 2313"
proof -
  have "id_bytes x = id_bytes c \<Longrightarrow> x = c" for x c using sample_decode_id [of x] sample_decode_id [of c] by simp
  then show "encodes sample_product x c \<longleftrightarrow> x = c" by (auto simp: encodes_def sample_prims_def)
qed (simp_all add: sample_product_def reserve_handle_for_def to_point_def sample_prims_def account_of_def sample_zkpi_def
    transfer_digest_def handle32_def be_nat_id_bytes typed_digest_def sample_hash_def)

lemma sample_linked: "linked sample_product v a \<lparr>ti_payment = sample_payment, ti_context = c, ti_rest = r\<rparr> \<lparr>al_announcement = 0, al_response = 0\<rparr> 1"
  by (simp add: linked_def asset_link_verify_def asset_link_digest_def sample_payment_def sample_prims_def Let_def)

lemma sample_relation: "relation_proof_verify sample_facility sample_credit \<lparr>rp_state_range = [1], rp_split_range = [1]\<rparr> sample_hold = Ok ()"
  by (simp add: relation_proof_verify_def relation_proof_digest_def verify_credit_relation_equations_def point_def
      transition_context_def transition_fields_def sample_hold_def sample_defs)

lemma sample_maker_checked: "verify_maker_reservation sample_product sample_reservation sample_mandate [] = Ok ()"
  by (simp add: verify_maker_reservation_def sample_reserve_defs)

lemma sample_escrow_checked: "verify_reservation_escrow sample_product sample_reservation sample_transfer sample_db4 = Ok ()"
  by (simp add: verify_reservation_escrow_def stored_asset_kind_def asset_kind_parse_def escrow_statement_def escrow_body_def Ledger.open_account_def
      ledger_new_def check_transfer_def u64_max_def Let_def sample_reserve_defs sample_defs sample_db_simps)

lemma sample_reserve_checks: "reserve_checks sample_product sample_reservation = Ok ()"
  using sample_relation sample_linked
  by (simp add: reserve_checks_def transition_body_def transition_fields_def escrow_statement_def escrow_body_def admission_matches_def
      mandate_matches_def u64_max_def Let_def sample_reserve_defs sample_defs)

lemma sample_authorization_statement: "authorization_statement sample_product sample_authorization sample_hold = Ok 16965"
  by (simp add: authorization_statement_def authorization_body_def role_fields_ok_def transition_statement_def transition_body_def
      transition_fields_def u64_max_def sample_reserve_defs sample_defs)

lemma sample_require_quorum: "require_quorum sample_facility sample_config (Some 100) st sample_root (sample_approval st) = Ok ()"
  by (simp add: require_quorum_def sample_config_def sample_approval_verifies)

lemmas sample_credit_defs = apply_credit_transition_def load_required_def load_credit_facility_def facility_status_parse_def
  swap_facility_def insert_credit_operation_def operation_trigger_def credit_operation_def column_def

lemma sample_root_db4: "calculate_root sample_facility sample_db4 = Ok sample_root"
  by (rule sample_root_ok) (simp add: sample_defs sample_db_simps)

lemma sample_written:
  "written_ok (write_reservation sample_product sample_reservation 16965 sample_db4) sample_db5"
  by (simp add: written_ok_def write_reservation_def open_hold_def insert_binding_def insert_escrow_def set_commitment_def
      binding_of_def escrow_row_of_def sample_held_def Let_def sample_credit_defs sample_db5_def sample_reserve_defs sample_defs sample_db_simps)

lemma sample_reserve:
  "written_ok (reserve_maker sample_product sample_config (Some 100) sample_reservation sample_transfer sample_mandate [] sample_db4) sample_db5"
proof -
  have "sample_reservation\<lparr>ex_admission := None\<rparr> = sample_reservation" by (simp add: sample_reservation_def)
  moreover have "ex_transition sample_reservation = sample_hold" "ex_authorization sample_reservation = sample_authorization"
    "ex_approval sample_reservation = sample_approval 16965" by (simp_all add: sample_reservation_def)
  moreover have "credit_operation sample_db4 (ct_operation_id sample_hold) 16965 = Ok False"
    by (simp add: credit_operation_def sample_hold_def sample_db_simps)
  moreover have "tx_before_state_root (ti_context (ex_typed sample_reservation)) = sample_root" by (simp add: sample_reserve_defs)
  moreover have "\<exists>f. load_required sample_db4 (ct_facility_id sample_hold) e = Ok f \<and> fs_beneficiary f = 12 \<and> fs_rail_asset_id f = 1" for e
    by (simp add: sample_credit_defs sample_hold_def sample_defs sample_db_simps)
  moreover have "one_use sample_authorization sample_db4 = Ok ()" by (simp add: one_use_def sample_authorization_def)
  moreover have "source_fresh (ex_escrow sample_reservation) sample_db4 = Ok ()"
    by (simp add: source_fresh_def column_def sample_reserve_defs sample_db_simps)
  moreover have "ra_entity sample_authorization = 12" "ra_asset_id sample_authorization = 1" by (simp_all add: sample_authorization_def)
  ultimately show ?thesis
    using sample_written sample_maker_checked sample_escrow_checked sample_reserve_checks sample_authorization_statement
      sample_root_db4 sample_require_quorum [of 16965]
    by (auto simp: written_ok_def reserve_maker_def reserve_for_authorization_def Let_def)
qed

section \<open>Releasing it\<close>

definition sample_unhold :: credit_facility_transition where
  "sample_unhold = sample_hold\<lparr>ct_operation_id := 30, ct_kind := Release, ct_before_available := 70, ct_after_available := 100,
     ct_before_held := 30, ct_after_held := 0, ct_before_sequence := 1\<rparr>"

definition sample_db6 :: facility_db where
  "sample_db6 = sample_db5\<lparr>
     db_credit_holds := bt_insert 8 (sample_held\<lparr>ch_status := lit ''released'', ch_updated_sequence := 2\<rparr>) bt_empty,
     db_credit_facilities := bt_insert 3 ((granted_row sample_grant 17223)\<lparr>cf_sequence := 2\<rparr>) bt_empty,
     db_credit_operations := bt_insert 30 \<lparr>co_facility_id = 3, co_kind = lit ''release'', co_statement = 17236\<rparr>
       (db_credit_operations sample_db5),
     db_operations := bt_insert 30 17236 (db_operations sample_db5)\<rparr>"

lemma sample_root_db5: "calculate_root sample_facility sample_db5 = Ok sample_root"
  by (rule sample_root_ok) (simp add: sample_db5_def sample_held_def binding_of_def escrow_row_of_def sample_reserve_defs sample_defs
      sample_db_simps)

lemma sample_unhold_relation:
  "relation_proof_verify sample_facility sample_credit \<lparr>rp_state_range = [1], rp_split_range = [1]\<rparr> sample_unhold = Ok ()"
  by (simp add: relation_proof_verify_def relation_proof_digest_def verify_credit_relation_equations_def point_def
      transition_context_def transition_fields_def sample_unhold_def sample_hold_def sample_defs)

lemma sample_unhold_statement: "transition_statement sample_facility sample_unhold = Ok 17236"
  by (simp add: transition_statement_def transition_body_def transition_fields_def u64_max_def sample_unhold_def sample_hold_def sample_defs)

lemma sample_unhold_applied:
  "written_ok (apply_credit_transition sample_unhold 17236 (lit ''release'') 160 sample_db5) sample_db6"
  by (simp add: written_ok_def close_hold_def sample_unhold_def sample_credit_defs sample_db6_def sample_db5_def sample_held_def
      sample_reserve_defs sample_defs sample_db_simps set_bt_values_insert_new)

lemma sample_transition:
  "written_ok (transition_credit_facility sample_facility sample_credit sample_config (Some 100) 160 sample_unhold
     \<lparr>rp_state_range = [1], rp_split_range = [1]\<rparr> (sample_approval 17236) sample_db5) sample_db6"
proof -
  have "credit_operation sample_db5 (ct_operation_id sample_unhold) 17236 = Ok False"
    by (simp add: credit_operation_def sample_unhold_def sample_db5_def sample_db_simps)
  moreover have "credit_transition_str (ct_kind sample_unhold) = lit ''release''" by (simp add: sample_unhold_def)
  moreover obtain j where "transition_body sample_unhold = Ok j" using sample_unhold_statement by (auto simp: transition_statement_def)
  ultimately show ?thesis
    using sample_unhold_relation sample_unhold_statement sample_unhold_applied sample_root_db5 sample_require_quorum [of 17236]
    by (auto simp: written_ok_def transition_credit_facility_def authorize_def)
qed

text \<open>The same hold released together with its escrow.\<close>

definition sample_release :: product_release_order where
  "sample_release = \<lparr>pr_transition = sample_unhold, pr_role = Maker, pr_reserve_receipt_digest = 16965,
     pr_typed_instruction_digest = 2313, pr_release_nullifier = 60, pr_release_deadline = 180, pr_asset_id = 1,
     pr_asset_link_proof_digest = 1, pr_refund_leg = \<lparr>sl_handle = 5, sl_asset_id = 1, sl_before = 70, sl_after = 100,
     sl_before_sequence = 1\<rparr>\<rparr>"

definition sample_typed_release :: "id32 typed_instruction" where
  "sample_typed_release = \<lparr>ti_payment = sample_payment\<lparr>i_payee_handle := 5, i_nullifier := id_bytes 60, i_deadline := 180\<rparr>,
     ti_context = sample_context\<lparr>tx_operation := OpRelease, tx_maker_reservation_sequence := 1,
       tx_maker_reserve_receipt_digest := 16965\<rparr>, ti_rest = []\<rparr>"

definition sample_env :: settle_env where
  "sample_env = \<lparr>ev_wall = Some 100, ev_committed_at_ns = 1, ev_elapsed_ns = 1, ev_bytes_before = 1, ev_bytes_after = 1\<rparr>"

lemmas sample_release_defs = sample_release_def sample_typed_release_def sample_unhold_def sample_reserve_defs

lemma sample_release_body: "\<exists>j. release_body sample_release = Ok j"
  by (simp add: release_body_def leg_body_def transition_body_def transition_fields_def u64_max_def sample_release_defs sample_defs)

lemma sample_release_checks:
  "release_checks sample_product sample_release \<lparr>rp_state_range = [1], rp_split_range = [1]\<rparr> sample_typed_release ()
     \<lparr>al_announcement = 0, al_response = 0\<rparr> 160 sample_db5 = Ok ()"
proof -
  have "linked sample_product () 1 sample_typed_release \<lparr>al_announcement = 0, al_response = 0\<rparr> 1"
    by (simp add: linked_def asset_link_verify_def asset_link_digest_def sample_typed_release_def sample_payment_def sample_prims_def Let_def)
  moreover have "stored_asset_kind sample_db5 1 = Ok Cash"
    by (simp add: stored_asset_kind_def asset_kind_parse_def sample_db5_def sample_db_simps)
  moreover have "pr_transition sample_release = sample_unhold" by (simp add: sample_release_def)
  ultimately show ?thesis
    using sample_release_body sample_unhold_relation unfolding release_checks_def
    by (auto simp: Let_def) (auto simp: sample_release_defs)
qed

lemma sample_release_applied:
  "\<exists>db snap. apply_credit_transition sample_unhold 20525 (lit ''product_release'') 160 sample_db5 = Ok (db, snap) \<and>
     db_nullifiers db = bt_empty \<and> db_receipts db = [] \<and> db_accounts db = db_accounts sample_db5 \<and> columns_ok db \<and>
     db_escrows db = db_escrows sample_db5 \<and> bt_get (db_operations db) 30 = Some 20525"
  by (simp add: close_hold_def sample_unhold_def sample_credit_defs sample_db5_def sample_held_def binding_of_def escrow_row_of_def
      sample_reserve_defs sample_defs sample_db_simps set_bt_values_insert_new)

lemma sample_append:
  assumes "columns_ok db" "db_receipts db = []" "bt_get (db_operations db) i = Some st"
  shows "\<exists>db' r. append_receipt sample_facility ev i nf st root n db = Ok (db', r)"
  using assms by (simp add: append_receipt_def sample_root_ok insert_receipt_def operation_trigger_def Let_def)
    (simp add: sample_facility_def)

lemma sample_write_release:
  "\<exists>db' r. write_release sample_facility sample_env 160 sample_release 20525 sample_root n sample_db5 = Ok (db', r)"
proof -
  obtain db snap where db: "apply_credit_transition sample_unhold 20525 (lit ''product_release'') 160 sample_db5 = Ok (db, snap)"
    "db_nullifiers db = bt_empty" "db_receipts db = []" "db_accounts db = db_accounts sample_db5" "columns_ok db"
    "db_escrows db = db_escrows sample_db5" "bt_get (db_operations db) 30 = Some 20525"
    using sample_release_applied by blast
  have acc: "db_accounts db = bt_insert 5 \<lparr>ac_asset_id = 1, ac_commitment = 70, ac_sequence = 1, ac_opening_statement = 16698\<rparr> bt_empty"
    and esc: "db_escrows db = bt_insert 8 (escrow_row_of sample_escrow) bt_empty"
    using db(4,6) by (simp_all add: sample_db5_def)
  let ?db = "close_escrow (lit ''released'') 20525 8 db"
  let ?db2 = "?db\<lparr>db_nullifiers := bt_insert 60 \<lparr>nf_deadline = 180, nf_statement = 20525\<rparr> bt_empty\<rparr>"
  have close: "?db = db\<lparr>db_escrows := bt_insert 8 ((escrow_row_of sample_escrow)\<lparr>re_status := lit ''released'', re_settlement_digest := 20525\<rparr>) bt_empty\<rparr>"
    by (simp add: close_escrow_def esc escrow_row_of_def)
  then have spend: "spend_nullifier 60 180 20525 ?db = Ok ?db2" using db(2) by (simp add: spend_nullifier_def)
  have refund: "refund_account (pr_refund_leg sample_release) ?db2 = Ok (set_commitment 5 100 ?db2)"
    using acc close by (simp add: refund_account_def sample_release_def)
  have "columns_ok (set_commitment 5 100 ?db2)"
    using db(5) acc close by (simp add: columns_ok_def set_commitment_def escrow_row_of_def sample_escrow_def)
  then have "\<exists>db' r. append_receipt sample_facility sample_env 30 60 20525 sample_root n (set_commitment 5 100 ?db2) = Ok (db', r)"
    by (rule sample_append) (use db(3,7) acc close in \<open>simp_all add: set_commitment_def\<close>)
  moreover have "pr_transition sample_release = sample_unhold" "ct_hold_id sample_unhold = 8" "pr_release_nullifier sample_release = 60"
    "pr_release_deadline sample_release = 180" "ct_operation_id sample_unhold = 30" by (simp_all add: sample_release_def sample_unhold_def sample_hold_def)
  ultimately show ?thesis using db(1) spend refund by (simp add: write_release_def)
qed

lemma sample_released:
  "\<exists>db' r. release_reservation sample_product sample_config sample_env sample_release \<lparr>rp_state_range = [1], rp_split_range = [1]\<rparr>
     sample_typed_release () \<lparr>al_announcement = 0, al_response = 0\<rparr> (sample_approval 20525) 160 sample_db5 = Ok (db', r)"
proof -
  obtain j where body: "release_body sample_release = Ok j" using sample_release_body ..
  then have "release_statement sample_facility sample_release = Ok 20525" by (simp add: release_statement_def body_digest_def)
  moreover have "tx_before_state_root (ti_context sample_typed_release) = sample_root" by (simp add: sample_release_defs)
  moreover have "release_binding_ok sample_release (ti_context sample_typed_release) (binding_of sample_authorization 0 16965) = Ok ()"
    by (simp add: release_binding_ok_def binding_of_def sample_release_defs)
  moreover have "release_escrow_ok sample_release (escrow_row_of sample_escrow)"
    by (simp add: release_escrow_ok_def escrow_row_of_def sample_release_defs)
  moreover have "refund_fresh sample_release sample_db5 = Ok ()"
    by (simp add: refund_fresh_def column_def sample_db5_def sample_release_defs)
  moreover have "db_receipts sample_db5 = []" "db_nullifiers sample_db5 = bt_empty"
    "bt_get (db_bindings sample_db5) 8 = Some (binding_of sample_authorization 0 16965)"
    "bt_get (db_escrows sample_db5) 8 = Some (escrow_row_of sample_escrow)" by (simp_all add: sample_db5_def sample_db_simps)
  moreover have "ct_hold_id (pr_transition sample_release) = 8" "ct_expires_at (pr_transition sample_release) = 150"
    "pr_release_deadline sample_release = 180" "ev_wall sample_env = Some 100" by (simp_all add: sample_release_defs sample_env_def)
  ultimately show ?thesis
    using sample_release_checks body sample_root_db5 sample_require_quorum [of 20525] sample_write_release
    by (simp add: release_reservation_def release_product_reservation_inner_def)
qed

end
