(* ===== verification/FacilityHistory.thy ===== *)
theory FacilityHistory
  imports FacilityExample
begin

text \<open>
  Every history of the durable facility. \<open>facility_op\<close> has one constructor per public operation that
  writes to the database; an operation that fails is rolled back, so it leaves the database as it was.
  Shown for every history: the receipt chain verifies, credit lines balance against
  their live holds, admission lanes are consumed in order, and nothing that happened once
  is undone; products move value without creating any; a hold
  released around its escrow leaves the escrow locked for good.
\<close>

section \<open>Operations\<close>

datatype ('p, 's, 'v) facility_op =
    RegisterAsset "u64 option" asset_definition quorum_approval
  | OpenAccount "u64 option" account_opening quorum_approval
  | Settle settle_env u64 settlement_order quorum_approval
  | RegisterGuarantor "u64 option" guarantor_definition quorum_approval
  | GrantCredit "u64 option" u64 credit_facility_grant quorum_approval
  | TransitionCredit "u64 option" u64 credit_facility_transition relation_proof quorum_approval
  | AmendCredit "u64 option" u64 credit_facility_amendment amendment_proof quorum_approval
  | ControlCredit "u64 option" u64 credit_facility_control quorum_approval
  | RegisterCommittee "u64 option" u64 admission_committee_plan quorum_approval
  | RegisterBatch "u64 option" u64 admission_batch_plan "bytes list list" quorum_approval
  | AdvanceSlot "u64 option" u64 admission_slot_advance quorum_approval
  | RegisterVerifier "u64 option" u64 verifier_config quorum_approval
  | ReserveMaker "u64 option" "('p, 's, 'v) reservation_execution" "'p transfer" maker_mandate bytes
  | ReserveTaker "u64 option" "('p, 's, 'v) reservation_execution" "'p transfer" ordered_admission taker_mandate bytes
  | ReleaseReservation settle_env product_release_order relation_proof "'p typed_instruction" 'v
      "('p, 's) asset_link_proof" quorum_approval u64
  | SettleProduct settle_env "('p, 's, 'p dvp_package) product_settlement" 'v quorum_approval u64 "'s \<times> 's \<times> 's"
  | SettleProductThreshold settle_env "('p, 's, 'p threshold_package) product_settlement" 'v quorum_approval u64 "'s \<times> 's \<times> 's"
  | SettleBatch "u64 option" "id32 \<Rightarrow> settle_env" product_settlement_batch
      "('p, 's, 'p threshold_package) product_settlement list" 'v quorum_approval u64 "'s \<times> 's \<times> 's"

text \<open>The database an operation commits, or its error.\<close>

definition written :: "(facility_db \<times> 'a) db_result \<Rightarrow> facility_db db_result" where
  "written r = and_then r (\<lambda>(db, _). Ok db)"

lemma written_Ok [simp]: "written r = Ok db \<longleftrightarrow> (\<exists>x. r = Ok (db, x))"
  by (auto simp: written_def)

fun facility_exec ::
  "('g, 'p::ab_group_add, 's, 'v, 'k) settlement_ext \<Rightarrow> facility_config \<Rightarrow> facility_db \<Rightarrow> ('p, 's, 'v) facility_op \<Rightarrow> facility_db db_result" where
  "facility_exec S C db (RegisterAsset wall a ap) = register_asset (px_facility (sx_product S)) C wall a ap db"
| "facility_exec S C db (OpenAccount wall a ap) = open_account (px_facility (sx_product S)) C wall a ap db"
| "facility_exec S C db (Settle ev now q ap) = written (settle (px_facility (sx_product S)) C ev now q ap db)"
| "facility_exec S C db (RegisterGuarantor wall g ap) = register_guarantor (px_facility (sx_product S)) C wall g ap db"
| "facility_exec S C db (GrantCredit wall now g ap) = written (grant_credit_facility (px_facility (sx_product S)) C wall now g ap db)"
| "facility_exec S C db (TransitionCredit wall now t pf ap) =
     written (transition_credit_facility (px_facility (sx_product S)) (px_credit (sx_product S)) C wall now t pf ap db)"
| "facility_exec S C db (AmendCredit wall now a pf ap) =
     written (amend_credit_facility (px_facility (sx_product S)) (px_credit (sx_product S)) C wall now a pf ap db)"
| "facility_exec S C db (ControlCredit wall now c ap) = written (control_credit_facility (px_facility (sx_product S)) C wall now c ap db)"
| "facility_exec S C db (RegisterCommittee wall now p ap) = register_admission_committee (px_facility (sx_product S)) C wall now p ap db"
| "facility_exec S C db (RegisterBatch wall now p ls ap) = written (register_admission_batch (px_facility (sx_product S)) C wall now p ls ap db)"
| "facility_exec S C db (AdvanceSlot wall now a ap) = written (advance_admission_slot (px_facility (sx_product S)) C wall now a ap db)"
| "facility_exec S C db (RegisterVerifier wall now c ap) =
     register_settlement_verifier (px_facility (sx_product S)) (sx_verifier S) C wall now c ap db"
| "facility_exec S C db (ReserveMaker wall r tr m i) = written (reserve_maker (sx_product S) C wall r tr m i db)"
| "facility_exec S C db (ReserveTaker wall r tr adm m i) = written (reserve_taker (sx_product S) C wall r tr adm m i db)"
| "facility_exec S C db (ReleaseReservation ev q pf ti v link ap now) =
     written (release_reservation (sx_product S) C ev q pf ti v link ap now db)"
| "facility_exec S C db (SettleProduct ev i v ap now ws) = written (settle_product S C ev i v ap now ws db)"
| "facility_exec S C db (SettleProductThreshold ev i v ap now ws) = written (settle_product_threshold S C ev i v ap now ws db)"
| "facility_exec S C db (SettleBatch wall evs b items v ap now ws) = written (settle_batch S C wall evs b items v ap now ws db)"

definition facility_step ::
  "('g, 'p::ab_group_add, 's, 'v, 'k) settlement_ext \<Rightarrow> facility_config \<Rightarrow> facility_db \<Rightarrow> ('p, 's, 'v) facility_op \<Rightarrow> facility_db" where
  "facility_step S C db op = (case facility_exec S C db op of Ok db' \<Rightarrow> db' | Err _ \<Rightarrow> db)"

definition facility_run ::
  "('g, 'p::ab_group_add, 's, 'v, 'k) settlement_ext \<Rightarrow> facility_config \<Rightarrow> facility_db \<Rightarrow> ('p, 's, 'v) facility_op list \<Rightarrow> facility_db" where
  "facility_run S C db ops = foldl (facility_step S C) db ops"

section \<open>What each operation keeps\<close>

text \<open>An escrow whose hold has ended.\<close>

definition stranded :: "facility_db \<Rightarrow> id32 \<Rightarrow> escrow_row \<Rightarrow> credit_hold_row \<Rightarrow> bool" where
  "stranded db i e h \<longleftrightarrow> bt_get (db_escrows db) i = Some e \<and> bt_get (db_credit_holds db) i = Some h \<and> ch_status h \<noteq> lit ''active''"

definition stranded_kept :: "facility_db \<Rightarrow> facility_db \<Rightarrow> bool" where
  "stranded_kept db db' \<longleftrightarrow> (\<forall>i e h. stranded db i e h \<longrightarrow> stranded db' i e h)"

lemma stranded_kept_refl [simp, intro]: "stranded_kept db db"
  by (simp add: stranded_kept_def)

lemma stranded_kept_trans: "stranded_kept db1 db2 \<Longrightarrow> stranded_kept db2 db3 \<Longrightarrow> stranded_kept db1 db3"
  by (simp add: stranded_kept_def)

lemma stranded_kept_cong:
  "stranded_kept db db1 \<Longrightarrow> db_escrows db2 = db_escrows db1 \<Longrightarrow> db_credit_holds db2 = db_credit_holds db1 \<Longrightarrow> stranded_kept db db2"
  unfolding stranded_kept_def stranded_def by auto

lemma stranded_keptI:
  assumes "holds_kept db db'" "\<And>i e h. stranded db i e h \<Longrightarrow> bt_get (db_escrows db') i = Some e"
  shows "stranded_kept db db'"
  unfolding stranded_kept_def
proof (intro allI impI)
  fix i e h assume s: "stranded db i e h"
  then have h: "bt_get (db_credit_holds db) i = Some h" "ch_status h \<noteq> lit ''active''" by (simp_all add: stranded_def)
  from assms(1) h(1) obtain h' where "bt_get (db_credit_holds db') i = Some h'" "ch_status h \<noteq> lit ''active'' \<longrightarrow> h' = h"
    by (rule holds_keptE)
  with h assms(2) [OF s] show "stranded db' i e h" by (simp add: stranded_def)
qed

definition sound ::
  "'g facility_ext \<Rightarrow> ('p::ab_group_add, 's) credit_ext \<Rightarrow> facility_config \<Rightarrow> facility_db \<Rightarrow> facility_db \<Rightarrow> bool" where
  "sound F E C db db' \<longleftrightarrow> (receipt_laws F C \<longrightarrow> ce_decompress E 0 = Some 0 \<longrightarrow> facility_ok F E C db \<longrightarrow> facility_ok F E C db') \<and>
     facility_kept db db' \<and> stranded_kept db db'"

lemma soundI:
  assumes "db_receipts db' = db_receipts db" "db_last_receipt db' = db_last_receipt db" "db_nullifiers db' = db_nullifiers db"
    "db_rfq_nullifiers db' = db_rfq_nullifiers db" "db_escrows db' = db_escrows db" "holds_kept db db'" "consumers_kept db db'"
    "ce_decompress E 0 = Some 0 \<longrightarrow> credit_ok E db \<longrightarrow> credit_ok E db'" "admission_ok F db \<longrightarrow> admission_ok F db'"
  shows "sound F E C db db'"
proof -
  have "stranded_kept db db'" by (rule stranded_keptI [OF assms(6)]) (simp add: assms(5) stranded_def)
  with assms show ?thesis by (auto simp: sound_def facility_ok_def facility_kept_def chain_ok_def escrows_kept_refl)
qed

lemma sound_refl [simp, intro]: "sound F E C db db"
  by (simp add: sound_def)

lemma sound_trans: "sound F E C db1 db2 \<Longrightarrow> sound F E C db2 db3 \<Longrightarrow> sound F E C db1 db3"
  unfolding sound_def by (auto intro: facility_kept_trans stranded_kept_trans)

text \<open>Tables the simpler operations do not touch.\<close>

definition product_part where
  "product_part db = (db_bindings db, db_escrows db, db_rfq_nullifiers db)"

lemma sound_frame:
  assumes "product_part db' = product_part db" "db_receipts db' = db_receipts db" "db_last_receipt db' = db_last_receipt db"
    "db_nullifiers db' = db_nullifiers db" "holds_kept db db'" "consumers_kept db db'"
    "ce_decompress E 0 = Some 0 \<longrightarrow> credit_ok E db \<longrightarrow> credit_ok E db'" "admission_ok F db \<longrightarrow> admission_ok F db'"
  shows "sound F E C db db'"
  using assms by (intro soundI) (simp_all add: product_part_def)

lemma register_asset_frame:
  "register_asset F C wall a ap db = Ok db' \<Longrightarrow> product_part db' = product_part db \<and> credit_part db' = credit_part db \<and>
     admission_part db' = admission_part db \<and> db_receipts db' = db_receipts db \<and> db_last_receipt db' = db_last_receipt db \<and>
     db_nullifiers db' = db_nullifiers db"
  by (auto simp: register_asset_def product_part_def split: option.splits if_splits)

lemma open_account_frame:
  "open_account F C wall a ap db = Ok db' \<Longrightarrow> product_part db' = product_part db \<and> credit_part db' = credit_part db \<and>
     admission_part db' = admission_part db \<and> db_receipts db' = db_receipts db \<and> db_last_receipt db' = db_last_receipt db \<and>
     db_nullifiers db' = db_nullifiers db"
  by (auto simp: open_account_def product_part_def split: option.splits if_splits)

lemma register_guarantor_frame:
  "register_guarantor F C wall g ap db = Ok db' \<Longrightarrow> db' = db\<lparr>db_guarantors := db_guarantors db'\<rparr>"
  by (cases "bt_get (db_guarantors db) (gd_guarantor_id g)") (auto simp: register_guarantor_def split: if_splits)

lemma register_verifier_frame:
  assumes "register_settlement_verifier F V C wall now c ap db = Ok db'"
  shows "db' = db\<lparr>db_verifiers := db_verifiers db'\<rparr>"
proof -
  from assms obtain found where "load_settlement_verifier F V db (vc_venue_id c) (vc_epoch c) = Ok found"
    by (auto simp: register_settlement_verifier_def)
  with assms show ?thesis by (cases found) (auto simp: register_settlement_verifier_def split: if_splits)
qed

lemma register_committee_frame:
  "register_admission_committee F C wall now plan ap db = Ok db' \<Longrightarrow> product_part db' = product_part db"
  by (auto simp: register_admission_committee_def product_part_def split: option.splits if_splits elim!: operation_triggerE)

lemma part_sound:
  assumes "product_part db' = product_part db" "credit_part db' = credit_part db" "admission_part db' = admission_part db"
    "db_receipts db' = db_receipts db" "db_last_receipt db' = db_last_receipt db" "db_nullifiers db' = db_nullifiers db"
  shows "sound F E C db db'"
proof (rule sound_frame [OF assms(1,4,5,6)])
  show "holds_kept db db'" using assms(2) by (intro holds_kept_refl) (simp add: credit_part_def)
  show "consumers_kept db db'" using assms(3) by (intro consumers_kept_refl) (simp add: admission_part_def)
qed (simp_all add: credit_ok_cong [OF assms(2)] admission_ok_cong [OF assms(3)])

lemma credit_sound:
  assumes "product_part db' = product_part db" "settlement_part db' = settlement_part db" "admission_part db' = admission_part db"
    "holds_kept db db'" "ce_decompress E 0 = Some 0 \<longrightarrow> credit_ok E db \<longrightarrow> credit_ok E db'"
  shows "sound F E C db db'"
proof (rule sound_frame [OF assms(1)])
  show "consumers_kept db db'" using assms(3) by (intro consumers_kept_refl) (simp add: admission_part_def)
qed (use assms in \<open>simp_all add: settlement_part_def admission_ok_cong [OF assms(3)]\<close>)

lemma admission_sound:
  assumes "product_part db' = product_part db" "settlement_part db' = settlement_part db \<and> credit_part db' = credit_part db \<and>
      (admission_ok F db \<longrightarrow> admission_ok F db')" "consumers_kept db db'"
  shows "sound F E C db db'"
proof (rule sound_frame [OF assms(1)])
  show "holds_kept db db'" using assms(2) by (intro holds_kept_refl) (simp add: credit_part_def)
qed (use assms credit_ok_cong [of db' db E] in \<open>simp_all add: settlement_part_def\<close>)

lemma register_asset_sound: "register_asset F C wall a ap db = Ok db' \<Longrightarrow> sound F E C db db'"
  by (drule register_asset_frame, rule part_sound) simp_all

lemma open_account_sound: "open_account F C wall a ap db = Ok db' \<Longrightarrow> sound F E C db db'"
  by (drule open_account_frame, rule part_sound) simp_all

lemma register_guarantor_sound:
  assumes "register_guarantor F C wall g ap db = Ok db'"
  shows "sound F E C db db'"
  by (subst register_guarantor_frame [OF assms], rule credit_sound)
    (simp_all add: product_part_def holds_kept_refl credit_ok_def line_ok_def)

lemma register_verifier_sound:
  assumes "register_settlement_verifier F V C wall now c ap db = Ok db'"
  shows "sound F E C db db'"
  by (subst register_verifier_frame [OF assms], rule part_sound) (simp_all add: product_part_def)

lemma grant_frame:
  "grant_credit_facility F C wall now g ap db = Ok (db', snap) \<Longrightarrow>
     product_part db' = product_part db \<and> settlement_part db' = settlement_part db \<and> admission_part db' = admission_part db"
  by (auto simp: product_part_def elim!: grant_credit_facilityE)

lemma grant_sound:
  assumes "grant_credit_facility F C wall now g ap db = Ok (db', snap)"
  shows "sound F E C db db'"
  using grant_frame [OF assms] by (intro credit_sound) (auto intro: grant_credit_ok [OF _ _ assms] grant_holds_kept [OF assms])

lemma amend_frame:
  "amend_credit_facility F E C wall now a pf ap db = Ok (db', snap) \<Longrightarrow>
     product_part db' = product_part db \<and> settlement_part db' = settlement_part db \<and> admission_part db' = admission_part db"
  by (auto simp: product_part_def elim!: amend_credit_facilityE)

lemma amend_sound:
  assumes "amend_credit_facility F E C wall now a pf ap db = Ok (db', snap)"
  shows "sound F E C db db'"
  using amend_frame [OF assms] by (intro credit_sound) (auto intro: amend_credit_ok [OF _ assms] amend_holds_kept [OF assms])

lemma control_frame:
  "control_credit_facility F C wall now c ap db = Ok (db', snap) \<Longrightarrow>
     product_part db' = product_part db \<and> settlement_part db' = settlement_part db \<and> admission_part db' = admission_part db"
  by (auto simp: product_part_def elim!: control_credit_facilityE)

lemma control_sound:
  assumes "control_credit_facility F C wall now c ap db = Ok (db', snap)"
  shows "sound F E C db db'"
  using control_frame [OF assms] by (intro credit_sound) (auto intro: control_credit_ok [OF _ assms] control_holds_kept [OF assms])

lemma transition_frame:
  assumes "transition_credit_facility F E C wall now t pf ap db = Ok (db', snap)"
  shows "product_part db' = product_part db \<and> settlement_part db' = settlement_part db \<and> admission_part db' = admission_part db"
  using assms
proof (cases rule: transition_credit_facilityE)
  case (fresh st)
  then show ?thesis using apply_credit_frame [OF fresh(2)] by (simp add: product_part_def)
qed simp

lemma transition_sound:
  assumes "transition_credit_facility F E C wall now t pf ap db = Ok (db', snap)"
  shows "sound F E C db db'"
  using transition_frame [OF assms]
  by (intro credit_sound) (auto intro: transition_credit_ok [OF _ assms] transition_holds_kept [OF assms])

lemma register_committee_sound:
  assumes "register_admission_committee F C wall now plan ap db = Ok db'"
  shows "sound F E C db db'"
  using register_admission_committee_frame [OF assms]
  by (intro admission_sound register_committee_frame [OF assms] consumers_kept_refl)
    (simp_all add: register_admission_committee_keeps [OF assms])

lemma register_batch_frame:
  assumes "register_admission_batch F C wall now plan ls ap db = Ok (db', bs)"
  shows "product_part db' = product_part db"
  using assms
proof (cases rule: register_admission_batchE)
  case (fresh st db1 root)
  have "product_part db1 = product_part db" using fresh(3) by (elim insert_batchE) (simp add: product_part_def)
  moreover have "db' = db1\<lparr>db_entries := db_entries db'\<rparr>" using fresh(4) by (simp add: entries_added_def)
  then have "product_part db' = product_part (db1\<lparr>db_entries := db_entries db'\<rparr>)" by simp
  ultimately show ?thesis by (simp add: product_part_def)
qed simp

lemma register_batch_sound:
  assumes "register_admission_batch F C wall now plan ls ap db = Ok (db', bs)"
  shows "sound F E C db db'"
  by (rule admission_sound [OF register_batch_frame [OF assms] register_admission_batch_keeps [OF assms]
      register_admission_batch_consumers [OF assms]])

lemma advance_slot_frame:
  assumes "advance_admission_slot F C wall now a ap db = Ok (db', bs)"
  shows "product_part db' = product_part db"
  using assms by (cases rule: advance_admission_slotE) (simp_all add: product_part_def)

lemma advance_slot_sound:
  assumes "advance_admission_slot F C wall now a ap db = Ok (db', bs)"
  shows "sound F E C db db'"
  by (rule admission_sound [OF advance_slot_frame [OF assms] advance_admission_slot_keeps [OF assms]
      advance_admission_slot_consumers [OF assms]])

lemma settle_kept:
  assumes "settle F C ev now q ap db = Ok (db', r)"
  shows "product_part db' = product_part db" "credit_part db' = credit_part db" "admission_part db' = admission_part db" "facility_kept db db'"
proof -
  have "product_part db' = product_part db \<and> credit_part db' = credit_part db \<and> admission_part db' = admission_part db \<and> facility_kept db db'"
    using assms
  proof (cases rule: settleE)
    case (fresh st root ops)
    then show ?thesis
      by (auto simp: facility_kept_def product_part_def credit_part_def admission_part_def settled_db_def
          holds_kept_refl consumers_kept_refl escrows_kept_refl)
  qed simp
  then show "product_part db' = product_part db" "credit_part db' = credit_part db" "admission_part db' = admission_part db" "facility_kept db db'"
    by simp_all
qed

lemma settle_sound:
  assumes "settle F C ev now q ap db = Ok (db', r)"
  shows "sound F E C db db'"
proof -
  note k = settle_kept [OF assms]
  have "stranded_kept db db'" using k(1,2) by (simp add: stranded_kept_def stranded_def product_part_def credit_part_def)
  then show ?thesis using k(4) chain_ok_settle [OF _ _ assms] credit_ok_cong [OF k(2), of E] admission_ok_cong [OF k(3), of F]
    by (simp add: sound_def facility_ok_def)
qed

section \<open>Product operations\<close>

text \<open>A transition ends only a live hold, so an escrow is closed only together with its hold.\<close>

lemma apply_needs_active:
  assumes "apply_credit_transition t st kind now db = Ok (db', snap)" "bt_get (db_credit_holds db) (ct_hold_id t) = Some h"
  shows "ch_status h = lit ''active''"
  using assms(1) by (cases rule: apply_credit_transitionE) (auto simp: assms(2) hold_change_simps)

lemma apply_closes:
  assumes "apply_credit_transition t st kind now db = Ok (db', snap)" "ct_kind t \<noteq> Hold"
  obtains h where "bt_get (db_credit_holds db') (ct_hold_id t) = Some h" "ch_status h \<noteq> lit ''active''"
  using assms by (cases rule: apply_credit_transitionE) (auto elim: hold_changeE)

lemma reserve_escrows:
  assumes "reserve_for_authorization X C wall r db = Ok (db', snap)"
  shows "db' = db \<or> (\<exists>k e. bt_get (db_escrows db) k = None \<and> db_escrows db' = bt_insert k e (db_escrows db))"
  using assms
proof (cases rule: reserve_for_authorizationE)
  case (fresh st root row)
  have nz: "ct_operation_id (ex_transition r) \<noteq> 0" using fresh(1) by (elim reserve_checksE) (rule transition_body_operation)
  from fresh(10) fresh(7) nz show ?thesis
  proof (cases rule: write_reservationE)
    case (1 db1 db2)
    with admitted_frame [OF 1(1) nz] apply_credit_frame [OF 1(2)] show ?thesis
      by (auto simp: reserved_db_def Let_def)
  qed
qed simp

lemma reserve_sound:
  assumes "reserve_for_authorization X C wall r db = Ok (db', snap)"
  shows "sound (px_facility X) (px_credit X) C' db db'"
proof -
  note k = reserve_keeps [OF assms, of C']
  have "stranded_kept db db'"
    using k reserve_escrows [OF assms] by (intro stranded_keptI) (auto simp: facility_kept_def stranded_def)
  with k show ?thesis by (simp add: sound_def)
qed

lemma release_sound:
  assumes "release_reservation X C ev q pf ti v link ap now db = Ok (db', receipt)"
  shows "sound (px_facility X) (px_credit X) C' db db'"
proof -
  note k = release_keeps [OF assms, of C']
  have "stranded_kept db db'"
  proof (rule stranded_keptI)
    fix i e h assume s: "stranded db i e h"
    from assms show "bt_get (db_escrows db') i = Some e"
    proof (cases rule: release_reservationE)
      case replay then show ?thesis using s by (simp add: stranded_def)
    next
      case (fresh st root n e' row)
      from fresh(9) have "re_status e' = lit ''active''" by (simp add: release_escrow_ok_def)
      with fresh(13,8) show ?thesis
      proof (cases rule: write_releaseE)
        case (1 db1 snap row' ops)
        have "i \<noteq> ct_hold_id (pr_transition q)" using apply_needs_active [OF 1(1)] s by (auto simp: stranded_def)
        then show ?thesis using s apply_credit_frame [OF 1(1)] by (simp add: 1(4) stranded_def)
      qed
    qed
  qed (use k in \<open>simp add: facility_kept_def\<close>)
  with k show ?thesis by (simp add: sound_def)
qed

lemma consume_reservation_stranded:
  assumes "consume_reservation F now st db rc = Ok db'"
  shows "stranded_kept db db'"
proof (rule stranded_keptI [OF consume_reservation_holds_kept [OF assms]])
  fix i e h assume s: "stranded db i e h"
  from assms show "bt_get (db_escrows db') i = Some e"
  proof (cases rule: consume_reservationE)
    case (1 own db1 snap)
    have "i \<noteq> ct_hold_id (rc_transition rc)" using apply_needs_active [OF 1(2)] s by (auto simp: stranded_def)
    with consume_reservation_other [OF assms] s show ?thesis by (simp add: stranded_def)
  qed
qed

lemma consume_all_stranded:
  assumes "consume_all F now q st db = Ok db'"
  shows "stranded_kept db db'"
  using assms
proof (cases rule: consume_allE)
  case (1 db1)
  have "stranded_kept db db1" if "try_fold (consume_reservation F now st) db rcs = Ok db1" for rcs
    using that by (induction rcs arbitrary: db) (auto intro: stranded_kept_trans consume_reservation_stranded)
  from this [OF 1(1)] show ?thesis by (rule stranded_kept_cong) (simp_all add: 1(3))
qed

lemma committed_stranded:
  assumes "consume_all F now q st db = Ok db1"
    "commit_receipt F ev o' st root n (db1\<lparr>db_accounts := accounts\<rparr>) = Ok (db', receipt)"
  shows "stranded_kept db db'"
  using assms(2)
proof (rule commit_receiptD)
  fix ops assume "db' = db1\<lparr>db_accounts := accounts, db_receipts := db_receipts (db1\<lparr>db_accounts := accounts\<rparr>) @ [receipt_row_of F receipt],
    db_operations := ops, db_state_root := sr_after_root receipt, db_last_receipt := receipt_digest F receipt\<rparr>"
  then show ?thesis by (intro stranded_kept_cong [OF consume_all_stranded [OF assms(1)]]) simp_all
qed

lemma settle_product_inner_sound:
  assumes "settle_product_inner S C ev q pfs ti link evi ap br now ws db = Ok (db', receipt)"
  shows "sound (px_facility (sx_product S)) (px_credit (sx_product S)) C' db db'"
proof -
  have "stranded_kept db db'"
    using assms by (cases rule: settle_product_innerE) (auto intro: committed_stranded)
  with settle_product_inner_keeps [OF assms, of C'] show ?thesis by (simp add: sound_def)
qed

lemma batch_items_stranded:
  "try_fold (settle_batch_item F evs now) (db, rs) qs = Ok (db', rs') \<Longrightarrow> stranded_kept db db'"
proof (induction qs arbitrary: db rs)
  case (Cons q qs)
  then obtain db1 rs1 where step: "settle_batch_item F evs now (db, rs) q = Ok (db1, rs1)"
    and rest: "try_fold (settle_batch_item F evs now) (db1, rs1) qs = Ok (db', rs')" by auto
  from step have "stranded_kept db db1" by (rule settle_batch_itemE) (rule committed_stranded)
  with Cons.IH [OF rest] show ?case by (rule stranded_kept_trans [rotated])
qed simp

lemma settle_batch_sound:
  assumes "settle_batch S C wall evs b items v ap now ws db = Ok (db', rs)"
  shows "sound (px_facility (sx_product S)) (px_credit (sx_product S)) C' db db'"
  using assms
proof (cases rule: settle_batchE)
  case (fresh st root db1 ops row)
  have "\<forall>q \<in> set (map ps_order items). \<forall>rc \<in> set (po_reservations q).
      verify_credit_relation_equations (px_credit (sx_product S)) (rc_transition rc) = Ok ()"
    using verified_equations [OF bspec [OF fresh(5)]] by auto
  from batch_items_keep [OF fresh(6) this, of C'] batch_items_stranded [OF fresh(6)]
  have "sound (px_facility (sx_product S)) (px_credit (sx_product S)) C' db db1" by (simp add: sound_def)
  moreover have "sound (px_facility (sx_product S)) (px_credit (sx_product S)) C' db1 db'"
    by (rule part_sound) (simp_all add: fresh(7) product_part_def)
  ultimately show ?thesis by (rule sound_trans)
qed simp

lemma facility_exec_sound:
  assumes "facility_exec S C db op = Ok db'"
  shows "sound (px_facility (sx_product S)) (px_credit (sx_product S)) C db db'"
  using assms
  by (cases op) (auto simp: reserve_maker_def reserve_taker_def settle_product_def settle_product_threshold_def
      intro: register_asset_sound open_account_sound settle_sound register_guarantor_sound grant_sound transition_sound amend_sound
        control_sound register_committee_sound register_batch_sound advance_slot_sound register_verifier_sound reserve_sound
        release_sound settle_product_inner_sound settle_batch_sound)

lemma facility_step_sound: "sound (px_facility (sx_product S)) (px_credit (sx_product S)) C db (facility_step S C db op)"
  using facility_exec_sound [of S C db op] by (simp add: facility_step_def split: result.split)

lemma facility_run_sound: "sound (px_facility (sx_product S)) (px_credit (sx_product S)) C db (facility_run S C db ops)"
  unfolding facility_run_def
  by (induction ops arbitrary: db) (auto intro: sound_trans [OF facility_step_sound])

section \<open>What moves value\<close>

text \<open>
  Opening an account issues its first balance, and a plain settlement moves what its committee approved.
  Every other operation conserves each asset; a product settlement does when no payer's account is also the
  payee's on the same package.
\<close>

fun conserving ::
  "('g, 'p::ab_group_add, 's, 'v, 'k) settlement_ext \<Rightarrow> facility_db \<Rightarrow> ('p, 's, 'v) facility_op \<Rightarrow> bool" where
  "conserving S db (OpenAccount wall a ap) = False"
| "conserving S db (Settle ev now q ap) = False"
| "conserving S db (SettleProduct ev i v ap now ws) = owners_apart (sx_product S) (ps_order i) (Legacy (ps_evidence i)) db"
| "conserving S db (SettleProductThreshold ev i v ap now ws) = owners_apart (sx_product S) (ps_order i) (Threshold (ps_evidence i)) db"
| "conserving S db (SettleBatch wall evs b items v ap now ws) =
     list_all (\<lambda>i. owners_apart (sx_product S) (ps_order i) (Threshold (ps_evidence i)) db) items"
| "conserving S db _ = True"

fun conserving_run ::
  "('g, 'p::ab_group_add, 's, 'v, 'k) settlement_ext \<Rightarrow> facility_config \<Rightarrow> facility_db \<Rightarrow> ('p, 's, 'v) facility_op list \<Rightarrow> bool" where
  "conserving_run S C db [] = True"
| "conserving_run S C db (op # ops) = (conserving S db op \<and> conserving_run S C (facility_step S C db op) ops)"

lemma parts_total:
  "product_part db' = product_part db \<Longrightarrow> settlement_part db' = settlement_part db \<Longrightarrow> asset_total X db' a = asset_total X db a"
  by (rule asset_total_cong) (simp_all add: product_part_def settlement_part_def)

lemma frame_total:
  "db' = db\<lparr>db_guarantors := gs\<rparr> \<Longrightarrow> asset_total X db' a = asset_total X db a"
  "db' = db\<lparr>db_verifiers := vs\<rparr> \<Longrightarrow> asset_total X db' a = asset_total X db a"
  by (simp_all add: asset_total_def)

lemma register_asset_total: "register_asset F C wall d ap db = Ok db' \<Longrightarrow> asset_total X db' a = asset_total X db a"
  by (rule asset_total_cong) (auto simp: register_asset_def split: option.splits if_splits)

lemma reserve_escrow_total:
  assumes "verify_reservation_escrow X r tr db = Ok u" "reserve_for_authorization X C wall (r\<lparr>ex_admission := adm\<rparr>) db = Ok (db', snap)"
    "ristretto_encoding (px_prims X)"
  shows "asset_total X db' a = asset_total X db a"
  by (rule reserve_total [OF assms(2)]) (use verify_reservation_escrowD [OF assms(1,3)] in simp)

lemma reserve_maker_total:
  "reserve_maker X C wall r tr m i db = Ok (db', snap) \<Longrightarrow> ristretto_encoding (px_prims X) \<Longrightarrow> asset_total X db' a = asset_total X db a"
  by (auto simp: reserve_maker_def intro: reserve_escrow_total)

lemma reserve_taker_total:
  "reserve_taker X C wall r tr adm m i db = Ok (db', snap) \<Longrightarrow> ristretto_encoding (px_prims X) \<Longrightarrow> asset_total X db' a = asset_total X db a"
  by (auto simp: reserve_taker_def intro: reserve_escrow_total)

lemma settle_batch_total:
  assumes "settle_batch S C wall evs b items v ap now ws db = Ok (db', rs)" "ristretto_encoding (px_prims (sx_product S))"
    "list_all (\<lambda>i. owners_apart (sx_product S) (ps_order i) (Threshold (ps_evidence i)) db) items"
  shows "asset_total (sx_product S) db' a = asset_total (sx_product S) db a"
  using assms(1)
proof (cases rule: settle_batchE)
  case (fresh st root db1 ops row)
  have "\<forall>q \<in> set (map ps_order items). \<exists>es. escrows_of q db es \<and> order_balanced (sx_product S) q es"
  proof
    fix q assume "q \<in> set (map ps_order items)"
    then obtain i where i: "i \<in> set items" "q = ps_order i" by auto
    with assms(3) have "owners_apart (sx_product S) (ps_order i) (Threshold (ps_evidence i)) db" by (simp add: list_all_iff)
    from verified_balanced [OF bspec [OF fresh(5) i(1)] this assms(2)] show "\<exists>es. escrows_of q db es \<and> order_balanced (sx_product S) q es"
      using i(2) by blast
  qed
  from batch_items_total [OF fresh(6) escrows_kept_refl [OF refl] this] show ?thesis
    by (simp add: fresh(7) asset_total_def)
qed simp

lemma facility_exec_total:
  assumes "facility_exec S C db op = Ok db'" "ristretto_encoding (px_prims (sx_product S))" "conserving S db op"
  shows "asset_total (sx_product S) db' a = asset_total (sx_product S) db a"
proof (cases op)
  case (RegisterBatch wall now p ls ap)
  with assms obtain bs where b: "register_admission_batch (px_facility (sx_product S)) C wall now p ls ap db = Ok (db', bs)" by auto
  from parts_total [OF register_batch_frame [OF b]] register_admission_batch_keeps [OF b] show ?thesis by simp
next
  case (AdvanceSlot wall now x ap)
  with assms obtain bs where b: "advance_admission_slot (px_facility (sx_product S)) C wall now x ap db = Ok (db', bs)" by auto
  from parts_total [OF advance_slot_frame [OF b]] advance_admission_slot_keeps [OF b] show ?thesis by simp
next
  case (RegisterCommittee wall now p ap)
  with assms have b: "register_admission_committee (px_facility (sx_product S)) C wall now p ap db = Ok db'" by simp
  from parts_total [OF register_committee_frame [OF b]] register_admission_committee_frame [OF b] show ?thesis by simp
next
  case (RegisterGuarantor wall g ap)
  with assms have "db' = db\<lparr>db_guarantors := db_guarantors db'\<rparr>" by (auto intro: register_guarantor_frame)
  then show ?thesis by (rule frame_total)
next
  case (RegisterVerifier wall now c ap)
  with assms have "db' = db\<lparr>db_verifiers := db_verifiers db'\<rparr>" by (auto intro: register_verifier_frame)
  then show ?thesis by (rule frame_total)
qed (use assms in \<open>auto simp: settle_product_def settle_product_threshold_def
    intro: register_asset_total parts_total reserve_maker_total reserve_taker_total release_asset_total settle_product_inner_total
      settle_batch_total dest: grant_frame amend_frame control_frame transition_frame\<close>)

section \<open>Every write needs a root\<close>

definition no_root :: "'g facility_ext \<Rightarrow> facility_db \<Rightarrow> bool" where
  "no_root F db \<longleftrightarrow> (\<forall>root. calculate_root F db \<noteq> Ok root)"

lemma no_root_authorize: "no_root F db \<Longrightarrow> authorize F C wall db st ap \<noteq> Ok root"
  by (auto simp: no_root_def authorize_Ok)

lemma frozen_register:
  "no_root F db \<Longrightarrow> register_asset F C wall a ap db = Ok db' \<Longrightarrow> db' = db"
  "no_root F db \<Longrightarrow> open_account F C wall o' ap db = Ok db' \<Longrightarrow> db' = db"
  "no_root F db \<Longrightarrow> register_guarantor F C wall g ap db = Ok db' \<Longrightarrow> db' = db"
  by (auto simp: register_asset_def open_account_def register_guarantor_def no_root_authorize split: option.splits if_splits)

lemma frozen_verifier:
  assumes "no_root F db" "register_settlement_verifier F V C wall now c ap db = Ok db'"
  shows "db' = db"
proof -
  from assms(2) obtain found where "load_settlement_verifier F V db (vc_venue_id c) (vc_epoch c) = Ok found"
    by (auto simp: register_settlement_verifier_def)
  with assms show ?thesis by (cases found) (auto simp: register_settlement_verifier_def no_root_authorize split: if_splits)
qed

lemma frozen_admission:
  "no_root F db \<Longrightarrow> register_admission_committee F C wall now plan ap db = Ok db' \<Longrightarrow> db' = db"
  "no_root F db \<Longrightarrow> register_admission_batch F C wall now bp ls ap db = Ok (db', bs) \<Longrightarrow> db' = db"
  "no_root F db \<Longrightarrow> advance_admission_slot F C wall now x ap db = Ok (db', b) \<Longrightarrow> db' = db"
  by (auto simp: register_admission_committee_def no_root_authorize split: option.splits if_splits
      elim!: register_admission_batchE advance_admission_slotE)

lemma frozen_credit:
  "no_root F db \<Longrightarrow> grant_credit_facility F C wall now g ap db = Ok (db', snap) \<Longrightarrow> db' = db"
  "no_root F db \<Longrightarrow> transition_credit_facility F E C wall now t pf ap db = Ok (db', snap) \<Longrightarrow> db' = db"
  "no_root F db \<Longrightarrow> amend_credit_facility F E C wall now a pf2 ap db = Ok (db', snap) \<Longrightarrow> db' = db"
  "no_root F db \<Longrightarrow> control_credit_facility F C wall now c ap db = Ok (db', snap) \<Longrightarrow> db' = db"
  by (auto simp: grant_credit_facility_def transition_credit_facility_def amend_credit_facility_def control_credit_facility_def
      no_root_authorize split: if_splits)

lemma frozen_settle: "no_root F db \<Longrightarrow> settle F C ev now q ap db = Ok (db', r) \<Longrightarrow> db' = db"
  by (auto simp: no_root_authorize elim!: settleE)

lemma frozen_products:
  "no_root (px_facility X) db \<Longrightarrow> reserve_for_authorization X C wall r db = Ok (db', snap) \<Longrightarrow> db' = db"
  "no_root (px_facility X) db \<Longrightarrow> release_reservation X C ev q pf ti v link ap now db = Ok (db', rec) \<Longrightarrow> db' = db"
  "no_root (px_facility (sx_product S)) db \<Longrightarrow> settle_product_inner S C ev q' pfs ti link evi ap' br now ws db = Ok (db', rec) \<Longrightarrow> db' = db"
  "no_root (px_facility (sx_product S)) db \<Longrightarrow> settle_batch S C wall evs b items v ap now ws db = Ok (db', rs) \<Longrightarrow> db' = db"
  by (auto simp: no_root_def no_root_authorize [unfolded no_root_def]
      elim!: reserve_for_authorizationE release_reservationE settle_product_innerE settle_batchE)

lemma frozen_step: "no_root (px_facility (sx_product S)) db \<Longrightarrow> facility_step S C db op = db"
  unfolding facility_step_def
  by (cases op) (auto simp: reserve_maker_def reserve_taker_def settle_product_def settle_product_threshold_def split: result.split
      dest: frozen_register frozen_verifier frozen_admission frozen_credit frozen_settle frozen_products)

lemma frozen_run: "no_root (px_facility (sx_product S)) db \<Longrightarrow> facility_run S C db ops = db"
  unfolding facility_run_def by (induction ops) (simp_all add: frozen_step)

section \<open>A concrete history\<close>

definition sample_proof :: relation_proof where
  "sample_proof = \<lparr>rp_state_range = [1], rp_split_range = [1]\<rparr>"

definition sample_line :: "(id32, id32, unit) facility_op list" where
  "sample_line = [RegisterGuarantor (Some 100) sample_guarantor (sample_approval 18255),
     GrantCredit (Some 100) 100 sample_grant (sample_approval 17223)]"

definition sample_reserve_op :: "(id32, id32, unit) facility_op" where
  "sample_reserve_op = ReserveMaker (Some 100) sample_reservation sample_transfer sample_mandate []"

definition sample_release_op :: "(id32, id32, unit) facility_op" where
  "sample_release_op = ReleaseReservation sample_env sample_release sample_proof sample_typed_release ()
     \<lparr>al_announcement = 0, al_response = 0\<rparr> (sample_approval 20525) 160"

definition sample_start :: "(id32, id32, unit) facility_op list" where
  "sample_start = [RegisterAsset (Some 100) sample_asset (sample_approval 16689),
     OpenAccount (Some 100) sample_opening (sample_approval 16698)]"

lemma written_ok_step: "facility_exec S C db op = written r \<Longrightarrow> written_ok r db' \<Longrightarrow> facility_step S C db op = db'"
  by (auto simp: facility_step_def written_ok_def written_def)

lemma facility_run_simps [simp]:
  "facility_run S C db [] = db" "facility_run S C db (op # ops) = facility_run S C (facility_step S C db op) ops"
  "facility_run S C db (ops @ ops') = facility_run S C (facility_run S C db ops) ops'"
  by (simp_all add: facility_run_def)

lemma sample_start_run: "facility_run sample_ext sample_config empty_db sample_start = sample_db2"
  by (simp add: sample_start_def facility_step_def sample_register_asset sample_open_account)

lemma sample_line_run: "facility_run sample_ext sample_config sample_db2 sample_line = sample_db4"
proof -
  have "facility_step sample_ext sample_config sample_db3 (GrantCredit (Some 100) 100 sample_grant (sample_approval 17223)) = sample_db4"
    by (rule written_ok_step [OF _ sample_grant_credit]) simp
  then show ?thesis by (simp add: sample_line_def facility_step_def [of _ _ sample_db2] sample_register_guarantor)
qed

lemma sample_reserve_step: "facility_step sample_ext sample_config sample_db4 sample_reserve_op = sample_db5"
  by (rule written_ok_step [OF _ sample_reserve]) (simp add: sample_reserve_op_def)

lemma sample_release_step:
  "\<exists>db' r. facility_step sample_ext sample_config sample_db5 sample_release_op = db' \<and> db_receipts db' = [receipt_row_of sample_facility r]"
proof -
  obtain db' r where ok: "release_reservation sample_product sample_config sample_env sample_release sample_proof
     sample_typed_release () \<lparr>al_announcement = 0, al_response = 0\<rparr> (sample_approval 20525) 160 sample_db5 = Ok (db', r)"
    using sample_released unfolding sample_proof_def by blast
  then have step: "facility_step sample_ext sample_config sample_db5 sample_release_op = db'"
    by (simp add: facility_step_def sample_release_op_def written_def)
  have none: "db_receipts sample_db5 = []" by (simp add: sample_db5_def sample_db_simps)
  from ok have "\<exists>r. db_receipts db' = [receipt_row_of sample_facility r]"
  proof (cases rule: release_reservationE)
    case replay then show ?thesis using none by simp
  next
    case (fresh st root n e row)
    have "re_status e = lit ''active''" using fresh(9) by (simp add: release_escrow_ok_def)
    with fresh(13,8) show ?thesis
    proof (cases rule: write_releaseE)
      case (1 db1 snap row' ops)
      then show ?thesis using apply_credit_frame [OF 1(1)] none by (auto simp: released_db_def settlement_part_def Let_def)
    qed
  qed
  with step show ?thesis by blast
qed

section \<open>Histories of the facility\<close>

text \<open>
  C4: From an empty database, whatever operations are called in whatever order and whichever of them fail, the
  receipt chain verifies, every credit line equals its cap with its live holds held, and every admission
  lane is consumed in order; given that receipts survive JSON, that receipt signatures verify, and that
  zero encodes the identity.
\<close>

theorem facility_history_sound:
  assumes "receipt_laws (px_facility (sx_product S)) C" "ce_decompress (px_credit (sx_product S)) 0 = Some 0"
  shows "verify_receipt_chain (px_facility (sx_product S)) C (facility_run S C empty_db ops) = Ok True \<and>
    credit_ok (px_credit (sx_product S)) (facility_run S C empty_db ops) \<and>
    admission_ok (px_facility (sx_product S)) (facility_run S C empty_db ops)"
proof -
  have "facility_ok (px_facility (sx_product S)) (px_credit (sx_product S)) C empty_db"
    by (auto simp: facility_ok_def chain_ok_def credit_ok_def admission_ok_def disjoint_lanes_def venue_lanes_def venue_sequences_def
        lanes_def sequences_def empty_db_def bt_empty.rep_eq bt_keys_def intro: exI [of _ 0])
  with assms facility_run_sound [of S C empty_db ops] show ?thesis
    by (simp add: sound_def facility_ok_def verify_receipt_chain_ok)
qed

theorem facility_history_sound_witness:
  "\<exists>db r. facility_run sample_ext sample_config empty_db (sample_start @ sample_line @ [sample_reserve_op, sample_release_op]) = db \<and>
     db_receipts db = [r] \<and> verify_receipt_chain sample_facility sample_config db = Ok True \<and> credit_ok sample_credit db"
  using facility_history_sound [of sample_ext sample_config "sample_start @ sample_line @ [sample_reserve_op, sample_release_op]"]
    sample_release_step by (auto simp: sample_laws sample_start_run sample_line_run sample_reserve_step)

text \<open>
  C8: Nothing that happened is undone: along every history the receipts only grow, spent nullifiers and
  settled requests stay recorded with their statements, a hold that ended and an escrow that was closed never
  change again, and an admission lane keeps the operation that consumed it.
\<close>

theorem facility_never_undone: "facility_kept db (facility_run S C db ops)"
  using facility_run_sound [of S C db ops] by (simp add: sound_def)

text \<open>
  C5: Apart from issuance and plain settlements, no operation creates or destroys value, with one proviso. Along
  every history of registrations, grants, credit transitions, reservations, releases, and product settlements,
  single or batched, in which no reservation's source account is also a payee of its settlement, the sum of an
  asset's account commitments and active escrows is the same point, when points decode from their encodings.
  The code does not check the proviso. Without it a rail has a leg that is neither the source of an escrow nor a
  payee, and whatever after-commitment such a leg has, the checks of the escrows give the same answer.
\<close>

theorem facility_value_conserved:
  assumes "ristretto_encoding (px_prims (sx_product S))"
  shows "(conserving_run S C db ops \<longrightarrow>
      asset_total (sx_product S) (facility_run S C db ops) a = asset_total (sx_product S) db a) \<and>
    (\<forall>h c q v p hs es ev ws. h \<notin> re_source_handle ` snd ` set es \<and> h \<noteq> ph_securities_to hs \<and> h \<noteq> ph_cash_to hs \<longrightarrow>
      escrows_checked (sx_product S) (with_after h c q) v p hs es ev ws = escrows_checked (sx_product S) q v p hs es ev ws)"
proof (intro conjI impI allI)
  assume "conserving_run S C db ops"
  then show "asset_total (sx_product S) (facility_run S C db ops) a = asset_total (sx_product S) db a"
  proof (induction ops arbitrary: db)
    case (Cons op ops)
    have "asset_total (sx_product S) (facility_step S C db op) a = asset_total (sx_product S) db a"
      using facility_exec_total [OF _ assms, of C db op] Cons.prems by (simp add: facility_step_def split: result.split)
    with Cons show ?case by simp
  qed simp
qed (simp add: unnamed_leg_unchecked)

theorem facility_value_conserved_witness:
  "asset_total sample_product (facility_run sample_ext sample_config sample_db2 (sample_line @ [sample_reserve_op])) 1 = 100 \<and>
   asset_total sample_product (facility_run sample_ext sample_config sample_db2 (sample_line @ [sample_reserve_op, sample_release_op])) 1 = 100 \<and>
   map_option ac_commitment (bt_get (db_accounts sample_db5) 5) = Some 70"
proof -
  have start: "asset_total sample_product sample_db2 1 = 100"
    by (simp add: asset_total_def bt_sum_insert_new sample_db_simps account_value_def held_point_def)
  have c: "conserving_run sample_ext sample_config sample_db2 (sample_line @ [sample_reserve_op])"
    "conserving_run sample_ext sample_config sample_db2 (sample_line @ [sample_reserve_op, sample_release_op])"
    by (simp_all add: sample_line_def sample_reserve_op_def sample_release_op_def)
  show ?thesis
    using facility_value_conserved [THEN conjunct1, rule_format, OF _ c(1), of 1]
      facility_value_conserved [THEN conjunct1, rule_format, OF _ c(2), of 1] start sample_encoding
    by (simp add: sample_db5_def)
qed

text \<open>
  C6: A plain settlement happens once and as approved. A fresh one was approved by the committee for its
  exact statement at the exact root, before its deadline; every leg finds the account it names and leaves it with the new
  commitment and the next sequence number, and no other account changes. Whatever happens afterwards, no settlement
  under the same nullifier changes anything.
\<close>

theorem facility_settles_once:
  assumes "settle (px_facility (sx_product S)) C ev now q ap db = Ok (db', r)" "so_operation_id q \<notin> rr_operation_id ` set (db_receipts db)"
  shows "(\<exists>st root wall. order_statement (px_facility (sx_product S)) q = Ok st \<and> calculate_root (px_facility (sx_product S)) db = Ok root \<and> ev_wall ev = Some wall \<and>
      quorum_verify (fx_gov (px_facility (sx_product S))) (quorum_at (fc_authorizer C) wall) st root ap) \<and> now \<le> so_deadline q \<and>
    (\<forall>l \<in> set (so_legs q). leg_applied l (bt_get (db_accounts db) (sl_handle l)) (bt_get (db_accounts db') (sl_handle l))) \<and>
    (\<forall>h. h \<notin> sl_handle ` set (so_legs q) \<longrightarrow> bt_get (db_accounts db') h = bt_get (db_accounts db) h) \<and>
    (\<forall>ops ev' now' q' ap'. so_nullifier q' = so_nullifier q \<longrightarrow>
       facility_step S C (facility_run S C db' ops) (Settle ev' now' q' ap') = facility_run S C db' ops)"
  using assms(1)
proof (cases rule: settleE)
  case (replay row)
  then have "row \<in> set (db_receipts db)" "rr_operation_id row = so_operation_id q" by (auto simp: find_Some_iff)
  with assms(2) show ?thesis by (metis image_eqI)
next
  case (fresh st root ops)
  have acc: "db_accounts db' = fold update_account (so_legs q) (db_accounts db)" using fresh(11) by (simp add: settled_db_def)
  have "facility_step S C db2 (Settle ev' now' q' ap') = db2"
    if "bt_contains (db_nullifiers db2) (so_nullifier q')" for db2 ev' now' q' ap'
    using that by (auto simp: facility_step_def split: result.split elim!: settleE)
  moreover have "bt_contains (db_nullifiers (facility_run S C db' ops')) (so_nullifier q)" for ops'
    using facility_run_sound [of S C db' ops'] fresh(11) by (simp add: sound_def facility_kept_def settled_db_def)
  ultimately show ?thesis
    using fresh(2,3,4) legs_applied [OF fresh(7,6)] unfolding acc by (auto simp: authorize_Ok)
qed

definition sample_order :: settlement_order where
  "sample_order = \<lparr>so_operation_id = 70, so_nullifier = 71, so_deadline = 150, so_payment_instruction_digest = 1,
     so_proof_digest = 1, so_market_statement_digest = 1,
     so_legs = [\<lparr>sl_handle = 5, sl_asset_id = 1, sl_before = 100, sl_after = 90, sl_before_sequence = 0\<rparr>]\<rparr>"

lemma sample_settles: "\<exists>db' r. settle sample_facility sample_config sample_env 100 sample_order (sample_approval 21317) sample_db2 = Ok (db', r)"
proof -
  obtain j where body: "order_body sample_order = Ok j"
    by (simp add: order_body_def sample_order_def leg_body_def nonzero_def)
  have hash: "sample_hash (ascii ''QOMM:DEFMI:SETTLEMENT:v1'') = 21317" by (simp add: sample_hash_def ascii_def)
  let ?db = "sample_db2\<lparr>db_nullifiers := bt_insert 71 \<lparr>nf_deadline = 150, nf_statement = 21317\<rparr> bt_empty,
    db_accounts := fold update_account (so_legs sample_order) (db_accounts sample_db2), db_operations := bt_insert 70 21317 bt_empty\<rparr>"
  have "\<exists>db' r. append_receipt sample_facility sample_env 70 71 21317 sample_root n ?db = Ok (db', r)" for n
    by (rule sample_append) (simp_all add: sample_order_def update_account_def sample_defs sample_db_simps)
  then show ?thesis
    using body hash
    by (simp add: settle_def order_statement_def body_digest_def commit_receipt_def register_operation_def spend_nullifier_def
        check_leg_def column_def asset_active_def sample_env_def sample_order_def columns_ok_def sample_db_simps)
qed

theorem facility_settles_once_witness:
  "\<exists>db'. map_option ac_commitment (bt_get (db_accounts db') 5) = Some 90 \<and>
     facility_step sample_ext sample_config db' (Settle sample_env 120 (sample_order\<lparr>so_operation_id := 72\<rparr>) (sample_approval 21317)) = db'"
proof -
  obtain db' r where ok: "settle sample_facility sample_config sample_env 100 sample_order (sample_approval 21317) sample_db2 = Ok (db', r)"
    using sample_settles by blast
  have "db_receipts sample_db2 = []" "so_legs sample_order = [\<lparr>sl_handle = 5, sl_asset_id = 1, sl_before = 100, sl_after = 90, sl_before_sequence = 0\<rparr>]"
    by (simp_all add: sample_db_simps sample_order_def)
  with facility_settles_once [of sample_ext sample_config sample_env 100 sample_order "sample_approval 21317" sample_db2 db' r] ok
  have w: "leg_applied \<lparr>sl_handle = 5, sl_asset_id = 1, sl_before = 100, sl_after = 90, sl_before_sequence = 0\<rparr>
      (bt_get (db_accounts sample_db2) 5) (bt_get (db_accounts db') 5)"
    "\<forall>ops ev' now' q' ap'. so_nullifier q' = so_nullifier sample_order \<longrightarrow> facility_step sample_ext sample_config
      (facility_run sample_ext sample_config db' ops) (Settle ev' now' q' ap') = facility_run sample_ext sample_config db' ops" by simp_all
  from w(1) have "map_option ac_commitment (bt_get (db_accounts db') 5) = Some 90" by (auto simp: leg_applied_def)
  moreover from w(2) [rule_format, of "sample_order\<lparr>so_operation_id := 72\<rparr>" "[]" sample_env 120 "sample_approval 21317"]
  have "facility_step sample_ext sample_config db' (Settle sample_env 120 (sample_order\<lparr>so_operation_id := 72\<rparr>) (sample_approval 21317)) = db'"
    by simp
  ultimately show ?thesis by blast
qed

section \<open>Two ways to lose a facility\<close>

text \<open>
  C13: The plain credit transition does not look whether a hold is bound to a product reservation. When it ends one that
  is, the escrowed asset stays locked: whatever operations follow, the escrow keeps its row, still active.
\<close>

theorem escrow_stranded_forever:
  assumes "transition_credit_facility F E C wall now t pf ap db = Ok (db', snap)" "ct_kind t \<noteq> Hold"
    "bt_get (db_credit_operations db) (ct_operation_id t) = None"
    "bt_get (db_escrows db) (ct_hold_id t) = Some e" "re_status e = lit ''active''"
  shows "\<forall>ops. bt_get (db_escrows (facility_run S C' db' ops)) (ct_hold_id t) = Some e \<and>
    (\<exists>h. bt_get (db_credit_holds (facility_run S C' db' ops)) (ct_hold_id t) = Some h \<and> ch_status h \<noteq> lit ''active'')"
proof
  fix ops
  from assms(1,3) obtain st where "apply_credit_transition t st (credit_transition_str (ct_kind t)) now db = Ok (db', snap)"
    by (auto simp: transition_credit_facility_def credit_operation_def)
  then obtain h where "bt_get (db_credit_holds db') (ct_hold_id t) = Some h" "ch_status h \<noteq> lit ''active''"
    by (rule apply_closes) (rule assms(2))
  moreover have "db_escrows db' = db_escrows db" using transition_frame [OF assms(1)] by (simp add: product_part_def)
  ultimately have "stranded db' (ct_hold_id t) e h" using assms(4) by (simp add: stranded_def)
  with facility_run_sound [of S C' db' ops] have "stranded (facility_run S C' db' ops) (ct_hold_id t) e h"
    by (simp add: sound_def stranded_kept_def)
  then show "bt_get (db_escrows (facility_run S C' db' ops)) (ct_hold_id t) = Some e \<and>
    (\<exists>h. bt_get (db_credit_holds (facility_run S C' db' ops)) (ct_hold_id t) = Some h \<and> ch_status h \<noteq> lit ''active'')"
    by (simp add: stranded_def)
qed

theorem escrow_stranded_forever_witness:
  "\<forall>ops. \<exists>e. bt_get (db_escrows (facility_run sample_ext sample_config sample_db6 ops)) 8 = Some e \<and> re_status e = lit ''active'' \<and>
     re_amount e = 30"
proof -
  obtain snap where "transition_credit_facility sample_facility sample_credit sample_config (Some 100) 160 sample_unhold
      \<lparr>rp_state_range = [1], rp_split_range = [1]\<rparr> (sample_approval 17236) sample_db5 = Ok (sample_db6, snap)"
    using sample_transition unfolding written_ok_def by blast
  note w = escrow_stranded_forever [OF this, of "escrow_row_of sample_escrow" sample_ext sample_config]
  have "ct_kind sample_unhold \<noteq> Hold" "ct_hold_id sample_unhold = 8" "ct_operation_id sample_unhold = 30"
    "bt_get (db_credit_operations sample_db5) 30 = None" "bt_get (db_escrows sample_db5) 8 = Some (escrow_row_of sample_escrow)"
    "re_status (escrow_row_of sample_escrow) = lit ''active''" "re_amount (escrow_row_of sample_escrow) = 30"
    by (simp_all add: sample_unhold_def sample_hold_def sample_db5_def sample_db_simps escrow_row_of_def sample_escrow_def)
  with w show ?thesis by simp
qed

text \<open>
  C14: A settlement verifier may be registered with a horizon past \<open>i64::MAX\<close>, which SQLite keeps as a real. From then on
  no state root can be computed, and every later operation leaves the database as it is.
\<close>

theorem oversized_horizon_freezes:
  assumes "register_settlement_verifier (px_facility (sx_product S)) V C wall now c ap db = Ok db'" "max_unix_time < vc_max_horizon c"
  shows "facility_run S C' db' ops = db'"
proof (rule frozen_run)
  let ?F = "px_facility (sx_product S)"
  from assms(1) obtain found st where found: "load_settlement_verifier ?F V db (vc_venue_id c) (vc_epoch c) = Ok found"
    "verifier_statement ?F V c = Ok st" by (auto simp: register_settlement_verifier_def)
  have "found \<noteq> Some c" using found(1) assms(2)
    by (cases c) (auto simp: load_settlement_verifier_def stored_u64_def Let_def split: option.splits)
  with assms(1) found have "db' = db\<lparr>db_verifiers := bt_insert (verifier_key ?F c) (verifier_row_of V c st) (db_verifiers db)\<rparr>"
    by (cases found) (auto simp: register_settlement_verifier_def split: if_splits)
  then have row: "(verifier_key ?F c, verifier_row_of V c st) \<in> set (entries (db_verifiers db'))" by (simp add: entries_get)
  show "no_root ?F db'" unfolding no_root_def
    by (intro allI oversized_horizon_root [OF row]) (simp add: verifier_row_of_def assms(2))
qed

definition sample_verifier_config :: verifier_config where
  "sample_verifier_config = \<lparr>vc_venue_id = 1, vc_defmi_id = 1, vc_epoch = 1, vc_quote_registry_digest = 1,
     vc_quote_eligibility_bits = 8, vc_quote_span_bits = 8, vc_amount_bits = 8, vc_price_bits = 8, vc_max_horizon = 2 ^ 63,
     vc_frost_public_package = [1], vc_pq_committee = \<lparr>qp_members = replicate 7 [], qp_threshold = 3, qp_rest = []\<rparr>,
     vc_valid_from = 50, vc_valid_until = 200\<rparr>"

theorem oversized_horizon_freezes_witness:
  "\<exists>db. register_settlement_verifier sample_facility sample_verifier sample_config (Some 100) 100 sample_verifier_config
      (sample_approval 21317) sample_db2 = Ok db \<and> db \<noteq> sample_db2 \<and> facility_run sample_ext sample_config db sample_line = db"
proof -
  let ?db = "sample_db2\<lparr>db_verifiers := bt_insert (verifier_key sample_facility sample_verifier_config)
    (verifier_row_of sample_verifier sample_verifier_config 21317) bt_empty\<rparr>"
  have "verifier_validate sample_verifier sample_verifier_config = Ok ()"
    by (simp add: verifier_validate_def sample_verifier_config_def sample_verifier_def)
  moreover have "verifier_statement sample_facility sample_verifier sample_verifier_config = Ok 21317"
    using calculation by (simp add: verifier_statement_def sample_verifier_def sample_hash_def ascii_def nth_append)
  ultimately have ok: "register_settlement_verifier sample_facility sample_verifier sample_config (Some 100) 100 sample_verifier_config
      (sample_approval 21317) sample_db2 = Ok ?db"
    by (simp add: register_settlement_verifier_def load_settlement_verifier_def sample_verifier_config_def columns_ok_def sample_db_simps)
  moreover have "?db \<noteq> sample_db2"
  proof
    assume "?db = sample_db2"
    then have "db_verifiers ?db = db_verifiers sample_db2" by (rule arg_cong)
    then have "bt_get (db_verifiers ?db) (verifier_key sample_facility sample_verifier_config) = None" by (simp add: sample_db_simps)
    then show False by simp
  qed
  moreover have "max_unix_time < vc_max_horizon sample_verifier_config" by (simp add: sample_verifier_config_def max_unix_time_def)
  ultimately show ?thesis
    using oversized_horizon_freezes [of sample_ext sample_verifier sample_config "Some 100" 100 sample_verifier_config] by auto
qed

end
