(* ===== verification/Spec2Isabelle.thy ===== *)
theory Spec2Isabelle
  imports Pvp Settlement Chain Register Netting Ccp CentralBankCover FacilityHistory
begin

text \<open>
  A verification of DeFMI, a financial market infrastructure whose balances are hidden: an
  account is a Pedersen commitment, and a transfer is accepted on proofs about commitments. The
  program is the Rust crate \<open>src/rust/defmi\<close>. Paths below are relative to \<open>src/rust/defmi/src\<close>.

  \<^bold>\<open>The parts and how they interact.\<close>

  A \<^emph>\<open>ledger\<close> holds one asset as commitments and settles proved transfers, directly or by an escrow that is
  released or unwound (\<open>ledger.rs\<close>). \<^emph>\<open>Delivery versus payment\<close> settles two ledgers on one
  payment instruction (\<open>settlement.rs\<close>); \<^emph>\<open>payment versus payment\<close> ties two ledgers by an adaptor signature
  (\<open>pvp.rs\<close>). \<open>chain.rs\<close> is the same settlement as a state with nullifiers, escrows, pruning and a
  root. On top of the ledgers are \<^emph>\<open>netting\<close> cycles (\<open>netting.rs\<close>), \<^emph>\<open>clearing houses\<close>
  with novation (\<open>ccp.rs\<close>), \<^emph>\<open>credit lines\<close> and the default waterfall (\<open>credit.rs\<close>), \<^emph>\<open>reconciliation\<close>
  against an outside register (\<open>reconcile.rs\<close>, \<open>register.rs\<close>), and the central bank's collateral pool
  (\<open>central_bank_liquidity.rs\<close>). The \<^emph>\<open>durable facility\<close> (\<open>facility.rs\<close>, with \<open>settlement_verifier.rs\<close> and the
  adapter \<open>product.rs\<close>) is a database in which every write needs a k-of-n approval of its exact statement
  at the exact state root: assets, accounts, settlements with a signed receipt chain, guarantee lines,
  the admission order, reservations with asset escrows, and product settlements, single or in batches.

  \<^bold>\<open>Theories.\<close>

  \<^item> \<open>Prelude\<close>: machine integers as words, \<open>Result\<close> with early return, checked arithmetic, big-endian
    encodings, delimited encodings, runs of a machine, and the locale \<open>once_only\<close> of a machine that
    spends a token at most once.
  \<^item> \<open>BTree\<close>, \<open>Strings\<close>, \<open>Hex\<close>: \<open>BTreeMap\<close> as sorted association lists, with the locale \<open>balance_map\<close>;
    \<open>str\<close> and UTF-8; 32-byte identifiers and their hexadecimal keys.
  \<^item> \<open>Crypto\<close>, \<open>Zkpi\<close>: the cryptography and the instruction layer of other crates, as records of functions, with the laws the
    program relies on as predicates and a transparent instance that satisfies them.
  \<^item> \<open>Assets\<close> (\<open>assets.rs\<close>, \<open>asset_link.rs\<close>), \<open>Ledger\<close> (\<open>ledger.rs\<close>), \<open>Settlement\<close> (\<open>settlement.rs\<close>), \<open>Pvp\<close>
    (\<open>pvp.rs\<close>), \<open>Chain\<close> (\<open>chain.rs\<close>), \<open>Reconcile\<close> and \<open>Register\<close>, \<open>Credit\<close>, \<open>Netting\<close>, \<open>Ccp\<close>: one theory per file,
    its structures as records, its enumerations as datatypes, one function per method, errors as values.
  \<^item> \<open>CentralBank\<close>, \<open>CentralBankSafety\<close>, \<open>CentralBankCover\<close> (\<open>central_bank_liquidity.rs\<close>): the book and its
    operations, what they keep, and that credit is covered by collateral.
  \<^item> \<open>Quorum\<close>: \<open>QuorumAuthorizer\<close> of \<open>facility.rs\<close> and the signer of \<open>governance.rs\<close>.
  \<^item> \<open>FacilityDb\<close>: the tables of \<open>facility.rs\<close> as maps of rows, the state root, \<open>authorize\<close>. \<open>FacilitySettle\<close>: assets,
    accounts, \<open>settle\<close>, receipts. \<open>Admission\<close>: committees, batches, lanes. \<open>CreditLine\<close> and \<open>CreditSafety\<close>:
    guarantors, grants, transitions, amendments, controls, and the balance of a line. \<open>SettlementVerifier\<close>: the enrolled
    verifiers. \<open>Reservation\<close> and \<open>ReservationSafety\<close>: reserving and releasing, in \<open>facility.rs\<close> and
    \<open>product.rs\<close>. \<open>Product\<close> and \<open>ProductSafety\<close>: threshold relations, orders, \<open>settle_product_inner\<close>, batches.
  \<^item> \<open>FacilityExample\<close>: a concrete facility with a registered asset, an account, a line, a reservation and its release,
    evaluated step by step. \<open>FacilityHistory\<close>: all operations of the facility as one machine.

  \<^bold>\<open>How the code is read.\<close> A method on \<open>&mut self\<close> returns the changed state; a method that can fail returns \<open>Ok\<close> or
  \<open>Err\<close>, and a failing database transaction, which the code rolls back, is an operation that leaves the
  database as it was. Integers keep their width and their overflow. A random draw, a clock and the size of the database file are
  arguments. An SQL table is a map from its primary key to a row; \<open>UNIQUE\<close> and foreign-key constraints, triggers
  and compare-and-swap updates are written out; an integer past \<open>i64::MAX\<close>, which SQLite stores as a real, fails
  when the column is read. A panic is an error of its own where the code can reach it.

  \<^bold>\<open>What is shown.\<close>

  \<^item> Ledgers and settlement: over every history the accounts and escrows sum to what was minted, a transfer moves the value it
    proves, escrows resolve once and are never stuck, both legs of a settlement happen or neither, no nullifier settles twice,
    a package built honestly settles. A swap lets both parties claim or neither.
  \<^item> The chain state: pruning is unobservable, the root determines the state, disjoint settlements commute.
  \<^item> Reconciliation: acceptance is equality with the attested total, the search for a break ends and names only breaks;
    a position file parses back and a truncated one is refused.
  \<^item> Credit, netting, clearing: lines are backed, resolutions draw in order and once, a cycle conserves each rail, unless a leg that pays itself
    is applied to a book behind its back, and closes covered, a novation is accepted exactly when it is the one the house would make, honest cycles clear.
  \<^item> Central bank: the book stays valid, funds are conserved, credit is covered by pledged collateral.
  \<^item> Facility: an approval carries the threshold of distinct valid signers. Over every history of all its operations, failed
    ones included, the receipt chain verifies, every line balances against its live holds, lanes are
    consumed in order, nothing that happened is undone, and, issuance and plain settlements apart, each
    asset's accounts and active escrows keep their sum. A settlement is applied once and as approved.
  \<^item> Faults of the code, each as a theorem about it: a transfer under an unregistered tag settles at another
    value; the waterfall check accepts draws that do not add up; a netted leg can charge any open handle; a leg that pays
    itself, applied to a book directly, leaves a cycle that cannot close; the leg of an account that is neither the source of an
    escrow nor a payee is compared with nothing; a plain credit
    transition strands the asset escrow of a product reservation for good; a verifier with a horizon past \<open>i64::MAX\<close>
    stops the facility.

  \<^bold>\<open>Hypotheses.\<close> Properties of other crates are named predicates: \<open>scalar_module\<close>, \<open>pedersen_commits\<close>,
  \<open>ristretto_encoding\<close>, completeness and readings of the proofs, \<open>venue_laws\<close>, \<open>receipt_laws\<close>. Completeness of a range
  proof (\<open>range_complete\<close>) is supposed for one value in range at a width of 8, 16, 32 or 64 bits (\<open>range_width\<close>), which is what
  Bulletproofs has, so a theorem that something built is accepted asks for such a width. Each theorem that uses one
  has an instance in which it holds. Conservation over product settlements also assumes \<open>owners_apart\<close>: that the account an escrow
  was taken from is not the payee's account of the same package. The code does not check it, and finds one leg
  where it means two when it fails.

  \<^bold>\<open>Bounds and fuel.\<close> No definition takes fuel. Loops are structural recursions or folds over the collections of their
  arguments, or recursions with a decreasing measure, as the search for a power of two in \<open>Assets\<close>. The bisection of
  \<open>Reconcile\<close> is a partial function into options, and that it returns is shown. Sizes the code bounds (widths of 64 bits, wire lengths, batch sizes) are the bounds of the
  code. Lengths of vectors are natural numbers.

  \<^bold>\<open>Not modelled.\<close> SQLite, migrations, backup and checkpoints of the facility's file, and its JSON request
  forms, which are input and output. The second settlement rail, on anonymous notes, and what builds on it (\<open>notes.rs\<close>, \<open>note_chain.rs\<close>,
  \<open>note_membership.rs\<close>, \<open>note_settlement.rs\<close>, \<open>confidential_assets.rs\<close>, \<open>confidential_notes.rs\<close>, \<open>pqc_notes.rs\<close>,
  \<open>viewing.rs\<close>, \<open>vetting.rs\<close>, \<open>application_reservation.rs\<close>, \<open>application_settlement.rs\<close>, \<open>claim_redemption.rs\<close>, the note
  functions of \<open>product.rs\<close>, \<open>product_evidence.rs\<close>). Participants' modules (\<open>participant.rs\<close>), finality between deployments
  (\<open>cross_domain.rs\<close>, \<open>cross_domain_finality.rs\<close>), the network client (\<open>avalanche.rs\<close>), and the crates around this one: the Avalanche virtual
  machine, the committee SDK and the harness. The cryptographic proofs themselves are parameters: what is shown is
  what the program does with their answers.
\<close>

end
